(* ===== verification/Kn_Prelude.thy ===== *)
theory Kn_Prelude
  imports Main "HOL-Library.Word"
begin

section \<open>Shared types, string and byte operations\<close>

text \<open>
  What the components share: the Rust string and byte operations the source calls
  (\<open>split_once\<close>, \<open>splitn\<close>, \<open>strip_prefix\<close>, \<open>to_be_bytes\<close>, \<open>from_be_bytes\<close>,
  \<open>String::from_utf8\<close>), saturating and truncating arithmetic, and the lemma collections.
  A Rust \<open>String\<close> is a \<^typ>\<open>string\<close> holding its UTF-8 bytes, so that \<open>len()\<close>,
  \<open>==\<close> and \<open>as_bytes()\<close> are length, equality and \<open>bytes_of\<close>. An \<open>i64\<close> is an
  \<^typ>\<open>int\<close> and an \<open>u64\<close> or \<open>usize\<close> a \<^typ>\<open>nat\<close>, with the width written out wherever
  the code casts, wraps or serialises (\<open>in_i64\<close>, \<open>as_u64\<close>, \<open>wrap_i64\<close>).
  \<open>Result<T, E>\<close> is the sum \<open>E + T\<close>.
\<close>

named_theorems handler_defs "unfoldings of request handlers and their prologues"
named_theorems sql_defs "unfoldings of the statements the code sends to Postgres"

type_synonym u8 = "8 word"
type_synonym bytes = "u8 list"

subsection \<open>Fixed-width integers\<close>

definition in_i64 :: "int \<Rightarrow> bool" where
  "in_i64 x \<longleftrightarrow> - (2 ^ 63) \<le> x \<and> x < 2 ^ 63"

definition as_u64 :: "int \<Rightarrow> nat" where
  "as_u64 x = nat (x mod 2 ^ 64)"

text \<open>The \<open>i64\<close> a 64-bit pattern stands for (two's complement).\<close>

definition wrap_i64 :: "int \<Rightarrow> int" where
  "wrap_i64 x = (x + 2 ^ 63) mod 2 ^ 64 - 2 ^ 63"

text \<open>Rust's \<open>/\<close> on signed integers truncates towards zero.\<close>

definition tdiv :: "int \<Rightarrow> int \<Rightarrow> int" where
  "tdiv a b = sgn a * sgn b * (\<bar>a\<bar> div \<bar>b\<bar>)"

lemma wrap_i64_id [simp]: "in_i64 x \<Longrightarrow> wrap_i64 x = x"
  by (simp add: wrap_i64_def in_i64_def)

lemma in_i64_wrap [simp]: "in_i64 (wrap_i64 x)"
proof -
  have "0 \<le> (x + 2 ^ 63) mod 2 ^ 64" "(x + 2 ^ 63) mod 2 ^ 64 < 2 ^ 64"
    by (simp_all del: power_numeral)
  moreover have "(2 ^ 64 :: int) = 2 ^ 63 + 2 ^ 63" by simp
  ultimately show ?thesis
    unfolding in_i64_def wrap_i64_def by linarith
qed

lemma wrap_i64_mod: "wrap_i64 x mod 2 ^ 64 = x mod 2 ^ 64"
  unfolding wrap_i64_def by (simp add: mod_simps)

lemma as_u64_bound: "as_u64 x < 2 ^ 64"
proof -
  have "x mod 2 ^ 64 < 2 ^ 64" by simp
  then show ?thesis unfolding as_u64_def by (simp add: nat_less_iff)
qed

lemma as_u64_nonneg: "0 \<le> x \<Longrightarrow> x < 2 ^ 64 \<Longrightarrow> as_u64 x = nat x"
  by (simp add: as_u64_def)

lemma tdiv_nonneg [simp]: "0 \<le> a \<Longrightarrow> 0 < b \<Longrightarrow> tdiv a b = a div b"
  by (cases "a = 0") (simp_all add: tdiv_def)

lemma wrap_i64_as_u64 [simp]: "wrap_i64 (int (as_u64 x)) = wrap_i64 x"
proof -
  have "int (as_u64 x) = x mod 2 ^ 64" by (simp add: as_u64_def)
  then show ?thesis unfolding wrap_i64_def by (simp add: mod_simps)
qed

subsection \<open>Big-endian bytes\<close>

fun be_bytes :: "nat \<Rightarrow> nat \<Rightarrow> bytes" where
  "be_bytes 0 x = []"
| "be_bytes (Suc n) x = be_bytes n (x div 256) @ [word_of_nat x]"

definition from_be_bytes :: "bytes \<Rightarrow> nat" where
  "from_be_bytes bs = foldl (\<lambda>a b. a * 256 + unat b) 0 bs"

definition i64_to_be :: "int \<Rightarrow> bytes" where
  "i64_to_be x = be_bytes 8 (as_u64 x)"

definition i64_from_be :: "bytes \<Rightarrow> int" where
  "i64_from_be bs = wrap_i64 (int (from_be_bytes bs))"

lemma length_be_bytes [simp]: "length (be_bytes n x) = n"
  by (induction n arbitrary: x) auto

lemma from_be_be_bytes: "from_be_bytes (be_bytes n x) = x mod 256 ^ n"
proof (induction n arbitrary: x)
  case 0
  then show ?case by (simp add: from_be_bytes_def)
next
  case (Suc n)
  have "from_be_bytes (be_bytes (Suc n) x) = (x div 256) mod 256 ^ n * 256 + x mod 256"
    using Suc by (simp add: from_be_bytes_def unat_of_nat)
  also have "\<dots> = x mod 256 ^ Suc n"
    by (metis mod_mult2_eq mult.commute power_Suc)
  finally show ?case .
qed

lemma length_i64_to_be [simp]: "length (i64_to_be x) = 8"
  by (simp add: i64_to_be_def)

lemma i64_be_roundtrip [simp]: "in_i64 x \<Longrightarrow> i64_from_be (i64_to_be x) = x"
  using as_u64_bound [of x]
  by (simp add: i64_from_be_def i64_to_be_def from_be_be_bytes)

lemma u64_be_roundtrip [simp]: "n < 2 ^ 64 \<Longrightarrow> from_be_bytes (be_bytes 8 n) = n"
  by (simp add: from_be_be_bytes)

subsection \<open>Strings\<close>

definition bytes_of :: "string \<Rightarrow> bytes" where
  "bytes_of s = map (\<lambda>c. word_of_nat (of_char c)) s"

definition string_of :: "bytes \<Rightarrow> string" where
  "string_of bs = map (\<lambda>b. char_of (unat b)) bs"

lemma unat_byte_of_char [simp]: "unat (word_of_nat (of_char c) :: u8) = of_char c"
  by (simp add: unat_of_nat)

lemma string_of_bytes_of [simp]: "string_of (bytes_of s) = s"
  by (simp add: string_of_def bytes_of_def comp_def)

lemma length_bytes_of [simp]: "length (bytes_of s) = length s"
  by (simp add: bytes_of_def)

text \<open>Continuation bytes and well-formed UTF-8, by the table \<open>String::from_utf8\<close> checks.\<close>

definition utf8_in :: "nat \<Rightarrow> nat \<Rightarrow> u8 \<Rightarrow> bool" where
  "utf8_in lo hi b \<longleftrightarrow> lo \<le> unat b \<and> unat b \<le> hi"

fun utf8_valid :: "bytes \<Rightarrow> bool" where
  "utf8_valid [] = True"
| "utf8_valid (a # bs) =
     (if utf8_in 0 0x7F a then utf8_valid bs
      else (case bs of
        b # cs \<Rightarrow>
          if utf8_in 0xC2 0xDF a then utf8_in 0x80 0xBF b \<and> utf8_valid cs
          else (case cs of
            c # ds \<Rightarrow>
              if utf8_in 0xE0 0xEF a then
                utf8_in (if unat a = 0xE0 then 0xA0 else 0x80)
                        (if unat a = 0xED then 0x9F else 0xBF) b
                \<and> utf8_in 0x80 0xBF c \<and> utf8_valid ds
              else (case ds of
                d # es \<Rightarrow>
                  utf8_in 0xF0 0xF4 a
                  \<and> utf8_in (if unat a = 0xF0 then 0x90 else 0x80)
                            (if unat a = 0xF4 then 0x8F else 0xBF) b
                  \<and> utf8_in 0x80 0xBF c \<and> utf8_in 0x80 0xBF d \<and> utf8_valid es
              | [] \<Rightarrow> False)
          | [] \<Rightarrow> False)
      | [] \<Rightarrow> False))"

definition from_utf8 :: "bytes \<Rightarrow> string option" where
  "from_utf8 bs = (if utf8_valid bs then Some (string_of bs) else None)"

text \<open>A value of Rust's \<open>String\<close> type.\<close>

definition is_rust_string :: "string \<Rightarrow> bool" where
  "is_rust_string s \<longleftrightarrow> utf8_valid (bytes_of s)"

lemma from_utf8_bytes_of [simp]: "is_rust_string s \<Longrightarrow> from_utf8 (bytes_of s) = Some s"
  by (simp add: from_utf8_def is_rust_string_def)

lemma utf8_valid_ascii: "\<forall>b \<in> set bs. unat b \<le> 0x7F \<Longrightarrow> utf8_valid bs"
  by (induction bs) (auto simp: utf8_in_def)

definition starts_with :: "string \<Rightarrow> string \<Rightarrow> bool" where
  "starts_with p s \<longleftrightarrow> take (length p) s = p"

definition strip_prefix :: "string \<Rightarrow> string \<Rightarrow> string option" where
  "strip_prefix p s = (if starts_with p s then Some (drop (length p) s) else None)"

text \<open>\<open>str::split_once\<close>: split at the first occurrence of the pattern.\<close>

fun split_once :: "string \<Rightarrow> string \<Rightarrow> (string \<times> string) option" where
  "split_once p [] = (if p = [] then Some ([], []) else None)"
| "split_once p (c # cs) =
     (if starts_with p (c # cs) then Some ([], drop (length p) (c # cs))
      else map_option (\<lambda>(a, b). (c # a, b)) (split_once p cs))"

text \<open>\<open>str::splitn\<close> with a one-character pattern: at most \<open>n\<close> pieces.\<close>

fun splitn :: "nat \<Rightarrow> char \<Rightarrow> string \<Rightarrow> string list" where
  "splitn 0 c s = []"
| "splitn (Suc 0) c s = [s]"
| "splitn (Suc (Suc n)) c s =
     (case split_once [c] s of
        None \<Rightarrow> [s]
      | Some (a, b) \<Rightarrow> a # splitn (Suc n) c b)"

text \<open>\<open>str::split\<close> at every occurrence of one of the characters.\<close>

fun split_chars :: "char set \<Rightarrow> string \<Rightarrow> string list" where
  "split_chars S [] = [[]]"
| "split_chars S (c # cs) =
     (if c \<in> S then [] # split_chars S cs
      else (case split_chars S cs of
              [] \<Rightarrow> [[c]]
            | w # ws \<Rightarrow> (c # w) # ws))"

lemma starts_with_append [simp]: "starts_with p (p @ s)"
  by (simp add: starts_with_def)

lemma strip_prefix_append [simp]: "strip_prefix p (p @ s) = Some s"
  by (simp add: strip_prefix_def)

lemma strip_prefix_SomeD: "strip_prefix p s = Some r \<Longrightarrow> s = p @ r"
  by (auto simp: strip_prefix_def starts_with_def split: if_splits)
     (metis append_take_drop_id)

lemma starts_with_char [simp]: "starts_with [d] (c # cs) \<longleftrightarrow> c = d"
  by (auto simp: starts_with_def)

lemma split_once_char [simp]:
  "d \<notin> set a \<Longrightarrow> split_once [d] (a @ d # b) = Some (a, b)"
  by (induction a) auto

lemma split_once_char_None: "split_once [d] s = None \<longleftrightarrow> d \<notin> set s"
  by (induction s) auto

lemma split_once_char_SomeD:
  "split_once [d] s = Some (a, b) \<Longrightarrow> s = a @ d # b \<and> d \<notin> set a"
  by (induction s arbitrary: a) (auto split: if_splits)

lemma split_chars_nonempty [simp]: "split_chars S s \<noteq> []"
  by (induction s) (auto split: list.splits)

lemma hd_split_chars: "hd (split_chars S s) = takeWhile (\<lambda>c. c \<notin> S) s"
proof (induction s)
  case (Cons c s)
  then show ?case
    using split_chars_nonempty [of S s] by (auto split: list.splits)
qed simp

subsection \<open>Lists\<close>

lemma find_snoc:
  "find P (xs @ [x]) = (case find P xs of None \<Rightarrow> if P x then Some x else None | Some y \<Rightarrow> Some y)"
  by (induction xs) auto

end
