(* ===== verification/Json_Values.thy ===== *)
theory Json_Values
  imports Kn_Prelude
begin

section \<open>JSON values\<close>

text \<open>
  \<open>serde_json::Value\<close> as the code builds and inspects it, with the accessors it calls
  (\<open>get\<close>, \<open>as_str\<close>, \<open>as_i64\<close>). Numbers that are not integers keep their text. Parsing and
  printing belong to the crate and are parameters where they are used.
\<close>

datatype json =
    JNull
  | JBool bool
  | JInt int
  | JFloat string
  | JStr string
  | JArr "json list"
  | JObj "(string \<times> json) list"

fun json_get :: "json \<Rightarrow> string \<Rightarrow> json option" where
  "json_get (JObj kvs) k = map_of kvs k"
| "json_get _ k = None"

fun json_as_str :: "json \<Rightarrow> string option" where
  "json_as_str (JStr s) = Some s"
| "json_as_str _ = None"

text \<open>
  What \<open>#[derive(Deserialize)]\<close> does with one field: a required \<open>String\<close>, an optional
  \<open>String\<close> (absent and \<open>null\<close> are \<open>None\<close>), and an optional \<open>i64\<close>. The outer option is
  the failure of the whole structure.
\<close>

definition de_string :: "json \<Rightarrow> string \<Rightarrow> string option" where
  "de_string j k = Option.bind (json_get j k) json_as_str"

definition de_opt_string :: "json \<Rightarrow> string \<Rightarrow> string option option" where
  "de_opt_string j k =
     (case json_get j k of
        None \<Rightarrow> Some None
      | Some JNull \<Rightarrow> Some None
      | Some (JStr s) \<Rightarrow> Some (Some s)
      | Some _ \<Rightarrow> None)"

definition de_opt_i64 :: "json \<Rightarrow> string \<Rightarrow> int option option" where
  "de_opt_i64 j k =
     (case json_get j k of
        None \<Rightarrow> Some None
      | Some JNull \<Rightarrow> Some None
      | Some (JInt n) \<Rightarrow> if in_i64 n then Some (Some n) else None
      | Some _ \<Rightarrow> None)"

end
