(* ===== verification/Database.thy ===== *)
theory Database
  imports Json_Values
begin

section \<open>The schema\<close>

text \<open>
  The tables of \<open>src/migrations/*.sql\<close> the modelled statements read and write, one record
  per row type. The columns every project resource has in common are \<open>resource_row\<close>;
  a resource table extends it. Timestamps are integers (epoch milliseconds), their textual
  form on the wire is Postgres's. A statement fails with a \<open>db_error\<close>: an error Postgres
  reports (SQLSTATE, constraint, message) or one of the connection.

  \<open>env\<close> holds what a request takes from outside: the clock, what \<open>bigserial\<close> and
  \<open>gen_random_bytes\<close> return for the n-th statement, and which statements the connection
  loses (\<open>fault\<close>).
\<close>

datatype db_error =
    DatabaseError "string option" "string option" string
  | ConnectionError string

datatype stmt =
    Begin | SetConfig string | Stmt string | StmtAt string nat | Commit

record env =
  clock_ms :: int
  new_id :: "nat \<Rightarrow> int"
  new_etag :: "nat \<Rightarrow> string"
  fault :: "stmt \<Rightarrow> bool"

record org_row =
  org_row_id :: string
  org_row_external_id :: "string option"
  org_row_name :: string
  org_row_is_active :: bool
  org_row_etag :: string
  org_row_created_at :: int
  org_row_updated_at :: int

record project_row =
  pr_id :: string
  pr_org_id :: string
  pr_external_id :: "string option"
  pr_name :: string
  pr_is_active :: bool
  pr_hmac_secret :: bytes
  pr_allow_force_decision :: bool
  pr_etag :: string
  pr_created_at :: int
  pr_updated_at :: int

record token_row =
  tk_id :: string
  tk_org_id :: string
  tk_project_id :: "string option"
  tk_scope :: string
  tk_role :: string
  tk_name :: string
  tk_secret_hash :: string
  tk_ip_allowlist :: "string list"
  tk_expires_at :: "int option"
  tk_revoked_at :: "int option"
  tk_last_used_at :: "int option"
  tk_created_at :: int

record audit_row =
  au_ts :: int
  au_org_id :: string
  au_project_id :: "string option"
  au_actor :: string
  au_operation :: string
  au_payload_hash :: "string option"
  au_reason :: "string option"
  au_request_id :: "string option"

record idem_row =
  ik_org_id :: string
  ik_project_id :: "string option"
  ik_key :: string
  ik_route :: string
  ik_body_hash :: string
  ik_status :: int
  ik_body :: bytes
  ik_created_at :: int
  ik_expires_at :: int

text \<open>Common columns of the project-scoped resources, then the resources.\<close>

record resource_row =
  row_id :: int
  row_org_id :: string
  row_project_id :: string
  row_external_id :: "string option"
  row_etag :: string
  row_created_at :: int
  row_updated_at :: int

record active_row = resource_row +
  row_is_active :: bool

record advertiser_row = active_row +
  av_name :: string

record campaign_row = active_row +
  cp_advertiser_id :: int
  cp_name :: string

record flight_row = active_row +
  fr_campaign_id :: int
  fr_name :: string
  fr_priority_id :: int
  fr_start_date :: "int option"
  fr_end_date :: "int option"
  fr_site_ids :: "int list"
  fr_zone_ids :: "int list"
  fr_ad_types :: "int list"

record ad_row = active_row +
  ar_flight_id :: int
  ar_creative_id :: "int option"
  ar_ad_library_item_id :: "string option"
  ar_weight :: int

record creative_row = active_row +
  ct_advertiser_id :: int
  ct_name :: "string option"
  ct_kind :: string
  ct_image_url :: "string option"
  ct_width :: "int option"
  ct_height :: "int option"
  ct_alt :: "string option"
  ct_body :: "string option"
  ct_template_id :: "int option"
  ct_values :: "json option"
  ct_click_through_url :: "string option"

record site_row = active_row +
  si_channel_id :: "int option"
  si_name :: string
  si_url :: string
  si_aliases :: "string list"

record zone_row = active_row +
  zn_site_id :: int
  zn_name :: string

record template_row = resource_row +
  tp_name :: string
  tp_schema :: json
  tp_template :: "string option"
  tp_template_engine :: "string option"
  tp_version :: int

record priority_row =
  py_id :: int
  py_org_id :: string
  py_project_id :: string
  py_name :: string
  py_tier :: int
  py_created_at :: int

record channel_row =
  ch_id :: int
  ch_org_id :: string
  ch_project_id :: string
  ch_name :: string
  ch_created_at :: int

record ad_type_row =
  ty_id :: int
  ty_org_id :: string
  ty_project_id :: string
  ty_name :: string
  ty_width :: "int option"
  ty_height :: "int option"
  ty_created_at :: int

record library_row =
  li_id :: string
  li_org_id :: string
  li_external_id :: "string option"
  li_name :: string
  li_kind :: string
  li_image_url :: "string option"
  li_width :: "int option"
  li_height :: "int option"
  li_alt :: "string option"
  li_body :: "string option"
  li_template_id :: "int option"
  li_values :: "json option"
  li_click_through_url :: "string option"
  li_is_active :: bool
  li_etag :: string
  li_created_at :: int
  li_updated_at :: int

record db =
  organizations :: "org_row list"
  projects :: "project_row list"
  api_tokens :: "token_row list"
  audit_log :: "audit_row list"
  idempotency_keys :: "idem_row list"
  advertisers :: "advertiser_row list"
  campaigns :: "campaign_row list"
  flights :: "flight_row list"
  ads :: "ad_row list"
  creatives :: "creative_row list"
  creative_templates :: "template_row list"
  sites :: "site_row list"
  zones :: "zone_row list"
  priorities :: "priority_row list"
  channels :: "channel_row list"
  ad_types :: "ad_type_row list"
  ad_library_items :: "library_row list"
  config_version :: int

text \<open>
  An open transaction: the private copy of the tables and the two settings the row-level
  security policies read (\<open>knievel.org_id\<close>, \<open>knievel.project_id\<close>; \<open>None\<close> when unset).
  Committing publishes the copy; dropping the transaction discards it.
\<close>

record tx =
  tx_db :: db
  guc_org_id :: "string option"
  guc_project_id :: "string option"

definition conn_lost :: db_error where
  "conn_lost = ConnectionError ''connection lost''"

text \<open>A database without rows, and a world in which no statement is lost.\<close>

definition empty_db :: db where
  "empty_db =
     \<lparr>organizations = [], projects = [], api_tokens = [], audit_log = [], idempotency_keys = [],
      advertisers = [], campaigns = [], flights = [], ads = [], creatives = [],
      creative_templates = [], sites = [], zones = [], priorities = [], channels = [],
      ad_types = [], ad_library_items = [], config_version = 1\<rparr>"

definition calm_env :: "int \<Rightarrow> env" where
  "calm_env t =
     \<lparr>clock_ms = t, new_id = (\<lambda>n. int n + 1), new_etag = (\<lambda>n. replicate (Suc n) (CHR ''e'')),
      fault = (\<lambda>s. False)\<rparr>"

lemma calm_env_simps [simp]:
  "clock_ms (calm_env t) = t" "fault (calm_env t) s = False" "new_id (calm_env t) n = int n + 1"
  by (simp_all add: calm_env_def)

end
