(* ===== verification/Roles.thy ===== *)
theory Roles
  imports Kn_Prelude
begin

section \<open>Roles and principals\<close>

text \<open>
  \<open>src/src/auth/role.rs\<close> and \<open>src/src/auth/principal.rs\<close>: the five roles in the order their
  \<open>Ord\<close> derive gives them, their wire form, and the identity a request acts under.
\<close>

datatype role = Reader | Editor | Admin | OrgAdmin | OrgOwner

text \<open>\<open>#[derive(PartialOrd, Ord)]\<close> orders the constructors as they are declared.\<close>

fun role_rank :: "role \<Rightarrow> nat" where
  "role_rank Reader = 0"
| "role_rank Editor = 1"
| "role_rank Admin = 2"
| "role_rank OrgAdmin = 3"
| "role_rank OrgOwner = 4"

lemma role_rank_inject [simp]: "role_rank r = role_rank s \<longleftrightarrow> r = s"
  by (cases r; cases s) simp_all

instantiation role :: linorder
begin

definition less_eq_role :: "role \<Rightarrow> role \<Rightarrow> bool" where
  "less_eq_role r s \<longleftrightarrow> role_rank r \<le> role_rank s"

definition less_role :: "role \<Rightarrow> role \<Rightarrow> bool" where
  "less_role r s \<longleftrightarrow> role_rank r < role_rank s"

instance
  by standard (auto simp: less_eq_role_def less_role_def)

end

fun as_str :: "role \<Rightarrow> string" where
  "as_str Reader = ''reader''"
| "as_str Editor = ''editor''"
| "as_str Admin = ''admin''"
| "as_str OrgAdmin = ''org-admin''"
| "as_str OrgOwner = ''org-owner''"

definition role_from_str :: "string \<Rightarrow> role option" where
  "role_from_str s =
     (if s = ''reader'' then Some Reader
      else if s = ''editor'' then Some Editor
      else if s = ''admin'' then Some Admin
      else if s = ''org-admin'' then Some OrgAdmin
      else if s = ''org-owner'' then Some OrgOwner
      else None)"

lemma role_from_str_as_str [simp]: "role_from_str (as_str r) = Some r"
  by (cases r) (simp_all add: role_from_str_def)

lemma role_from_str_SomeD: "role_from_str s = Some r \<Longrightarrow> s = as_str r"
  by (auto simp: role_from_str_def split: if_splits)

datatype token_type = Opaque | Jwt

datatype scope = Org | Project

record principal =
  token_type :: token_type
  scope :: scope
  org_id :: string
  project_id :: "string option"
  role :: role
  actor_id :: string

definition has_role_at_least :: "principal \<Rightarrow> role \<Rightarrow> bool" where
  "has_role_at_least p mn \<longleftrightarrow> role p \<ge> mn"

lemma has_role_at_least_mono: "has_role_at_least p r \<Longrightarrow> s \<le> r \<Longrightarrow> has_role_at_least p s"
  by (auto simp: has_role_at_least_def)

lemma Reader_least [simp]: "Reader \<le> r"
  by (cases r) (simp_all add: less_eq_role_def)

end
