(* ===== verification/Tenancy.thy ===== *)
theory Tenancy
  imports Database Roles
begin

section \<open>Tenant-bound transactions\<close>

text \<open>
  \<open>src/src/db.rs\<close> (\<open>begin_bound\<close>) and \<open>src/src/handlers.rs\<close>: the prologue every
  project-scoped and org-scoped handler runs. The \<open>projects\<close> policy of
  \<open>0002_tenants.sql\<close> is \<open>project_visible\<close>.
\<close>

datatype authz_error = WrongTenant | WrongProject | RoleInsufficient | Internal

fun authz_code :: "authz_error \<Rightarrow> string" where
  "authz_code WrongTenant = ''wrong_tenant''"
| "authz_code WrongProject = ''wrong_project''"
| "authz_code RoleInsufficient = ''role_insufficient''"
| "authz_code Internal = ''internal_error''"

fun authz_message :: "authz_error \<Rightarrow> string" where
  "authz_message WrongTenant = ''project does not belong to the principal's org''"
| "authz_message WrongProject = ''project-scoped token cannot address a different project''"
| "authz_message RoleInsufficient = ''principal's role is below the endpoint minimum''"
| "authz_message Internal = ''internal authorization error''"

text \<open>\<open>ErrorEnvelope\<close> of \<open>src/src/orgs.rs\<close>: a code and a message.\<close>

type_synonym error_envelope = "string \<times> string"

definition authz_envelope :: "authz_error \<Rightarrow> error_envelope" where
  "authz_envelope e = (authz_code e, authz_message e)"

text \<open>
  The responses of the handlers' \<open>ApiResponse\<close> enums, by status; each handler uses the ones
  its own enum declares.
\<close>

datatype 'a api_resp =
    Ok200 'a
  | Created201 'a
  | NoContent
  | BadRequest error_envelope
  | Unauthorized error_envelope
  | Forbidden error_envelope
  | NotFound error_envelope
  | Conflict error_envelope
  | PayloadTooLarge error_envelope
  | UnsupportedMediaType error_envelope
  | Unprocessable error_envelope
  | InternalError error_envelope
  | Unavailable error_envelope

definition forbid :: "authz_error \<Rightarrow> 'a api_resp" where
  "forbid e = Forbidden (authz_envelope e)"

fun is_success :: "'a api_resp \<Rightarrow> bool" where
  "is_success (Ok200 a) = True"
| "is_success (Created201 a) = True"
| "is_success NoContent = True"
| "is_success _ = False"

subsection \<open>Opening a transaction\<close>

definition begin_bound :: "env \<Rightarrow> db \<Rightarrow> string \<Rightarrow> string option \<Rightarrow> db_error + tx" where
  "begin_bound e d oid pid =
     (if fault e Begin then Inl conn_lost
      else if fault e (SetConfig ''knievel.org_id'') then Inl conn_lost
      else (case pid of
          None \<Rightarrow> Inr \<lparr>tx_db = d, guc_org_id = Some oid, guc_project_id = None\<rparr>
        | Some p \<Rightarrow>
            if fault e (SetConfig ''knievel.project_id'') then Inl conn_lost
            else Inr \<lparr>tx_db = d, guc_org_id = Some oid, guc_project_id = Some p\<rparr>))"

definition project_visible :: "tx \<Rightarrow> project_row \<Rightarrow> bool" where
  "project_visible t r \<longleftrightarrow> Some (pr_org_id r) = guc_org_id t \<or> Some (pr_id r) = guc_project_id t"

definition select_project :: "tx \<Rightarrow> string \<Rightarrow> project_row option" where
  "select_project t pid = find (\<lambda>r. project_visible t r \<and> pr_id r = pid) (projects (tx_db t))"

definition open_project_tx ::
  "env \<Rightarrow> db \<Rightarrow> principal \<Rightarrow> string \<Rightarrow> role \<Rightarrow> authz_error + tx" where
  "open_project_tx e d p path_project_id min_role =
     (if \<not> has_role_at_least p min_role then Inl RoleInsufficient
      else if scope p = Project
              \<and> (case project_id p of Some x \<Rightarrow> x | None \<Rightarrow> '''') \<noteq> path_project_id
        then Inl WrongProject
      else (case begin_bound e d (org_id p) None of
          Inl _ \<Rightarrow> Inl Internal
        | Inr t \<Rightarrow>
            if fault e (Stmt ''select project'') then Inl Internal
            else (case select_project t path_project_id of
                None \<Rightarrow> Inl WrongTenant
              | Some _ \<Rightarrow>
                  if fault e (SetConfig ''knievel.project_id'') then Inl Internal
                  else Inr (t\<lparr>guc_project_id := Some path_project_id\<rparr>))))"

definition open_org_tx ::
  "env \<Rightarrow> db \<Rightarrow> principal \<Rightarrow> string \<Rightarrow> role \<Rightarrow> authz_error + tx" where
  "open_org_tx e d p path_org_id min_role =
     (if org_id p \<noteq> path_org_id then Inl WrongTenant
      else if scope p = Project then Inl WrongProject
      else if \<not> has_role_at_least p min_role then Inl RoleInsufficient
      else (case begin_bound e d (org_id p) None of
          Inl _ \<Rightarrow> Inl Internal
        | Inr t \<Rightarrow> Inr t))"

text \<open>\<open>tx.commit()\<close>: the tables the transaction leaves, or an error.\<close>

definition commit :: "env \<Rightarrow> tx \<Rightarrow> db_error + db" where
  "commit e t = (if fault e Commit then Inl conn_lost else Inr (tx_db t))"

subsection \<open>What an open transaction guarantees\<close>

definition in_org :: "db \<Rightarrow> string \<Rightarrow> string \<Rightarrow> bool" where
  "in_org d oid pid \<longleftrightarrow> (\<exists>r \<in> set (projects d). pr_id r = pid \<and> pr_org_id r = oid)"

definition addresses :: "principal \<Rightarrow> string \<Rightarrow> bool" where
  "addresses p pid \<longleftrightarrow>
     (scope p = Project \<longrightarrow> project_id p = Some pid \<or> project_id p = None \<and> pid = '''')"

definition bound_tx :: "db \<Rightarrow> principal \<Rightarrow> string \<Rightarrow> tx" where
  "bound_tx d p pid = \<lparr>tx_db = d, guc_org_id = Some (org_id p), guc_project_id = Some pid\<rparr>"

lemma begin_bound_cases:
  "begin_bound e d oid None = Inl conn_lost
   \<or> begin_bound e d oid None = Inr \<lparr>tx_db = d, guc_org_id = Some oid, guc_project_id = None\<rparr>"
  by (simp add: begin_bound_def)

lemma select_project_unbound:
  "select_project \<lparr>tx_db = d, guc_org_id = Some oid, guc_project_id = None\<rparr> pid \<noteq> None
   \<longleftrightarrow> in_org d oid pid"
  by (auto simp: select_project_def project_visible_def in_org_def find_None_iff)

lemma addresses_iff:
  "addresses p pid \<longleftrightarrow>
     \<not> (scope p = Project \<and> (case project_id p of Some x \<Rightarrow> x | None \<Rightarrow> '''') \<noteq> pid)"
  by (auto simp: addresses_def split: option.splits)

lemma open_project_tx_InrD:
  assumes "open_project_tx e d p pid mn = Inr t"
  shows "t = bound_tx d p pid \<and> has_role_at_least p mn \<and> addresses p pid \<and> in_org d (org_id p) pid"
  using assms select_project_unbound [of d "org_id p" pid]
  by (auto simp: open_project_tx_def begin_bound_def bound_tx_def addresses_iff
           split: if_splits sum.splits option.splits)

lemma open_project_tx_no_fault:
  assumes "\<forall>s. \<not> fault e s"
  shows "open_project_tx e d p pid mn =
     (if \<not> has_role_at_least p mn then Inl RoleInsufficient
      else if \<not> addresses p pid then Inl WrongProject
      else if \<not> in_org d (org_id p) pid then Inl WrongTenant
      else Inr (bound_tx d p pid))"
  using assms select_project_unbound [of d "org_id p" pid]
  by (auto simp: open_project_tx_def begin_bound_def bound_tx_def addresses_iff
           split: option.splits)

lemma open_org_tx_InrD:
  assumes "open_org_tx e d p oid mn = Inr t"
  shows "tx_db t = d \<and> guc_org_id t = Some oid \<and> guc_project_id t = None
         \<and> org_id p = oid \<and> scope p = Org \<and> has_role_at_least p mn"
proof -
  have "scope p = Org \<or> scope p = Project" by (cases "scope p") simp_all
  with assms show ?thesis
    by (auto simp: open_org_tx_def begin_bound_def split: if_splits sum.splits)
qed

lemma commit_InrD: "commit e t = Inr d \<Longrightarrow> d = tx_db t"
  by (simp add: commit_def split: if_splits)

text \<open>
  Why the project setting is bound only after the check: with it bound up front the
  policy admits the path project whatever org owns it.
\<close>

lemma bound_project_always_visible:
  assumes "r \<in> set (projects d)" and "pr_id r = pid"
  shows "select_project (bound_tx d p pid) pid \<noteq> None"
  using assms by (auto simp: select_project_def bound_tx_def project_visible_def find_None_iff)

subsection \<open>Properties\<close>

definition sample_project_row :: "string \<Rightarrow> string \<Rightarrow> project_row" where
  "sample_project_row pid oid =
     \<lparr>pr_id = pid, pr_org_id = oid, pr_external_id = None, pr_name = ''p'', pr_is_active = True,
      pr_hmac_secret = [1, 2, 3], pr_allow_force_decision = True, pr_etag = ''t'',
      pr_created_at = 0, pr_updated_at = 0\<rparr>"

definition tenant_db :: db where
  "tenant_db = empty_db
     \<lparr>projects := [sample_project_row ''pj'' ''o'', sample_project_row ''px'' ''other'']\<rparr>"

text \<open>
  C7: without database errors the prologue of a project endpoint succeeds exactly for a
  principal with the role, whose token may address the project, and whose org owns it, and
  answers the first of these that fails otherwise; on success both settings are bound.
\<close>

theorem project_prologue_exact:
  assumes "\<forall>s. \<not> fault e s"
  shows "open_project_tx e d p pid mn =
     (if \<not> mn \<le> role p then Inl RoleInsufficient
      else if scope p = Project \<and> (case project_id p of Some x \<Rightarrow> x | None \<Rightarrow> '''') \<noteq> pid
        then Inl WrongProject
      else if \<not> (\<exists>r \<in> set (projects d). pr_id r = pid \<and> pr_org_id r = org_id p) then Inl WrongTenant
      else Inr \<lparr>tx_db = d, guc_org_id = Some (org_id p), guc_project_id = Some pid\<rparr>)"
  by (simp add: open_project_tx_no_fault [OF assms] has_role_at_least_def addresses_iff in_org_def bound_tx_def)

theorem project_prologue_exact_witness:
  "let p = \<lparr>token_type = Opaque, scope = Org, org_id = ''o'', project_id = None, role = Editor,
            actor_id = ''t''\<rparr>
   in open_project_tx (calm_env 0) tenant_db p ''px'' Reader = Inl WrongTenant
      \<and> open_project_tx (calm_env 0) tenant_db p ''pj'' Admin = Inl RoleInsufficient
      \<and> open_project_tx (calm_env 0) tenant_db p ''pj'' Editor
          = Inr \<lparr>tx_db = tenant_db, guc_org_id = Some ''o'', guc_project_id = Some ''pj''\<rparr>"
  by (simp add: project_prologue_exact tenant_db_def sample_project_row_def empty_db_def
        less_eq_role_def)

text \<open>
  whatever statement fails, a project transaction that opens is bound to the principal's
  own org and to a project of that org; an org transaction to the org of the path, which is
  the principal's.
\<close>

theorem open_tx_binds_own_tenant:
  "(open_project_tx e d p pid mn = Inr t \<longrightarrow>
      guc_org_id t = Some (org_id p) \<and> guc_project_id t = Some pid \<and> tx_db t = d
      \<and> mn \<le> role p \<and> in_org d (org_id p) pid)
   \<and> (open_org_tx e d p oid mn = Inr t \<longrightarrow>
      guc_org_id t = Some oid \<and> guc_project_id t = None \<and> tx_db t = d
      \<and> org_id p = oid \<and> scope p = Org \<and> mn \<le> role p)"
  using open_project_tx_InrD [of e d p pid mn t] open_org_tx_InrD [of e d p oid mn t]
  by (auto simp: has_role_at_least_def bound_tx_def)

theorem open_tx_binds_own_tenant_witness:
  "let p = \<lparr>token_type = Opaque, scope = Org, org_id = ''o'', project_id = None, role = Editor,
            actor_id = ''t''\<rparr>;
       t = bound_tx tenant_db p ''pj''
   in open_project_tx (calm_env 0) tenant_db p ''pj'' Editor = Inr t
      \<and> guc_org_id t = Some (org_id p) \<and> in_org tenant_db (org_id p) ''pj''"
proof -
  let ?p = "\<lparr>token_type = Opaque, scope = Org, org_id = ''o'', project_id = None, role = Editor,
            actor_id = ''t''\<rparr>"
  have "open_project_tx (calm_env 0) tenant_db ?p ''pj'' Editor = Inr (bound_tx tenant_db ?p ''pj'')"
    by (simp add: open_project_tx_no_fault has_role_at_least_def less_eq_role_def addresses_def
          in_org_def tenant_db_def sample_project_row_def)
  moreover from this have "guc_org_id (bound_tx tenant_db ?p ''pj'') = Some (org_id ?p)
      \<and> in_org tenant_db (org_id ?p) ''pj''"
    using open_tx_binds_own_tenant [of "calm_env 0" tenant_db ?p "''pj''" Editor] by blast
  ultimately show ?thesis unfolding Let_def by blast
qed

end
