(* ===== verification/Wire_Codec.thy ===== *)
theory Wire_Codec
  imports Roles
begin

section \<open>The interface of a wire encoding\<close>

text \<open>
  Several components write a value to a wire form and read it back: a role name, the
  binary record of a signed URL, a pagination cursor. \<open>wire_codec\<close> is what the code
  relies on, that decoding inverts encoding on well-formed values; its clients get
  injectivity and the decidability of equality on the wire from it.
\<close>

locale wire_codec =
  fixes wf :: "'a \<Rightarrow> bool"
    and enc :: "'a \<Rightarrow> 'b"
    and dec :: "'b \<Rightarrow> 'a option"
  assumes dec_enc: "wf x \<Longrightarrow> dec (enc x) = Some x"
begin

lemma enc_inject: "wf x \<Longrightarrow> wf y \<Longrightarrow> enc x = enc y \<longleftrightarrow> x = y"
  by (metis dec_enc option.inject)

lemma inj_on_enc: "inj_on enc {x. wf x}"
  by (auto simp: inj_on_def enc_inject)

lemma dec_enc_eq: "wf x \<Longrightarrow> dec (enc x) = Some y \<longleftrightarrow> y = x"
  by (auto simp: dec_enc)

end

text \<open>
  An authenticated envelope: a codec together with a keyed tag over the wire form. A
  reader that recomputes the tag accepts exactly the wire forms tagged under its key.
\<close>

locale tagged_codec = wire_codec wf enc dec
  for wf :: "'a \<Rightarrow> bool" and enc :: "'a \<Rightarrow> 'b" and dec :: "'b \<Rightarrow> 'a option" +
  fixes tag :: "'k \<Rightarrow> 'b \<Rightarrow> 't"
    and accepts :: "'k \<Rightarrow> 'b \<Rightarrow> 't \<Rightarrow> bool"
  assumes accepts_iff: "accepts k w t \<longleftrightarrow> t = tag k w"
begin

lemma accepts_own: "accepts k (enc x) (tag k (enc x))"
  by (simp add: accepts_iff)

lemma accepted_unique: "accepts k w t \<Longrightarrow> accepts k w t' \<Longrightarrow> t = t'"
  by (simp add: accepts_iff)

end

subsection \<open>Role names\<close>

interpretation role_wire: wire_codec "\<lambda>_. True" as_str role_from_str
  by unfold_locales simp

lemma as_str_inject: "as_str r = as_str s \<longleftrightarrow> r = s"
  by (rule role_wire.enc_inject) simp_all

end
