(* ===== verification/Rust_Text.thy ===== *)
theory Rust_Text
  imports Wire_Codec
begin

section \<open>Numbers as text\<close>

text \<open>
  \<open>format!("{n}")\<close>, \<open>format!("{v:?}")\<close> on a vector of integers, \<open>str::parse\<close> to an integer,
  and the string predicates the components share: \<open>trim\<close>, \<open>is_ascii_digit\<close> and the like.
\<close>

definition digit_char :: "nat \<Rightarrow> char" where
  "digit_char n = char_of (48 + n)"

definition digit_value :: "char \<Rightarrow> nat option" where
  "digit_value c = (let n = of_char c in if 48 \<le> n \<and> n \<le> 57 then Some (n - 48) else None)"

definition is_ascii_digit :: "char \<Rightarrow> bool" where
  "is_ascii_digit c \<longleftrightarrow> digit_value c \<noteq> None"

fun show_nat :: "nat \<Rightarrow> string" where
  "show_nat n = (if n < 10 then [digit_char n] else show_nat (n div 10) @ [digit_char (n mod 10)])"

declare show_nat.simps [simp del]

definition show_int :: "int \<Rightarrow> string" where
  "show_int i = (if i < 0 then CHR ''-'' # show_nat (nat (- i)) else show_nat (nat i))"

text \<open>Digits only; the empty text is refused as \<open>str::parse\<close> does.\<close>

fun read_digits :: "nat \<Rightarrow> string \<Rightarrow> nat option" where
  "read_digits acc [] = Some acc"
| "read_digits acc (c # cs) =
     (case digit_value c of None \<Rightarrow> None | Some d \<Rightarrow> read_digits (acc * 10 + d) cs)"

definition parse_nat :: "string \<Rightarrow> nat option" where
  "parse_nat s = (if s = [] then None else read_digits 0 s)"

text \<open>\<open>str::parse::<iN>\<close>: an optional sign, digits, and the range of the type.\<close>

definition parse_int :: "int \<Rightarrow> int \<Rightarrow> string \<Rightarrow> int option" where
  "parse_int lo hi s =
     (let (neg, ds) = (case s of
            [] \<Rightarrow> (False, [])
          | c # cs \<Rightarrow> if c = CHR ''-'' then (True, cs)
                     else if c = CHR ''+'' then (False, cs) else (False, c # cs))
      in case parse_nat ds of
           None \<Rightarrow> None
         | Some n \<Rightarrow> (let i = (if neg then - int n else int n)
                      in if lo \<le> i \<and> i \<le> hi then Some i else None))"

definition parse_i32 :: "string \<Rightarrow> int option" where
  "parse_i32 = parse_int (- (2 ^ 31)) (2 ^ 31 - 1)"

definition parse_i64 :: "string \<Rightarrow> int option" where
  "parse_i64 = parse_int (- (2 ^ 63)) (2 ^ 63 - 1)"

lemma of_char_digit_char: "n < 10 \<Longrightarrow> of_char (digit_char n) = 48 + n"
  by (simp add: digit_char_def of_char_of)

lemma digit_value_digit_char [simp]: "n < 10 \<Longrightarrow> digit_value (digit_char n) = Some n"
  by (simp add: digit_value_def of_char_digit_char)

lemma digit_char_neq_minus: "n < 10 \<Longrightarrow> digit_char n \<noteq> CHR ''-'' \<and> digit_char n \<noteq> CHR ''+''"
  using digit_value_digit_char [of n] by (auto simp: digit_value_def)

lemma read_digits_append:
  "read_digits acc (s @ t) = Option.bind (read_digits acc s) (\<lambda>a. read_digits a t)"
  by (induction s arbitrary: acc) (auto split: option.splits)

lemma show_nat_nonempty [simp]: "show_nat n \<noteq> []"
  by (subst show_nat.simps) simp

lemma read_show_nat [simp]: "read_digits 0 (show_nat n) = Some n"
proof (induction n rule: show_nat.induct)
  case (1 n)
  show ?case
  proof (cases "n < 10")
    case True
    then show ?thesis by (subst show_nat.simps) simp
  next
    case False
    with 1 show ?thesis
      by (subst show_nat.simps) (simp add: read_digits_append)
  qed
qed

lemma hd_show_nat: "\<exists>d < 10. hd (show_nat n) = digit_char d"
proof (induction n rule: show_nat.induct)
  case (1 n)
  show ?case
  proof (cases "n < 10")
    case True
    then show ?thesis by (subst show_nat.simps) auto
  next
    case False
    with 1 show ?thesis by (subst show_nat.simps) (simp add: hd_append)
  qed
qed

lemma parse_show_int:
  assumes "lo \<le> i" and "i \<le> hi"
  shows "parse_int lo hi (show_int i) = Some i"
proof (cases "i < 0")
  case True
  with assms show ?thesis by (simp add: parse_int_def show_int_def parse_nat_def)
next
  case False
  obtain c cs where c: "show_nat (nat i) = c # cs"
    by (meson neq_Nil_conv show_nat_nonempty)
  then have "c \<noteq> CHR ''-'' \<and> c \<noteq> CHR ''+''"
    using hd_show_nat [of "nat i"] digit_char_neq_minus by auto
  with assms False c read_show_nat [of "nat i"] show ?thesis
    by (simp add: parse_int_def show_int_def parse_nat_def del: read_show_nat)
qed

interpretation i64_text: wire_codec in_i64 show_int parse_i64
  by unfold_locales (simp add: parse_i64_def in_i64_def parse_show_int)

lemma show_int_inject: "in_i64 i \<Longrightarrow> in_i64 j \<Longrightarrow> show_int i = show_int j \<longleftrightarrow> i = j"
  by (rule i64_text.enc_inject)

subsection \<open>Debug output of integer lists\<close>

fun intersperse :: "string \<Rightarrow> string list \<Rightarrow> string" where
  "intersperse sep [] = ''''"
| "intersperse sep [x] = x"
| "intersperse sep (x # y # ys) = x @ sep @ intersperse sep (y # ys)"

definition debug_ints :: "int list \<Rightarrow> string" where
  "debug_ints xs = ''['' @ intersperse '', '' (map show_int xs) @ '']''"

text \<open>
  \<open>format!("{s:?}")\<close> on a string: quoted, with the escapes of \<open>str\<close>'s \<open>Debug\<close>. Other control
  characters become \<open>\u{..}\<close>; bytes above 127 are taken as printable.
\<close>

definition hex_digit :: "nat \<Rightarrow> char" where
  "hex_digit n = (if n < 10 then digit_char n else char_of (87 + n))"

definition debug_char :: "char \<Rightarrow> string" where
  "debug_char c =
     (let n = of_char c :: nat in
      if n = 34 then [char_of (92 :: nat), c]
      else if n = 92 then [c, c]
      else if n = 10 then [char_of (92 :: nat), CHR ''n'']
      else if n = 13 then [char_of (92 :: nat), CHR ''r'']
      else if n = 9 then [char_of (92 :: nat), CHR ''t'']
      else if n = 0 then [char_of (92 :: nat), CHR ''0'']
      else if n < 16 then char_of (92 :: nat) # ''u{'' @ [hex_digit n] @ ''}''
      else if n < 32 \<or> n = 127 then
        char_of (92 :: nat) # ''u{'' @ [hex_digit (n div 16), hex_digit (n mod 16)] @ ''}''
      else [c])"

definition debug_str :: "string \<Rightarrow> string" where
  "debug_str s = char_of (34 :: nat) # concat (map debug_char s) @ [char_of (34 :: nat)]"

subsection \<open>Trimming\<close>

text \<open>ASCII white space; the code trims header values and file contents, which are ASCII here.\<close>

definition is_space :: "char \<Rightarrow> bool" where
  "is_space c \<longleftrightarrow> of_char c \<in> {9 :: nat, 10, 11, 12, 13, 32}"

definition trim_matches :: "(char \<Rightarrow> bool) \<Rightarrow> string \<Rightarrow> string" where
  "trim_matches P s = rev (dropWhile P (rev (dropWhile P s)))"

definition trim :: "string \<Rightarrow> string" where
  "trim s = trim_matches is_space s"

lemma trim_matches_nothing:
  assumes "\<forall>c \<in> set s. \<not> P c"
  shows "trim_matches P s = s"
proof -
  have *: "\<forall>c \<in> set t. \<not> P c \<Longrightarrow> dropWhile P t = t" for t
    by (cases t) auto
  show ?thesis
    unfolding trim_matches_def using assms * [of s] * [of "rev s"] by simp
qed

subsection \<open>Hexadecimal\<close>

text \<open>\<open>format!("{b:02x}")\<close> of every byte, concatenated.\<close>

definition lower_hex :: "bytes \<Rightarrow> string" where
  "lower_hex bs = concat (map (\<lambda>b. [hex_digit (unat b div 16), hex_digit (unat b mod 16)]) bs)"

end
