(* ===== verification/Pg_Errors.thy ===== *)
theory Pg_Errors
  imports Tenancy Rust_Text
begin

section \<open>Error classification and batches\<close>

text \<open>
  \<open>src/src/sql.rs\<close> (classification by SQLSTATE and constraint name) and \<open>src/src/batch.rs\<close>
  (the older classification by message text, the batch envelope, and the savepoint loop,
  which no handler uses yet).
\<close>

subsection \<open>By SQLSTATE\<close>

datatype pg_error_kind =
    UniqueViolation "string option"
  | ForeignKeyViolation "string option"
  | CheckViolation "string option"
  | NotNullViolation
  | OtherError

text \<open>\<open>str::contains\<close>.\<close>

fun str_contains :: "string \<Rightarrow> string \<Rightarrow> bool" where
  "str_contains p [] = (p = [])"
| "str_contains p (c # cs) = (starts_with p (c # cs) \<or> str_contains p cs)"

definition classify_pg_error :: "db_error \<Rightarrow> pg_error_kind" where
  "classify_pg_error er =
     (case er of
        ConnectionError _ \<Rightarrow> OtherError
      | DatabaseError None _ _ \<Rightarrow> OtherError
      | DatabaseError (Some code) con _ \<Rightarrow>
          if code = ''23505'' then UniqueViolation con
          else if code = ''23503'' then ForeignKeyViolation con
          else if code = ''23514'' then CheckViolation con
          else if code = ''23502'' then NotNullViolation
          else OtherError)"

fun is_external_id_conflict :: "pg_error_kind \<Rightarrow> bool" where
  "is_external_id_conflict (UniqueViolation (Some c)) = str_contains ''external_id'' c"
| "is_external_id_conflict _ = False"

fun is_unique_violation :: "pg_error_kind \<Rightarrow> bool" where
  "is_unique_violation (UniqueViolation _) = True"
| "is_unique_violation _ = False"

fun is_fk_violation :: "pg_error_kind \<Rightarrow> bool" where
  "is_fk_violation (ForeignKeyViolation _) = True"
| "is_fk_violation _ = False"

fun is_check_violation :: "pg_error_kind \<Rightarrow> bool" where
  "is_check_violation (CheckViolation _) = True"
| "is_check_violation _ = False"

fun kind_constraint :: "pg_error_kind \<Rightarrow> string option" where
  "kind_constraint (UniqueViolation c) = c"
| "kind_constraint (ForeignKeyViolation c) = c"
| "kind_constraint (CheckViolation c) = c"
| "kind_constraint _ = None"

fun as_batch_detail :: "pg_error_kind \<Rightarrow> string \<times> string option" where
  "as_batch_detail (ForeignKeyViolation _) = (''fk_not_found'', Some ''foreign key reference does not exist'')"
| "as_batch_detail (UniqueViolation _) = (''unique_violation'', Some ''unique constraint violated for this row'')"
| "as_batch_detail (CheckViolation _) = (''validation_failed'', Some ''check constraint violated for this row'')"
| "as_batch_detail NotNullViolation = (''validation_failed'', Some ''required field is missing'')"
| "as_batch_detail OtherError = (''validation_failed'', None)"

subsection \<open>By message\<close>

text \<open>\<open>format!("{e}")\<close> of an \<open>sqlx::Error\<close>.\<close>

fun display_error :: "db_error \<Rightarrow> string" where
  "display_error (DatabaseError _ _ m) = ''error returned from database: '' @ m"
| "display_error (ConnectionError m) = m"

definition classify_pg_message :: "string \<Rightarrow> string \<times> string option" where
  "classify_pg_message msg =
     (if str_contains ''foreign key'' msg then
        (''fk_not_found'', Some ''foreign key reference does not exist'')
      else if str_contains ''duplicate key'' msg \<or> str_contains ''unique constraint'' msg then
        (''unique_violation'', Some ''unique constraint violated for this row'')
      else (''validation_failed'', None))"

text \<open>How Postgres words the errors the modelled statements raise.\<close>

definition unique_error :: "string \<Rightarrow> db_error" where
  "unique_error con = DatabaseError (Some ''23505'') (Some con)
     (''duplicate key value violates unique constraint '' @ debug_str con)"

definition fk_error :: "string \<Rightarrow> string \<Rightarrow> db_error" where
  "fk_error tab con = DatabaseError (Some ''23503'') (Some con)
     (''insert or update on table '' @ debug_str tab @ '' violates foreign key constraint '' @ debug_str con)"

definition check_error :: "string \<Rightarrow> string \<Rightarrow> db_error" where
  "check_error tab con = DatabaseError (Some ''23514'') (Some con)
     (''new row for relation '' @ debug_str tab @ '' violates check constraint '' @ debug_str con)"

definition policy_error :: "string \<Rightarrow> db_error" where
  "policy_error tab = DatabaseError (Some ''42501'') None
     (''new row violates row-level security policy for table '' @ debug_str tab)"

lemma starts_with_prefix: "starts_with p (p @ s)"
  by simp

lemma str_contains_append: "str_contains p (a @ p @ b)"
proof (induction a)
  case Nil
  show ?case
  proof (cases "p @ b")
    case (Cons c cs)
    have "starts_with p (p @ b)" by simp
    with Cons show ?thesis by simp
  qed simp
next
  case (Cons c a)
  then show ?case by simp
qed

lemma classify_unique_error [simp]: "classify_pg_error (unique_error c) = UniqueViolation (Some c)"
  by (simp add: unique_error_def classify_pg_error_def)

lemma classify_fk_error [simp]: "classify_pg_error (fk_error t c) = ForeignKeyViolation (Some c)"
  by (simp add: fk_error_def classify_pg_error_def)

lemma classify_check_error [simp]: "classify_pg_error (check_error t c) = CheckViolation (Some c)"
  by (simp add: check_error_def classify_pg_error_def)

lemma classify_policy_error [simp]: "classify_pg_error (policy_error t) = OtherError"
  by (simp add: policy_error_def classify_pg_error_def)

lemma classify_conn_lost [simp]: "classify_pg_error conn_lost = OtherError"
  by (simp add: conn_lost_def classify_pg_error_def)

subsection \<open>The batch envelope\<close>

record batch_detail =
  bd_index :: int
  bd_field :: "string option"
  bd_code :: string
  bd_message :: string

record batch_error =
  be_code :: string
  be_message :: string
  be_details :: "batch_detail list"

definition partial_failure :: "nat \<Rightarrow> batch_detail list \<Rightarrow> batch_error" where
  "partial_failure n details =
     \<lparr>be_code = ''batch_partial_failure'',
      be_message = show_nat (length details) @ '' of '' @ show_nat n @ '' rows failed validation'',
      be_details = details\<rparr>"

datatype 'a batch_resp =
    BatchOk "'a list"
  | BatchForbidden error_envelope
  | PartialFailure batch_error
  | BatchInternal error_envelope

subsection \<open>Savepoints per row\<close>

text \<open>
  \<open>run_batch_with_savepoints\<close>. \<open>per_row\<close> returns the row's value and the transaction it
  leaves, or its error; after an error the transaction is the one of the savepoint.
\<close>

fun run_batch_with_savepoints ::
  "env \<Rightarrow> ('t \<Rightarrow> nat \<Rightarrow> 'r \<Rightarrow> db_error + ('a \<times> 't)) \<Rightarrow> nat \<Rightarrow> 't \<Rightarrow> 'r list
    \<Rightarrow> (db_error + 'a) list \<times> 't" where
  "run_batch_with_savepoints e per_row i t [] = ([], t)"
| "run_batch_with_savepoints e per_row i t (r # rs) =
     (if fault e (StmtAt ''SAVEPOINT'' i) then
        (case run_batch_with_savepoints e per_row (Suc i) t rs of (out, t') \<Rightarrow> (Inl conn_lost # out, t'))
      else
        (case per_row t i r of
           Inr (v, t1) \<Rightarrow>
             (case run_batch_with_savepoints e per_row (Suc i) t1 rs of
                (out, t') \<Rightarrow>
                  ((if fault e (StmtAt ''RELEASE'' i) then Inl conn_lost else Inr v) # out, t'))
         | Inl er \<Rightarrow>
             (case run_batch_with_savepoints e per_row (Suc i) t rs of
                (out, t') \<Rightarrow>
                  ((if fault e (StmtAt ''ROLLBACK TO'' i) \<or> fault e (StmtAt ''RELEASE'' i)
                    then Inl conn_lost else Inl er) # out, t'))))"

lemma length_run_batch: "length (fst (run_batch_with_savepoints e per_row i t rs)) = length rs"
  by (induction rs arbitrary: i t) (auto split: prod.splits sum.splits, (metis fst_conv)+)

text \<open>Without lost statements: each row runs on what the successful rows before it left.\<close>

fun run_rows ::
  "('t \<Rightarrow> nat \<Rightarrow> 'r \<Rightarrow> db_error + ('a \<times> 't)) \<Rightarrow> nat \<Rightarrow> 't \<Rightarrow> 'r list \<Rightarrow> (db_error + 'a) list" where
  "run_rows per_row i t [] = []"
| "run_rows per_row i t (r # rs) =
     map_sum id fst (per_row t i r)
     # run_rows per_row (Suc i) (case per_row t i r of Inr (_, t') \<Rightarrow> t' | Inl _ \<Rightarrow> t) rs"

subsection \<open>Properties\<close>

text \<open>
  the errors the tables raise are told apart: a unique violation is a conflict exactly
  when its constraint names \<open>external_id\<close>, a foreign key miss is one, and both the message
  reader and the SQLSTATE reader give a batch the same detail for them.
\<close>

theorem pg_errors_told_apart:
  "(is_external_id_conflict (classify_pg_error (unique_error c)) \<longleftrightarrow> str_contains ''external_id'' c)
   \<and> is_fk_violation (classify_pg_error (fk_error t c))
   \<and> \<not> is_external_id_conflict (classify_pg_error (fk_error t c))
   \<and> \<not> is_unique_violation (classify_pg_error (policy_error t))
   \<and> classify_pg_message (display_error (fk_error t c)) = as_batch_detail (classify_pg_error (fk_error t c))
   \<and> (classify_pg_message (display_error (unique_error c)) = as_batch_detail (classify_pg_error (unique_error c))
      \<or> str_contains ''foreign key'' (debug_str c))"
proof (intro conjI, goal_cases)
  case 5
  have "display_error (fk_error t c) = (''error returned from database: insert or update on table ''
      @ debug_str t @ '' violates '') @ ''foreign key'' @ ('' constraint '' @ debug_str c)"
    by (simp add: fk_error_def)
  then have "str_contains ''foreign key'' (display_error (fk_error t c))"
    by (metis str_contains_append)
  then show ?case by (simp add: classify_pg_message_def)
next
  case 6
  have dup: "display_error (unique_error c) = ''error returned from database: '' @ ''duplicate key''
      @ ('' value violates unique constraint '' @ debug_str c)"
    by (simp add: unique_error_def)
  then have "str_contains ''duplicate key'' (display_error (unique_error c))"
    by (metis str_contains_append)
  moreover have "str_contains ''foreign key'' (display_error (unique_error c))
      \<Longrightarrow> str_contains ''foreign key'' (debug_str c)"
    by (simp add: unique_error_def starts_with_def)
  ultimately show ?case by (auto simp: classify_pg_message_def)
qed simp_all

text \<open>
  the savepoint loop reports one outcome per row, in order, keeps going after a failed
  row, and a failed row leaves no trace in what the later rows see.
\<close>

theorem savepoints_isolate_rows:
  assumes "\<forall>s. \<not> fault e s"
  shows "fst (run_batch_with_savepoints e per_row i t rs) = run_rows per_row i t rs
    \<and> length (fst (run_batch_with_savepoints e per_row i t rs)) = length rs"
  using assms
  by (induction rs arbitrary: i t) (auto split: prod.splits sum.splits, (metis fst_conv)+)

theorem savepoints_isolate_rows_witness:
  "fst (run_batch_with_savepoints (calm_env 0)
      (\<lambda>t i r. if r \<in> set t then Inl (unique_error ''k'') else Inr (r, t @ [r])) 0 [] [1 :: int, 1, 2])
   = [Inr 1, Inl (unique_error ''k''), Inr 2]"
  using savepoints_isolate_rows [of "calm_env 0"
      "\<lambda>t i r. if r \<in> set t then Inl (unique_error ''k'') else Inr (r, t @ [r])" 0 "[]" "[1 :: int, 1, 2]"]
  by simp
end
