(* ===== verification/Url_Signing.thy ===== *)
theory Url_Signing
  imports Wire_Codec
begin

section \<open>Signed impression and click URLs\<close>

text \<open>
  \<open>src/src/hmac.rs\<close>. The \<open>base64\<close>, \<open>hmac\<close> and \<open>sha2\<close> crates are the parameter
  \<open>crypto\<close>; \<open>b64_ok\<close> is what the code relies on of the URL-safe alphabet (decoding
  inverts encoding, and no encoded text contains a dot) and \<open>hmac_ok\<close> the length of an
  HMAC-SHA256 tag. Nothing is assumed about forgery.
\<close>

record crypto =
  b64_encode :: "bytes \<Rightarrow> string"
  b64_decode :: "string \<Rightarrow> bytes option"
  hmac_sha256 :: "bytes \<Rightarrow> bytes \<Rightarrow> bytes"

definition b64_ok :: "crypto \<Rightarrow> bool" where
  "b64_ok cr \<longleftrightarrow>
     (\<forall>x. b64_decode cr (b64_encode cr x) = Some x \<and> CHR ''.'' \<notin> set (b64_encode cr x))"

definition hmac_ok :: "crypto \<Rightarrow> bool" where
  "hmac_ok cr \<longleftrightarrow> (\<forall>k m. length (hmac_sha256 cr k m) = 32)"

definition DEFAULT_TTL_SECS :: nat where
  "DEFAULT_TTL_SECS = 24 * 60 * 60"

datatype url_kind = UrlImpression | UrlClick

fun as_byte :: "url_kind \<Rightarrow> u8" where
  "as_byte UrlImpression = 1"
| "as_byte UrlClick = 2"

fun url_letter :: "url_kind \<Rightarrow> string" where
  "url_letter UrlImpression = ''i''"
| "url_letter UrlClick = ''c''"

record signature_payload =
  sp_project_id :: string
  sp_ad_id :: int
  sp_creative_id :: int
  sp_placement_id_hash :: bytes
  sp_issued_at_secs :: nat
  sp_nonce :: bytes

datatype verify_error = Malformed | BadSignature | Expired

text \<open>What the Rust types of the fields guarantee, and the length \<open>pack_record\<close> asserts.\<close>

definition wf_payload :: "signature_payload \<Rightarrow> bool" where
  "wf_payload p \<longleftrightarrow>
     is_rust_string (sp_project_id p) \<and> length (sp_project_id p) \<le> 255
     \<and> in_i64 (sp_ad_id p) \<and> in_i64 (sp_creative_id p)
     \<and> length (sp_placement_id_hash p) = 16
     \<and> sp_issued_at_secs p < 2 ^ 64 \<and> length (sp_nonce p) = 8"

subsection \<open>The binary record\<close>

definition record_bytes :: "signature_payload \<Rightarrow> bytes" where
  "record_bytes p =
     [word_of_nat (length (bytes_of (sp_project_id p)))]
     @ bytes_of (sp_project_id p)
     @ i64_to_be (sp_ad_id p)
     @ i64_to_be (sp_creative_id p)
     @ sp_placement_id_hash p
     @ be_bytes 8 (sp_issued_at_secs p)
     @ sp_nonce p"

text \<open>\<open>None\<close> is the panic of \<open>assert!(pid.len() <= u8::MAX)\<close>.\<close>

definition pack_record :: "signature_payload \<Rightarrow> bytes option" where
  "pack_record p =
     (if length (bytes_of (sp_project_id p)) \<le> 255 then Some (record_bytes p) else None)"

definition slice :: "bytes \<Rightarrow> nat \<Rightarrow> nat \<Rightarrow> bytes" where
  "slice buf i n = take n (drop i buf)"

definition unpack_record :: "bytes \<Rightarrow> signature_payload option" where
  "unpack_record buf =
     (if buf = [] then None
      else let pid_len = unat (hd buf); i = 1 in
        if length buf < i + pid_len + 8 + 8 + 16 + 8 + 8 then None
        else (case from_utf8 (slice buf i pid_len) of
            None \<Rightarrow> None
          | Some pid \<Rightarrow>
              let i = i + pid_len;
                  ad = i64_from_be (slice buf i 8); i = i + 8;
                  cr = i64_from_be (slice buf i 8); i = i + 8;
                  ph = slice buf i 16; i = i + 16;
                  iat = from_be_bytes (slice buf i 8); i = i + 8;
                  nonce = slice buf i 8
              in Some \<lparr>sp_project_id = pid, sp_ad_id = ad, sp_creative_id = cr,
                       sp_placement_id_hash = ph, sp_issued_at_secs = iat, sp_nonce = nonce\<rparr>))"

lemma unpack_record_bytes:
  assumes "wf_payload p"
  shows "unpack_record (record_bytes p) = Some p"
proof -
  let ?pid = "bytes_of (sp_project_id p)"
  let ?n = "length (sp_project_id p)"
  note wf = assms [unfolded wf_payload_def]
  have hd: "unat (word_of_nat ?n :: u8) = ?n"
    using wf by (simp add: unat_of_nat)
  have s: "slice (record_bytes p) 1 ?n = ?pid"
    "slice (record_bytes p) (1 + ?n) 8 = i64_to_be (sp_ad_id p)"
    "slice (record_bytes p) (1 + ?n + 8) 8 = i64_to_be (sp_creative_id p)"
    "slice (record_bytes p) (1 + ?n + 8 + 8) 16 = sp_placement_id_hash p"
    "slice (record_bytes p) (1 + ?n + 8 + 8 + 16) 8 = be_bytes 8 (sp_issued_at_secs p)"
    "slice (record_bytes p) (1 + ?n + 8 + 8 + 16 + 8) 8 = sp_nonce p"
    using wf by (simp_all add: slice_def record_bytes_def drop_Cons')
  have len: "length (record_bytes p) = 1 + ?n + 8 + 8 + 16 + 8 + 8"
    using wf by (simp add: record_bytes_def)
  have ne: "record_bytes p \<noteq> []" "hd (record_bytes p) = word_of_nat ?n"
    by (simp_all add: record_bytes_def)
  show ?thesis
    unfolding unpack_record_def Let_def
    using wf by (simp only: ne hd len s if_False) simp
qed

definition mac_matches :: "crypto \<Rightarrow> bytes \<Rightarrow> bytes \<Rightarrow> bytes \<Rightarrow> bool" where
  "mac_matches cr rec expected secret \<longleftrightarrow> hmac_sha256 cr secret rec = expected"

interpretation url_record: wire_codec wf_payload record_bytes unpack_record
  by unfold_locales (rule unpack_record_bytes)

interpretation url_envelope: tagged_codec wf_payload record_bytes unpack_record
    "hmac_sha256 cr" "\<lambda>k w t. mac_matches cr w t k" for cr
  by unfold_locales (auto simp: mac_matches_def)

subsection \<open>Signing and verifying\<close>

definition sign :: "crypto \<Rightarrow> signature_payload \<Rightarrow> bytes \<Rightarrow> string option" where
  "sign cr payload secret =
     (case pack_record payload of
        None \<Rightarrow> None
      | Some rec \<Rightarrow> Some (b64_encode cr rec @ ''.'' @ b64_encode cr (hmac_sha256 cr secret rec)))"

definition verify ::
  "crypto \<Rightarrow> string \<Rightarrow> bytes \<Rightarrow> bytes option \<Rightarrow> nat \<Rightarrow> nat \<Rightarrow> verify_error + signature_payload" where
  "verify cr signed_url current_secret previous_secret now_secs ttl_secs =
     (case split_once ''.'' signed_url of
        None \<Rightarrow> Inl Malformed
      | Some (r_b64, m_b64) \<Rightarrow>
     (case b64_decode cr r_b64 of
        None \<Rightarrow> Inl Malformed
      | Some rec \<Rightarrow>
     (case b64_decode cr m_b64 of
        None \<Rightarrow> Inl Malformed
      | Some mac_bytes \<Rightarrow>
     (case unpack_record rec of
        None \<Rightarrow> Inl Malformed
      | Some payload \<Rightarrow>
          let ok = mac_matches cr rec mac_bytes current_secret;
              ok = (if \<not> ok then (case previous_secret of
                                   Some prev \<Rightarrow> mac_matches cr rec mac_bytes prev
                                 | None \<Rightarrow> ok)
                    else ok)
          in if \<not> ok then Inl BadSignature
             else if now_secs - sp_issued_at_secs payload > ttl_secs then Inl Expired
             else Inr payload))))"

definition dedup_key :: "crypto \<Rightarrow> string \<Rightarrow> url_kind \<Rightarrow> bytes \<Rightarrow> bytes" where
  "dedup_key cr pid kind nonce =
     take 16 (hmac_sha256 cr (bytes_of pid) (as_byte kind # nonce))"

definition placement_id_hash :: "crypto \<Rightarrow> string \<Rightarrow> string \<Rightarrow> bytes" where
  "placement_id_hash cr pid placement_id =
     take 16 (hmac_sha256 cr (bytes_of pid) (bytes_of placement_id))"

text \<open>The secrets a verifier accepts: the current one and, during the overlap, the previous.\<close>

definition accepted_secrets :: "bytes \<Rightarrow> bytes option \<Rightarrow> bytes set" where
  "accepted_secrets cur prev = insert cur (set_option prev)"

lemma length_placement_id_hash [simp]:
  "hmac_ok cr \<Longrightarrow> length (placement_id_hash cr pid x) = 16"
  by (simp add: placement_id_hash_def hmac_ok_def)

lemma sign_Some_iff: "(\<exists>s. sign cr p k = Some s) \<longleftrightarrow> length (sp_project_id p) \<le> 255"
  by (simp add: sign_def pack_record_def)

lemma sign_SomeD:
  "sign cr p k = Some s \<Longrightarrow>
     s = b64_encode cr (record_bytes p) @ CHR ''.'' # b64_encode cr (hmac_sha256 cr k (record_bytes p))"
  by (simp add: sign_def pack_record_def split: if_splits)

lemma verify_eq:
  "verify cr s cur prev now ttl = Inr p \<longleftrightarrow>
     (\<exists>r m rec. split_once ''.'' s = Some (r, m) \<and> b64_decode cr r = Some rec
        \<and> unpack_record rec = Some p
        \<and> (\<exists>k \<in> accepted_secrets cur prev. b64_decode cr m = Some (hmac_sha256 cr k rec))
        \<and> now \<le> sp_issued_at_secs p + ttl)"
  by (auto simp: verify_def accepted_secrets_def mac_matches_def Let_def
           split: option.splits prod.splits if_splits)

lemma verify_sign:
  assumes "b64_ok cr" and "wf_payload p" and "sign cr p k = Some s"
    and "k \<in> accepted_secrets cur prev" and "now \<le> sp_issued_at_secs p + ttl"
  shows "verify cr s cur prev now ttl = Inr p"
proof -
  have s: "split_once ''.'' s =
      Some (b64_encode cr (record_bytes p), b64_encode cr (hmac_sha256 cr k (record_bytes p)))"
    using assms(1) sign_SomeD [OF assms(3)] by (simp add: b64_ok_def)
  show ?thesis
    unfolding verify_eq using assms s
    by (auto simp: b64_ok_def url_record.dec_enc)
qed

lemma sign_inject:
  assumes "b64_ok cr" and "wf_payload p" and "wf_payload q"
    and "sign cr p k = Some s" and "sign cr q k' = Some s"
  shows "p = q"
  using verify_sign [OF assms(1,2,4), of k None "sp_issued_at_secs p" 0]
    verify_sign [OF assms(1,3,5), of k' None "sp_issued_at_secs q" 0]
  by (auto simp: verify_eq accepted_secrets_def)

subsection \<open>A crypto to evaluate on\<close>

text \<open>
  Two letters per byte in place of base64 and a truncated concatenation in place of
  HMAC-SHA256; they satisfy \<open>b64_ok\<close> and \<open>hmac_ok\<close>.
\<close>

definition nibble_char :: "nat \<Rightarrow> char" where
  "nibble_char n = char_of (97 + n)"

fun hex_encode :: "bytes \<Rightarrow> string" where
  "hex_encode [] = []"
| "hex_encode (b # bs) = nibble_char (unat b div 16) # nibble_char (unat b mod 16) # hex_encode bs"

fun hex_decode :: "string \<Rightarrow> bytes option" where
  "hex_decode [] = Some []"
| "hex_decode [c] = None"
| "hex_decode (c # d # cs) =
     map_option (\<lambda>bs. word_of_nat ((of_char c - 97) * 16 + (of_char d - 97)) # bs) (hex_decode cs)"

definition sample_crypto :: crypto where
  "sample_crypto =
     \<lparr>b64_encode = hex_encode, b64_decode = hex_decode,
      hmac_sha256 = (\<lambda>k m. take 32 (k @ m @ replicate 32 0))\<rparr>"

lemma of_nibble_char: "n < 16 \<Longrightarrow> of_char (nibble_char n) = 97 + n"
  by (simp add: nibble_char_def of_char_of)

lemma nibble_char_neq_dot: "n < 16 \<Longrightarrow> CHR ''.'' \<noteq> nibble_char n"
  using of_nibble_char [of n] by (auto dest: sym)

lemma unat_u8_div_16: "unat (b :: u8) div 16 < 16"
proof -
  have "unat b < 2 ^ LENGTH(8)" by (rule unsigned_less)
  then show ?thesis by simp
qed

lemma hex_decode_encode [simp]: "hex_decode (hex_encode bs) = Some bs"
  by (induction bs) (simp_all add: of_nibble_char unat_u8_div_16)

lemma dot_notin_hex: "CHR ''.'' \<notin> set (hex_encode bs)"
  by (induction bs) (simp_all add: unat_u8_div_16 nibble_char_neq_dot)

lemma sample_crypto_ok [simp]: "b64_ok sample_crypto" "hmac_ok sample_crypto"
  by (auto simp: b64_ok_def hmac_ok_def sample_crypto_def dot_notin_hex min_def)

definition sample_payload :: signature_payload where
  "sample_payload =
     \<lparr>sp_project_id = ''pj'', sp_ad_id = -7, sp_creative_id = 9,
      sp_placement_id_hash = replicate 16 1, sp_issued_at_secs = 1700000000,
      sp_nonce = [0, 0, 0, 0, 0, 0, 0, 42]\<rparr>"

lemma sample_payload_wf [simp]: "wf_payload sample_payload"
  by (simp add: wf_payload_def sample_payload_def in_i64_def is_rust_string_def bytes_of_def utf8_in_def)

subsection \<open>Properties\<close>

text \<open>
  packing a payload whose fields have their Rust types succeeds, and unpacking the
  bytes gives the payload back, whatever the project id and the numbers are.
\<close>

theorem record_roundtrip:
  assumes "wf_payload p"
  shows "Option.bind (pack_record p) unpack_record = Some p"
  using assms by (simp add: pack_record_def wf_payload_def unpack_record_bytes)

theorem record_roundtrip_witness:
  "Option.bind (pack_record sample_payload) unpack_record = Some sample_payload"
  using record_roundtrip [OF sample_payload_wf] .

text \<open>
  C2: a URL signed with the current secret, or with the previous one during a rotation,
  verifies to the payload that was signed, at any time up to its lifetime and not later.
\<close>

theorem signed_url_verifies:
  assumes "b64_ok cr" and "wf_payload p" and "sign cr p k = Some s" and "k = cur \<or> prev = Some k"
  shows "verify cr s cur prev now ttl =
           (if now \<le> sp_issued_at_secs p + ttl then Inr p else Inl Expired)"
proof (cases "now \<le> sp_issued_at_secs p + ttl")
  case True
  with verify_sign [OF assms(1-3), of cur prev now ttl] assms(4) show ?thesis
    by (auto simp: accepted_secrets_def)
next
  case False
  have s: "split_once ''.'' s =
      Some (b64_encode cr (record_bytes p), b64_encode cr (hmac_sha256 cr k (record_bytes p)))"
    using assms(1) sign_SomeD [OF assms(3)] by (simp add: b64_ok_def)
  show ?thesis
    using s assms False
    by (auto simp: verify_def b64_ok_def url_record.dec_enc mac_matches_def Let_def)
qed

theorem signed_url_verifies_witness:
  "\<exists>s. sign sample_crypto sample_payload [1, 2] = Some s
     \<and> verify sample_crypto s [3] (Some [1, 2]) 1700000005 DEFAULT_TTL_SECS = Inr sample_payload
     \<and> verify sample_crypto s [3] (Some [1, 2]) 1700086401 DEFAULT_TTL_SECS = Inl Expired"
proof -
  obtain s where s: "sign sample_crypto sample_payload [1, 2] = Some s"
    by (simp add: sign_def pack_record_def sample_payload_def)
  show ?thesis
    using s signed_url_verifies [OF sample_crypto_ok(1) sample_payload_wf s, of "[3]" "Some [1, 2]"]
    by (intro exI [of _ s]) (simp add: sample_payload_def DEFAULT_TTL_SECS_def)
qed

text \<open>
  C3: a verified URL carries, after its first dot, the tag of its record under an
  accepted secret, its record is the payload's, and it is within its lifetime; nothing
  else is accepted.
\<close>

theorem verify_accepts_exactly:
  "verify cr s cur prev now ttl = Inr p \<longleftrightarrow>
     (\<exists>r m rec k. s = r @ CHR ''.'' # m \<and> CHR ''.'' \<notin> set r \<and> b64_decode cr r = Some rec
        \<and> (k = cur \<or> prev = Some k) \<and> b64_decode cr m = Some (hmac_sha256 cr k rec)
        \<and> unpack_record rec = Some p \<and> now - sp_issued_at_secs p \<le> ttl)"
proof -
  have dot: "split_once ''.'' s = Some (r, m) \<longleftrightarrow> s = r @ CHR ''.'' # m \<and> CHR ''.'' \<notin> set r" for r m
    using split_once_char_SomeD by auto
  have "now - i \<le> ttl \<longleftrightarrow> now \<le> i + ttl" for i by auto
  then show ?thesis
    unfolding verify_eq dot accepted_secrets_def by auto
qed

end
