(* ===== verification/Pagination.thy ===== *)
theory Pagination
  imports Rust_Text Url_Signing
begin

section \<open>Cursor pagination\<close>

text \<open>
  \<open>src/src/pagination.rs\<close>: the opaque cursor, the bounds of \<open>limit\<close>, and the page a list
  handler cuts out of the rows. base64 is the parameter \<open>crypto\<close> of \<open>Url_Signing\<close>; the JSON
  form \<open>serde\<close> derives for a cursor is the parameter \<open>cursor_json\<close>, of which the code
  relies on reading back what was written (\<open>cursor_json_ok\<close>).
\<close>

definition DEFAULT_LIMIT :: int where "DEFAULT_LIMIT = 50"
definition MAX_LIMIT :: int where "MAX_LIMIT = 500"

record cursor_state =
  cs_kind :: string
  cs_last_id :: int

record cursor_json =
  cj_to_vec :: "cursor_state \<Rightarrow> bytes"
  cj_from_slice :: "bytes \<Rightarrow> cursor_state option"

definition cursor_json_ok :: "cursor_json \<Rightarrow> bool" where
  "cursor_json_ok j \<longleftrightarrow> (\<forall>c. in_i64 (cs_last_id c) \<longrightarrow> cj_from_slice j (cj_to_vec j c) = Some c)"

datatype pagination_error = InvalidLimit string | InvalidCursor string

fun pagination_code :: "pagination_error \<Rightarrow> string" where
  "pagination_code (InvalidLimit s) = ''invalid_limit''"
| "pagination_code (InvalidCursor s) = ''invalid_cursor''"

fun pagination_message :: "pagination_error \<Rightarrow> string" where
  "pagination_message (InvalidLimit s) = s"
| "pagination_message (InvalidCursor s) = s"

record resolved =
  rv_after_id :: "int option"
  rv_effective_limit :: int
  rv_bumped_limit :: int

subsection \<open>The cursor\<close>

definition encode_cursor :: "crypto \<Rightarrow> cursor_json \<Rightarrow> cursor_state \<Rightarrow> string" where
  "encode_cursor cr j state = b64_encode cr (cj_to_vec j state)"

definition decode_cursor ::
  "crypto \<Rightarrow> cursor_json \<Rightarrow> string \<Rightarrow> string \<Rightarrow> pagination_error + cursor_state" where
  "decode_cursor cr j raw expected_kind =
     (case b64_decode cr raw of
        None \<Rightarrow> Inl (InvalidCursor ''not valid base64url'')
      | Some bs \<Rightarrow>
     (case cj_from_slice j bs of
        None \<Rightarrow> Inl (InvalidCursor ''not a knievel cursor'')
      | Some state \<Rightarrow>
          if cs_kind state \<noteq> expected_kind then
            Inl (InvalidCursor (''cursor kind '' @ debug_str (cs_kind state)
                 @ '' does not match endpoint '' @ debug_str expected_kind))
          else Inr state))"

definition resolve ::
  "crypto \<Rightarrow> cursor_json \<Rightarrow> int option \<Rightarrow> string option \<Rightarrow> string \<Rightarrow> pagination_error + resolved" where
  "resolve cr j limit cursor expected_kind =
     (case (case limit of
              None \<Rightarrow> Inr DEFAULT_LIMIT
            | Some n \<Rightarrow>
                if n < 1 then Inl (InvalidLimit ''limit must be >= 1'')
                else if n > MAX_LIMIT then
                  Inl (InvalidLimit (''limit must be <= '' @ show_int MAX_LIMIT))
                else Inr n) of
        Inl e \<Rightarrow> Inl e
      | Inr effective_limit \<Rightarrow>
     (case (case cursor of
              None \<Rightarrow> Inr None
            | Some s \<Rightarrow> map_sum id (\<lambda>c. Some (cs_last_id c)) (decode_cursor cr j s expected_kind)) of
        Inl e \<Rightarrow> Inl e
      | Inr after_id \<Rightarrow>
          Inr \<lparr>rv_after_id = after_id, rv_effective_limit = effective_limit,
               rv_bumped_limit = effective_limit + 1\<rparr>))"

definition next_cursor ::
  "crypto \<Rightarrow> cursor_json \<Rightarrow> 'r list \<Rightarrow> resolved \<Rightarrow> string \<Rightarrow> ('r \<Rightarrow> int) \<Rightarrow> string option" where
  "next_cursor cr j rows rv expected_kind last_id_of =
     (if int (length rows) \<le> rv_effective_limit rv then None
      else Some (encode_cursor cr j
             \<lparr>cs_kind = expected_kind, cs_last_id = last_id_of (rows ! nat (rv_effective_limit rv - 1))\<rparr>))"

text \<open>
  \<open>SELECT \<dots> [WHERE id < $2] ORDER BY id DESC LIMIT $1\<close>, and the response a list handler
  makes of it: the cursor, and the rows cut to the effective limit.
\<close>

definition select_page :: "('r \<Rightarrow> int) \<Rightarrow> resolved \<Rightarrow> 'r list \<Rightarrow> 'r list" where
  "select_page rid rv rows =
     take (nat (rv_bumped_limit rv))
       (rev (sort_key rid (filter (\<lambda>r. case rv_after_id rv of None \<Rightarrow> True | Some a \<Rightarrow> rid r < a) rows)))"

definition page_of ::
  "crypto \<Rightarrow> cursor_json \<Rightarrow> string \<Rightarrow> ('r \<Rightarrow> int) \<Rightarrow> resolved \<Rightarrow> 'r list \<Rightarrow> 'r list \<times> string option" where
  "page_of cr j kind rid rv rows =
     (let found = select_page rid rv rows
      in (take (nat (rv_effective_limit rv)) found, next_cursor cr j found rv kind rid))"

subsection \<open>Round trips\<close>

lemma decode_encode:
  assumes "b64_ok cr" and "cursor_json_ok j" and "in_i64 (cs_last_id c)"
  shows "decode_cursor cr j (encode_cursor cr j c) (cs_kind c) = Inr c"
  using assms by (simp add: decode_cursor_def encode_cursor_def b64_ok_def cursor_json_ok_def)

lemma resolve_limit:
  assumes "resolve cr j limit cursor kind = Inr rv"
  shows "1 \<le> rv_effective_limit rv \<and> rv_effective_limit rv \<le> MAX_LIMIT
    \<and> rv_bumped_limit rv = rv_effective_limit rv + 1"
  using assms
  by (auto simp: resolve_def DEFAULT_LIMIT_def MAX_LIMIT_def split: option.splits sum.splits if_splits)

lemma resolve_eq:
  assumes "b64_ok cr" and "cursor_json_ok j" and "1 \<le> n" and "n \<le> MAX_LIMIT"
    and "\<forall>a. after = Some a \<longrightarrow> in_i64 a"
  shows "resolve cr j (Some n)
      (map_option (\<lambda>a. encode_cursor cr j \<lparr>cs_kind = kind, cs_last_id = a\<rparr>) after) kind
    = Inr \<lparr>rv_after_id = after, rv_effective_limit = n, rv_bumped_limit = n + 1\<rparr>"
  using assms decode_encode [of cr j "\<lparr>cs_kind = kind, cs_last_id = the after\<rparr>"]
  by (cases after) (auto simp: resolve_def)

subsection \<open>Walking the pages\<close>

text \<open>
  A caller that follows \<open>next_cursor\<close> from page to page, with the same limit; \<open>fuel\<close> bounds
  the number of requests.
\<close>

fun walk_pages ::
  "crypto \<Rightarrow> cursor_json \<Rightarrow> string \<Rightarrow> ('r \<Rightarrow> int) \<Rightarrow> int \<Rightarrow> 'r list \<Rightarrow> nat \<Rightarrow> string option
    \<Rightarrow> 'r list option" where
  "walk_pages cr j kind rid n rows 0 cursor = None"
| "walk_pages cr j kind rid n rows (Suc fuel) cursor =
     (case resolve cr j (Some n) cursor kind of
        Inl _ \<Rightarrow> None
      | Inr rv \<Rightarrow>
          (case page_of cr j kind rid rv rows of
             (items, None) \<Rightarrow> Some items
           | (items, Some c) \<Rightarrow>
               map_option (\<lambda>more. items @ more) (walk_pages cr j kind rid n rows fuel (Some c))))"

text \<open>What is left to list after an id.\<close>

definition rest_after :: "('r \<Rightarrow> int) \<Rightarrow> 'r list \<Rightarrow> int option \<Rightarrow> 'r list" where
  "rest_after rid rows after =
     rev (sort_key rid (filter (\<lambda>r. case after of None \<Rightarrow> True | Some a \<Rightarrow> rid r < a) rows))"

lemma strict_rest:
  assumes "distinct (map rid rows)"
  shows "sorted_wrt (<) (map rid (rev (rest_after rid rows after)))"
proof -
  let ?xs = "filter (\<lambda>r. case after of None \<Rightarrow> True | Some a \<Rightarrow> rid r < a) rows"
  have "distinct (map rid ?xs)" using assms by (rule distinct_map_filter)
  then have "distinct (map rid (sort_key rid ?xs))"
    by (metis distinct_map distinct_sort set_sort)
  then show ?thesis by (simp add: rest_after_def strict_sorted_iff)
qed

lemma strict_list_unique:
  fixes f :: "'r \<Rightarrow> int"
  assumes "sorted_wrt (<) (map f (rev xs))" and "sorted_wrt (<) (map f (rev ys))"
    and "set xs = set ys" and "inj_on f (set xs)"
  shows "xs = ys"
proof -
  have "map f (rev xs) = map f (rev ys)"
    by (rule strict_sorted_equal [OF assms(2,1)]) (simp add: assms(3))
  then have "rev xs = rev ys"
    using assms(3,4) by (intro map_inj_on [of f]) auto
  then show ?thesis by simp
qed

text \<open>Dropping a page leaves what comes after its last row.\<close>

lemma rest_after_drop:
  assumes "distinct (map rid rows)" and "k < length (rest_after rid rows after)"
  shows "rest_after rid rows (Some (rid (rest_after rid rows after ! k)))
    = drop (Suc k) (rest_after rid rows after)"
proof -
  let ?R = "rest_after rid rows after" and ?a = "rid (rest_after rid rows after ! k)"
  let ?P = "\<lambda>r. case after of None \<Rightarrow> True | Some a \<Rightarrow> rid r < a"
  have setR: "set ?R = {r \<in> set rows. ?P r}" by (simp add: rest_after_def)
  have desc: "rid (?R ! j) < rid (?R ! i)" if "i < j" "j < length ?R" for i j
  proof -
    have "sorted_wrt (\<lambda>x y. y < x) (map rid ?R)"
      using strict_rest [OF assms(1), of after] by (simp only: rev_map [symmetric] sorted_wrt_rev)
    with that show ?thesis by (auto simp: sorted_wrt_iff_nth_less)
  qed
  have keep: "set (drop (Suc k) ?R) = {r \<in> set rows. rid r < ?a}"
  proof (rule set_eqI, rule iffI)
    fix r assume "r \<in> set (drop (Suc k) ?R)"
    then obtain i where "i < length ?R - Suc k" "r = ?R ! (Suc k + i)"
      by (auto simp: in_set_conv_nth)
    then have i: "Suc k + i < length ?R" "r = ?R ! (Suc k + i)" by auto
    then have "rid r < ?a" using desc [of k "Suc k + i"] by simp
    moreover have "r \<in> set rows" using i setR nth_mem by blast
    ultimately show "r \<in> {r \<in> set rows. rid r < ?a}" by simp
  next
    fix r assume r: "r \<in> {r \<in> set rows. rid r < ?a}"
    have "?R ! k \<in> set ?R" using assms(2) by simp
    then have "?P (?R ! k)" using setR by blast
    with r have "?P r" by (auto split: option.splits)
    with r setR have "r \<in> set ?R" by blast
    then obtain i where i: "i < length ?R" "r = ?R ! i" by (auto simp: in_set_conv_nth)
    have "\<not> i \<le> k" using desc [of i k] assms(2) r i by (cases "i = k") (auto simp: le_less)
    with i have "r = drop (Suc k) ?R ! (i - Suc k)" "i - Suc k < length (drop (Suc k) ?R)" by auto
    then show "r \<in> set (drop (Suc k) ?R)" by (metis nth_mem)
  qed
  have "set (rest_after rid rows (Some ?a)) = set (drop (Suc k) ?R)"
    unfolding keep by (simp add: rest_after_def)
  moreover have "inj_on rid (set (rest_after rid rows (Some ?a)))"
    using assms(1) by (auto simp: rest_after_def distinct_map inj_on_def)
  moreover have "sorted_wrt (<) (map rid (rev (drop (Suc k) ?R)))"
    unfolding rev_drop take_map [symmetric]
    by (rule sorted_wrt_take [OF strict_rest [OF assms(1), of after]])
  ultimately show ?thesis
    using strict_rest [OF assms(1), of "Some ?a"] by (intro strict_list_unique) auto
qed

definition cursor_for :: "crypto \<Rightarrow> cursor_json \<Rightarrow> string \<Rightarrow> int \<Rightarrow> string" where
  "cursor_for cr j kind a = encode_cursor cr j \<lparr>cs_kind = kind, cs_last_id = a\<rparr>"

lemma walk_pages_rest:
  assumes "b64_ok cr" and "cursor_json_ok j" and "1 \<le> n" and "n \<le> MAX_LIMIT"
    and "distinct (map rid rows)" and "\<forall>r \<in> set rows. in_i64 (rid r)"
    and "\<forall>a. after = Some a \<longrightarrow> in_i64 a" and "length (rest_after rid rows after) < fuel"
  shows "walk_pages cr j kind rid n rows fuel (map_option (cursor_for cr j kind) after)
    = Some (rest_after rid rows after)"
  using assms(7,8)
proof (induction fuel arbitrary: after)
  case (Suc fuel)
  let ?R = "rest_after rid rows after"
  let ?rv = "\<lparr>rv_after_id = after, rv_effective_limit = n, rv_bumped_limit = n + 1\<rparr>"
  have rv: "resolve cr j (Some n) (map_option (cursor_for cr j kind) after) kind = Inr ?rv"
    using resolve_eq [OF assms(1-4) Suc.prems(1)] by (simp add: cursor_for_def [abs_def])
  have found: "select_page rid ?rv rows = take (Suc (nat n)) ?R"
    using assms(3) by (simp add: select_page_def rest_after_def nat_add_distrib)
  show ?case
  proof (cases "length ?R \<le> nat n")
    case True
    then have "page_of cr j kind rid ?rv rows = (?R, None)"
      using assms(3) by (auto simp: page_of_def Let_def found next_cursor_def)
    with rv show ?thesis by simp
  next
    case False
    let ?k = "nat (n - 1)"
    have k: "?k < length ?R" "Suc ?k = nat n" using False assms(3) by auto
    then have page: "page_of cr j kind rid ?rv rows
        = (take (nat n) ?R, Some (cursor_for cr j kind (rid (?R ! ?k))))"
      using False assms(3)
      by (auto simp: page_of_def Let_def found next_cursor_def cursor_for_def min_def)
    have rest: "rest_after rid rows (Some (rid (?R ! ?k))) = drop (nat n) ?R"
      using rest_after_drop [OF assms(5) k(1)] k(2) by simp
    have "?R ! ?k \<in> set ?R" using k(1) by simp
    then have "in_i64 (rid (?R ! ?k))" using assms(6) by (simp add: rest_after_def)
    moreover have "length (rest_after rid rows (Some (rid (?R ! ?k)))) < fuel"
      using Suc.prems(2) False assms(3) unfolding rest by simp
    ultimately have "walk_pages cr j kind rid n rows fuel
        (map_option (cursor_for cr j kind) (Some (rid (?R ! ?k)))) = Some (drop (nat n) ?R)"
      using Suc.IH [of "Some (rid (?R ! ?k))"] rest by simp
    with rv page show ?thesis by simp
  qed
qed simp

subsection \<open>Properties\<close>

text \<open>
  A cursor of the JSON crate to evaluate on: the kind's length, the kind, the id.
\<close>

definition sample_cursor_json :: cursor_json where
  "sample_cursor_json =
     \<lparr>cj_to_vec = (\<lambda>c. i64_to_be (cs_last_id c) @ bytes_of (cs_kind c)),
      cj_from_slice = (\<lambda>bs. Some \<lparr>cs_kind = string_of (drop 8 bs), cs_last_id = i64_from_be (take 8 bs)\<rparr>)\<rparr>"

lemma sample_cursor_json_ok [simp]: "cursor_json_ok sample_cursor_json"
  by (simp add: cursor_json_ok_def sample_cursor_json_def)

text \<open>
  C24: following \<open>next_cursor\<close> from the first page lists every row exactly once, newest first,
  for every page size a client may ask for, and ends after finitely many pages.
\<close>

theorem pages_list_everything_once:
  assumes "b64_ok cr" and "cursor_json_ok j" and "1 \<le> n" and "n \<le> MAX_LIMIT"
    and "distinct (map rid rows)" and "\<forall>r \<in> set rows. in_i64 (rid r)"
  shows "walk_pages cr j kind rid n rows (Suc (length rows)) None = Some (rev (sort_key rid rows))"
  using walk_pages_rest [OF assms, of None "Suc (length rows)" kind] by (simp add: rest_after_def)

theorem pages_list_everything_once_witness:
  "walk_pages sample_crypto sample_cursor_json ''ads'' id 2 [3, 9, 5, 7, 1] 6 None = Some [9, 7, 5, 3, 1]"
proof -
  have "walk_pages sample_crypto sample_cursor_json ''ads'' id 2 [3, 9, 5, 7, 1]
      (Suc (length [3, 9, 5, 7, 1 :: int])) None = Some (rev (sort_key id [3, 9, 5, 7, 1]))"
    by (rule pages_list_everything_once) (simp_all add: MAX_LIMIT_def in_i64_def)
  then show ?thesis by (simp add: eval_nat_numeral)
qed

text \<open>
  a limit is accepted exactly between 1 and 500 (50 when absent), a page never exceeds
  it, and a cursor minted for one resource is refused by every other.
\<close>

theorem limits_and_cursor_kinds:
  assumes "b64_ok cr" and "cursor_json_ok j" and "in_i64 a"
  shows "(resolve cr j limit None kind =
            (case limit of
               None \<Rightarrow> Inr \<lparr>rv_after_id = None, rv_effective_limit = 50, rv_bumped_limit = 51\<rparr>
             | Some n \<Rightarrow>
                 if n < 1 then Inl (InvalidLimit ''limit must be >= 1'')
                 else if 500 < n then Inl (InvalidLimit ''limit must be <= 500'')
                 else Inr \<lparr>rv_after_id = None, rv_effective_limit = n, rv_bumped_limit = n + 1\<rparr>))
    \<and> (kind' \<noteq> kind \<longrightarrow> (\<exists>m. resolve cr j None (Some (cursor_for cr j kind a)) kind' = Inl (InvalidCursor m)))
    \<and> (resolve cr j None (Some (cursor_for cr j kind a)) kind
         = Inr \<lparr>rv_after_id = Some a, rv_effective_limit = 50, rv_bumped_limit = 51\<rparr>)
    \<and> (resolve cr j limit cursor kind = Inr rv \<longrightarrow>
         int (length (fst (page_of cr j kind rid rv rows))) \<le> 500)"
proof (intro conjI, goal_cases)
  case 1
  have "show_int 500 = ''500''"
    by code_simp
  then show ?case by (auto simp: resolve_def DEFAULT_LIMIT_def MAX_LIMIT_def split: option.splits)
next
  case 2
  show ?case
    using assms
    by (simp add: resolve_def cursor_for_def decode_cursor_def encode_cursor_def b64_ok_def cursor_json_ok_def)
next
  case 3
  show ?case
    using assms decode_encode [of cr j "\<lparr>cs_kind = kind, cs_last_id = a\<rparr>"]
    by (simp add: resolve_def cursor_for_def DEFAULT_LIMIT_def)
next
  case 4
  show ?case
    using resolve_limit [of cr j limit cursor kind rv]
    by (auto simp: page_of_def Let_def MAX_LIMIT_def)
qed

theorem limits_and_cursor_kinds_witness:
  "\<exists>m. resolve sample_crypto sample_cursor_json None
      (Some (cursor_for sample_crypto sample_cursor_json ''advertisers'' 42)) ''campaigns'' = Inl (InvalidCursor m)"
  by (rule limits_and_cursor_kinds [OF sample_crypto_ok(1) sample_cursor_json_ok, of 42,
        THEN conjunct2, THEN conjunct1, rule_format]) (simp_all add: in_i64_def)

end
