(* ===== verification/Resource_Tables.thy ===== *)
theory Resource_Tables
  imports Pg_Errors Pagination
begin

section \<open>Project resources\<close>

text \<open>
  What the handlers of the project resources (\<open>advertisers.rs\<close>, \<open>campaigns.rs\<close>,
  \<open>flights.rs\<close>, \<open>ads.rs\<close>, \<open>sites.rs\<close>, \<open>zones.rs\<close>, \<open>creatives.rs\<close>) share: the SQL statements
  on a table under its row-level policy, and the shape of the five handlers. A table is
  described by \<open>table_desc\<close>; the response of a handler carries the table row, of which
  \<open>COLS\<close> leaves out the tenant columns. The policy of every resource table is
  \<open>project_id = current_setting('knievel.project_id')\<close>, for reading and for writing.
\<close>

record 'z table_desc =
  td_name :: string
  td_rows :: "db \<Rightarrow> 'z resource_row_scheme list"
  td_put :: "'z resource_row_scheme list \<Rightarrow> db \<Rightarrow> db"
  td_check :: "'z resource_row_scheme \<Rightarrow> db_error option"
  td_unique :: "'z resource_row_scheme \<Rightarrow> 'z resource_row_scheme \<Rightarrow> string option"
  td_fk :: "db \<Rightarrow> 'z resource_row_scheme \<Rightarrow> db_error option"

subsection \<open>Statements under the policy\<close>

definition row_visible :: "tx \<Rightarrow> 'z resource_row_scheme \<Rightarrow> bool" where
  "row_visible t r \<longleftrightarrow> guc_project_id t = Some (row_project_id r)"

definition visible_rows :: "'z table_desc \<Rightarrow> tx \<Rightarrow> 'z resource_row_scheme list" where
  "visible_rows td t = filter (row_visible t) (td_rows td (tx_db t))"

definition select_by_id :: "'z table_desc \<Rightarrow> tx \<Rightarrow> int \<Rightarrow> 'z resource_row_scheme option" where
  "select_by_id td t i = find (\<lambda>r. row_id r = i) (visible_rows td t)"

text \<open>The first unique constraint a row violates against others: primary key, external id, the table's own.\<close>

definition same_external :: "'z resource_row_scheme \<Rightarrow> 'z resource_row_scheme \<Rightarrow> bool" where
  "same_external r s \<longleftrightarrow>
     row_project_id r = row_project_id s \<and> row_external_id r \<noteq> None \<and> row_external_id r = row_external_id s"

fun first_some :: "'a option list \<Rightarrow> 'a option" where
  "first_some [] = None"
| "first_some (Some a # xs) = Some a"
| "first_some (None # xs) = first_some xs"

definition violated :: "'z table_desc \<Rightarrow> 'z resource_row_scheme list \<Rightarrow> 'z resource_row_scheme \<Rightarrow> string option" where
  "violated td others r =
     (if list_ex (\<lambda>s. row_id s = row_id r) others then Some (td_name td @ ''_pkey'')
      else if list_ex (\<lambda>s. same_external r s) others then
        Some (td_name td @ ''_project_id_external_id_key'')
      else first_some (map (\<lambda>s. td_unique td r s) others))"

text \<open>The checks of a row that is about to be written, \<open>others\<close> being the other rows.\<close>

definition write_check ::
  "'z table_desc \<Rightarrow> tx \<Rightarrow> 'z resource_row_scheme list \<Rightarrow> 'z resource_row_scheme \<Rightarrow> db_error option" where
  "write_check td t others r =
     (if \<not> row_visible t r then Some (policy_error (td_name td))
      else (case td_check td r of Some er \<Rightarrow> Some er
      | None \<Rightarrow> (case violated td others r of Some con \<Rightarrow> Some (unique_error con)
      | None \<Rightarrow> td_fk td (tx_db t) r)))"

definition put_rows :: "'z table_desc \<Rightarrow> tx \<Rightarrow> 'z resource_row_scheme list \<Rightarrow> tx" where
  "put_rows td t rows = t\<lparr>tx_db := td_put td rows (tx_db t)\<rparr>"

definition insert_row ::
  "'z table_desc \<Rightarrow> tx \<Rightarrow> 'z resource_row_scheme \<Rightarrow> db_error + tx" where
  "insert_row td t r =
     (let rows = td_rows td (tx_db t) in
      case write_check td t rows r of
        Some er \<Rightarrow> Inl er
      | None \<Rightarrow> Inr (put_rows td t (rows @ [r])))"

text \<open>Replacing the row with the given id; \<open>UPDATE \<dots> WHERE id = $1\<close> under the policy.\<close>

definition replace_row ::
  "'z table_desc \<Rightarrow> tx \<Rightarrow> int \<Rightarrow> 'z resource_row_scheme \<Rightarrow> db_error + tx" where
  "replace_row td t i r =
     (let rows = td_rows td (tx_db t) in
      case write_check td t (filter (\<lambda>s. row_id s \<noteq> i) rows) r of
        Some er \<Rightarrow> Inl er
      | None \<Rightarrow> Inr (put_rows td t (map (\<lambda>s. if row_id s = i then r else s) rows)))"

definition update_row ::
  "'z table_desc \<Rightarrow> tx \<Rightarrow> int \<Rightarrow> ('z resource_row_scheme \<Rightarrow> 'z resource_row_scheme)
    \<Rightarrow> db_error + ('z resource_row_scheme option \<times> tx)" where
  "update_row td t i f =
     (case select_by_id td t i of
        None \<Rightarrow> Inr (None, t)
      | Some r \<Rightarrow> map_sum id (\<lambda>t'. (Some (f r), t')) (replace_row td t i (f r)))"

text \<open>
  \<open>INSERT \<dots> ON CONFLICT (project_id, external_id) DO UPDATE\<close>: \<open>excluded\<close> is the proposed row,
  \<open>f\<close> computes the update of the existing one.
\<close>

definition upsert_row ::
  "'z table_desc \<Rightarrow> tx \<Rightarrow> 'z resource_row_scheme \<Rightarrow> ('z resource_row_scheme \<Rightarrow> 'z resource_row_scheme)
    \<Rightarrow> db_error + ('z resource_row_scheme \<times> tx)" where
  "upsert_row td t excluded f =
     (case find (\<lambda>s. same_external excluded s) (td_rows td (tx_db t)) of
        None \<Rightarrow> map_sum id (\<lambda>t'. (excluded, t')) (insert_row td t excluded)
      | Some r \<Rightarrow>
          if \<not> row_visible t excluded then Inl (policy_error (td_name td))
          else map_sum id (\<lambda>t'. (f r, t')) (replace_row td t (row_id r) (f r)))"

text \<open>What every \<open>UPDATE\<close> sets besides its own columns: a fresh etag and \<open>updated_at\<close>.\<close>

definition touch :: "env \<Rightarrow> nat \<Rightarrow> 'z resource_row_scheme \<Rightarrow> 'z resource_row_scheme" where
  "touch e n r = r\<lparr>row_etag := new_etag e n, row_updated_at := clock_ms e\<rparr>"

text \<open>SQL's \<open>COALESCE\<close> of a parameter and a value that is not null.\<close>

definition coalesce :: "'a option \<Rightarrow> 'a \<Rightarrow> 'a" where
  "coalesce x y = (case x of Some v \<Rightarrow> v | None \<Rightarrow> y)"

subsection \<open>The handlers\<close>

definition no_db :: error_envelope where
  "no_db = (''no_db'', ''no database configured'')"

definition db_failed :: "string \<Rightarrow> error_envelope" where
  "db_failed m = (''db_error'', m)"

definition external_id_conflict :: error_envelope where
  "external_id_conflict = (''external_id_conflict'', ''external_id is already taken in this project'')"

text \<open>
  The tail of a create: the insert and the commit. \<open>row\<close> is the row to insert, or the error of a
  cast in its \<open>VALUES\<close> list.
\<close>

definition insert_commit ::
  "'z table_desc \<Rightarrow> (pg_error_kind \<Rightarrow> 'z resource_row_scheme api_resp) \<Rightarrow> env \<Rightarrow> db option \<Rightarrow> tx
    \<Rightarrow> db_error + 'z resource_row_scheme \<Rightarrow> 'z resource_row_scheme api_resp \<times> db option" where
  "insert_commit td on_error e od t row =
     (case (if fault e (Stmt ''insert'') then Inl conn_lost
            else case row of
                   Inl er \<Rightarrow> Inl er
                 | Inr r \<Rightarrow> map_sum id (\<lambda>t'. (r, t')) (insert_row td t r)) of
        Inl er \<Rightarrow> (on_error (classify_pg_error er), od)
      | Inr (r, t') \<Rightarrow>
     (case commit e t' of
        Inl _ \<Rightarrow> (InternalError (db_failed ''commit failed''), od)
      | Inr d' \<Rightarrow> (Created201 r, Some d')))"

definition crud_create ::
  "'z table_desc \<Rightarrow> (pg_error_kind \<Rightarrow> 'z resource_row_scheme api_resp) \<Rightarrow> env \<Rightarrow> db option \<Rightarrow> principal
    \<Rightarrow> string \<Rightarrow> db_error + 'z resource_row_scheme \<Rightarrow> 'z resource_row_scheme api_resp \<times> db option" where
  "crud_create td on_error e od p pj row =
     (case od of
        None \<Rightarrow> (InternalError no_db, od)
      | Some d \<Rightarrow>
     (case open_project_tx e d p pj Editor of
        Inl er \<Rightarrow> (forbid er, od)
      | Inr t \<Rightarrow> insert_commit td on_error e od t row))"

definition crud_list ::
  "'z table_desc \<Rightarrow> string \<Rightarrow> crypto \<Rightarrow> cursor_json \<Rightarrow> env \<Rightarrow> db option \<Rightarrow> principal \<Rightarrow> string
    \<Rightarrow> int option \<Rightarrow> string option \<Rightarrow> ('z resource_row_scheme list \<times> string option) api_resp" where
  "crud_list td cursor_kind cr j e od p pj limit cursor =
     (case resolve cr j limit cursor cursor_kind of
        Inl er \<Rightarrow> BadRequest (pagination_code er, pagination_message er)
      | Inr resolved \<Rightarrow>
     (case od of
        None \<Rightarrow> InternalError no_db
      | Some d \<Rightarrow>
     (case open_project_tx e d p pj Reader of
        Inl er \<Rightarrow> forbid er
      | Inr t \<Rightarrow>
          if fault e (Stmt ''select'') then InternalError (db_failed ''list failed'')
          else Ok200 (page_of cr j cursor_kind row_id resolved (visible_rows td t)))))"

definition crud_get ::
  "'z table_desc \<Rightarrow> string \<Rightarrow> env \<Rightarrow> db option \<Rightarrow> principal \<Rightarrow> string \<Rightarrow> int
    \<Rightarrow> 'z resource_row_scheme api_resp" where
  "crud_get td not_found e od p pj i =
     (case od of
        None \<Rightarrow> InternalError no_db
      | Some d \<Rightarrow>
     (case open_project_tx e d p pj Reader of
        Inl er \<Rightarrow> forbid er
      | Inr t \<Rightarrow>
          if fault e (Stmt ''select'') then InternalError (db_failed ''select failed'')
          else (case select_by_id td t i of
              Some r \<Rightarrow> Ok200 r
            | None \<Rightarrow> NotFound (''not_found'', not_found))))"

definition update_commit ::
  "'z table_desc \<Rightarrow> string \<Rightarrow> env \<Rightarrow> db option \<Rightarrow> tx \<Rightarrow> int
    \<Rightarrow> (env \<Rightarrow> 'z resource_row_scheme \<Rightarrow> db_error + 'z resource_row_scheme)
    \<Rightarrow> 'z resource_row_scheme api_resp \<times> db option" where
  "update_commit td not_found e od t i f =
     (case (if fault e (Stmt ''update'') then Inl conn_lost
            else case select_by_id td t i of
                   None \<Rightarrow> Inr (None, t)
                 | Some r \<Rightarrow> (case f e r of Inl er \<Rightarrow> Inl er | Inr r' \<Rightarrow> update_row td t i (\<lambda>_. r'))) of
        Inl er \<Rightarrow> (InternalError (db_failed ''update failed''), od)
      | Inr (None, _) \<Rightarrow> (NotFound (''not_found'', not_found), od)
      | Inr (Some r, t') \<Rightarrow>
     (case commit e t' of
        Inl _ \<Rightarrow> (InternalError (db_failed ''commit failed''), od)
      | Inr d' \<Rightarrow> (Ok200 r, Some d')))"

definition crud_update ::
  "'z table_desc \<Rightarrow> string \<Rightarrow> env \<Rightarrow> db option \<Rightarrow> principal \<Rightarrow> string \<Rightarrow> int
    \<Rightarrow> (env \<Rightarrow> 'z resource_row_scheme \<Rightarrow> db_error + 'z resource_row_scheme)
    \<Rightarrow> 'z resource_row_scheme api_resp \<times> db option" where
  "crud_update td not_found e od p pj i f =
     (case od of
        None \<Rightarrow> (InternalError no_db, od)
      | Some d \<Rightarrow>
     (case open_project_tx e d p pj Editor of
        Inl er \<Rightarrow> (forbid er, od)
      | Inr t \<Rightarrow> update_commit td not_found e od t i f))"

text \<open>
  The loop of \<open>batch_upsert\<close> stops at the first row that fails; \<open>step\<close> is the statement for
  one row, \<open>field_of\<close> the column it blames for an error code.
\<close>

fun batch_rows ::
  "env \<Rightarrow> (string \<Rightarrow> string option) \<Rightarrow> (tx \<Rightarrow> nat \<Rightarrow> 'i \<Rightarrow> db_error + ('r \<times> tx)) \<Rightarrow> nat \<Rightarrow> tx \<Rightarrow> 'i list
    \<Rightarrow> batch_detail + ('r list \<times> tx)" where
  "batch_rows e field_of step i t [] = Inr ([], t)"
| "batch_rows e field_of step i t (x # xs) =
     (case (if fault e (StmtAt ''upsert'' i) then Inl conn_lost else step t i x) of
        Inl er \<Rightarrow>
          (let (code, msg) = classify_pg_message (display_error er)
           in Inl \<lparr>bd_index = int i, bd_field = field_of code, bd_code = code,
                   bd_message = coalesce msg ''row failed validation''\<rparr>)
      | Inr (r, t') \<Rightarrow>
          (case batch_rows e field_of step (Suc i) t' xs of
             Inl dt \<Rightarrow> Inl dt
           | Inr (rs, t'') \<Rightarrow> Inr (r # rs, t'')))"

definition crud_batch ::
  "(string \<Rightarrow> string option) \<Rightarrow> (tx \<Rightarrow> nat \<Rightarrow> 'i \<Rightarrow> db_error + ('r \<times> tx)) \<Rightarrow> env \<Rightarrow> db option
    \<Rightarrow> principal \<Rightarrow> string \<Rightarrow> 'i list \<Rightarrow> 'r batch_resp \<times> db option" where
  "crud_batch field_of step e od p pj items =
     (case od of
        None \<Rightarrow> (BatchInternal no_db, od)
      | Some d \<Rightarrow>
     (case open_project_tx e d p pj Editor of
        Inl er \<Rightarrow> (BatchForbidden (authz_envelope er), od)
      | Inr t \<Rightarrow>
     (case batch_rows e field_of step 0 t items of
        Inl detail \<Rightarrow> (PartialFailure (partial_failure (length items) [detail]), od)
      | Inr (out, t') \<Rightarrow>
     (case commit e t' of
        Inl _ \<Rightarrow> (BatchInternal (db_failed ''commit failed''), od)
      | Inr d' \<Rightarrow> (BatchOk out, Some d')))))"

subsection \<open>The tenant contract of a table\<close>

definition foreign_rows :: "string \<Rightarrow> 'z resource_row_scheme list \<Rightarrow> 'z resource_row_scheme list" where
  "foreign_rows pid rows = filter (\<lambda>r. row_project_id r \<noteq> pid) rows"

text \<open>The keys of the schema: ids are unique, external ids unique within a project.\<close>

definition keys_ok :: "'z resource_row_scheme list \<Rightarrow> bool" where
  "keys_ok rows \<longleftrightarrow> distinct (map row_id rows)
     \<and> (\<forall>r \<in> set rows. \<forall>s \<in> set rows. same_external r s \<longrightarrow> r = s)"

text \<open>
  What a write of project \<open>pid\<close> may do to the database: the keys stay intact, no other
  project's row of the table changes, and neither the projects nor the configuration version do.
\<close>

definition confined :: "'z table_desc \<Rightarrow> string \<Rightarrow> db \<Rightarrow> db \<Rightarrow> bool" where
  "confined td pid d d' \<longleftrightarrow>
     projects d' = projects d \<and> config_version d' = config_version d
     \<and> (keys_ok (td_rows td d) \<longrightarrow>
          keys_ok (td_rows td d') \<and> foreign_rows pid (td_rows td d') = foreign_rows pid (td_rows td d))"

lemma confined_refl [simp]: "confined td pid d d"
  by (simp add: confined_def)

lemma confined_trans: "confined td pid d d1 \<Longrightarrow> confined td pid d1 d2 \<Longrightarrow> confined td pid d d2"
  by (auto simp: confined_def)

lemma keys_ok_snoc:
  assumes "keys_ok rows" and "violated td rows r = None"
  shows "keys_ok (rows @ [r])"
proof -
  from assms(2) have "row_id r \<notin> row_id ` set rows" "\<forall>s \<in> set rows. \<not> same_external r s"
    by (auto simp: violated_def list_ex_iff split: if_splits)
  moreover from this(2) have "\<forall>s \<in> set rows. \<not> same_external s r"
    by (auto simp: same_external_def)
  ultimately show ?thesis using assms(1) by (auto simp: keys_ok_def)
qed

lemma keys_ok_replace:
  assumes "keys_ok rows" and "violated td (filter (\<lambda>s. row_id s \<noteq> i) rows) r = None" and "row_id r = i"
  shows "keys_ok (map (\<lambda>s. if row_id s = i then r else s) rows)"
proof -
  let ?f = "\<lambda>s. if row_id s = i then r else s"
  have ids: "map row_id (map ?f rows) = map row_id rows" using assms(3) by auto
  from assms(2) have new: "\<forall>s \<in> set rows. row_id s \<noteq> i \<longrightarrow> \<not> same_external r s"
    by (auto simp: violated_def list_ex_iff split: if_splits)
  then have new': "\<forall>s \<in> set rows. row_id s \<noteq> i \<longrightarrow> \<not> same_external s r"
    by (auto simp: same_external_def)
  have "\<forall>a \<in> set rows. \<forall>b \<in> set rows. same_external (?f a) (?f b) \<longrightarrow> ?f a = ?f b"
    using assms(1) new new' by (auto simp: keys_ok_def)
  then have "\<forall>a \<in> set (map ?f rows). \<forall>b \<in> set (map ?f rows). same_external a b \<longrightarrow> a = b"
    unfolding set_map by blast
  moreover have "distinct (map row_id (map ?f rows))"
    using assms(1) unfolding ids keys_ok_def by blast
  ultimately show ?thesis unfolding keys_ok_def by blast
qed

lemma foreign_replace:
  assumes "keys_ok rows" and "s \<in> set rows" and "row_id s = i" and "row_project_id s = pid"
    and "row_project_id r = pid"
  shows "foreign_rows pid (map (\<lambda>s. if row_id s = i then r else s) rows) = foreign_rows pid rows"
proof -
  have "row_project_id x = pid" if "x \<in> set rows" "row_id x = i" for x
  proof -
    have "x = s" using assms(1-3) that by (auto simp: keys_ok_def distinct_map dest: inj_onD)
    with assms(4) show ?thesis by simp
  qed
  then have "\<forall>x \<in> set rows. (if row_id x = i then r else x) = x
      \<or> row_project_id x = pid \<and> row_project_id (if row_id x = i then r else x) = pid"
    using assms(5) by simp
  then show ?thesis
    unfolding foreign_rows_def by (induction rows) auto
qed

lemma write_check_NoneD:
  "write_check td t others r = None \<Longrightarrow> row_visible t r \<and> violated td others r = None"
  by (auto simp: write_check_def split: if_splits option.splits)

lemma visible_rows_in_project:
  assumes "r \<in> set (visible_rows td t)"
  shows "r \<in> set (td_rows td (tx_db t)) \<and> guc_project_id t = Some (row_project_id r)"
  using assms by (simp add: visible_rows_def row_visible_def)

lemma select_by_id_SomeD:
  "select_by_id td t i = Some r \<Longrightarrow>
     r \<in> set (td_rows td (tx_db t)) \<and> guc_project_id t = Some (row_project_id r) \<and> row_id r = i"
  using visible_rows_in_project [of r td t] by (auto simp: select_by_id_def find_Some_iff)

text \<open>
  The interface of a resource table: it can be written without touching the projects or the
  configuration version, and what is written is read back.
\<close>

locale tenant_table =
  fixes td :: "'z table_desc"
  assumes rows_put: "td_rows td (td_put td rows d) = rows"
    and projects_put: "projects (td_put td rows d) = projects d"
    and version_put: "config_version (td_put td rows d) = config_version d"
begin

lemma insert_row_InrD:
  assumes "insert_row td t r = Inr t'"
  shows "t' = put_rows td t (td_rows td (tx_db t) @ [r]) \<and> guc_project_id t = Some (row_project_id r)
    \<and> confined td (row_project_id r) (tx_db t) (tx_db t')"
proof -
  from assms have chk: "write_check td t (td_rows td (tx_db t)) r = None"
    and t': "t' = put_rows td t (td_rows td (tx_db t) @ [r])"
    by (auto simp: insert_row_def Let_def split: option.splits)
  from write_check_NoneD [OF chk] t' show ?thesis
    by (auto simp: confined_def put_rows_def rows_put projects_put version_put row_visible_def
        foreign_rows_def intro: keys_ok_snoc)
qed

lemma replace_row_InrD:
  assumes "replace_row td t i r = Inr t'" and "s \<in> set (td_rows td (tx_db t))" and "row_id s = i"
    and "row_project_id s = row_project_id r" and "row_id r = i"
  shows "guc_project_id t' = guc_project_id t \<and> guc_project_id t = Some (row_project_id r)
    \<and> td_rows td (tx_db t') = map (\<lambda>s. if row_id s = i then r else s) (td_rows td (tx_db t))
    \<and> confined td (row_project_id r) (tx_db t) (tx_db t')"
proof -
  let ?rows = "td_rows td (tx_db t)"
  from assms(1) have chk: "write_check td t (filter (\<lambda>s. row_id s \<noteq> i) ?rows) r = None"
    and t': "t' = put_rows td t (map (\<lambda>s. if row_id s = i then r else s) ?rows)"
    by (auto simp: replace_row_def Let_def split: option.splits)
  note ok = write_check_NoneD [OF chk]
  have "confined td (row_project_id r) (tx_db t) (tx_db t')"
    using ok assms(2-5) unfolding t' confined_def put_rows_def
    by (auto simp: rows_put projects_put version_put intro: keys_ok_replace foreign_replace)
  with ok t' show ?thesis by (simp add: put_rows_def rows_put row_visible_def)
qed

lemma update_row_InrD:
  assumes "update_row td t i f = Inr (Some r, t')"
    and "\<And>x. row_id (f x) = row_id x \<and> row_project_id (f x) = row_project_id x"
  shows "\<exists>x. select_by_id td t i = Some x \<and> r = f x \<and> guc_project_id t' = guc_project_id t
    \<and> td_rows td (tx_db t') = map (\<lambda>s. if row_id s = i then r else s) (td_rows td (tx_db t))
    \<and> (\<forall>pid. guc_project_id t = Some pid \<longrightarrow> confined td pid (tx_db t) (tx_db t'))"
proof -
  from assms(1) obtain x where x: "select_by_id td t i = Some x" "r = f x"
    "replace_row td t i (f x) = Inr t'"
    by (auto simp: update_row_def map_sum_def split: option.splits sum.splits)
  note sx = select_by_id_SomeD [OF x(1)]
  from replace_row_InrD [OF x(3), of x] sx assms(2) [of x] x(1,2) show ?thesis by auto
qed

lemma upsert_row_InrD:
  assumes "upsert_row td t ex f = Inr (r, t')"
    and "\<And>x. row_id (f x) = row_id x \<and> row_project_id (f x) = row_project_id x"
  shows "guc_project_id t' = guc_project_id t \<and> guc_project_id t = Some (row_project_id ex)
    \<and> row_project_id r = row_project_id ex \<and> r \<in> set (td_rows td (tx_db t'))
    \<and> confined td (row_project_id ex) (tx_db t) (tx_db t')"
proof (cases "find (same_external ex) (td_rows td (tx_db t))")
  case None
  with assms(1) have "insert_row td t ex = Inr t'" "r = ex"
    by (auto simp: upsert_row_def map_sum_def split: sum.splits)
  from insert_row_InrD [OF this(1)] this(2) show ?thesis by (auto simp: put_rows_def rows_put)
next
  case (Some x)
  then have x: "x \<in> set (td_rows td (tx_db t))" "same_external ex x"
    by (auto simp: find_Some_iff)
  with Some assms(1) have rep: "replace_row td t (row_id x) (f x) = Inr t'" "r = f x"
    "row_visible t ex"
    by (auto simp: upsert_row_def map_sum_def split: sum.splits if_splits)
  from replace_row_InrD [OF rep(1) x(1)] assms(2) [of x] rep x show ?thesis
    by (auto simp: same_external_def row_visible_def image_iff)
qed

lemma batch_rows_confined:
  assumes "batch_rows e fld step i t xs = Inr (rs, t')" and "guc_project_id t = Some pid"
    and "\<And>t i x r t'. step t i x = Inr (r, t') \<Longrightarrow> guc_project_id t = Some pid \<Longrightarrow>
           guc_project_id t' = Some pid \<and> confined td pid (tx_db t) (tx_db t')"
  shows "length rs = length xs \<and> confined td pid (tx_db t) (tx_db t')"
  using assms(1,2)
proof (induction xs arbitrary: i t rs)
  case (Cons x xs)
  from Cons.prems(1) obtain r t1 rs' where s: "step t i x = Inr (r, t1)"
    "batch_rows e fld step (Suc i) t1 xs = Inr (rs', t')" "rs = r # rs'"
    by (auto simp: Let_def split: sum.splits prod.splits if_splits)
  from assms(3) [OF s(1) Cons.prems(2)] Cons.IH [OF s(2)] s(3) show ?case
    by (auto intro: confined_trans)
qed simp

end

lemma crud_create_success:
  assumes "crud_create td on_error e od p pj row = (Created201 r, od')"
    and "\<And>k r. on_error k \<noteq> Created201 r"
  shows "\<exists>d d' t'. od = Some d \<and> od' = Some d' \<and> row = Inr r \<and> has_role_at_least p Editor
    \<and> in_org d (org_id p) pj \<and> insert_row td (bound_tx d p pj) r = Inr t' \<and> d' = tx_db t'"
  using assms
  by (auto simp: crud_create_def insert_commit_def forbid_def map_sum_def dest!: open_project_tx_InrD commit_InrD
      split: option.splits sum.splits if_splits)

lemma crud_create_failure:
  assumes "crud_create td on_error e od p pj row = (resp, od')" and "\<forall>r. resp \<noteq> Created201 r"
  shows "od' = od"
  using assms by (auto simp: crud_create_def insert_commit_def split: option.splits sum.splits if_splits)

lemma crud_update_success:
  assumes "crud_update td nf e od p pj i f = (Ok200 r, od')"
  shows "\<exists>d d' t' x. od = Some d \<and> od' = Some d' \<and> has_role_at_least p Editor
    \<and> in_org d (org_id p) pj \<and> select_by_id td (bound_tx d p pj) i = Some x \<and> f e x = Inr r
    \<and> update_row td (bound_tx d p pj) i (\<lambda>_. r) = Inr (Some r, t') \<and> d' = tx_db t'"
  using assms
  by (auto simp: crud_update_def update_commit_def forbid_def update_row_def map_sum_def
      dest!: open_project_tx_InrD commit_InrD
      split: option.splits sum.splits if_splits prod.splits)

lemma crud_update_failure:
  assumes "crud_update td nf e od p pj i f = (resp, od')" and "\<forall>r. resp \<noteq> Ok200 r"
  shows "od' = od"
  using assms by (auto simp: crud_update_def update_commit_def split: option.splits sum.splits if_splits prod.splits)

lemma crud_batch_success:
  assumes "crud_batch fld step e od p pj items = (BatchOk out, od')"
  shows "\<exists>d d' t'. od = Some d \<and> od' = Some d' \<and> has_role_at_least p Editor \<and> in_org d (org_id p) pj
    \<and> batch_rows e fld step 0 (bound_tx d p pj) items = Inr (out, t') \<and> d' = tx_db t'"
  using assms
  by (auto simp: crud_batch_def dest!: open_project_tx_InrD commit_InrD
      split: option.splits sum.splits if_splits prod.splits)

lemma crud_batch_failure:
  assumes "crud_batch fld step e od p pj items = (resp, od')" and "\<forall>out. resp \<noteq> BatchOk out"
  shows "od' = od"
  using assms by (auto simp: crud_batch_def split: option.splits sum.splits if_splits prod.splits)

lemma crud_get_success:
  assumes "crud_get td nf e od p pj i = Ok200 r"
  shows "\<exists>d. od = Some d \<and> in_org d (org_id p) pj \<and> r \<in> set (td_rows td d)
    \<and> row_project_id r = pj \<and> row_id r = i"
  using assms
  by (auto simp: crud_get_def forbid_def bound_tx_def dest!: open_project_tx_InrD select_by_id_SomeD
      split: option.splits sum.splits if_splits)

lemma crud_list_success:
  assumes "crud_list td kind cr j e od p pj limit cursor = Ok200 page"
  shows "\<exists>d rv. od = Some d \<and> in_org d (org_id p) pj \<and> resolve cr j limit cursor kind = Inr rv
    \<and> page = page_of cr j kind row_id rv (filter (\<lambda>r. row_project_id r = pj) (td_rows td d))"
proof -
  have vis: "visible_rows td (bound_tx d p pj) = filter (\<lambda>r. row_project_id r = pj) (td_rows td d)" for d
    by (auto simp: visible_rows_def row_visible_def bound_tx_def intro: filter_cong)
  show ?thesis
    using assms by (auto simp: crud_list_def forbid_def vis dest!: open_project_tx_InrD
      split: option.splits sum.splits if_splits)
qed

subsection \<open>The handlers keep the contract\<close>

lemma bound_tx_sel [simp]:
  "tx_db (bound_tx d p pj) = d" "guc_project_id (bound_tx d p pj) = Some pj"
  by (simp_all add: bound_tx_def)

context tenant_table
begin

lemma crud_create_confined:
  assumes "\<And>k r. on_error k \<noteq> Created201 r" and "\<And>r. row = Inr r \<Longrightarrow> row_project_id r = pj"
  shows "confined td pj d (the (snd (crud_create td on_error e (Some d) p pj row)))"
proof -
  obtain resp od' where run: "crud_create td on_error e (Some d) p pj row = (resp, od')" by fastforce
  show ?thesis
  proof (cases "\<exists>r. resp = Created201 r")
    case True
    then obtain r where "resp = Created201 r" by blast
    with crud_create_success [OF run [unfolded this] assms(1)] obtain t' where
      "row = Inr r" "insert_row td (bound_tx d p pj) r = Inr t'" "od' = Some (tx_db t')" by auto
    with insert_row_InrD [of "bound_tx d p pj" r t'] assms(2) run show ?thesis by auto
  next
    case False
    with crud_create_failure [OF run] run show ?thesis by auto
  qed
qed

lemma crud_update_confined:
  assumes "\<And>r r'. f e r = Inr r' \<Longrightarrow> row_id r' = row_id r \<and> row_project_id r' = row_project_id r"
  shows "confined td pj d (the (snd (crud_update td nf e (Some d) p pj i f)))"
proof -
  obtain resp od' where run: "crud_update td nf e (Some d) p pj i f = (resp, od')" by fastforce
  show ?thesis
  proof (cases "\<exists>r. resp = Ok200 r")
    case True
    then obtain r where "resp = Ok200 r" by blast
    with crud_update_success [of td nf e "Some d" p pj i f r od'] run obtain x t' where
      x: "select_by_id td (bound_tx d p pj) i = Some x" "f e x = Inr r"
      "update_row td (bound_tx d p pj) i (\<lambda>_. r) = Inr (Some r, t')" "od' = Some (tx_db t')" by auto
    note sx = select_by_id_SomeD [OF x(1)]
    from x(1,3) have rep: "replace_row td (bound_tx d p pj) i r = Inr t'"
      by (auto simp: update_row_def map_sum_def split: sum.splits)
    from replace_row_InrD [OF rep, of x] sx assms [OF x(2)] have
      "confined td pj (tx_db (bound_tx d p pj)) (tx_db t')" by auto
    with run x(4) show ?thesis by simp
  next
    case False
    with crud_update_failure [OF run] run show ?thesis by auto
  qed
qed

lemma crud_batch_confined:
  assumes "\<And>t i x r t'. step t i x = Inr (r, t') \<Longrightarrow> guc_project_id t = Some pj \<Longrightarrow>
           guc_project_id t' = Some pj \<and> confined td pj (tx_db t) (tx_db t')"
  shows "confined td pj d (the (snd (crud_batch fld step e (Some d) p pj items)))"
proof -
  obtain resp od' where run: "crud_batch fld step e (Some d) p pj items = (resp, od')" by fastforce
  show ?thesis
  proof (cases "\<exists>out. resp = BatchOk out")
    case True
    then obtain out where "resp = BatchOk out" by blast
    with crud_batch_success [of fld step e "Some d" p pj items out od'] run obtain t' where
      "batch_rows e fld step 0 (bound_tx d p pj) items = Inr (out, t')" "od' = Some (tx_db t')" by auto
    with batch_rows_confined [of e fld step 0 "bound_tx d p pj" items out t' pj] assms run
    show ?thesis by auto
  next
    case False
    with crud_batch_failure [OF run] run show ?thesis by auto
  qed
qed

lemma upsert_confined:
  assumes "upsert_row td t ex f = Inr (r, t')" and "guc_project_id t = Some pj"
    and "\<And>x. row_id (f x) = row_id x \<and> row_project_id (f x) = row_project_id x"
  shows "guc_project_id t' = Some pj \<and> confined td pj (tx_db t) (tx_db t')"
  using upsert_row_InrD [OF assms(1,3)] assms(2) by auto

end

lemma batch_rows_length:
  "batch_rows e fld step i t xs = Inr (rs, t') \<Longrightarrow> length rs = length xs"
  by (induction xs arbitrary: i t rs t') (auto simp: Let_def split: sum.splits prod.splits if_splits)

lemma batch_rows_detail:
  "batch_rows e fld step i t xs = Inl dt \<Longrightarrow> int i \<le> bd_index dt \<and> bd_index dt < int (i + length xs)"
proof (induction xs arbitrary: i t)
  case (Cons x xs)
  from Cons.prems consider "dt = dt" "bd_index dt = int i"
    | r t1 where "batch_rows e fld step (Suc i) t1 xs = Inl dt"
    by (auto simp: Let_def split: sum.splits prod.splits if_splits)
  then show ?case using Cons.IH by cases force+
qed simp

lemma touch_keys [simp]:
  "row_id (touch e n r) = row_id r" "row_project_id (touch e n r) = row_project_id r"
  "row_external_id (touch e n r) = row_external_id r" "row_org_id (touch e n r) = row_org_id r"
  "row_etag (touch e n r) = new_etag e n" "row_updated_at (touch e n r) = clock_ms e"
  by (simp_all add: touch_def)

lemma set_page_of: "set (fst (page_of cr j k rid rv rows)) \<subseteq> set rows"
  by (auto simp: page_of_def Let_def select_page_def dest!: in_set_takeD)

lemma crud_list_rows:
  assumes "crud_list td kind cr j e od p pj limit cursor = Ok200 (rs, c)"
  shows "\<exists>d. od = Some d \<and> in_org d (org_id p) pj
    \<and> set rs \<subseteq> {r \<in> set (td_rows td d). row_project_id r = pj}"
proof -
  from crud_list_success [OF assms] obtain d rv where d: "od = Some d" "in_org d (org_id p) pj"
    and page: "(rs, c) = page_of cr j kind row_id rv (filter (\<lambda>r. row_project_id r = pj) (td_rows td d))"
    by blast
  from page have "rs = fst (page_of cr j kind row_id rv (filter (\<lambda>r. row_project_id r = pj) (td_rows td d)))"
    by (metis fst_conv)
  with d set_page_of show ?thesis by (metis set_filter)
qed

subsection \<open>Further keys of a table\<close>

text \<open>
  A table with a key of its own: \<open>own_key rows\<close> holds of the stored rows, given that every
  write passes the constraint check. The handlers then keep it.
\<close>

definition keeps :: "'z table_desc \<Rightarrow> ('z resource_row_scheme list \<Rightarrow> bool) \<Rightarrow> db \<Rightarrow> db \<Rightarrow> bool" where
  "keeps td key d d' \<longleftrightarrow> (keys_ok (td_rows td d) \<and> key (td_rows td d) \<longrightarrow>
     keys_ok (td_rows td d') \<and> key (td_rows td d'))"

locale keyed_table = tenant_table +
  fixes own_key :: "'a resource_row_scheme list \<Rightarrow> bool"
  assumes own_key_snoc: "own_key rows \<Longrightarrow> violated td rows r = None \<Longrightarrow> own_key (rows @ [r])"
    and own_key_replace: "own_key rows \<Longrightarrow> distinct (map row_id rows) \<Longrightarrow>
      violated td (filter (\<lambda>s. row_id s \<noteq> i) rows) r = None \<Longrightarrow>
      own_key (map (\<lambda>s. if row_id s = i then r else s) rows)"
begin

lemma insert_row_keeps: "insert_row td t r = Inr t' \<Longrightarrow> keeps td own_key (tx_db t) (tx_db t')"
  by (auto simp: insert_row_def Let_def keeps_def put_rows_def rows_put dest!: write_check_NoneD
      intro: keys_ok_snoc own_key_snoc split: option.splits)

lemma replace_row_keeps:
  assumes "replace_row td t i r = Inr t'" and "row_id r = i"
  shows "keeps td own_key (tx_db t) (tx_db t')"
proof -
  let ?rows = "td_rows td (tx_db t)"
  from assms(1) have chk: "violated td (filter (\<lambda>s. row_id s \<noteq> i) ?rows) r = None"
    and t': "td_rows td (tx_db t') = map (\<lambda>s. if row_id s = i then r else s) ?rows"
    by (auto simp: replace_row_def Let_def put_rows_def rows_put dest!: write_check_NoneD
        split: option.splits)
  have "keys_ok ?rows \<Longrightarrow> distinct (map row_id ?rows)" by (simp add: keys_ok_def)
  with own_key_replace [OF _ _ chk] keys_ok_replace [OF _ chk assms(2)] show ?thesis
    by (simp add: keeps_def t')
qed

lemma upsert_row_keeps:
  assumes "upsert_row td t ex f = Inr (r, t')" and "\<And>x. row_id (f x) = row_id x"
  shows "keeps td own_key (tx_db t) (tx_db t')"
  using assms
  by (auto simp: upsert_row_def map_sum_def intro: insert_row_keeps replace_row_keeps
      split: option.splits sum.splits if_splits)

lemma batch_rows_keeps:
  assumes "batch_rows e fld step i t xs = Inr (rs, t')"
    and "\<And>t i x r t'. step t i x = Inr (r, t') \<Longrightarrow> keeps td own_key (tx_db t) (tx_db t')"
  shows "keeps td own_key (tx_db t) (tx_db t')"
  using assms(1)
proof (induction xs arbitrary: i t rs)
  case Nil then show ?case by (simp add: keeps_def)
next
  case (Cons x xs)
  from Cons.prems obtain r t1 rs' where s: "step t i x = Inr (r, t1)"
    "batch_rows e fld step (Suc i) t1 xs = Inr (rs', t')"
    by (auto simp: Let_def split: sum.splits prod.splits if_splits)
  from assms(2) [OF s(1)] Cons.IH [OF s(2)] show ?case by (auto simp: keeps_def)
qed

lemma crud_create_keeps:
  assumes "\<And>k r. on_error k \<noteq> Created201 r"
  shows "keeps td own_key d (the (snd (crud_create td on_error e (Some d) p pj row)))"
proof -
  obtain resp od' where run: "crud_create td on_error e (Some d) p pj row = (resp, od')" by fastforce
  have "od' = Some d \<or> (\<exists>r t'. insert_row td (bound_tx d p pj) r = Inr t' \<and> od' = Some (tx_db t'))"
    using crud_create_failure [OF run] crud_create_success [of td on_error e "Some d" p pj row _ od', OF _ assms]
      run by (cases "\<exists>r. resp = Created201 r") auto
  then show ?thesis using run by (auto dest!: insert_row_keeps simp: keeps_def)
qed

lemma crud_update_keeps:
  assumes "\<And>r r'. f e r = Inr r' \<Longrightarrow> row_id r' = row_id r"
  shows "keeps td own_key d (the (snd (crud_update td nf e (Some d) p pj i f)))"
proof -
  obtain resp od' where run: "crud_update td nf e (Some d) p pj i f = (resp, od')" by fastforce
  show ?thesis
  proof (cases "\<exists>r. resp = Ok200 r")
    case True
    then obtain r where "resp = Ok200 r" by blast
    with crud_update_success [of td nf e "Some d" p pj i f r od'] run obtain x t' where
      x: "select_by_id td (bound_tx d p pj) i = Some x" "f e x = Inr r"
      "update_row td (bound_tx d p pj) i (\<lambda>_. r) = Inr (Some r, t')" "od' = Some (tx_db t')" by auto
    from x(1,3) have rep: "replace_row td (bound_tx d p pj) i r = Inr t'"
      by (auto simp: update_row_def map_sum_def split: sum.splits)
    from replace_row_keeps [OF rep] assms [OF x(2)] select_by_id_SomeD [OF x(1)] run x(4)
    show ?thesis by simp
  next
    case False
    with crud_update_failure [OF run] run show ?thesis by (auto simp: keeps_def)
  qed
qed

lemma crud_batch_keeps:
  assumes "\<And>t i x r t'. step t i x = Inr (r, t') \<Longrightarrow> keeps td own_key (tx_db t) (tx_db t')"
  shows "keeps td own_key d (the (snd (crud_batch fld step e (Some d) p pj items)))"
proof -
  obtain resp od' where run: "crud_batch fld step e (Some d) p pj items = (resp, od')" by fastforce
  have "od' = Some d \<or> (\<exists>out t'. batch_rows e fld step 0 (bound_tx d p pj) items = Inr (out, t')
      \<and> od' = Some (tx_db t'))"
    using crud_batch_failure [OF run] crud_batch_success [of fld step e "Some d" p pj items _ od'] run
    by (cases "\<exists>out. resp = BatchOk out") auto
  then show ?thesis using run batch_rows_keeps [OF _ assms] by (fastforce simp: keeps_def)
qed

end

end
