(* ===== verification/Demand_Api.thy ===== *)
theory Demand_Api
  imports Resource_Tables
begin

section \<open>Advertisers, campaigns, flights and ads\<close>

text \<open>
  \<open>src/src/advertisers.rs\<close>, \<open>campaigns.rs\<close>, \<open>flights.rs\<close>, \<open>ads.rs\<close> on the tables of
  \<open>0006_demand.sql\<close>. The foreign keys of the schema look at the whole referenced table, past
  the row-level policy. \<open>pg_timestamptz\<close> is Postgres's \<open>text::timestamptz\<close> cast.
\<close>

text \<open>A foreign key on an id column, and the error for a missing target.\<close>

definition fk_to :: "'z resource_row_scheme list \<Rightarrow> int \<Rightarrow> string \<Rightarrow> string \<Rightarrow> db_error option" where
  "fk_to target i tab con = (if list_ex (\<lambda>s. row_id s = i) target then None else Some (fk_error tab con))"

text \<open>How a create handler turns an insert error into a response.\<close>

definition create_error :: "string option \<Rightarrow> pg_error_kind \<Rightarrow> 'a api_resp" where
  "create_error fk_message kind =
     (if is_external_id_conflict kind then Conflict external_id_conflict
      else (case fk_message of
          Some m \<Rightarrow>
            if is_fk_violation kind then Unprocessable (''fk_not_found'', m)
            else InternalError (db_failed ''insert failed'')
        | None \<Rightarrow> InternalError (db_failed ''insert failed'')))"

definition blame :: "string \<Rightarrow> string \<Rightarrow> string option" where
  "blame field code = (if code = ''fk_not_found'' then Some field else None)"

subsection \<open>Advertisers\<close>

record create_advertiser_request =
  qa_external_id :: "string option"
  qa_name :: string
  qa_is_active :: "bool option"

record update_advertiser_request =
  ua_name :: "string option"
  ua_is_active :: "bool option"

record batch_advertiser_row =
  ba_external_id :: string
  ba_name :: string
  ba_is_active :: "bool option"

definition advertisers_table :: "\<lparr>row_is_active :: bool, av_name :: string\<rparr> table_desc" where
  "advertisers_table =
     \<lparr>td_name = ''advertisers'', td_rows = advertisers, td_put = (\<lambda>rows d. d\<lparr>advertisers := rows\<rparr>),
      td_check = (\<lambda>r. None), td_unique = (\<lambda>r s. None), td_fk = (\<lambda>d r. None)\<rparr>"

definition new_advertiser ::
  "env \<Rightarrow> nat \<Rightarrow> principal \<Rightarrow> string \<Rightarrow> string option \<Rightarrow> string \<Rightarrow> bool option \<Rightarrow> advertiser_row" where
  "new_advertiser e n p pj ext name act =
     \<lparr>row_id = new_id e n, row_org_id = org_id p, row_project_id = pj, row_external_id = ext,
       row_etag = new_etag e n, row_created_at = clock_ms e,
      row_updated_at = clock_ms e, row_is_active = coalesce act True, av_name = name\<rparr>"

definition create_advertiser ::
  "env \<Rightarrow> db option \<Rightarrow> principal \<Rightarrow> string \<Rightarrow> create_advertiser_request
    \<Rightarrow> advertiser_row api_resp \<times> db option" where
  "create_advertiser e od p pj req =
     crud_create advertisers_table (create_error None) e od p pj
       (Inr (new_advertiser e 0 p pj (qa_external_id req) (qa_name req) (qa_is_active req)))"

definition list_advertisers ::
  "crypto \<Rightarrow> cursor_json \<Rightarrow> env \<Rightarrow> db option \<Rightarrow> principal \<Rightarrow> string \<Rightarrow> int option \<Rightarrow> string option
    \<Rightarrow> (advertiser_row list \<times> string option) api_resp" where
  "list_advertisers = crud_list advertisers_table ''advertisers''"

definition get_advertiser ::
  "env \<Rightarrow> db option \<Rightarrow> principal \<Rightarrow> string \<Rightarrow> int \<Rightarrow> advertiser_row api_resp" where
  "get_advertiser = crud_get advertisers_table ''advertiser not found''"

definition update_advertiser ::
  "env \<Rightarrow> db option \<Rightarrow> principal \<Rightarrow> string \<Rightarrow> int \<Rightarrow> update_advertiser_request
    \<Rightarrow> advertiser_row api_resp \<times> db option" where
  "update_advertiser e od p pj i req =
     crud_update advertisers_table ''advertiser not found'' e od p pj i
       (\<lambda>e r. Inr (touch e 0 (r\<lparr>av_name := coalesce (ua_name req) (av_name r),
                               row_is_active := coalesce (ua_is_active req) (row_is_active r)\<rparr>)))"

definition upsert_advertiser ::
  "env \<Rightarrow> principal \<Rightarrow> string \<Rightarrow> tx \<Rightarrow> nat \<Rightarrow> batch_advertiser_row
    \<Rightarrow> db_error + (advertiser_row \<times> tx)" where
  "upsert_advertiser e p pj t i x =
     (let excluded = new_advertiser e i p pj (Some (ba_external_id x)) (ba_name x) (ba_is_active x)
      in upsert_row advertisers_table t excluded
           (\<lambda>r. touch e i (r\<lparr>av_name := av_name excluded, row_is_active := row_is_active excluded\<rparr>)))"

definition batch_upsert_advertisers ::
  "env \<Rightarrow> db option \<Rightarrow> principal \<Rightarrow> string \<Rightarrow> batch_advertiser_row list
    \<Rightarrow> advertiser_row batch_resp \<times> db option" where
  "batch_upsert_advertisers e od p pj items =
     crud_batch (\<lambda>code. None) (upsert_advertiser e p pj) e od p pj items"

subsection \<open>Campaigns\<close>

record create_campaign_request =
  qc_external_id :: "string option"
  qc_advertiser_id :: int
  qc_name :: string
  qc_is_active :: "bool option"

record update_campaign_request =
  uc_name :: "string option"
  uc_is_active :: "bool option"

record batch_campaign_row =
  bc_external_id :: string
  bc_advertiser_id :: int
  bc_name :: string
  bc_is_active :: "bool option"

definition campaigns_table :: "\<lparr>row_is_active :: bool, cp_advertiser_id :: int, cp_name :: string\<rparr> table_desc" where
  "campaigns_table =
     \<lparr>td_name = ''campaigns'', td_rows = campaigns, td_put = (\<lambda>rows d. d\<lparr>campaigns := rows\<rparr>),
      td_check = (\<lambda>r. None), td_unique = (\<lambda>r s. None),
      td_fk = (\<lambda>d r. fk_to (advertisers d) (cp_advertiser_id r) ''campaigns'' ''campaigns_advertiser_id_fkey'')\<rparr>"

definition new_campaign ::
  "env \<Rightarrow> nat \<Rightarrow> principal \<Rightarrow> string \<Rightarrow> string option \<Rightarrow> int \<Rightarrow> string \<Rightarrow> bool option \<Rightarrow> campaign_row" where
  "new_campaign e n p pj ext adv name act =
     \<lparr>row_id = new_id e n, row_org_id = org_id p, row_project_id = pj, row_external_id = ext,
       row_etag = new_etag e n, row_created_at = clock_ms e,
      row_updated_at = clock_ms e, row_is_active = coalesce act True, cp_advertiser_id = adv, cp_name = name\<rparr>"

definition create_campaign ::
  "env \<Rightarrow> db option \<Rightarrow> principal \<Rightarrow> string \<Rightarrow> create_campaign_request \<Rightarrow> campaign_row api_resp \<times> db option" where
  "create_campaign e od p pj req =
     crud_create campaigns_table (create_error (Some ''advertiser_id does not exist in this project''))
       e od p pj
       (Inr (new_campaign e 0 p pj (qc_external_id req) (qc_advertiser_id req) (qc_name req) (qc_is_active req)))"

definition list_campaigns ::
  "crypto \<Rightarrow> cursor_json \<Rightarrow> env \<Rightarrow> db option \<Rightarrow> principal \<Rightarrow> string \<Rightarrow> int option \<Rightarrow> string option
    \<Rightarrow> (campaign_row list \<times> string option) api_resp" where
  "list_campaigns = crud_list campaigns_table ''campaigns''"

definition get_campaign ::
  "env \<Rightarrow> db option \<Rightarrow> principal \<Rightarrow> string \<Rightarrow> int \<Rightarrow> campaign_row api_resp" where
  "get_campaign = crud_get campaigns_table ''campaign not found''"

definition update_campaign ::
  "env \<Rightarrow> db option \<Rightarrow> principal \<Rightarrow> string \<Rightarrow> int \<Rightarrow> update_campaign_request
    \<Rightarrow> campaign_row api_resp \<times> db option" where
  "update_campaign e od p pj i req =
     crud_update campaigns_table ''campaign not found'' e od p pj i
       (\<lambda>e r. Inr (touch e 0 (r\<lparr>cp_name := coalesce (uc_name req) (cp_name r),
                               row_is_active := coalesce (uc_is_active req) (row_is_active r)\<rparr>)))"

definition upsert_campaign ::
  "env \<Rightarrow> principal \<Rightarrow> string \<Rightarrow> tx \<Rightarrow> nat \<Rightarrow> batch_campaign_row \<Rightarrow> db_error + (campaign_row \<times> tx)" where
  "upsert_campaign e p pj t i x =
     (let excluded = new_campaign e i p pj (Some (bc_external_id x)) (bc_advertiser_id x) (bc_name x)
                       (bc_is_active x)
      in upsert_row campaigns_table t excluded
           (\<lambda>r. touch e i (r\<lparr>cp_advertiser_id := cp_advertiser_id excluded, cp_name := cp_name excluded,
                             row_is_active := row_is_active excluded\<rparr>)))"

definition batch_upsert_campaigns ::
  "env \<Rightarrow> db option \<Rightarrow> principal \<Rightarrow> string \<Rightarrow> batch_campaign_row list
    \<Rightarrow> campaign_row batch_resp \<times> db option" where
  "batch_upsert_campaigns e od p pj items =
     crud_batch (blame ''advertiserId'') (upsert_campaign e p pj) e od p pj items"

subsection \<open>Flights\<close>

record create_flight_request =
  qf_external_id :: "string option"
  qf_campaign_id :: int
  qf_name :: string
  qf_priority_id :: int
  qf_start_date :: "string option"
  qf_end_date :: "string option"
  qf_site_ids :: "int list option"
  qf_zone_ids :: "int list option"
  qf_ad_types :: "int list"
  qf_is_active :: "bool option"

record update_flight_request =
  uf_name :: "string option"
  uf_priority_id :: "int option"
  uf_start_date :: "string option"
  uf_end_date :: "string option"
  uf_site_ids :: "int list option"
  uf_zone_ids :: "int list option"
  uf_ad_types :: "int list option"
  uf_is_active :: "bool option"

definition flights_table ::
  "\<lparr>row_is_active :: bool, fr_campaign_id :: int, fr_name :: string, fr_priority_id :: int, fr_start_date :: int option,
    fr_end_date :: int option, fr_site_ids :: int list, fr_zone_ids :: int list,
    fr_ad_types :: int list\<rparr> table_desc" where
  "flights_table =
     \<lparr>td_name = ''flights'', td_rows = flights, td_put = (\<lambda>rows d. d\<lparr>flights := rows\<rparr>),
      td_check = (\<lambda>r. None), td_unique = (\<lambda>r s. None),
      td_fk = (\<lambda>d r. fk_to (campaigns d) (fr_campaign_id r) ''flights'' ''flights_campaign_id_fkey'')\<rparr>"

text \<open>A nullable text parameter cast to \<open>timestamptz\<close>.\<close>

definition cast_ts :: "(string \<Rightarrow> int option) \<Rightarrow> string option \<Rightarrow> db_error + int option" where
  "cast_ts pg_timestamptz v =
     (case v of
        None \<Rightarrow> Inr None
      | Some s \<Rightarrow>
          (case pg_timestamptz s of
             Some t \<Rightarrow> Inr (Some t)
           | None \<Rightarrow> Inl (DatabaseError (Some ''22007'') None
               (''invalid input syntax for type timestamp with time zone: '' @ debug_str s))))"

definition new_flight ::
  "(string \<Rightarrow> int option) \<Rightarrow> env \<Rightarrow> nat \<Rightarrow> principal \<Rightarrow> string \<Rightarrow> create_flight_request
    \<Rightarrow> db_error + flight_row" where
  "new_flight ts e n p pj q =
     (case cast_ts ts (qf_start_date q) of
        Inl er \<Rightarrow> Inl er
      | Inr s \<Rightarrow>
     (case cast_ts ts (qf_end_date q) of
        Inl er \<Rightarrow> Inl er
      | Inr t \<Rightarrow>
          Inr \<lparr>row_id = new_id e n, row_org_id = org_id p, row_project_id = pj,
               row_external_id = qf_external_id q, 
               row_etag = new_etag e n, row_created_at = clock_ms e, row_updated_at = clock_ms e, row_is_active = coalesce (qf_is_active q) True,
               fr_campaign_id = qf_campaign_id q, fr_name = qf_name q,
               fr_priority_id = qf_priority_id q, fr_start_date = s, fr_end_date = t,
               fr_site_ids = coalesce (qf_site_ids q) [], fr_zone_ids = coalesce (qf_zone_ids q) [],
               fr_ad_types = qf_ad_types q\<rparr>))"

definition create_flight ::
  "(string \<Rightarrow> int option) \<Rightarrow> env \<Rightarrow> db option \<Rightarrow> principal \<Rightarrow> string \<Rightarrow> create_flight_request
    \<Rightarrow> flight_row api_resp \<times> db option" where
  "create_flight ts e od p pj req =
     (if qf_ad_types req = [] then
        (BadRequest (''ad_types_required'', ''ad_types must be a non-empty array''), od)
      else crud_create flights_table (create_error (Some ''campaign_id does not exist in this project''))
             e od p pj (new_flight ts e 0 p pj req))"

definition list_flights ::
  "crypto \<Rightarrow> cursor_json \<Rightarrow> env \<Rightarrow> db option \<Rightarrow> principal \<Rightarrow> string \<Rightarrow> int option \<Rightarrow> string option
    \<Rightarrow> (flight_row list \<times> string option) api_resp" where
  "list_flights = crud_list flights_table ''flights''"

definition get_flight ::
  "env \<Rightarrow> db option \<Rightarrow> principal \<Rightarrow> string \<Rightarrow> int \<Rightarrow> flight_row api_resp" where
  "get_flight = crud_get flights_table ''flight not found''"

definition patch_flight ::
  "(string \<Rightarrow> int option) \<Rightarrow> update_flight_request \<Rightarrow> env \<Rightarrow> flight_row \<Rightarrow> db_error + flight_row" where
  "patch_flight ts req e r =
     (case cast_ts ts (uf_start_date req) of
        Inl er \<Rightarrow> Inl er
      | Inr s \<Rightarrow>
     (case cast_ts ts (uf_end_date req) of
        Inl er \<Rightarrow> Inl er
      | Inr t \<Rightarrow>
          Inr (touch e 0 (r
            \<lparr>fr_name := coalesce (uf_name req) (fr_name r),
             fr_priority_id := coalesce (uf_priority_id req) (fr_priority_id r),
             fr_start_date := (if s = None then fr_start_date r else s),
             fr_end_date := (if t = None then fr_end_date r else t),
             fr_site_ids := coalesce (uf_site_ids req) (fr_site_ids r),
             fr_zone_ids := coalesce (uf_zone_ids req) (fr_zone_ids r),
             fr_ad_types := coalesce (uf_ad_types req) (fr_ad_types r),
             row_is_active := coalesce (uf_is_active req) (row_is_active r)\<rparr>))))"

definition update_flight ::
  "(string \<Rightarrow> int option) \<Rightarrow> env \<Rightarrow> db option \<Rightarrow> principal \<Rightarrow> string \<Rightarrow> int \<Rightarrow> update_flight_request
    \<Rightarrow> flight_row api_resp \<times> db option" where
  "update_flight ts e od p pj i req =
     crud_update flights_table ''flight not found'' e od p pj i (patch_flight ts req)"

text \<open>A batch row has the fields of a create request, its external id required.\<close>

definition upsert_flight ::
  "(string \<Rightarrow> int option) \<Rightarrow> env \<Rightarrow> principal \<Rightarrow> string \<Rightarrow> tx \<Rightarrow> nat \<Rightarrow> string \<times> create_flight_request
    \<Rightarrow> db_error + (flight_row \<times> tx)" where
  "upsert_flight ts e p pj t i x =
     (case new_flight ts e i p pj ((snd x)\<lparr>qf_external_id := Some (fst x)\<rparr>) of
        Inl er \<Rightarrow> Inl er
      | Inr excluded \<Rightarrow>
          upsert_row flights_table t excluded
            (\<lambda>r. touch e i (r
               \<lparr>fr_campaign_id := fr_campaign_id excluded, fr_name := fr_name excluded,
                fr_priority_id := fr_priority_id excluded, fr_start_date := fr_start_date excluded,
                fr_end_date := fr_end_date excluded, fr_site_ids := fr_site_ids excluded,
                fr_zone_ids := fr_zone_ids excluded, fr_ad_types := fr_ad_types excluded,
                row_is_active := row_is_active excluded\<rparr>)))"

fun first_without_ad_types :: "nat \<Rightarrow> (string \<times> create_flight_request) list \<Rightarrow> nat option" where
  "first_without_ad_types i [] = None"
| "first_without_ad_types i (x # xs) =
     (if qf_ad_types (snd x) = [] then Some i else first_without_ad_types (Suc i) xs)"

definition batch_upsert_flights ::
  "(string \<Rightarrow> int option) \<Rightarrow> env \<Rightarrow> db option \<Rightarrow> principal \<Rightarrow> string \<Rightarrow> (string \<times> create_flight_request) list
    \<Rightarrow> flight_row batch_resp \<times> db option" where
  "batch_upsert_flights ts e od p pj items =
     (if od = None then (BatchInternal no_db, od)
      else case first_without_ad_types 0 items of
        Some i \<Rightarrow>
          (PartialFailure (partial_failure (length items)
             [\<lparr>bd_index = int i, bd_field = Some ''adTypes'', bd_code = ''validation_failed'',
               bd_message = ''ad_types must be a non-empty array''\<rparr>]), od)
      | None \<Rightarrow> crud_batch (blame ''campaignId'') (upsert_flight ts e p pj) e od p pj items)"

subsection \<open>Ads\<close>

record create_ad_request =
  qd_external_id :: "string option"
  qd_flight_id :: int
  qd_creative_id :: int
  qd_weight :: "int option"
  qd_is_active :: "bool option"

record update_ad_request =
  ud_creative_id :: "int option"
  ud_weight :: "int option"
  ud_is_active :: "bool option"

definition ads_table ::
  "\<lparr>row_is_active :: bool, ar_flight_id :: int, ar_creative_id :: int option, ar_ad_library_item_id :: string option,
    ar_weight :: int\<rparr> table_desc" where
  "ads_table =
     \<lparr>td_name = ''ads'', td_rows = ads, td_put = (\<lambda>rows d. d\<lparr>ads := rows\<rparr>),
      td_check = (\<lambda>r. if (ar_creative_id r = None) \<noteq> (ar_ad_library_item_id r = None) then None
                     else Some (check_error ''ads'' ''ads_kind_check'')),
      td_unique = (\<lambda>r s. None),
      td_fk = (\<lambda>d r. case fk_to (flights d) (ar_flight_id r) ''ads'' ''ads_flight_id_fkey'' of
                       Some er \<Rightarrow> Some er
                     | None \<Rightarrow> (case ar_creative_id r of
                           None \<Rightarrow> None
                         | Some c \<Rightarrow> fk_to (creatives d) c ''ads'' ''ads_creative_id_fkey''))\<rparr>"

definition new_ad ::
  "env \<Rightarrow> nat \<Rightarrow> principal \<Rightarrow> string \<Rightarrow> string option \<Rightarrow> int \<Rightarrow> int \<Rightarrow> int option \<Rightarrow> bool option \<Rightarrow> ad_row" where
  "new_ad e n p pj ext flight_id creative_id w act =
     \<lparr>row_id = new_id e n, row_org_id = org_id p, row_project_id = pj, row_external_id = ext,
       row_etag = new_etag e n, row_created_at = clock_ms e,
      row_updated_at = clock_ms e, row_is_active = coalesce act True, ar_flight_id = flight_id, ar_creative_id = Some creative_id,
      ar_ad_library_item_id = None, ar_weight = coalesce w 100\<rparr>"

definition create_ad ::
  "env \<Rightarrow> db option \<Rightarrow> principal \<Rightarrow> string \<Rightarrow> create_ad_request \<Rightarrow> ad_row api_resp \<times> db option" where
  "create_ad e od p pj req =
     crud_create ads_table (create_error (Some ''flight_id or creative_id does not exist in this project''))
       e od p pj
       (Inr (new_ad e 0 p pj (qd_external_id req) (qd_flight_id req) (qd_creative_id req)
               (qd_weight req) (qd_is_active req)))"

definition list_ads ::
  "crypto \<Rightarrow> cursor_json \<Rightarrow> env \<Rightarrow> db option \<Rightarrow> principal \<Rightarrow> string \<Rightarrow> int option \<Rightarrow> string option
    \<Rightarrow> (ad_row list \<times> string option) api_resp" where
  "list_ads = crud_list ads_table ''ads''"

definition get_ad :: "env \<Rightarrow> db option \<Rightarrow> principal \<Rightarrow> string \<Rightarrow> int \<Rightarrow> ad_row api_resp" where
  "get_ad = crud_get ads_table ''ad not found''"

definition update_ad ::
  "env \<Rightarrow> db option \<Rightarrow> principal \<Rightarrow> string \<Rightarrow> int \<Rightarrow> update_ad_request \<Rightarrow> ad_row api_resp \<times> db option" where
  "update_ad e od p pj i req =
     crud_update ads_table ''ad not found'' e od p pj i
       (\<lambda>e r. Inr (touch e 0 (r
          \<lparr>ar_creative_id := (if ud_creative_id req = None then ar_creative_id r else ud_creative_id req),
           ar_weight := coalesce (ud_weight req) (ar_weight r),
           row_is_active := coalesce (ud_is_active req) (row_is_active r)\<rparr>)))"

definition upsert_ad ::
  "env \<Rightarrow> principal \<Rightarrow> string \<Rightarrow> tx \<Rightarrow> nat \<Rightarrow> string \<times> create_ad_request \<Rightarrow> db_error + (ad_row \<times> tx)" where
  "upsert_ad e p pj t i x =
     (let excluded = new_ad e i p pj (Some (fst x)) (qd_flight_id (snd x)) (qd_creative_id (snd x))
                       (qd_weight (snd x)) (qd_is_active (snd x))
      in upsert_row ads_table t excluded
           (\<lambda>r. touch e i (r\<lparr>ar_flight_id := ar_flight_id excluded, ar_creative_id := ar_creative_id excluded,
                             ar_weight := ar_weight excluded, row_is_active := row_is_active excluded\<rparr>)))"

definition batch_upsert_ads ::
  "env \<Rightarrow> db option \<Rightarrow> principal \<Rightarrow> string \<Rightarrow> (string \<times> create_ad_request) list
    \<Rightarrow> ad_row batch_resp \<times> db option" where
  "batch_upsert_ads e od p pj items =
     crud_batch (blame ''flightId'') (upsert_ad e p pj) e od p pj items"

subsection \<open>The tables keep the tenant contract\<close>

interpretation adv: tenant_table advertisers_table
  by unfold_locales (simp_all add: advertisers_table_def)

interpretation cmp: tenant_table campaigns_table
  by unfold_locales (simp_all add: campaigns_table_def)

interpretation flt: tenant_table flights_table
  by unfold_locales (simp_all add: flights_table_def)

interpretation adt: tenant_table ads_table
  by unfold_locales (simp_all add: ads_table_def)

subsection \<open>Properties\<close>

lemma create_error_not_created: "create_error m k \<noteq> Created201 r"
  by (auto simp: create_error_def split: option.splits)

lemma new_flight_project: "new_flight ts e n p pj q = Inr r \<Longrightarrow> row_project_id r = pj"
  by (auto simp: new_flight_def split: sum.splits)

lemma patch_flight_keys:
  "patch_flight ts req e r = Inr r' \<Longrightarrow> row_id r' = row_id r \<and> row_project_id r' = row_project_id r"
  by (auto simp: patch_flight_def split: sum.splits)

lemma upsert_step_confined:
  "upsert_advertiser e p pj t i xa = Inr (ra, t') \<Longrightarrow> guc_project_id t = Some pj \<Longrightarrow>
     guc_project_id t' = Some pj \<and> confined advertisers_table pj (tx_db t) (tx_db t')"
  "upsert_campaign e p pj t i xc = Inr (rc, t') \<Longrightarrow> guc_project_id t = Some pj \<Longrightarrow>
     guc_project_id t' = Some pj \<and> confined campaigns_table pj (tx_db t) (tx_db t')"
  "upsert_flight ts e p pj t i xf = Inr (rf, t') \<Longrightarrow> guc_project_id t = Some pj \<Longrightarrow>
     guc_project_id t' = Some pj \<and> confined flights_table pj (tx_db t) (tx_db t')"
  "upsert_ad e p pj t i xd = Inr (rd, t') \<Longrightarrow> guc_project_id t = Some pj \<Longrightarrow>
     guc_project_id t' = Some pj \<and> confined ads_table pj (tx_db t) (tx_db t')"
  by (auto simp: upsert_advertiser_def upsert_campaign_def upsert_flight_def upsert_ad_def Let_def
      elim!: adv.upsert_confined cmp.upsert_confined flt.upsert_confined adt.upsert_confined
      split: sum.splits)

text \<open>
  C14: whatever request an editor of a project sends to the demand endpoints, and whatever
  statements fail, the write keeps the keys of the table, changes no row of another project,
  no project and not the configuration version.
\<close>

theorem demand_writes_confined:
  "confined advertisers_table pj d (the (snd (create_advertiser e (Some d) p pj qa)))
   \<and> confined advertisers_table pj d (the (snd (update_advertiser e (Some d) p pj i ua)))
   \<and> confined advertisers_table pj d (the (snd (batch_upsert_advertisers e (Some d) p pj bas)))
   \<and> confined campaigns_table pj d (the (snd (create_campaign e (Some d) p pj qc)))
   \<and> confined campaigns_table pj d (the (snd (update_campaign e (Some d) p pj i uc)))
   \<and> confined campaigns_table pj d (the (snd (batch_upsert_campaigns e (Some d) p pj bcs)))
   \<and> confined flights_table pj d (the (snd (create_flight ts e (Some d) p pj qf)))
   \<and> confined flights_table pj d (the (snd (update_flight ts e (Some d) p pj i uf)))
   \<and> confined flights_table pj d (the (snd (batch_upsert_flights ts e (Some d) p pj bfs)))
   \<and> confined ads_table pj d (the (snd (create_ad e (Some d) p pj qd)))
   \<and> confined ads_table pj d (the (snd (update_ad e (Some d) p pj i ud)))
   \<and> confined ads_table pj d (the (snd (batch_upsert_ads e (Some d) p pj bds)))"
proof (intro conjI, goal_cases)
  case 1 show ?case unfolding create_advertiser_def
    by (rule adv.crud_create_confined) (auto simp: create_error_not_created new_advertiser_def)
next
  case 2 show ?case unfolding update_advertiser_def by (rule adv.crud_update_confined) auto
next
  case 3 show ?case unfolding batch_upsert_advertisers_def
    by (rule adv.crud_batch_confined) (rule upsert_step_confined(1))
next
  case 4 show ?case unfolding create_campaign_def
    by (rule cmp.crud_create_confined) (auto simp: create_error_not_created new_campaign_def)
next
  case 5 show ?case unfolding update_campaign_def by (rule cmp.crud_update_confined) auto
next
  case 6 show ?case unfolding batch_upsert_campaigns_def
    by (rule cmp.crud_batch_confined) (rule upsert_step_confined(2))
next
  case 7 show ?case unfolding create_flight_def
    by (auto intro!: flt.crud_create_confined simp: create_error_not_created new_flight_project)
next
  case 8 show ?case unfolding update_flight_def
    by (rule flt.crud_update_confined) (rule patch_flight_keys)
next
  case 9 show ?case unfolding batch_upsert_flights_def
    by (auto intro!: flt.crud_batch_confined dest: upsert_step_confined(3) split: option.splits)
next
  case 10 show ?case unfolding create_ad_def
    by (rule adt.crud_create_confined) (auto simp: create_error_not_created new_ad_def)
next
  case 11 show ?case unfolding update_ad_def by (rule adt.crud_update_confined) auto
next
  case 12 show ?case unfolding batch_upsert_ads_def
    by (rule adt.crud_batch_confined) (rule upsert_step_confined(4))
qed

definition editor :: principal where
  "editor = \<lparr>token_type = Opaque, scope = Org, org_id = ''o'', project_id = None, role = Editor,
             actor_id = ''t''\<rparr>"

definition advertiser_of :: "int \<Rightarrow> string \<Rightarrow> string \<Rightarrow> string option \<Rightarrow> advertiser_row" where
  "advertiser_of i oid pid ext =
     \<lparr>row_id = i, row_org_id = oid, row_project_id = pid, row_external_id = ext, 
      row_etag = ''x'', row_created_at = 0, row_updated_at = 0, row_is_active = False, av_name = ''acme''\<rparr>"

definition demand_db :: db where
  "demand_db = tenant_db\<lparr>advertisers :=
     [advertiser_of 70 ''o'' ''pj'' (Some ''a''), advertiser_of 71 ''other'' ''px'' (Some ''a'')]\<rparr>"

lemma open_demand:
  "open_project_tx (calm_env t) demand_db editor ''pj'' Editor = Inr (bound_tx demand_db editor ''pj'')"
  "open_project_tx (calm_env t) demand_db editor ''pj'' Reader = Inr (bound_tx demand_db editor ''pj'')"
  by (simp_all add: open_project_tx_no_fault editor_def has_role_at_least_def less_eq_role_def
      addresses_def in_org_def demand_db_def tenant_db_def sample_project_row_def)

text \<open>
  a read of the demand endpoints returns rows of the addressed project only, to a
  principal of the org that owns it; the row of a \<open>GET\<close> is the one with the path's id.
\<close>

theorem demand_reads_own_project:
  "(get_advertiser e od p pj i = Ok200 ra \<longrightarrow>
      (\<exists>d. od = Some d \<and> in_org d (org_id p) pj \<and> row_project_id ra = pj \<and> row_id ra = i))
   \<and> (get_campaign e od p pj i = Ok200 rc \<longrightarrow>
      (\<exists>d. od = Some d \<and> in_org d (org_id p) pj \<and> row_project_id rc = pj \<and> row_id rc = i))
   \<and> (list_flights cr j e od p pj limit cursor = Ok200 (fs, nf) \<longrightarrow>
      (\<exists>d. od = Some d \<and> in_org d (org_id p) pj \<and> set fs \<subseteq> {r \<in> set (flights d). row_project_id r = pj}))
   \<and> (list_ads cr j e od p pj limit cursor = Ok200 (as, na) \<longrightarrow>
      (\<exists>d. od = Some d \<and> in_org d (org_id p) pj \<and> set as \<subseteq> {r \<in> set (ads d). row_project_id r = pj}))"
  unfolding get_advertiser_def get_campaign_def list_flights_def list_ads_def
  using crud_list_rows [of flights_table _ cr j e od p pj limit cursor fs nf]
    crud_list_rows [of ads_table _ cr j e od p pj limit cursor as na]
  by (auto dest!: crud_get_success simp: flights_table_def ads_table_def)

theorem demand_reads_own_project_witness:
  "get_advertiser (calm_env 0) (Some demand_db) editor ''pj'' 70 = Ok200 (advertiser_of 70 ''o'' ''pj'' (Some ''a''))
   \<and> in_org demand_db ''o'' ''pj''
   \<and> get_advertiser (calm_env 0) (Some demand_db) editor ''pj'' 71 = NotFound (''not_found'', ''advertiser not found'')"
proof -
  have get: "get_advertiser (calm_env 0) (Some demand_db) editor ''pj'' 70
      = Ok200 (advertiser_of 70 ''o'' ''pj'' (Some ''a''))"
    "get_advertiser (calm_env 0) (Some demand_db) editor ''pj'' 71 = NotFound (''not_found'', ''advertiser not found'')"
    by (simp_all add: get_advertiser_def crud_get_def open_demand select_by_id_def visible_rows_def
        advertisers_table_def) (simp_all add: demand_db_def advertiser_of_def row_visible_def)
  have "in_org demand_db (org_id editor) ''pj''"
    using demand_reads_own_project [of "calm_env 0" "Some demand_db" editor "''pj''" 70
        "advertiser_of 70 ''o'' ''pj'' (Some ''a'')"] get(1) by auto
  with get show ?thesis by (simp add: editor_def)
qed

subsection \<open>Batches, patches and references\<close>

text \<open>
  a batch is all or nothing: when a row fails the database is unchanged and the response
  names that one row, within the request; when it succeeds there is one result per row.
\<close>

theorem batch_all_or_nothing:
  "case crud_batch field_of step e od p pj items of
     (BatchOk out, od') \<Rightarrow> length out = length items
   | (PartialFailure b, od') \<Rightarrow> od' = od \<and> (\<exists>dt. be_details b = [dt] \<and> 0 \<le> bd_index dt
        \<and> bd_index dt < int (length items)
        \<and> be_message b = ''1 of '' @ show_nat (length items) @ '' rows failed validation'')
   | (_, od') \<Rightarrow> od' = od"
proof -
  obtain resp od' where run: "crud_batch field_of step e od p pj items = (resp, od')" by fastforce
  have one: "show_nat 1 = ''1''" by code_simp
  show ?thesis
  proof (cases resp)
    case (BatchOk out)
    with run crud_batch_success [of field_of step e od p pj items out od'] batch_rows_length
    show ?thesis by auto
  next
    case (PartialFailure b)
    then have od: "od' = od" using crud_batch_failure [OF run] by auto
    from run PartialFailure obtain t dt where
      b: "batch_rows e field_of step 0 t items = Inl dt" "b = partial_failure (length items) [dt]"
      by (auto simp: crud_batch_def split: option.splits sum.splits prod.splits if_splits)
    from batch_rows_detail [OF b(1)] b(2) od run PartialFailure one show ?thesis
      by (simp add: partial_failure_def)
  qed (use run crud_batch_failure [OF run] in auto)
qed

text \<open>
  a \<open>PATCH\<close> of a campaign answers with the stored row in which exactly the given fields,
  the etag and \<open>updated_at\<close> are new, and replaces that row alone.
\<close>

theorem patch_changes_given_fields:
  assumes "update_campaign e (Some d) p pj i req = (Ok200 r, Some d')"
  shows "\<exists>x \<in> set (campaigns d). row_id x = i \<and> row_project_id x = pj
    \<and> r = x\<lparr>cp_name := (case uc_name req of Some n \<Rightarrow> n | None \<Rightarrow> cp_name x),
            row_is_active := (case uc_is_active req of Some b \<Rightarrow> b | None \<Rightarrow> row_is_active x),
            row_etag := new_etag e 0, row_updated_at := clock_ms e\<rparr>
    \<and> campaigns d' = map (\<lambda>s. if row_id s = i then r else s) (campaigns d)"
proof -
  from crud_update_success [OF assms [unfolded update_campaign_def]] obtain x t' where
    x: "select_by_id campaigns_table (bound_tx d p pj) i = Some x"
    and r: "r = touch e 0 (x\<lparr>cp_name := coalesce (uc_name req) (cp_name x),
                             row_is_active := coalesce (uc_is_active req) (row_is_active x)\<rparr>)"
    and upd: "update_row campaigns_table (bound_tx d p pj) i (\<lambda>_. r) = Inr (Some r, t')"
    and d': "d' = tx_db t'" by auto
  from x upd have rep: "replace_row campaigns_table (bound_tx d p pj) i r = Inr t'"
    by (auto simp: update_row_def map_sum_def split: sum.splits)
  note sx = select_by_id_SomeD [OF x]
  from cmp.replace_row_InrD [OF rep, of x] sx r d' show ?thesis
    by (intro bexI [of _ x]) (auto simp: campaigns_table_def touch_def coalesce_def)
qed

definition campaign_of :: "int \<Rightarrow> int \<Rightarrow> campaign_row" where
  "campaign_of i adv =
     \<lparr>row_id = i, row_org_id = ''o'', row_project_id = ''pj'', row_external_id = None, 
      row_etag = ''x'', row_created_at = 0, row_updated_at = 0, row_is_active = True, cp_advertiser_id = adv, cp_name = ''c''\<rparr>"

definition campaign_db :: db where
  "campaign_db = demand_db\<lparr>campaigns := [campaign_of 5 70]\<rparr>"

lemma open_campaign:
  "open_project_tx (calm_env t) campaign_db editor ''pj'' Editor = Inr (bound_tx campaign_db editor ''pj'')"
  by (simp_all add: open_project_tx_no_fault editor_def has_role_at_least_def less_eq_role_def
      addresses_def in_org_def campaign_db_def demand_db_def tenant_db_def sample_project_row_def)

lemmas demand_rows = demand_db_def advertiser_of_def campaign_db_def campaign_of_def

lemmas campaign_eval = crud_update_def update_commit_def crud_create_def insert_commit_def open_campaign select_by_id_def visible_rows_def
  row_visible_def [abs_def] update_row_def replace_row_def insert_row_def write_check_def violated_def
  put_rows_def commit_def campaigns_table_def same_external_def fk_to_def

theorem patch_changes_given_fields_witness:
  "\<exists>d'. update_campaign (calm_env 9) (Some campaign_db) editor ''pj'' 5 \<lparr>uc_name = None, uc_is_active = Some False\<rparr>
      = (Ok200 ((campaign_of 5 70)\<lparr>row_is_active := False, row_etag := ''e'', row_updated_at := 9\<rparr>), Some d')
    \<and> campaigns d' = [(campaign_of 5 70)\<lparr>row_is_active := False, row_etag := ''e'', row_updated_at := 9\<rparr>]"
proof -
  let ?r = "(campaign_of 5 70)\<lparr>row_is_active := False, row_etag := ''e'', row_updated_at := 9\<rparr>"
  obtain d' where run: "update_campaign (calm_env 9) (Some campaign_db) editor ''pj'' 5
      \<lparr>uc_name = None, uc_is_active = Some False\<rparr> = (Ok200 ?r, Some d')"
    by (simp add: update_campaign_def campaign_eval)
       (simp add: campaign_eval demand_rows coalesce_def touch_def calm_env_def tenant_db_def Let_def)
  from patch_changes_given_fields [OF run] have "campaigns d' = [?r]"
    by (auto simp: campaign_db_def campaign_of_def)
  with run show ?thesis by blast
qed

text \<open>
  an upserted advertiser is active unless its row says otherwise, also when it existed
  and was inactive: \<open>EXCLUDED.is_active\<close> is never null, so the old flag never survives.
\<close>

theorem upsert_overwrites_active_flag:
  assumes "upsert_advertiser e p pj t i x = Inr (r, t')"
  shows "row_is_active r = (case ba_is_active x of Some b \<Rightarrow> b | None \<Rightarrow> True)"
  using assms
  by (auto simp: upsert_advertiser_def upsert_row_def new_advertiser_def touch_def coalesce_def
      map_sum_def Let_def split: option.splits sum.splits if_splits)

theorem upsert_overwrites_active_flag_witness:
  "\<not> row_is_active (hd (advertisers demand_db))
   \<and> (\<exists>r t'. upsert_advertiser (calm_env 5) editor ''pj'' (bound_tx demand_db editor ''pj'') 0
         \<lparr>ba_external_id = ''a'', ba_name = ''n'', ba_is_active = None\<rparr> = Inr (r, t')
       \<and> row_id r = 70 \<and> row_is_active r)"
proof -
  let ?x = "\<lparr>ba_external_id = ''a'', ba_name = ''n'', ba_is_active = None\<rparr>"
  obtain r t' where run: "upsert_advertiser (calm_env 5) editor ''pj'' (bound_tx demand_db editor ''pj'') 0 ?x
      = Inr (r, t')" "row_id r = 70"
    by (simp add: upsert_advertiser_def upsert_row_def new_advertiser_def Let_def same_external_def
        replace_row_def write_check_def violated_def row_visible_def [abs_def] advertisers_table_def)
       (simp add: demand_rows map_sum_def row_visible_def replace_row_def write_check_def violated_def
        put_rows_def touch_def bound_tx_sel Let_def same_external_def coalesce_def)
  from upsert_overwrites_active_flag [OF run(1)] run show ?thesis
    by (auto simp: demand_db_def advertiser_of_def)
qed

text \<open>
  the reference check looks past the tenant: a campaign is created on an advertiser of
  another org's project, which the message calls missing from this project.
\<close>

theorem reference_may_cross_tenants:
  "\<exists>r d'. create_campaign (calm_env 0) (Some demand_db) editor ''pj''
       \<lparr>qc_external_id = None, qc_advertiser_id = 71, qc_name = ''c'', qc_is_active = None\<rparr>
     = (Created201 r, Some d') \<and> cp_advertiser_id r = 71
   \<and> get_advertiser (calm_env 0) (Some demand_db) editor ''pj'' 71 = NotFound (''not_found'', ''advertiser not found'')"
  by (simp add: create_campaign_def get_advertiser_def crud_get_def campaign_eval open_demand
      new_campaign_def map_sum_def)
     (simp add: campaign_eval demand_rows advertisers_table_def tenant_db_def empty_db_def bound_tx_sel)

end
