(* ===== verification/Inventory_Api.thy ===== *)
theory Inventory_Api
  imports Demand_Api
begin

section \<open>Sites and zones\<close>

text \<open>
  \<open>src/src/sites.rs\<close> and \<open>zones.rs\<close> on the tables of \<open>0007_inventory.sql\<close>. A site has a
  second key, \<open>(project_id, url)\<close>; a zone refers to a site.
\<close>

subsection \<open>Sites\<close>

record create_site_request =
  qs_external_id :: "string option"
  qs_channel_id :: "int option"
  qs_name :: string
  qs_url :: string
  qs_aliases :: "string list option"
  qs_is_active :: "bool option"

record upsert_site_by_url_request =
  qu_url :: string
  qu_name :: string
  qu_aliases :: "string list option"
  qu_channel_id :: "int option"

record update_site_request =
  us_name :: "string option"
  us_aliases :: "string list option"
  us_channel_id :: "int option"
  us_is_active :: "bool option"

record batch_site_row =
  bs_external_id :: string
  bs_channel_id :: "int option"
  bs_name :: string
  bs_url :: string
  bs_aliases :: "string list option"
  bs_is_active :: "bool option"

definition sites_table ::
  "\<lparr>row_is_active :: bool, si_channel_id :: int option, si_name :: string, si_url :: string, si_aliases :: string list\<rparr> table_desc" where
  "sites_table =
     \<lparr>td_name = ''sites'', td_rows = sites, td_put = (\<lambda>rows d. d\<lparr>sites := rows\<rparr>),
      td_check = (\<lambda>r. None),
      td_unique = (\<lambda>r s. if row_project_id r = row_project_id s \<and> si_url r = si_url s
                          then Some ''sites_project_id_url_key'' else None),
      td_fk = (\<lambda>d r. None)\<rparr>"

definition new_site ::
  "env \<Rightarrow> nat \<Rightarrow> principal \<Rightarrow> string \<Rightarrow> string option \<Rightarrow> int option \<Rightarrow> string \<Rightarrow> string
    \<Rightarrow> string list option \<Rightarrow> bool option \<Rightarrow> site_row" where
  "new_site e n p pj ext channel name url aliases act =
     \<lparr>row_id = new_id e n, row_org_id = org_id p, row_project_id = pj, row_external_id = ext,
       row_etag = new_etag e n, row_created_at = clock_ms e,
      row_updated_at = clock_ms e, row_is_active = coalesce act True, si_channel_id = channel, si_name = name, si_url = url,
      si_aliases = coalesce aliases []\<rparr>"

text \<open>Both unique keys of the table answer 409 with one message.\<close>

definition site_error :: "pg_error_kind \<Rightarrow> 'a api_resp" where
  "site_error kind =
     (if is_unique_violation kind then
        Conflict (''external_id_conflict'', ''external_id or url is already taken in this project'')
      else InternalError (db_failed ''insert failed''))"

definition create_site ::
  "env \<Rightarrow> db option \<Rightarrow> principal \<Rightarrow> string \<Rightarrow> create_site_request \<Rightarrow> site_row api_resp \<times> db option" where
  "create_site e od p pj req =
     crud_create sites_table site_error e od p pj
       (Inr (new_site e 0 p pj (qs_external_id req) (qs_channel_id req) (qs_name req) (qs_url req)
               (qs_aliases req) (qs_is_active req)))"

text \<open>The lookup by url and the insert are two statements of one transaction.\<close>

definition upsert_site_by_url ::
  "env \<Rightarrow> db option \<Rightarrow> principal \<Rightarrow> string \<Rightarrow> upsert_site_by_url_request
    \<Rightarrow> site_row api_resp \<times> db option" where
  "upsert_site_by_url e od p pj req =
     (case od of
        None \<Rightarrow> (InternalError no_db, od)
      | Some d \<Rightarrow>
     (case open_project_tx e d p pj Editor of
        Inl er \<Rightarrow> (forbid er, od)
      | Inr t \<Rightarrow>
          if fault e (Stmt ''select'') then (InternalError (db_failed ''select failed''), od)
          else (case find (\<lambda>s. si_url s = qu_url req) (visible_rows sites_table t) of
              Some s \<Rightarrow> (Ok200 s, od)
            | None \<Rightarrow>
     (let s = new_site e 0 p pj None (qu_channel_id req) (qu_name req) (qu_url req) (qu_aliases req) None
      in case (if fault e (Stmt ''insert'') then Inl conn_lost else insert_row sites_table t s) of
        Inl er \<Rightarrow> (InternalError (db_failed ''insert failed''), od)
      | Inr t' \<Rightarrow>
     (case commit e t' of
        Inl _ \<Rightarrow> (InternalError (db_failed ''commit failed''), od)
      | Inr d' \<Rightarrow> (Created201 s, Some d'))))))"

definition list_sites ::
  "crypto \<Rightarrow> cursor_json \<Rightarrow> env \<Rightarrow> db option \<Rightarrow> principal \<Rightarrow> string \<Rightarrow> int option \<Rightarrow> string option
    \<Rightarrow> (site_row list \<times> string option) api_resp" where
  "list_sites = crud_list sites_table ''sites''"

definition get_site :: "env \<Rightarrow> db option \<Rightarrow> principal \<Rightarrow> string \<Rightarrow> int \<Rightarrow> site_row api_resp" where
  "get_site = crud_get sites_table ''site not found''"

definition update_site ::
  "env \<Rightarrow> db option \<Rightarrow> principal \<Rightarrow> string \<Rightarrow> int \<Rightarrow> update_site_request
    \<Rightarrow> site_row api_resp \<times> db option" where
  "update_site e od p pj i req =
     crud_update sites_table ''site not found'' e od p pj i
       (\<lambda>e r. Inr (touch e 0 (r\<lparr>si_name := coalesce (us_name req) (si_name r),
                               si_aliases := coalesce (us_aliases req) (si_aliases r),
                               si_channel_id := (case us_channel_id req of None \<Rightarrow> si_channel_id r | c \<Rightarrow> c),
                               row_is_active := coalesce (us_is_active req) (row_is_active r)\<rparr>)))"

definition upsert_site ::
  "env \<Rightarrow> principal \<Rightarrow> string \<Rightarrow> tx \<Rightarrow> nat \<Rightarrow> batch_site_row \<Rightarrow> db_error + (site_row \<times> tx)" where
  "upsert_site e p pj t i x =
     (let excluded = new_site e i p pj (Some (bs_external_id x)) (bs_channel_id x) (bs_name x)
                       (bs_url x) (bs_aliases x) (bs_is_active x)
      in upsert_row sites_table t excluded
           (\<lambda>r. touch e i (r\<lparr>si_channel_id := si_channel_id excluded, si_name := si_name excluded,
                             si_url := si_url excluded, si_aliases := si_aliases excluded,
                             row_is_active := row_is_active excluded\<rparr>)))"

definition batch_upsert_sites ::
  "env \<Rightarrow> db option \<Rightarrow> principal \<Rightarrow> string \<Rightarrow> batch_site_row list \<Rightarrow> site_row batch_resp \<times> db option" where
  "batch_upsert_sites e od p pj items = crud_batch (\<lambda>code. None) (upsert_site e p pj) e od p pj items"

subsection \<open>Zones\<close>

record create_zone_request =
  qz_external_id :: "string option"
  qz_site_id :: int
  qz_name :: string
  qz_is_active :: "bool option"

record update_zone_request =
  uz_name :: "string option"
  uz_is_active :: "bool option"

record batch_zone_row =
  bz_external_id :: string
  bz_site_id :: int
  bz_name :: string
  bz_is_active :: "bool option"

definition zones_table :: "\<lparr>row_is_active :: bool, zn_site_id :: int, zn_name :: string\<rparr> table_desc" where
  "zones_table =
     \<lparr>td_name = ''zones'', td_rows = zones, td_put = (\<lambda>rows d. d\<lparr>zones := rows\<rparr>),
      td_check = (\<lambda>r. None), td_unique = (\<lambda>r s. None),
      td_fk = (\<lambda>d r. fk_to (sites d) (zn_site_id r) ''zones'' ''zones_site_id_fkey'')\<rparr>"

definition new_zone ::
  "env \<Rightarrow> nat \<Rightarrow> principal \<Rightarrow> string \<Rightarrow> string option \<Rightarrow> int \<Rightarrow> string \<Rightarrow> bool option \<Rightarrow> zone_row" where
  "new_zone e n p pj ext site name act =
     \<lparr>row_id = new_id e n, row_org_id = org_id p, row_project_id = pj, row_external_id = ext,
       row_etag = new_etag e n, row_created_at = clock_ms e,
      row_updated_at = clock_ms e, row_is_active = coalesce act True, zn_site_id = site, zn_name = name\<rparr>"

definition create_zone ::
  "env \<Rightarrow> db option \<Rightarrow> principal \<Rightarrow> string \<Rightarrow> create_zone_request \<Rightarrow> zone_row api_resp \<times> db option" where
  "create_zone e od p pj req =
     crud_create zones_table (create_error (Some ''site_id does not exist in this project'')) e od p pj
       (Inr (new_zone e 0 p pj (qz_external_id req) (qz_site_id req) (qz_name req) (qz_is_active req)))"

definition list_zones ::
  "crypto \<Rightarrow> cursor_json \<Rightarrow> env \<Rightarrow> db option \<Rightarrow> principal \<Rightarrow> string \<Rightarrow> int option \<Rightarrow> string option
    \<Rightarrow> (zone_row list \<times> string option) api_resp" where
  "list_zones = crud_list zones_table ''zones''"

definition get_zone :: "env \<Rightarrow> db option \<Rightarrow> principal \<Rightarrow> string \<Rightarrow> int \<Rightarrow> zone_row api_resp" where
  "get_zone = crud_get zones_table ''zone not found''"

definition update_zone ::
  "env \<Rightarrow> db option \<Rightarrow> principal \<Rightarrow> string \<Rightarrow> int \<Rightarrow> update_zone_request
    \<Rightarrow> zone_row api_resp \<times> db option" where
  "update_zone e od p pj i req =
     crud_update zones_table ''zone not found'' e od p pj i
       (\<lambda>e r. Inr (touch e 0 (r\<lparr>zn_name := coalesce (uz_name req) (zn_name r),
                               row_is_active := coalesce (uz_is_active req) (row_is_active r)\<rparr>)))"

definition upsert_zone ::
  "env \<Rightarrow> principal \<Rightarrow> string \<Rightarrow> tx \<Rightarrow> nat \<Rightarrow> batch_zone_row \<Rightarrow> db_error + (zone_row \<times> tx)" where
  "upsert_zone e p pj t i x =
     (let excluded = new_zone e i p pj (Some (bz_external_id x)) (bz_site_id x) (bz_name x) (bz_is_active x)
      in upsert_row zones_table t excluded
           (\<lambda>r. touch e i (r\<lparr>zn_site_id := zn_site_id excluded, zn_name := zn_name excluded,
                             row_is_active := row_is_active excluded\<rparr>)))"

definition batch_upsert_zones ::
  "env \<Rightarrow> db option \<Rightarrow> principal \<Rightarrow> string \<Rightarrow> batch_zone_row list \<Rightarrow> zone_row batch_resp \<times> db option" where
  "batch_upsert_zones e od p pj items =
     crud_batch (blame ''siteId'') (upsert_zone e p pj) e od p pj items"

subsection \<open>The tables keep the tenant contract\<close>

interpretation sit: tenant_table sites_table
  by unfold_locales (simp_all add: sites_table_def)

interpretation zon: tenant_table zones_table
  by unfold_locales (simp_all add: zones_table_def)

subsection \<open>The url key\<close>

definition site_key :: "site_row \<Rightarrow> string \<times> string" where
  "site_key s = (row_project_id s, si_url s)"

definition urls_ok :: "site_row list \<Rightarrow> bool" where
  "urls_ok rows \<longleftrightarrow> distinct (map site_key rows)"

lemma first_some_None: "first_some xs = None \<longleftrightarrow> (\<forall>x \<in> set xs. x = None)"
  by (induction xs rule: first_some.induct) auto

lemma not_violated_url:
  "violated sites_table rows r = None \<Longrightarrow> site_key r \<notin> site_key ` set rows"
  by (auto simp: violated_def first_some_None sites_table_def site_key_def split: if_splits)

lemma distinct_key_replace:
  "distinct (map key rows) \<Longrightarrow> distinct (map row_id rows) \<Longrightarrow>
     key r \<notin> key ` set (filter (\<lambda>s. row_id s \<noteq> i) rows) \<Longrightarrow>
     distinct (map key (map (\<lambda>s. if row_id s = i then r else s) rows))"
proof (induction rows)
  case (Cons x rows)
  show ?case
  proof (cases "row_id x = i")
    case True
    with Cons.prems(2) have same: "map (\<lambda>s. if row_id s = i then r else s) rows = rows"
      "filter (\<lambda>s. row_id s \<noteq> i) rows = rows"
      by (auto simp: image_iff filter_id_conv intro!: map_idI)
    with True Cons.prems show ?thesis by simp
  next
    case False
    with Cons show ?thesis by (auto simp: image_iff split: if_splits)
  qed
qed simp

interpretation sitk: keyed_table sites_table urls_ok
  by unfold_locales
     (auto simp: urls_ok_def dest!: not_violated_url intro: distinct_key_replace [unfolded map_map])

lemma site_error_not_created: "site_error k \<noteq> Created201 r"
  by (simp add: site_error_def)

lemma upsert_site_step:
  assumes "upsert_site e p pj t i x = Inr (r, t')"
  shows "keeps sites_table urls_ok (tx_db t) (tx_db t')"
    and "guc_project_id t = Some pj \<Longrightarrow>
      guc_project_id t' = Some pj \<and> confined sites_table pj (tx_db t) (tx_db t')"
  using assms sitk.upsert_row_keeps [of t _ _ r t'] sit.upsert_confined [of t _ _ r t' pj]
  by (auto simp: upsert_site_def Let_def)

lemma upsert_zone_step:
  "upsert_zone e p pj t i x = Inr (r, t') \<Longrightarrow> guc_project_id t = Some pj \<Longrightarrow>
     guc_project_id t' = Some pj \<and> confined zones_table pj (tx_db t) (tx_db t')"
  using zon.upsert_confined [of t _ _ r t' pj] by (auto simp: upsert_zone_def Let_def)

lemma upsert_by_url_cases:
  assumes "upsert_site_by_url e (Some d) p pj q = (resp, od')"
  shows "od' = Some d \<and> (\<forall>s. resp \<noteq> Created201 s)
    \<or> (\<exists>s t'. resp = Created201 s \<and> od' = Some (tx_db t') \<and> in_org d (org_id p) pj
        \<and> has_role_at_least p Editor \<and> row_project_id s = pj \<and> si_url s = qu_url q
        \<and> find (\<lambda>s. si_url s = qu_url q) (visible_rows sites_table (bound_tx d p pj)) = None
        \<and> insert_row sites_table (bound_tx d p pj) s = Inr t')"
  using assms
  by (auto simp: upsert_site_by_url_def forbid_def Let_def new_site_def
      dest!: open_project_tx_InrD commit_InrD split: option.splits sum.splits if_splits)

lemma upsert_by_url_step:
  "confined sites_table pj d (the (snd (upsert_site_by_url e (Some d) p pj q)))"
  "keeps sites_table urls_ok d (the (snd (upsert_site_by_url e (Some d) p pj q)))"
proof -
  obtain resp od' where run: "upsert_site_by_url e (Some d) p pj q = (resp, od')" by fastforce
  from upsert_by_url_cases [OF run] have
    "confined sites_table pj d (the od') \<and> keeps sites_table urls_ok d (the od')"
  proof
    assume "\<exists>s t'. resp = Created201 s \<and> od' = Some (tx_db t') \<and> in_org d (org_id p) pj
        \<and> has_role_at_least p Editor \<and> row_project_id s = pj \<and> si_url s = qu_url q
        \<and> find (\<lambda>s. si_url s = qu_url q) (visible_rows sites_table (bound_tx d p pj)) = None
        \<and> insert_row sites_table (bound_tx d p pj) s = Inr t'"
    then obtain s t' where st: "od' = Some (tx_db t')" "row_project_id s = pj"
      "insert_row sites_table (bound_tx d p pj) s = Inr t'" by blast
    from sit.insert_row_InrD [OF st(3)] sitk.insert_row_keeps [OF st(3)] st(1,2) show ?thesis by auto
  qed (simp add: keeps_def)
  with run show "confined sites_table pj d (the (snd (upsert_site_by_url e (Some d) p pj q)))"
    and "keeps sites_table urls_ok d (the (snd (upsert_site_by_url e (Some d) p pj q)))" by simp_all
qed

text \<open>
  the endpoints of sites and zones write within the project, like those of the demand
  side, and no sequence of site writes ever stores one url twice in a project.
\<close>

theorem inventory_writes_confined:
  "confined sites_table pj d (the (snd (create_site e (Some d) p pj qs)))
   \<and> keeps sites_table urls_ok d (the (snd (create_site e (Some d) p pj qs)))
   \<and> confined sites_table pj d (the (snd (upsert_site_by_url e (Some d) p pj qu)))
   \<and> keeps sites_table urls_ok d (the (snd (upsert_site_by_url e (Some d) p pj qu)))
   \<and> confined sites_table pj d (the (snd (update_site e (Some d) p pj i us)))
   \<and> keeps sites_table urls_ok d (the (snd (update_site e (Some d) p pj i us)))
   \<and> confined sites_table pj d (the (snd (batch_upsert_sites e (Some d) p pj bss)))
   \<and> keeps sites_table urls_ok d (the (snd (batch_upsert_sites e (Some d) p pj bss)))
   \<and> confined zones_table pj d (the (snd (create_zone e (Some d) p pj qz)))
   \<and> confined zones_table pj d (the (snd (update_zone e (Some d) p pj i uz)))
   \<and> confined zones_table pj d (the (snd (batch_upsert_zones e (Some d) p pj bzs)))"
proof (intro conjI, goal_cases)
  case 1 show ?case unfolding create_site_def
    by (rule sit.crud_create_confined) (auto simp: site_error_not_created new_site_def)
next
  case 2 show ?case unfolding create_site_def
    by (rule sitk.crud_create_keeps) (rule site_error_not_created)
next
  case 3 show ?case by (rule upsert_by_url_step(1))
next
  case 4 show ?case by (rule upsert_by_url_step(2))
next
  case 5 show ?case unfolding update_site_def by (rule sit.crud_update_confined) auto
next
  case 6 show ?case unfolding update_site_def by (rule sitk.crud_update_keeps) auto
next
  case 7 show ?case unfolding batch_upsert_sites_def
    by (rule sit.crud_batch_confined) (rule upsert_site_step(2))
next
  case 8 show ?case unfolding batch_upsert_sites_def
    by (rule sitk.crud_batch_keeps) (rule upsert_site_step(1))
next
  case 9 show ?case unfolding create_zone_def
    by (rule zon.crud_create_confined) (auto simp: create_error_not_created new_zone_def)
next
  case 10 show ?case unfolding update_zone_def by (rule zon.crud_update_confined) auto
next
  case 11 show ?case unfolding batch_upsert_zones_def
    by (rule zon.crud_batch_confined) (rule upsert_zone_step)
qed

text \<open>
  \<open>upsertByUrl\<close> is idempotent: after a call that created a site, every call for the
  same url that meets no database fault answers 200 with that very site, whatever else the
  request says, and changes nothing.
\<close>

theorem upsert_by_url_idempotent:
  assumes "upsert_site_by_url e (Some d) p pj q = (Created201 s, Some d')"
    and "\<forall>st. \<not> fault e2 st" and "qu_url q2 = qu_url q"
  shows "upsert_site_by_url e2 (Some d') p pj q2 = (Ok200 s, Some d')"
proof -
  from upsert_by_url_cases [OF assms(1)] obtain t' where
    org: "in_org d (org_id p) pj" "has_role_at_least p Editor"
    and s: "row_project_id s = pj" "si_url s = qu_url q"
    and new: "find (\<lambda>s. si_url s = qu_url q) (visible_rows sites_table (bound_tx d p pj)) = None"
    and ins: "insert_row sites_table (bound_tx d p pj) s = Inr t'" and d': "d' = tx_db t'"
    by auto
  from sit.insert_row_InrD [OF ins] s d' have
    rows: "sites d' = sites d @ [s]" and prj: "projects d' = projects d"
    by (auto simp: confined_def put_rows_def sites_table_def)
  from prj org(1) have org': "in_org d' (org_id p) pj" by (simp add: in_org_def)
  from assms(1) have "addresses p pj"
    by (auto simp: upsert_site_by_url_def forbid_def dest!: open_project_tx_InrD
        split: option.splits sum.splits)
  with org(2) org' have opened: "open_project_tx e2 d' p pj Editor = Inr (bound_tx d' p pj)"
    by (simp add: open_project_tx_no_fault [OF assms(2)])
  have "find (\<lambda>s. si_url s = qu_url q) (visible_rows sites_table (bound_tx d' p pj)) = Some s"
    using new s rows
    by (auto simp: visible_rows_def sites_table_def row_visible_def [abs_def] bound_tx_def find_snoc
        split: option.splits)
  with opened assms(2,3) show ?thesis by (simp add: upsert_site_by_url_def)
qed

definition site_db :: db where
  "site_db = demand_db\<lparr>sites := []\<rparr>"

lemma open_site:
  "open_project_tx (calm_env t) site_db editor ''pj'' Editor = Inr (bound_tx site_db editor ''pj'')"
  by (simp add: open_project_tx_no_fault editor_def has_role_at_least_def less_eq_role_def
      addresses_def in_org_def site_db_def demand_db_def tenant_db_def sample_project_row_def)

lemmas site_eval = open_site insert_row_def write_check_def violated_def put_rows_def commit_def
  sites_table_def Let_def visible_rows_def row_visible_def [abs_def] new_site_def coalesce_def

theorem upsert_by_url_idempotent_witness:
  "\<exists>s d'. upsert_site_by_url (calm_env 1) (Some site_db) editor ''pj''
        \<lparr>qu_url = ''https://a'', qu_name = ''a'', qu_aliases = None, qu_channel_id = None\<rparr> = (Created201 s, Some d')
    \<and> upsert_site_by_url (calm_env 2) (Some d') editor ''pj''
        \<lparr>qu_url = ''https://a'', qu_name = ''b'', qu_aliases = Some [''x''], qu_channel_id = Some 3\<rparr> = (Ok200 s, Some d')"
proof -
  obtain s d' where run: "upsert_site_by_url (calm_env 1) (Some site_db) editor ''pj''
      \<lparr>qu_url = ''https://a'', qu_name = ''a'', qu_aliases = None, qu_channel_id = None\<rparr> = (Created201 s, Some d')"
    by (simp add: upsert_site_by_url_def site_eval) (simp add: site_eval site_db_def)
  from upsert_by_url_idempotent [OF run, of "calm_env 2"
      "\<lparr>qu_url = ''https://a'', qu_name = ''b'', qu_aliases = Some [''x''], qu_channel_id = Some 3\<rparr>"] run
  show ?thesis by auto
qed

text \<open>The uniqueness of a url among the aliases of other sites, which the schema leaves to the handler.\<close>

lemma alias_may_repeat_url:
  "insert_row sites_table t (new_site e n p pj ext ch name url (Some as) act) = Inr t'
   \<longleftrightarrow> insert_row sites_table t (new_site e n p pj ext ch name url (Some []) act)
         = Inr (put_rows sites_table t (td_rows sites_table (tx_db t)
             @ [new_site e n p pj ext ch name url (Some []) act]))
     \<and> t' = put_rows sites_table t (td_rows sites_table (tx_db t)
             @ [new_site e n p pj ext ch name url (Some as) act])"
  by (auto simp: insert_row_def write_check_def violated_def same_external_def [abs_def] row_visible_def
      new_site_def coalesce_def sites_table_def Let_def split: option.splits if_splits)

end
