(* ===== verification/Image_Upload.thy ===== *)
theory Image_Upload
  imports Rust_Text
begin

section \<open>Image uploads\<close>

text \<open>
  \<open>src/src/image_upload.rs\<close>: sniffing the magic bytes, validation of an upload, the key an
  image is stored under, and the \<open>ImageStore\<close> trait with its in-memory adapter.
\<close>

definition MAX_BYTES :: nat where
  "MAX_BYTES = 40 * 1024 * 1024"

definition ALLOWED_MIME :: "string list" where
  "ALLOWED_MIME = [''image/jpeg'', ''image/png'', ''image/gif'', ''image/webp'', ''image/avif'']"

text \<open>\<open>slice_at i n buf\<close> is \<open>buf[i..i + n]\<close>.\<close>

definition slice_at :: "nat \<Rightarrow> nat \<Rightarrow> bytes \<Rightarrow> bytes" where
  "slice_at i n buf = take n (drop i buf)"

definition png_magic :: bytes where
  "png_magic = [0x89, 0x50, 0x4E, 0x47, 0x0D, 0x0A, 0x1A, 0x0A]"

definition sniff_mime :: "bytes \<Rightarrow> string option" where
  "sniff_mime buf =
     (if length buf < 12 then None
      else if slice_at 0 3 buf = [0xFF, 0xD8, 0xFF] then Some ''image/jpeg''
      else if slice_at 0 8 buf = png_magic then Some ''image/png''
      else if slice_at 0 6 buf = bytes_of ''GIF87a'' \<or> slice_at 0 6 buf = bytes_of ''GIF89a'' then
        Some ''image/gif''
      else if slice_at 0 4 buf = bytes_of ''RIFF'' \<and> slice_at 8 4 buf = bytes_of ''WEBP'' then
        Some ''image/webp''
      else if slice_at 4 4 buf = bytes_of ''ftyp'' \<and> slice_at 8 4 buf = bytes_of ''avif'' then
        Some ''image/avif''
      else None)"

datatype upload_error = UploadTooLarge | UnsupportedMedia | DisallowedMime

fun http_status :: "upload_error \<Rightarrow> nat" where
  "http_status UploadTooLarge = 413"
| "http_status UnsupportedMedia = 415"
| "http_status DisallowedMime = 415"

definition validate_upload :: "string option \<Rightarrow> bytes \<Rightarrow> upload_error + string" where
  "validate_upload declared_mime body =
     (if MAX_BYTES < length body then Inl UploadTooLarge
      else (case sniff_mime body of
          None \<Rightarrow> Inl UnsupportedMedia
        | Some sniffed \<Rightarrow>
            if sniffed \<notin> set ALLOWED_MIME then Inl DisallowedMime
            else (case declared_mime of
                None \<Rightarrow> Inr sniffed
              | Some declared \<Rightarrow> if declared \<noteq> sniffed then Inl UnsupportedMedia else Inr sniffed)))"

definition file_extension :: "string \<Rightarrow> string" where
  "file_extension mime =
     (if mime = ''image/jpeg'' then ''jpg'' else if mime = ''image/png'' then ''png''
      else if mime = ''image/gif'' then ''gif'' else if mime = ''image/webp'' then ''webp''
      else if mime = ''image/avif'' then ''avif'' else ''bin'')"

definition storage_key :: "string \<Rightarrow> int \<Rightarrow> string \<Rightarrow> string \<Rightarrow> string" where
  "storage_key pj creative_id uuid mime =
     ''projects/'' @ pj @ ''/creatives/'' @ show_int creative_id @ ''/'' @ uuid @ ''.''
     @ file_extension mime"

subsection \<open>The store\<close>

text \<open>
  The trait \<open>ImageStore\<close>: \<open>put\<close> answers with the public URL or fails; \<open>stored\<close> is what the
  store then holds under a key. A put touches no other key.
\<close>

locale image_store =
  fixes put :: "string \<Rightarrow> string \<Rightarrow> bytes \<Rightarrow> 's \<Rightarrow> string option \<times> 's"
    and stored :: "'s \<Rightarrow> string \<Rightarrow> (string \<times> bytes) option"
  assumes put_stores: "put key mime body s = (Some url, s') \<Longrightarrow> stored s' key = Some (mime, body)"
    and put_others: "put key mime body s = (res, s') \<Longrightarrow> key' \<noteq> key \<Longrightarrow> stored s' key' = stored s key'"

type_synonym memory_store = "string \<rightharpoonup> string \<times> bytes"

definition in_memory_put :: "string \<Rightarrow> string \<Rightarrow> bytes \<Rightarrow> memory_store \<Rightarrow> string option \<times> memory_store" where
  "in_memory_put key mime body objects = (Some (''memory://'' @ key), objects(key \<mapsto> (mime, body)))"

interpretation memory: image_store in_memory_put "\<lambda>s. s"
  by unfold_locales (auto simp: in_memory_put_def)

subsection \<open>Properties\<close>

lemma sniff_allowed: "sniff_mime buf = Some m \<Longrightarrow> m \<in> set ALLOWED_MIME"
  by (auto simp: sniff_mime_def ALLOWED_MIME_def split: if_splits)

text \<open>
  an upload is accepted exactly when it is at most 40 MB, its magic bytes are of an
  allowed format, and the declared type, if any, is that format; the answer is the sniffed
  type, and the branch for a recognised but disallowed format is never taken.
\<close>

theorem upload_validation_exact:
  "(validate_upload declared body = Inr m
     \<longleftrightarrow> length body \<le> MAX_BYTES \<and> sniff_mime body = Some m \<and> declared \<in> {None, Some m})
   \<and> validate_upload declared body \<noteq> Inl DisallowedMime
   \<and> (validate_upload declared body = Inl UploadTooLarge \<longleftrightarrow> MAX_BYTES < length body)"
  using sniff_allowed [of body]
  by (auto simp: validate_upload_def split: option.splits if_splits)

lemma show_nat_digits: "c \<in> set (show_nat n) \<Longrightarrow> \<exists>d < 10. c = digit_char d"
proof (induction n rule: show_nat.induct)
  case (1 n)
  have "\<exists>d < 10. digit_char (n mod 10) = digit_char d" by (rule exI [of _ "n mod 10"]) simp
  with 1 show ?case by (subst (asm) (2) show_nat.simps) (auto split: if_splits)
qed

lemma slash_not_in_show_int: "CHR ''/'' \<notin> set (show_int i)"
proof
  assume "CHR ''/'' \<in> set (show_int i)"
  then have "\<exists>d < 10. CHR ''/'' = digit_char d"
    by (auto simp: show_int_def dest: show_nat_digits split: if_splits)
  then obtain d where "d < 10" "digit_value (CHR ''/'') = Some d" by auto
  then show False by (simp add: digit_value_def)
qed

lemma cut_at:
  "(c :: char) \<notin> set a \<Longrightarrow> c \<notin> set a' \<Longrightarrow> a @ c # b = a' @ c # b' \<longleftrightarrow> a = a' \<and> b = b'"
  by (auto simp: append_eq_Cons_conv Cons_eq_append_conv append_eq_append_conv2)

text \<open>
  uploads never collide: two keys are equal only for the same creative of the same project
  and the same upload, given ids of the shapes the service mints (no slash, no dot).
\<close>

theorem storage_keys_never_collide:
  assumes "storage_key pj i u m = storage_key pj' i' u' m'" and "in_i64 i" and "in_i64 i'"
    and "CHR ''/'' \<notin> set pj \<union> set pj'" and "CHR ''.'' \<notin> set u \<union> set u'"
  shows "pj = pj' \<and> i = i' \<and> u = u' \<and> file_extension m = file_extension m'"
proof -
  from assms(1) have "pj @ CHR ''/'' # ''creatives/'' @ show_int i @ CHR ''/'' # u @ CHR ''.'' # file_extension m
      = pj' @ CHR ''/'' # ''creatives/'' @ show_int i' @ CHR ''/'' # u' @ CHR ''.'' # file_extension m'"
    by (simp add: storage_key_def)
  with assms(4) have pj: "pj = pj'" and
    "show_int i @ CHR ''/'' # u @ CHR ''.'' # file_extension m
      = show_int i' @ CHR ''/'' # u' @ CHR ''.'' # file_extension m'"
    by (simp_all add: cut_at)
  with slash_not_in_show_int have i: "show_int i = show_int i'" and
    "u @ CHR ''.'' # file_extension m = u' @ CHR ''.'' # file_extension m'"
    by (simp_all add: cut_at)
  with assms(5) have "u = u' \<and> file_extension m = file_extension m'" by (simp add: cut_at)
  with pj i assms(2,3) show ?thesis by (simp add: show_int_inject)
qed

theorem storage_keys_never_collide_witness:
  "storage_key ''pj_a'' 42 ''u1'' ''image/png'' \<noteq> storage_key ''pj_a'' 42 ''u2'' ''image/png''"
  using storage_keys_never_collide [of "''pj_a''" 42 "''u1''" "''image/png''" "''pj_a''" 42 "''u2''" "''image/png''"]
  by (auto simp: in_i64_def)

end
