(* ===== verification/Creative_Api.thy ===== *)
theory Creative_Api
  imports Inventory_Api Image_Upload
begin

section \<open>Creative templates and creatives\<close>

text \<open>
  \<open>src/src/creative_templates.rs\<close> and \<open>creatives.rs\<close> on the tables of \<open>0006_demand.sql\<close> and
  \<open>0013_templated_creatives.sql\<close>. Parsing a Liquid source is the crate's: \<open>liquid_error\<close> is
  the message for a source that does not parse. The image store is a parameter of the upload
  (\<open>put\<close>, see \<open>Image_Upload\<close>).
\<close>

subsection \<open>Templates\<close>

record create_template_request =
  qt_external_id :: "string option"
  qt_name :: string
  qt_schema :: json
  qt_template :: "string option"
  qt_template_engine :: "string option"

record update_template_request =
  ut_name :: "string option"
  ut_schema :: "json option"
  ut_template :: "string option"
  ut_template_engine :: "string option"

definition templates_table ::
  "\<lparr>tp_name :: string, tp_schema :: json, tp_template :: string option,
    tp_template_engine :: string option, tp_version :: int\<rparr> table_desc" where
  "templates_table =
     \<lparr>td_name = ''creative_templates'', td_rows = creative_templates,
      td_put = (\<lambda>rows d. d\<lparr>creative_templates := rows\<rparr>),
      td_check = (\<lambda>r. if (tp_template r = None \<and> tp_template_engine r = None)
                          \<or> (tp_template r \<noteq> None \<and> tp_template_engine r = Some ''liquid'')
                       then None
                       else Some (check_error ''creative_templates'' ''creative_templates_template_engine_pair'')),
      td_unique = (\<lambda>r s. if row_project_id r = row_project_id s \<and> tp_name r = tp_name s
                          then Some ''creative_templates_project_id_name_key'' else None),
      td_fk = (\<lambda>d r. None)\<rparr>"

definition validate_template_pair ::
  "(string \<Rightarrow> string option) \<Rightarrow> string option \<Rightarrow> string option \<Rightarrow> error_envelope + string option" where
  "validate_template_pair liquid_error template template_engine =
     (case (template, template_engine) of
        (None, None) \<Rightarrow> Inr None
      | (None, Some _) \<Rightarrow>
          Inl (''template_engine_without_template'', ''template_engine must be omitted when template is unset'')
      | (Some _, None) \<Rightarrow>
          Inl (''template_engine_required'', ''template_engine must be 'liquid' when template is set'')
      | (Some src, Some eng) \<Rightarrow>
          if eng \<noteq> ''liquid'' then
            Inl (''template_engine_unsupported'', ''only template_engine='liquid' is supported in v0'')
          else (case liquid_error src of
              Some m \<Rightarrow> Inl (''template_parse_error'', ''template parse error: '' @ m)
            | None \<Rightarrow> Inr (Some eng)))"

definition new_template ::
  "env \<Rightarrow> principal \<Rightarrow> string \<Rightarrow> create_template_request \<Rightarrow> string option \<Rightarrow> template_row" where
  "new_template e p pj req engine =
     \<lparr>row_id = new_id e 0, row_org_id = org_id p, row_project_id = pj,
      row_external_id = qt_external_id req, row_etag = new_etag e 0, row_created_at = clock_ms e,
      row_updated_at = clock_ms e, tp_name = qt_name req, tp_schema = qt_schema req,
      tp_template = qt_template req, tp_template_engine = engine, tp_version = 1\<rparr>"

definition template_error :: "pg_error_kind \<Rightarrow> 'a api_resp" where
  "template_error kind =
     (if is_unique_violation kind then
        Conflict (''external_id_conflict'', ''external_id or name is already taken in this project'')
      else InternalError (db_failed ''insert failed''))"

text \<open>The pair is validated inside the transaction, after the authorisation.\<close>

definition create_template ::
  "(string \<Rightarrow> string option) \<Rightarrow> env \<Rightarrow> db option \<Rightarrow> principal \<Rightarrow> string \<Rightarrow> create_template_request
    \<Rightarrow> template_row api_resp \<times> db option" where
  "create_template liquid_error e od p pj req =
     (case od of
        None \<Rightarrow> (InternalError no_db, od)
      | Some d \<Rightarrow>
     (case open_project_tx e d p pj Editor of
        Inl a \<Rightarrow> (forbid a, od)
      | Inr t \<Rightarrow>
     (case validate_template_pair liquid_error (qt_template req) (qt_template_engine req) of
        Inl er \<Rightarrow> (Unprocessable er, od)
      | Inr engine \<Rightarrow>
          insert_commit templates_table template_error e od t (Inr (new_template e p pj req engine)))))"

definition list_templates ::
  "crypto \<Rightarrow> cursor_json \<Rightarrow> env \<Rightarrow> db option \<Rightarrow> principal \<Rightarrow> string \<Rightarrow> int option \<Rightarrow> string option
    \<Rightarrow> (template_row list \<times> string option) api_resp" where
  "list_templates = crud_list templates_table ''creative-templates''"

definition get_template :: "env \<Rightarrow> db option \<Rightarrow> principal \<Rightarrow> string \<Rightarrow> int \<Rightarrow> template_row api_resp" where
  "get_template = crud_get templates_table ''creative_template not found''"

text \<open>
  \<open>PATCH\<close>: the pair is set when one of its members is given; the version grows when the schema
  or the pair is. Two absent members mean no change.
\<close>

definition engine_to_set ::
  "(string \<Rightarrow> string option) \<Rightarrow> update_template_request \<Rightarrow> error_envelope + string option option" where
  "engine_to_set liquid_error req =
     (case (ut_template req, ut_template_engine req) of
        (None, None) \<Rightarrow> Inr None
      | _ \<Rightarrow> map_sum id Some (validate_template_pair liquid_error (ut_template req) (ut_template_engine req)))"

definition patch_template ::
  "update_template_request \<Rightarrow> string option option \<Rightarrow> template_row \<Rightarrow> template_row" where
  "patch_template req engine r =
     (let template_changed = ut_template req \<noteq> None \<or> ut_template_engine req \<noteq> None;
          bump = ut_schema req \<noteq> None \<or> template_changed
      in r\<lparr>tp_name := coalesce (ut_name req) (tp_name r),
           tp_schema := coalesce (ut_schema req) (tp_schema r),
           tp_template := (if template_changed then ut_template req else tp_template r),
           tp_template_engine := (if template_changed then Option.bind engine id else tp_template_engine r),
           tp_version := tp_version r + (if bump then 1 else 0)\<rparr>)"

definition update_template ::
  "(string \<Rightarrow> string option) \<Rightarrow> env \<Rightarrow> db option \<Rightarrow> principal \<Rightarrow> string \<Rightarrow> int \<Rightarrow> update_template_request
    \<Rightarrow> template_row api_resp \<times> db option" where
  "update_template liquid_error e od p pj i req =
     (case od of
        None \<Rightarrow> (InternalError no_db, od)
      | Some d \<Rightarrow>
     (case open_project_tx e d p pj Editor of
        Inl a \<Rightarrow> (forbid a, od)
      | Inr t \<Rightarrow>
     (case engine_to_set liquid_error req of
        Inl er \<Rightarrow> (Unprocessable er, od)
      | Inr engine \<Rightarrow>
          update_commit templates_table ''creative_template not found'' e od t i
            (\<lambda>e r. Inr (touch e 0 (patch_template req engine r))))))"

subsection \<open>Creatives\<close>

record create_creative_request =
  qv_external_id :: "string option"
  qv_advertiser_id :: int
  qv_name :: "string option"
  qv_kind :: string
  qv_image_url :: "string option"
  qv_width :: "int option"
  qv_height :: "int option"
  qv_alt :: "string option"
  qv_body :: "string option"
  qv_template_id :: "int option"
  qv_values :: "json option"
  qv_click_through_url :: "string option"
  qv_is_active :: "bool option"

definition creatives_table ::
  "\<lparr>row_is_active :: bool, ct_advertiser_id :: int, ct_name :: string option, ct_kind :: string,
    ct_image_url :: string option, ct_width :: int option, ct_height :: int option,
    ct_alt :: string option, ct_body :: string option, ct_template_id :: int option,
    ct_values :: json option, ct_click_through_url :: string option\<rparr> table_desc" where
  "creatives_table =
     \<lparr>td_name = ''creatives'', td_rows = creatives, td_put = (\<lambda>rows d. d\<lparr>creatives := rows\<rparr>),
      td_check = (\<lambda>r. if ct_kind r \<in> {''image'', ''html'', ''native'', ''templated''} then None
                       else Some (check_error ''creatives'' ''creatives_kind_check_v2'')),
      td_unique = (\<lambda>r s. None),
      td_fk = (\<lambda>d r. case fk_to (advertisers d) (ct_advertiser_id r) ''creatives'' ''creatives_advertiser_id_fkey'' of
          Some er \<Rightarrow> Some er
        | None \<Rightarrow> (case ct_template_id r of
              None \<Rightarrow> None
            | Some i \<Rightarrow> fk_to (creative_templates d) i ''creatives'' ''creatives_template_id_fkey''))\<rparr>"

definition kind_error :: "create_creative_request \<Rightarrow> string option" where
  "kind_error req =
     (if qv_kind req = ''image'' then
        (if qv_image_url req = None then Some ''image creatives require image_url'' else None)
      else if qv_kind req = ''html'' then
        (if qv_body req = None then Some ''html creatives require body'' else None)
      else if qv_kind req = ''native'' \<or> qv_kind req = ''templated'' then
        (if qv_template_id req = None \<or> qv_values req = None
         then Some ''native and templated creatives require template_id and values'' else None)
      else Some ''kind must be one of image, html, native, templated'')"

text \<open>
  The lookup of a templated creative's template; a failing query counts as no row. \<open>None\<close>
  means the write may go on.
\<close>

definition template_check :: "env \<Rightarrow> tx \<Rightarrow> create_creative_request \<Rightarrow> error_envelope option" where
  "template_check e t req =
     (if qv_kind req = ''templated'' then
        (case (if fault e (Stmt ''template'') then None
               else map_option (\<lambda>r. tp_template r \<noteq> None)
                      (select_by_id templates_table t (the (qv_template_id req)))) of
           Some True \<Rightarrow> None
         | Some False \<Rightarrow> Some (''template_missing_body'',
             ''templated creatives require a CreativeTemplate with a non-null template'')
         | None \<Rightarrow> Some (''template_not_found'',
             ''referenced template_id does not exist in this project''))
      else None)"

definition new_creative :: "env \<Rightarrow> principal \<Rightarrow> string \<Rightarrow> create_creative_request \<Rightarrow> creative_row" where
  "new_creative e p pj req =
     \<lparr>row_id = new_id e 0, row_org_id = org_id p, row_project_id = pj,
      row_external_id = qv_external_id req, row_etag = new_etag e 0, row_created_at = clock_ms e,
      row_updated_at = clock_ms e, row_is_active = coalesce (qv_is_active req) True,
      ct_advertiser_id = qv_advertiser_id req, ct_name = qv_name req, ct_kind = qv_kind req,
      ct_image_url = qv_image_url req, ct_width = qv_width req, ct_height = qv_height req,
      ct_alt = qv_alt req, ct_body = qv_body req, ct_template_id = qv_template_id req,
      ct_values = qv_values req, ct_click_through_url = qv_click_through_url req\<rparr>"

definition create_creative ::
  "env \<Rightarrow> db option \<Rightarrow> principal \<Rightarrow> string \<Rightarrow> create_creative_request
    \<Rightarrow> creative_row api_resp \<times> db option" where
  "create_creative e od p pj req =
     (case kind_error req of
        Some msg \<Rightarrow> (BadRequest (''invalid_creative'', msg), od)
      | None \<Rightarrow>
     (case od of
        None \<Rightarrow> (InternalError no_db, od)
      | Some d \<Rightarrow>
     (case open_project_tx e d p pj Editor of
        Inl er \<Rightarrow> (forbid er, od)
      | Inr t \<Rightarrow>
     (case template_check e t req of
        Some er \<Rightarrow> (Unprocessable er, od)
      | None \<Rightarrow>
          insert_commit creatives_table
            (create_error (Some ''advertiser_id or template_id does not exist in this project''))
            e od t (Inr (new_creative e p pj req))))))"

definition list_creatives ::
  "crypto \<Rightarrow> cursor_json \<Rightarrow> env \<Rightarrow> db option \<Rightarrow> principal \<Rightarrow> string \<Rightarrow> int option \<Rightarrow> string option
    \<Rightarrow> (creative_row list \<times> string option) api_resp" where
  "list_creatives = crud_list creatives_table ''creatives''"

definition get_creative :: "env \<Rightarrow> db option \<Rightarrow> principal \<Rightarrow> string \<Rightarrow> int \<Rightarrow> creative_row api_resp" where
  "get_creative = crud_get creatives_table ''creative not found''"

subsection \<open>The image upload\<close>

fun upload_failure :: "upload_error \<Rightarrow> 'a api_resp" where
  "upload_failure UploadTooLarge = PayloadTooLarge (''payload_too_large'', ''image exceeds 40 MB limit'')"
| "upload_failure UnsupportedMedia =
     UnsupportedMediaType (''unsupported_media_type'', ''declared content-type does not match sniffed bytes'')"
| "upload_failure DisallowedMime =
     UnsupportedMediaType (''disallowed_mime'', ''image format is not on the allow list'')"

text \<open>
  \<open>store\<close> is the configured store with its state, \<open>upload\<close> the declared type and the body
  (\<open>None\<close> when it cannot be read), \<open>uuid\<close> the random name of the object. The object is
  written before the row, outside the transaction.
\<close>

definition upload_image ::
  "(string \<Rightarrow> string \<Rightarrow> bytes \<Rightarrow> 's \<Rightarrow> string option \<times> 's) \<Rightarrow> string \<Rightarrow> env \<Rightarrow> db option \<Rightarrow> 's option
    \<Rightarrow> principal \<Rightarrow> string \<Rightarrow> int \<Rightarrow> string option \<Rightarrow> bytes option
    \<Rightarrow> creative_row api_resp \<times> db option \<times> 's option" where
  "upload_image put uuid e od store p pj i declared upload =
     (case od of
        None \<Rightarrow> (InternalError no_db, od, store)
      | Some d \<Rightarrow>
     (case store of
        None \<Rightarrow> (InternalError (''no_image_store'', ''no image store configured''), od, store)
      | Some s \<Rightarrow>
     (case open_project_tx e d p pj Editor of
        Inl er \<Rightarrow> (forbid er, od, store)
      | Inr t \<Rightarrow>
          if fault e (Stmt ''exists'') then (InternalError (db_failed ''lookup failed''), od, store)
          else if select_by_id creatives_table t i = None then
            (NotFound (''not_found'', ''creative not found''), od, store)
          else
     (case upload of
        None \<Rightarrow> (BadRequest (''invalid_multipart'', ''could not read multipart body''), od, store)
      | Some body \<Rightarrow>
     (case validate_upload declared body of
        Inl er \<Rightarrow> (upload_failure er, od, store)
      | Inr mime \<Rightarrow>
     (case put (storage_key pj i uuid mime) mime body s of
        (None, s') \<Rightarrow>
          (InternalError (''image_store_error'', ''could not write image to storage''), od, Some s')
      | (Some url, s') \<Rightarrow>
     (case (if fault e (Stmt ''update'') then Inl conn_lost
            else update_row creatives_table t i (\<lambda>c. c\<lparr>ct_image_url := Some url\<rparr>)) of
        Inl _ \<Rightarrow> (InternalError (db_failed ''update failed''), od, Some s')
      | Inr (None, _) \<Rightarrow> (InternalError (db_failed ''update failed''), od, Some s')
      | Inr (Some c, t') \<Rightarrow>
     (case commit e t' of
        Inl _ \<Rightarrow> (InternalError (db_failed ''commit failed''), od, Some s')
      | Inr d' \<Rightarrow> (Ok200 c, Some d', Some s')))))))))"

subsection \<open>The tables keep the tenant contract\<close>

interpretation tpl: tenant_table templates_table
  by unfold_locales (simp_all add: templates_table_def)

interpretation cre: tenant_table creatives_table
  by unfold_locales (simp_all add: creatives_table_def)

subsection \<open>Properties\<close>

lemma insert_commit_cases:
  assumes "insert_commit td on_error e od t (Inr r) = (resp, od')" and "\<And>k r. on_error k \<noteq> Created201 r"
  shows "od' = od \<and> (\<forall>r. resp \<noteq> Created201 r)
    \<or> resp = Created201 r \<and> write_check td t (td_rows td (tx_db t)) r = None
      \<and> insert_row td t r = Inr (put_rows td t (td_rows td (tx_db t) @ [r]))
      \<and> od' = Some (tx_db (put_rows td t (td_rows td (tx_db t) @ [r])))"
  using assms
  by (auto simp: insert_commit_def insert_row_def map_sum_def Let_def dest!: commit_InrD
      split: sum.splits if_splits option.splits)

lemma update_commit_cases:
  assumes "update_commit td nf e od t i (\<lambda>e r. Inr (g e r)) = (resp, od')"
  shows "od' = od \<and> (\<forall>r. resp \<noteq> Ok200 r)
    \<or> (\<exists>x t'. select_by_id td t i = Some x \<and> resp = Ok200 (g e x) \<and> replace_row td t i (g e x) = Inr t'
        \<and> t' = put_rows td t (map (\<lambda>s. if row_id s = i then g e x else s) (td_rows td (tx_db t)))
        \<and> od' = Some (tx_db t'))"
  using assms
  by (auto simp: update_commit_def update_row_def replace_row_def map_sum_def Let_def dest!: commit_InrD
      split: sum.splits if_splits option.splits prod.splits)

lemma creatives_put [simp]:
  "tx_db (put_rows creatives_table t rows) = (tx_db t)\<lparr>creatives := rows\<rparr>"
  "td_rows creatives_table d = creatives d"
  by (simp_all add: put_rows_def creatives_table_def)

lemma templates_put [simp]:
  "tx_db (put_rows templates_table t rows) = (tx_db t)\<lparr>creative_templates := rows\<rparr>"
  "td_rows templates_table d = creative_templates d"
  by (simp_all add: put_rows_def templates_table_def)

lemma template_error_not_created: "template_error k \<noteq> Created201 r"
  by (simp add: template_error_def)

lemma create_template_cases:
  assumes "create_template le e (Some d) p pj req = (resp, od')"
  shows "od' = Some d \<and> (\<forall>r. resp \<noteq> Created201 r)
    \<or> (\<exists>engine t'. resp = Created201 (new_template e p pj req engine)
        \<and> insert_row templates_table (bound_tx d p pj) (new_template e p pj req engine) = Inr t'
        \<and> tx_db t' = d\<lparr>creative_templates := creative_templates d @ [new_template e p pj req engine]\<rparr>
        \<and> od' = Some (tx_db t'))"
proof (cases "\<exists>t engine. open_project_tx e d p pj Editor = Inr t
    \<and> validate_template_pair le (qt_template req) (qt_template_engine req) = Inr engine")
  case True
  then obtain engine where "open_project_tx e d p pj Editor = Inr (bound_tx d p pj)"
    "validate_template_pair le (qt_template req) (qt_template_engine req) = Inr engine"
    using open_project_tx_InrD by blast
  with assms have "insert_commit templates_table template_error e (Some d) (bound_tx d p pj)
      (Inr (new_template e p pj req engine)) = (resp, od')"
    by (simp add: create_template_def)
  from insert_commit_cases [OF this template_error_not_created] show ?thesis by auto
next
  case False
  with assms show ?thesis by (auto simp: create_template_def forbid_def split: sum.splits)
qed

lemma update_template_cases:
  assumes "update_template le e (Some d) p pj i req = (resp, od')"
  shows "od' = Some d \<and> (\<forall>r. resp \<noteq> Ok200 r)
    \<or> (\<exists>engine x t'. engine_to_set le req = Inr engine
        \<and> select_by_id templates_table (bound_tx d p pj) i = Some x
        \<and> resp = Ok200 (touch e 0 (patch_template req engine x))
        \<and> replace_row templates_table (bound_tx d p pj) i (touch e 0 (patch_template req engine x)) = Inr t'
        \<and> tx_db t' = d\<lparr>creative_templates := map (\<lambda>s. if row_id s = i
              then touch e 0 (patch_template req engine x) else s) (creative_templates d)\<rparr>
        \<and> od' = Some (tx_db t'))"
proof (cases "\<exists>t engine. open_project_tx e d p pj Editor = Inr t \<and> engine_to_set le req = Inr engine")
  case True
  then obtain engine where op: "open_project_tx e d p pj Editor = Inr (bound_tx d p pj)"
    and eng: "engine_to_set le req = Inr engine"
    using open_project_tx_InrD by blast
  with assms have "update_commit templates_table ''creative_template not found'' e (Some d) (bound_tx d p pj) i
      (\<lambda>e r. Inr (touch e 0 (patch_template req engine r))) = (resp, od')"
    by (simp add: update_template_def)
  from update_commit_cases [OF this] eng show ?thesis by auto
next
  case False
  with assms show ?thesis by (auto simp: update_template_def forbid_def split: sum.splits)
qed

lemma patch_template_keys [simp]:
  "row_id (patch_template req engine x) = row_id x"
  "row_project_id (patch_template req engine x) = row_project_id x"
  by (simp_all add: patch_template_def Let_def)

lemma create_creative_cases:
  assumes "create_creative e (Some d) p pj req = (resp, od')"
  shows "od' = Some d \<and> (\<forall>r. resp \<noteq> Created201 r)
    \<or> (\<exists>t'. kind_error req = None \<and> template_check e (bound_tx d p pj) req = None
        \<and> resp = Created201 (new_creative e p pj req)
        \<and> insert_row creatives_table (bound_tx d p pj) (new_creative e p pj req) = Inr t'
        \<and> tx_db t' = d\<lparr>creatives := creatives d @ [new_creative e p pj req]\<rparr> \<and> od' = Some (tx_db t'))"
proof (cases "\<exists>t. open_project_tx e d p pj Editor = Inr t \<and> kind_error req = None
    \<and> template_check e t req = None")
  case True
  then have ok: "open_project_tx e d p pj Editor = Inr (bound_tx d p pj)" "kind_error req = None"
    "template_check e (bound_tx d p pj) req = None"
    using open_project_tx_InrD by blast+
  with assms have "insert_commit creatives_table
      (create_error (Some ''advertiser_id or template_id does not exist in this project''))
      e (Some d) (bound_tx d p pj) (Inr (new_creative e p pj req)) = (resp, od')"
    by (simp add: create_creative_def)
  from insert_commit_cases [OF this create_error_not_created] ok show ?thesis by auto
next
  case False
  with assms show ?thesis
    by (auto simp: create_creative_def forbid_def split: sum.splits option.splits)
qed

lemma update_row_SomeD:
  "update_row td t i f = Inr (Some r, t') \<Longrightarrow> \<exists>x. select_by_id td t i = Some x \<and> r = f x
     \<and> replace_row td t i (f x) = Inr t'
     \<and> t' = put_rows td t (map (\<lambda>s. if row_id s = i then f x else s) (td_rows td (tx_db t)))"
  by (auto simp: update_row_def replace_row_def map_sum_def Let_def split: sum.splits option.splits)

lemma upload_image_cases:
  assumes "upload_image put uuid e (Some d) (Some s) p pj i declared upload = (resp, od', s')"
  shows "od' = Some d \<and> (\<forall>r. resp \<noteq> Ok200 r)
    \<or> (\<exists>body mime url x t' s2. upload = Some body \<and> validate_upload declared body = Inr mime
        \<and> put (storage_key pj i uuid mime) mime body s = (Some url, s2) \<and> s' = Some s2
        \<and> select_by_id creatives_table (bound_tx d p pj) i = Some x
        \<and> resp = Ok200 (x\<lparr>ct_image_url := Some url\<rparr>)
        \<and> replace_row creatives_table (bound_tx d p pj) i (x\<lparr>ct_image_url := Some url\<rparr>) = Inr t'
        \<and> tx_db t' = d\<lparr>creatives := map (\<lambda>c. if row_id c = i then x\<lparr>ct_image_url := Some url\<rparr> else c)
              (creatives d)\<rparr>
        \<and> od' = Some (tx_db t'))"
proof -
  have up: "upload_failure er \<noteq> Ok200 r" for er and r :: creative_row by (cases er) auto
  show ?thesis
    using assms up
    by (auto simp: upload_image_def forbid_def dest!: open_project_tx_InrD commit_InrD update_row_SomeD
        split: sum.splits option.splits if_splits prod.splits)
qed

subsubsection \<open>Templated creatives stay renderable\<close>

text \<open>
  The contract between the two components: the template of every templated creative exists in
  the creative's project and has a source to render.
\<close>

definition has_source :: "template_row list \<Rightarrow> creative_row \<Rightarrow> bool" where
  "has_source ts c \<longleftrightarrow> (\<exists>t \<in> set ts. ct_template_id c = Some (row_id t)
     \<and> row_project_id t = row_project_id c \<and> tp_template t \<noteq> None)"

definition renderable :: "db \<Rightarrow> bool" where
  "renderable d \<longleftrightarrow> keys_ok (creatives d) \<and> keys_ok (creative_templates d)
     \<and> (\<forall>c \<in> set (creatives d). ct_kind c = ''templated'' \<longrightarrow> has_source (creative_templates d) c)"

lemma patched_source:
  assumes "engine_to_set le req = Inr engine" and "tp_template x \<noteq> None"
  shows "tp_template (patch_template req engine x) \<noteq> None"
  using assms
  by (auto simp: engine_to_set_def patch_template_def validate_template_pair_def Let_def
      split: option.splits if_splits)

lemma has_source_snoc: "has_source ts c \<Longrightarrow> has_source (ts @ [t]) c"
  by (auto simp: has_source_def)

lemma has_source_replace:
  assumes "has_source ts c" and "keys_ok ts" and "x \<in> set ts" and "row_id x = i"
    and "row_id r = i" and "row_project_id r = row_project_id x"
    and "tp_template x \<noteq> None \<Longrightarrow> tp_template r \<noteq> None"
  shows "has_source (map (\<lambda>s. if row_id s = i then r else s) ts) c"
proof -
  from assms(1) obtain t where t: "t \<in> set ts" "ct_template_id c = Some (row_id t)"
    "row_project_id t = row_project_id c" "tp_template t \<noteq> None"
    unfolding has_source_def by blast
  have "row_id t = i \<Longrightarrow> t = x"
    using assms(2-4) t(1) by (auto simp: keys_ok_def distinct_map dest: inj_onD)
  with t assms(5-7) show ?thesis
    by (cases "row_id t = i") (auto simp: has_source_def image_iff)
qed

lemma bound_select:
  assumes "select_by_id td (bound_tx d p pj) i = Some x"
  shows "x \<in> set (td_rows td d) \<and> row_project_id x = pj \<and> row_id x = i"
  using select_by_id_SomeD [OF assms] by auto

lemma create_template_renderable:
  assumes "renderable d"
  shows "renderable (the (snd (create_template le e (Some d) p pj req)))"
proof -
  obtain resp od' where run: "create_template le e (Some d) p pj req = (resp, od')" by fastforce
  from create_template_cases [OF run] consider "od' = Some d" | engine t' where
    "insert_row templates_table (bound_tx d p pj) (new_template e p pj req engine) = Inr t'"
    "tx_db t' = d\<lparr>creative_templates := creative_templates d @ [new_template e p pj req engine]\<rparr>"
    "od' = Some (tx_db t')" by blast
  then show ?thesis
  proof cases
    case (2 engine t')
    from tpl.insert_row_InrD [OF 2(1)] assms have "keys_ok (creative_templates (tx_db t'))"
      by (auto simp: confined_def renderable_def)
    with 2(2,3) assms show ?thesis by (simp add: run renderable_def has_source_snoc)
  qed (use assms run in simp)
qed

lemma update_template_renderable:
  assumes "renderable d"
  shows "renderable (the (snd (update_template le e (Some d) p pj i req)))"
proof -
  note keys = assms [unfolded renderable_def]
  obtain resp od' where run: "update_template le e (Some d) p pj i req = (resp, od')" by fastforce
  from update_template_cases [OF run] consider "od' = Some d" | engine x t' where
    "engine_to_set le req = Inr engine"
    "select_by_id templates_table (bound_tx d p pj) i = Some x"
    "replace_row templates_table (bound_tx d p pj) i (touch e 0 (patch_template req engine x)) = Inr t'"
    "tx_db t' = d\<lparr>creative_templates := map (\<lambda>s. if row_id s = i
       then touch e 0 (patch_template req engine x) else s) (creative_templates d)\<rparr>"
    "od' = Some (tx_db t')" by blast
  then show ?thesis
  proof cases
    case (2 engine x t')
    note bx = bound_select [OF 2(2)]
    have "keys_ok (creative_templates (tx_db t'))"
      using tpl.replace_row_InrD [OF 2(3), of x] bx keys by (auto simp: confined_def)
    moreover have "has_source (creative_templates (tx_db t')) c" if "has_source (creative_templates d) c" for c
      unfolding 2(4) using has_source_replace [OF that, of x i] keys bx patched_source [OF 2(1), of x]
      by (auto simp: touch_def)
    ultimately show ?thesis using keys by (simp add: run renderable_def 2(4,5))
  qed (use assms run in simp)
qed

lemma create_creative_renderable:
  assumes "renderable d"
  shows "renderable (the (snd (create_creative e (Some d) p pj req)))"
proof -
  note keys = assms [unfolded renderable_def]
  let ?c = "new_creative e p pj req"
  obtain resp od' where run: "create_creative e (Some d) p pj req = (resp, od')" by fastforce
  from create_creative_cases [OF run] consider "od' = Some d" | t' where
    "kind_error req = None" "template_check e (bound_tx d p pj) req = None"
    "insert_row creatives_table (bound_tx d p pj) ?c = Inr t'"
    "tx_db t' = d\<lparr>creatives := creatives d @ [?c]\<rparr>" "od' = Some (tx_db t')" by blast
  then show ?thesis
  proof cases
    case (2 t')
    have "has_source (creative_templates d) ?c" if "qv_kind req = ''templated''"
      using that 2(1,2) bound_select [of templates_table d p pj "the (qv_template_id req)"]
      by (auto simp: template_check_def kind_error_def has_source_def new_creative_def
          split: option.splits if_splits bool.splits)
    moreover have "ct_kind ?c = qv_kind req" by (simp add: new_creative_def)
    moreover have "keys_ok (creatives (tx_db t'))"
      using cre.insert_row_InrD [OF 2(3)] keys by (auto simp: confined_def)
    ultimately show ?thesis using keys 2(4,5) by (auto simp: run renderable_def)
  qed (use assms run in simp)
qed

lemma upload_keeps_renderable:
  assumes "renderable d" and "select_by_id creatives_table (bound_tx d p pj) i = Some x"
    and "replace_row creatives_table (bound_tx d p pj) i (x\<lparr>ct_image_url := u\<rparr>) = Inr t'"
    and "tx_db t' = d\<lparr>creatives := map (\<lambda>c. if row_id c = i then x\<lparr>ct_image_url := u\<rparr> else c) (creatives d)\<rparr>"
  shows "renderable (tx_db t')"
proof -
  note bx = bound_select [OF assms(2)]
  have keys: "keys_ok (creatives (tx_db t'))"
    using cre.replace_row_InrD [OF assms(3), of x] bx assms(1) by (auto simp: confined_def renderable_def)
  have "has_source ts (x\<lparr>ct_image_url := u\<rparr>) = has_source ts x" for ts
    by (simp add: has_source_def)
  with keys bx assms(1) show ?thesis
    unfolding renderable_def assms(4) by (auto split: if_splits)
qed

lemma upload_image_renderable:
  assumes "renderable d"
  shows "renderable (the (fst (snd (upload_image put uuid e (Some d) (Some s) p pj i declared upload))))"
proof -
  obtain resp od' s' where
    run: "upload_image put uuid e (Some d) (Some s) p pj i declared upload = (resp, od', s')"
    by (cases "upload_image put uuid e (Some d) (Some s) p pj i declared upload") fastforce
  from upload_image_cases [OF run] upload_keeps_renderable [OF assms] show ?thesis
    using assms by (auto simp: run)
qed

text \<open>
  C36: no request of the template and creative endpoints breaks the contract: a template's
  source is never removed, and a templated creative is only stored on a template that has one.
\<close>

theorem templated_creatives_stay_renderable:
  assumes "renderable d"
  shows "renderable (the (snd (create_template le e (Some d) p pj qt)))
    \<and> renderable (the (snd (update_template le e (Some d) p pj i ut)))
    \<and> renderable (the (snd (create_creative e (Some d) p pj qv)))
    \<and> renderable (the (fst (snd (upload_image put uuid e (Some d) (Some s) p pj i declared upload))))"
  using assms
  by (simp add: create_template_renderable update_template_renderable create_creative_renderable
      upload_image_renderable)

definition template_of :: "int \<Rightarrow> string \<Rightarrow> string option \<Rightarrow> template_row" where
  "template_of i name src =
     \<lparr>row_id = i, row_org_id = ''o'', row_project_id = ''pj'', row_external_id = None, row_etag = ''x'',
      row_created_at = 0, row_updated_at = 0, tp_name = name, tp_schema = JObj [], tp_template = src,
      tp_template_engine = map_option (\<lambda>_. ''liquid'') src, tp_version = 1\<rparr>"

definition creative_of :: "int \<Rightarrow> string \<Rightarrow> int option \<Rightarrow> creative_row" where
  "creative_of i kind tid =
     \<lparr>row_id = i, row_org_id = ''o'', row_project_id = ''pj'', row_external_id = None, row_etag = ''x'',
      row_created_at = 0, row_updated_at = 0, row_is_active = True, ct_advertiser_id = 70, ct_name = None,
      ct_kind = kind, ct_image_url = None, ct_width = None, ct_height = None, ct_alt = None,
      ct_body = None, ct_template_id = tid, ct_values = Some (JObj []), ct_click_through_url = None\<rparr>"

definition creative_db :: db where
  "creative_db = demand_db\<lparr>creative_templates := [template_of 2 ''a'' (Some ''<p>''), template_of 3 ''b'' None],
     creatives := [creative_of 8 ''templated'' (Some 2), creative_of 9 ''image'' None]\<rparr>"

lemma open_creative:
  "open_project_tx (calm_env t) creative_db editor ''pj'' Editor = Inr (bound_tx creative_db editor ''pj'')"
  by (simp add: open_project_tx_no_fault editor_def has_role_at_least_def less_eq_role_def
      addresses_def in_org_def creative_db_def demand_db_def tenant_db_def sample_project_row_def)

lemma creative_db_sel [simp]:
  "creative_templates creative_db = [template_of 2 ''a'' (Some ''<p>''), template_of 3 ''b'' None]"
  "creatives creative_db = [creative_of 8 ''templated'' (Some 2), creative_of 9 ''image'' None]"
  by (simp_all add: creative_db_def)

definition templated_request :: "int \<Rightarrow> create_creative_request" where
  "templated_request i =
     \<lparr>qv_external_id = None, qv_advertiser_id = 70, qv_name = None, qv_kind = ''templated'',
      qv_image_url = None, qv_width = None, qv_height = None, qv_alt = None, qv_body = None,
      qv_template_id = Some i, qv_values = Some (JObj []), qv_click_through_url = None,
      qv_is_active = None\<rparr>"

theorem templated_creatives_stay_renderable_witness:
  "renderable creative_db
   \<and> renderable (the (snd (create_creative (calm_env 7) (Some creative_db) editor ''pj'' (templated_request 2))))
   \<and> create_creative (calm_env 7) (Some creative_db) editor ''pj'' (templated_request 3)
       = (Unprocessable (''template_missing_body'',
            ''templated creatives require a CreativeTemplate with a non-null template''), Some creative_db)
   \<and> create_creative (calm_env 7) (Some creative_db) editor ''pj'' (templated_request 4)
       = (Unprocessable (''template_not_found'',
            ''referenced template_id does not exist in this project''), Some creative_db)"
proof -
  have "renderable creative_db"
    by (auto simp: renderable_def keys_ok_def same_external_def has_source_def template_of_def creative_of_def)
  moreover from this have
    "renderable (the (snd (create_creative (calm_env 7) (Some creative_db) editor ''pj'' (templated_request 2))))"
    by (rule templated_creatives_stay_renderable [THEN conjunct2, THEN conjunct2, THEN conjunct1])
  moreover have "select_by_id templates_table (bound_tx creative_db editor ''pj'') 3
      = Some (template_of 3 ''b'' None)"
    "select_by_id templates_table (bound_tx creative_db editor ''pj'') 4 = None"
    by (simp_all add: select_by_id_def visible_rows_def row_visible_def template_of_def)
  then have "template_check (calm_env 7) (bound_tx creative_db editor ''pj'') (templated_request 3)
      = Some (''template_missing_body'',
            ''templated creatives require a CreativeTemplate with a non-null template'')"
    "template_check (calm_env 7) (bound_tx creative_db editor ''pj'') (templated_request 4)
      = Some (''template_not_found'', ''referenced template_id does not exist in this project'')"
    by (simp_all add: template_check_def templated_request_def template_of_def)
  moreover have "kind_error (templated_request i) = None" for i
    by (simp add: kind_error_def templated_request_def)
  ultimately show ?thesis by (simp add: create_creative_def open_creative)
qed

text \<open>
  a successful \<open>PATCH\<close> of a template stores exactly the given fields, raises the version by
  one when the schema or the source is among them and not otherwise, leaves the engine
  \<open>liquid\<close> exactly when there is a source, and cannot take a source away.
\<close>

theorem template_patch_exact:
  assumes "update_template le e (Some d) p pj i req = (Ok200 r, Some d')"
  shows "\<exists>x \<in> set (creative_templates d). row_id x = i \<and> row_project_id x = pj
    \<and> tp_name r = coalesce (ut_name req) (tp_name x)
    \<and> tp_schema r = coalesce (ut_schema req) (tp_schema x)
    \<and> tp_template r = (case ut_template req of None \<Rightarrow> tp_template x | src \<Rightarrow> src)
    \<and> tp_version r = tp_version x + (if ut_schema req = None \<and> ut_template req = None then 0 else 1)
    \<and> (tp_template r = None \<longleftrightarrow> tp_template_engine r = None)
    \<and> (tp_template x \<noteq> None \<longrightarrow> tp_template r \<noteq> None)"
proof -
  from update_template_cases [OF assms] obtain engine x t' where
    eng: "engine_to_set le req = Inr engine"
    and x: "select_by_id templates_table (bound_tx d p pj) i = Some x"
    and r: "r = touch e 0 (patch_template req engine x)"
    and rep: "replace_row templates_table (bound_tx d p pj) i r = Inr t'" by auto
  from rep have pair: "(tp_template r = None \<and> tp_template_engine r = None)
      \<or> (tp_template r \<noteq> None \<and> tp_template_engine r = Some ''liquid'')"
    by (auto simp: replace_row_def Let_def write_check_def templates_table_def split: option.splits if_splits)
  from eng have given: "ut_template req = None \<longleftrightarrow> ut_template_engine req = None"
    by (auto simp: engine_to_set_def validate_template_pair_def split: option.splits)
  from bound_select [OF x] have "x \<in> set (creative_templates d)" "row_id x = i" "row_project_id x = pj"
    by auto
  moreover have "tp_name r = coalesce (ut_name req) (tp_name x)"
    "tp_schema r = coalesce (ut_schema req) (tp_schema x)"
    "tp_template r = (case ut_template req of None \<Rightarrow> tp_template x | src \<Rightarrow> src)"
    "tp_version r = tp_version x + (if ut_schema req = None \<and> ut_template req = None then 0 else 1)"
    using given by (auto simp: r touch_def patch_template_def Let_def split: option.splits)
  ultimately show ?thesis using pair by (intro bexI [of _ x]) (auto split: option.splits)
qed

theorem template_patch_exact_witness:
  "\<exists>r d'. update_template (\<lambda>_. None) (calm_env 7) (Some creative_db) editor ''pj'' 2
       \<lparr>ut_name = None, ut_schema = None, ut_template = Some ''<b>'', ut_template_engine = Some ''liquid''\<rparr>
     = (Ok200 r, Some d') \<and> tp_version r = 2 \<and> tp_template r = Some ''<b>'' \<and> tp_template_engine r \<noteq> None"
proof -
  let ?q = "\<lparr>ut_name = None, ut_schema = None, ut_template = Some ''<b>'', ut_template_engine = Some ''liquid''\<rparr>"
  have sel: "select_by_id templates_table (bound_tx creative_db editor ''pj'') 2
      = Some (template_of 2 ''a'' (Some ''<p>''))"
    by (simp add: select_by_id_def visible_rows_def row_visible_def template_of_def)
  obtain r d' where run: "update_template (\<lambda>_. None) (calm_env 7) (Some creative_db) editor ''pj'' 2 ?q
      = (Ok200 r, Some d')"
    by (simp add: update_template_def open_creative engine_to_set_def validate_template_pair_def
        update_commit_def sel update_row_def replace_row_def write_check_def commit_def Let_def)
       (simp add: template_of_def patch_template_def touch_def row_visible_def violated_def
        same_external_def templates_table_def coalesce_def commit_def Let_def)
  from template_patch_exact [OF run] obtain x where
    x: "x \<in> {template_of 2 ''a'' (Some ''<p>''), template_of 3 ''b'' None}" "row_id x = 2"
    "tp_template r = Some ''<b>''" "tp_version r = tp_version x + 1"
    "tp_template r = None \<longleftrightarrow> tp_template_engine r = None" by auto
  then have "tp_version r = 2" by (auto simp: template_of_def)
  with run x(3,5) show ?thesis by auto
qed

subsubsection \<open>Confinement and uploads\<close>

lemma create_template_confined:
  "confined templates_table pj d (the (snd (create_template le e (Some d) p pj req)))"
proof -
  obtain resp od' where run: "create_template le e (Some d) p pj req = (resp, od')" by fastforce
  from create_template_cases [OF run] consider "od' = Some d" | engine t' where
    "insert_row templates_table (bound_tx d p pj) (new_template e p pj req engine) = Inr t'"
    "od' = Some (tx_db t')" by blast
  then show ?thesis
    by cases (use run in \<open>auto dest: tpl.insert_row_InrD\<close>)
qed

lemma update_template_confined:
  "confined templates_table pj d (the (snd (update_template le e (Some d) p pj i req)))"
proof -
  obtain resp od' where run: "update_template le e (Some d) p pj i req = (resp, od')" by fastforce
  from update_template_cases [OF run] consider "od' = Some d" | engine x t' where
    "select_by_id templates_table (bound_tx d p pj) i = Some x"
    "replace_row templates_table (bound_tx d p pj) i (touch e 0 (patch_template req engine x)) = Inr t'"
    "od' = Some (tx_db t')" by blast
  then show ?thesis
  proof cases
    case (2 engine x t')
    from tpl.replace_row_InrD [OF 2(2), of x] bound_select [OF 2(1)] 2(3) run show ?thesis by auto
  qed (use run in simp)
qed

lemma create_creative_confined:
  "confined creatives_table pj d (the (snd (create_creative e (Some d) p pj req)))"
proof -
  obtain resp od' where run: "create_creative e (Some d) p pj req = (resp, od')" by fastforce
  from create_creative_cases [OF run] consider "od' = Some d" | t' where
    "insert_row creatives_table (bound_tx d p pj) (new_creative e p pj req) = Inr t'"
    "od' = Some (tx_db t')" by blast
  then show ?thesis
    by cases (use run in \<open>auto dest: cre.insert_row_InrD\<close>)
qed

lemma upload_image_confined:
  "confined creatives_table pj d
     (the (fst (snd (upload_image put uuid e (Some d) (Some s) p pj i declared upload))))"
proof -
  obtain resp od' s' where
    run: "upload_image put uuid e (Some d) (Some s) p pj i declared upload = (resp, od', s')"
    by (cases "upload_image put uuid e (Some d) (Some s) p pj i declared upload") fastforce
  from upload_image_cases [OF run] consider "od' = Some d" | x u t' where
    "select_by_id creatives_table (bound_tx d p pj) i = Some x"
    "replace_row creatives_table (bound_tx d p pj) i (x\<lparr>ct_image_url := Some u\<rparr>) = Inr t'"
    "od' = Some (tx_db t')" by blast
  then show ?thesis
  proof cases
    case (2 x u t')
    from cre.replace_row_InrD [OF 2(2), of x] bound_select [OF 2(1)] 2(3) run show ?thesis by auto
  qed (use run in simp)
qed

text \<open>
  C15: the template and creative endpoints, the image upload included, write within the
  project: keys intact, no row of another project changed.
\<close>

theorem creative_writes_confined:
  "confined templates_table pj d (the (snd (create_template le e (Some d) p pj qt)))
   \<and> confined templates_table pj d (the (snd (update_template le e (Some d) p pj i ut)))
   \<and> confined creatives_table pj d (the (snd (create_creative e (Some d) p pj qv)))
   \<and> confined creatives_table pj d
       (the (fst (snd (upload_image put uuid e (Some d) (Some s) p pj i declared upload))))"
  by (simp add: create_template_confined update_template_confined create_creative_confined
      upload_image_confined)

text \<open>A store that keeps what it acknowledges holds the uploaded image, whatever the store.\<close>

context image_store
begin

lemma upload_is_stored:
  assumes "upload_image put uuid e (Some d) (Some s) p pj i declared (Some body) = (Ok200 r, od', Some s')"
  shows "\<exists>mime. validate_upload declared body = Inr mime
    \<and> stored s' (storage_key pj i uuid mime) = Some (mime, body)
    \<and> (\<forall>k. k \<noteq> storage_key pj i uuid mime \<longrightarrow> stored s' k = stored s k)"
proof -
  from upload_image_cases [OF assms] obtain mime url where
    "validate_upload declared body = Inr mime"
    "put (storage_key pj i uuid mime) mime body s = (Some url, s')" by auto
  then show ?thesis using put_stores put_others by blast
qed

end

text \<open>
  a successful upload to the in-memory store keeps the body under the key of the creative
  and links the creative to it: the stored row has the URL of that object and is otherwise the
  old row, its etag and \<open>updated_at\<close> included; no other object changes.
\<close>

theorem upload_stored_and_linked:
  assumes "upload_image in_memory_put uuid e (Some d) (Some s) p pj i declared (Some body)
      = (Ok200 r, Some d', Some s')"
  shows "\<exists>mime. sniff_mime body = Some mime \<and> length body \<le> MAX_BYTES
    \<and> s' (storage_key pj i uuid mime) = Some (mime, body)
    \<and> (\<forall>k. k \<noteq> storage_key pj i uuid mime \<longrightarrow> s' k = s k)
    \<and> (\<exists>x \<in> set (creatives d). row_id x = i \<and> row_project_id x = pj
        \<and> r = x\<lparr>ct_image_url := Some (''memory://'' @ storage_key pj i uuid mime)\<rparr>
        \<and> creatives d' = map (\<lambda>c. if row_id c = i then r else c) (creatives d))"
proof -
  from upload_image_cases [OF assms] obtain mime url x t' where
    v: "validate_upload declared body = Inr mime"
    and put: "in_memory_put (storage_key pj i uuid mime) mime body s = (Some url, s')"
    and x: "select_by_id creatives_table (bound_tx d p pj) i = Some x"
    and r: "r = x\<lparr>ct_image_url := Some url\<rparr>"
    and d': "d' = d\<lparr>creatives := map (\<lambda>c. if row_id c = i then r else c) (creatives d)\<rparr>" by auto
  from v have sniffed: "sniff_mime body = Some mime" "length body \<le> MAX_BYTES"
    by (auto simp: validate_upload_def split: option.splits if_splits)
  from memory.upload_is_stored [OF assms] v have
    "s' (storage_key pj i uuid mime) = Some (mime, body)"
    "\<forall>k. k \<noteq> storage_key pj i uuid mime \<longrightarrow> s' k = s k" by auto
  moreover from put have "url = ''memory://'' @ storage_key pj i uuid mime"
    by (simp add: in_memory_put_def)
  ultimately show ?thesis
    using sniffed bound_select [OF x] r d' by (intro exI [of _ mime]) auto
qed

definition png_body :: bytes where
  "png_body = png_magic @ [0, 0, 0, 0]"

theorem upload_stored_and_linked_witness:
  "\<exists>r d' s'. upload_image in_memory_put ''u1'' (calm_env 5) (Some creative_db) (Some Map.empty) editor ''pj'' 9
       (Some ''image/png'') (Some png_body) = (Ok200 r, Some d', Some s')
     \<and> sniff_mime png_body = Some ''image/png'' \<and> row_etag r = ''x''
     \<and> s' (storage_key ''pj'' 9 ''u1'' ''image/png'') = Some (''image/png'', png_body)"
proof -
  have sniff: "sniff_mime png_body = Some ''image/png''"
    by (simp add: sniff_mime_def png_body_def png_magic_def slice_at_def)
  then have v: "validate_upload (Some ''image/png'') png_body = Inr ''image/png''"
    by (simp add: validate_upload_def ALLOWED_MIME_def MAX_BYTES_def png_body_def png_magic_def)
  have sel: "select_by_id creatives_table (bound_tx creative_db editor ''pj'') 9
      = Some (creative_of 9 ''image'' None)"
    by (simp add: select_by_id_def visible_rows_def row_visible_def creative_of_def)
  obtain r d' s' where run: "upload_image in_memory_put ''u1'' (calm_env 5) (Some creative_db) (Some Map.empty)
      editor ''pj'' 9 (Some ''image/png'') (Some png_body) = (Ok200 r, Some d', Some s')"
    by (simp add: upload_image_def open_creative sel v in_memory_put_def update_row_def replace_row_def
        write_check_def commit_def Let_def)
       (simp add: creative_of_def row_visible_def violated_def same_external_def creatives_table_def
        demand_rows creative_db_def fk_to_def commit_def put_rows_def)
  from upload_stored_and_linked [OF run] sniff have
    "s' (storage_key ''pj'' 9 ''u1'' ''image/png'') = Some (''image/png'', png_body)"
    "\<exists>x \<in> set (creatives creative_db). row_id x = 9 \<and> row_etag r = row_etag x" by auto
  then have "row_etag r = ''x''" by (auto simp: creative_of_def)
  with run sniff \<open>s' _ = _\<close> show ?thesis by blast
qed


end
