(* ===== verification/Idempotency.thy ===== *)
theory Idempotency
  imports Pg_Errors
begin

section \<open>Idempotency keys and the audit log\<close>

text \<open>
  \<open>src/src/idempotency.rs\<close> on the table of \<open>0005_idempotency_keys.sql\<close> and
  \<open>src/src/audit.rs\<close> on that of \<open>0004_audit_log.sql\<close>. SHA-256, \<open>hex::encode\<close> and the serde
  encoders are parameters (\<open>digest\<close>, \<open>ser\<close>).
\<close>

record digest =
  dg_sha256 :: "bytes \<Rightarrow> bytes"
  dg_hex :: "bytes \<Rightarrow> string"

subsection \<open>The replay store\<close>

datatype check_result = Fresh | Replay nat bytes | IdemConflict

definition body_hash :: "digest \<Rightarrow> ('b \<Rightarrow> bytes option) \<Rightarrow> 'b \<Rightarrow> string option" where
  "body_hash dg ser b = map_option (\<lambda>j. dg_hex dg (dg_sha256 dg j)) (ser b)"

text \<open>The columns of the unique index \<open>idempotency_keys_lookup_idx\<close>.\<close>

type_synonym idem_key = "string \<times> string \<times> string \<times> string"

definition or_empty :: "string option \<Rightarrow> string" where
  "or_empty x = (case x of Some v \<Rightarrow> v | None \<Rightarrow> '''')"

definition idem_key_of :: "idem_row \<Rightarrow> idem_key" where
  "idem_key_of r = (ik_org_id r, or_empty (ik_project_id r), ik_key r, ik_route r)"

definition idem_visible :: "tx \<Rightarrow> idem_row \<Rightarrow> bool" where
  "idem_visible t r \<longleftrightarrow> Some (ik_org_id r) = guc_org_id t
     \<or> (ik_project_id r \<noteq> None \<and> ik_project_id r = guc_project_id t)"

definition idem_check ::
  "env \<Rightarrow> tx \<Rightarrow> string \<Rightarrow> string option \<Rightarrow> string \<Rightarrow> string \<Rightarrow> string \<Rightarrow> db_error + check_result" where
  "idem_check e t oid pid key route h =
     (if fault e (Stmt ''idempotency check'') then Inl conn_lost
      else (case find (\<lambda>r. idem_visible t r \<and> idem_key_of r = (oid, or_empty pid, key, route)
                        \<and> clock_ms e < ik_expires_at r) (idempotency_keys (tx_db t)) of
          None \<Rightarrow> Inr Fresh
        | Some r \<Rightarrow>
            if ik_body_hash r = h then Inr (Replay (nat (ik_status r mod 2 ^ 16)) (ik_body r))
            else Inr IdemConflict))"

definition REPLAY_WINDOW_MS :: int where
  "REPLAY_WINDOW_MS = 24 * 60 * 60 * 1000"

text \<open>\<open>INSERT \<dots> ON CONFLICT DO NOTHING\<close>; expired rows still occupy the index.\<close>

definition put_idem :: "idem_row list \<Rightarrow> idem_row \<Rightarrow> idem_row list" where
  "put_idem rows r = (if list_ex (\<lambda>s. idem_key_of s = idem_key_of r) rows then rows else rows @ [r])"

definition idem_store ::
  "env \<Rightarrow> tx \<Rightarrow> string \<Rightarrow> string option \<Rightarrow> string \<Rightarrow> string \<Rightarrow> string \<Rightarrow> nat \<Rightarrow> bytes \<Rightarrow> db_error + tx" where
  "idem_store e t oid pid key route h status body =
     (if fault e (Stmt ''idempotency store'') then Inl conn_lost
      else if guc_org_id t \<noteq> Some oid then Inl (policy_error ''idempotency_keys'')
      else Inr (t\<lparr>tx_db := (tx_db t)\<lparr>idempotency_keys := put_idem (idempotency_keys (tx_db t))
          \<lparr>ik_org_id = oid, ik_project_id = pid, ik_key = key, ik_route = route, ik_body_hash = h,
           ik_status = int status, ik_body = body, ik_created_at = clock_ms e,
           ik_expires_at = clock_ms e + REPLAY_WINDOW_MS\<rparr>\<rparr>\<rparr>))"

subsection \<open>First write wins\<close>

text \<open>
  What a client of the store may rely on: a key is bound once, and the first binding is the
  one every later lookup sees.
\<close>

locale replay_store =
  fixes entry :: "'s \<Rightarrow> 'k \<Rightarrow> 'v option"
    and put :: "'s \<Rightarrow> 'v \<Rightarrow> 's"
    and key_of :: "'v \<Rightarrow> 'k"
  assumes entry_put: "entry (put s v) k
    = (case entry s k of Some w \<Rightarrow> Some w | None \<Rightarrow> if key_of v = k then Some v else None)"
begin

lemma entry_stays: "entry s k = Some w \<Longrightarrow> entry (foldl put s vs) k = Some w"
  by (induction vs arbitrary: s) (simp_all add: entry_put)

lemma first_write_wins: "entry s (key_of v) = None \<Longrightarrow> entry (foldl put s (v # vs)) (key_of v) = Some v"
  by (simp add: entry_put entry_stays)

lemma entry_other: "key_of v \<noteq> k \<Longrightarrow> entry (put s v) k = entry s k"
  by (simp add: entry_put split: option.splits)

end

definition idem_entry :: "idem_row list \<Rightarrow> idem_key \<Rightarrow> idem_row option" where
  "idem_entry rows k = find (\<lambda>r. idem_key_of r = k) rows"

interpretation idem: replay_store idem_entry put_idem idem_key_of
proof unfold_locales
  fix rows :: "idem_row list" and r k
  show "idem_entry (put_idem rows r) k = (case idem_entry rows k of
      Some w \<Rightarrow> Some w | None \<Rightarrow> if idem_key_of r = k then Some r else None)"
    by (auto simp: idem_entry_def put_idem_def find_snoc list_ex_iff find_None_iff split: option.splits)
qed

text \<open>The lookup of the code against the row that is physically there.\<close>

definition idem_keys_ok :: "idem_row list \<Rightarrow> bool" where
  "idem_keys_ok rows \<longleftrightarrow> distinct (map idem_key_of rows)"

lemma idem_check_entry:
  assumes "idem_keys_ok (idempotency_keys (tx_db t))" and "guc_org_id t = Some oid"
    and "\<forall>s. \<not> fault e s"
  shows "idem_check e t oid pid key route h =
    Inr (case idem_entry (idempotency_keys (tx_db t)) (oid, or_empty pid, key, route) of
           None \<Rightarrow> Fresh
         | Some r \<Rightarrow>
             if clock_ms e < ik_expires_at r then
               (if ik_body_hash r = h then Replay (nat (ik_status r mod 2 ^ 16)) (ik_body r)
                else IdemConflict)
             else Fresh)"
proof -
  let ?k = "(oid, or_empty pid, key, route)"
  have vis: "idem_key_of r = ?k \<Longrightarrow> idem_visible t r" for r
    using assms(2) by (simp add: idem_key_of_def idem_visible_def)
  have "find (\<lambda>r. idem_visible t r \<and> idem_key_of r = ?k \<and> clock_ms e < ik_expires_at r) rows
      = (case find (\<lambda>r. idem_key_of r = ?k) rows of
           None \<Rightarrow> None | Some r \<Rightarrow> if clock_ms e < ik_expires_at r then Some r else None)"
    if "distinct (map idem_key_of rows)" for rows
    using that
  proof (induction rows)
    case (Cons r rows)
    show ?case
    proof (cases "idem_key_of r = ?k")
      case True
      with Cons.prems have "find (\<lambda>r. idem_visible t r \<and> idem_key_of r = ?k \<and> clock_ms e < ik_expires_at r) rows = None"
        by (auto simp: find_None_iff image_iff)
      with True vis show ?thesis by simp
    qed (use Cons in simp)
  qed simp
  with assms(1,3) show ?thesis
    by (simp add: idem_check_def idem_keys_ok_def idem_entry_def split: option.splits)
qed

lemma idem_store_InrD:
  assumes "idem_store e t oid pid key route h status body = Inr t'"
  shows "tx_db t' = (tx_db t)\<lparr>idempotency_keys := put_idem (idempotency_keys (tx_db t))
          \<lparr>ik_org_id = oid, ik_project_id = pid, ik_key = key, ik_route = route, ik_body_hash = h,
           ik_status = int status, ik_body = body, ik_created_at = clock_ms e,
           ik_expires_at = clock_ms e + REPLAY_WINDOW_MS\<rparr>\<rparr>
    \<and> guc_org_id t' = guc_org_id t \<and> guc_project_id t' = guc_project_id t"
  using assms by (auto simp: idem_store_def split: if_splits)

lemma put_idem_keys_ok: "idem_keys_ok rows \<Longrightarrow> idem_keys_ok (put_idem rows r)"
  by (auto simp: put_idem_def idem_keys_ok_def list_ex_iff)

subsection \<open>The audit log\<close>

definition hash_payload ::
  "digest \<Rightarrow> ('b \<Rightarrow> bytes option) \<Rightarrow> string \<Rightarrow> string \<Rightarrow> 'b \<Rightarrow> string option" where
  "hash_payload dg ser resource_kind resource_id payload =
     map_option (\<lambda>body. dg_hex dg (dg_sha256 dg
       (bytes_of resource_kind @ [0] @ bytes_of resource_id @ [0] @ body))) (ser payload)"

text \<open>The insert is checked against the policy of the log, which admits the bound org only.\<close>

definition audit_emit ::
  "digest \<Rightarrow> ('b \<Rightarrow> bytes option) \<Rightarrow> env \<Rightarrow> tx \<Rightarrow> principal \<Rightarrow> string \<Rightarrow> string \<Rightarrow> string \<Rightarrow> 'b option
    \<Rightarrow> db_error + tx" where
  "audit_emit dg ser e t actor action resource_kind resource_id payload =
     (case (case payload of
              None \<Rightarrow> Some None
            | Some b \<Rightarrow> map_option Some (hash_payload dg ser resource_kind resource_id b)) of
        None \<Rightarrow> Inl (ConnectionError ''serializing audit payload'')
      | Some payload_hash \<Rightarrow>
          if fault e (Stmt ''insert audit_log'') then Inl conn_lost
          else if guc_org_id t \<noteq> Some (org_id actor) then Inl (policy_error ''audit_log'')
          else Inr (t\<lparr>tx_db := (tx_db t)\<lparr>audit_log := audit_log (tx_db t) @
            [\<lparr>au_ts = clock_ms e, au_org_id = org_id actor, au_project_id = project_id actor,
              au_actor = actor_id actor, au_operation = action, au_payload_hash = payload_hash,
              au_reason = None, au_request_id = None\<rparr>]\<rparr>\<rparr>))"

lemma audit_emit_InrD:
  assumes "audit_emit dg ser e t p action kind i payload = Inr t'"
  shows "(payload \<noteq> None \<longrightarrow> Option.bind payload (hash_payload dg ser kind i) \<noteq> None)
    \<and> guc_org_id t = Some (org_id p)
    \<and> tx_db t' = (tx_db t)\<lparr>audit_log := audit_log (tx_db t) @
        [\<lparr>au_ts = clock_ms e, au_org_id = org_id p, au_project_id = project_id p, au_actor = actor_id p,
          au_operation = action, au_payload_hash = Option.bind payload (hash_payload dg ser kind i),
          au_reason = None, au_request_id = None\<rparr>]\<rparr>"
  using assms by (auto simp: audit_emit_def split: option.splits if_splits dest: sym [of "Some _"])

text \<open>Without a body to hash the row does not depend on the resource: it names no resource at all.\<close>

lemma audit_without_body_names_nothing:
  "audit_emit dg ser e t p action kind i None = audit_emit dg ser e t p action kind' i' None"
  by (simp add: audit_emit_def)

end
