(* ===== verification/Taxonomy.thy ===== *)
theory Taxonomy
  imports Resource_Tables
begin

section \<open>Channels, priorities and ad types\<close>

text \<open>
  \<open>src/src/taxonomy.rs\<close> on the tables of \<open>0008_taxonomy.sql\<close>: the read-only endpoints and
  the rows a new project is seeded with. The ids of seeded rows come from the tables'
  sequences, \<open>new_id\<close>.
\<close>

subsection \<open>Reading\<close>

text \<open>
  The six handlers have one shape: \<open>rows\<close> are the table's rows, \<open>project_of\<close> the column the
  policy reads, \<open>order\<close> the column of the \<open>ORDER BY\<close>, \<open>id_of\<close> the primary key.
\<close>

definition taxonomy_list ::
  "(db \<Rightarrow> 'a list) \<Rightarrow> ('a \<Rightarrow> string) \<Rightarrow> ('a \<Rightarrow> int) \<Rightarrow> env \<Rightarrow> db option \<Rightarrow> principal \<Rightarrow> string
    \<Rightarrow> ('a list \<times> string option) api_resp" where
  "taxonomy_list rows project_of order e od p pj =
     (case od of
        None \<Rightarrow> InternalError no_db
      | Some d \<Rightarrow>
     (case open_project_tx e d p pj Reader of
        Inl er \<Rightarrow> forbid er
      | Inr t \<Rightarrow>
          if fault e (Stmt ''select'') then InternalError (db_failed ''list failed'')
          else Ok200 (sort_key order (filter (\<lambda>r. guc_project_id t = Some (project_of r)) (rows (tx_db t))), None)))"

definition taxonomy_get ::
  "(db \<Rightarrow> 'a list) \<Rightarrow> ('a \<Rightarrow> string) \<Rightarrow> ('a \<Rightarrow> int) \<Rightarrow> string \<Rightarrow> env \<Rightarrow> db option \<Rightarrow> principal \<Rightarrow> string
    \<Rightarrow> int \<Rightarrow> 'a api_resp" where
  "taxonomy_get rows project_of id_of not_found e od p pj i =
     (case od of
        None \<Rightarrow> InternalError no_db
      | Some d \<Rightarrow>
     (case open_project_tx e d p pj Reader of
        Inl er \<Rightarrow> forbid er
      | Inr t \<Rightarrow>
          if fault e (Stmt ''select'') then InternalError (db_failed ''select failed'')
          else (case find (\<lambda>r. guc_project_id t = Some (project_of r) \<and> id_of r = i) (rows (tx_db t)) of
              Some r \<Rightarrow> Ok200 r
            | None \<Rightarrow> NotFound (''not_found'', not_found))))"

definition list_channels ::
  "env \<Rightarrow> db option \<Rightarrow> principal \<Rightarrow> string \<Rightarrow> (channel_row list \<times> string option) api_resp" where
  "list_channels = taxonomy_list channels ch_project_id ch_id"

definition get_channel :: "env \<Rightarrow> db option \<Rightarrow> principal \<Rightarrow> string \<Rightarrow> int \<Rightarrow> channel_row api_resp" where
  "get_channel = taxonomy_get channels ch_project_id ch_id ''channel not found''"

definition list_priorities ::
  "env \<Rightarrow> db option \<Rightarrow> principal \<Rightarrow> string \<Rightarrow> (priority_row list \<times> string option) api_resp" where
  "list_priorities = taxonomy_list priorities py_project_id py_tier"

definition get_priority :: "env \<Rightarrow> db option \<Rightarrow> principal \<Rightarrow> string \<Rightarrow> int \<Rightarrow> priority_row api_resp" where
  "get_priority = taxonomy_get priorities py_project_id py_id ''priority not found''"

definition list_ad_types ::
  "env \<Rightarrow> db option \<Rightarrow> principal \<Rightarrow> string \<Rightarrow> (ad_type_row list \<times> string option) api_resp" where
  "list_ad_types = taxonomy_list ad_types ty_project_id ty_id"

definition get_ad_type :: "env \<Rightarrow> db option \<Rightarrow> principal \<Rightarrow> string \<Rightarrow> int \<Rightarrow> ad_type_row api_resp" where
  "get_ad_type = taxonomy_get ad_types ty_project_id ty_id ''ad_type not found''"

subsection \<open>Seeding\<close>

definition seeded_channels :: "env \<Rightarrow> string \<Rightarrow> string \<Rightarrow> channel_row list" where
  "seeded_channels e oid pid =
     map (\<lambda>(n, name). \<lparr>ch_id = new_id e n, ch_org_id = oid, ch_project_id = pid, ch_name = name,
                       ch_created_at = clock_ms e\<rparr>)
       [(0, ''Web''), (1, ''Mobile''), (2, ''Email'')]"

definition seeded_priorities :: "env \<Rightarrow> string \<Rightarrow> string \<Rightarrow> priority_row list" where
  "seeded_priorities e oid pid =
     map (\<lambda>(n, name, tier). \<lparr>py_id = new_id e n, py_org_id = oid, py_project_id = pid, py_name = name,
                             py_tier = tier, py_created_at = clock_ms e\<rparr>)
       [(0, ''House'', 1), (1, ''Standard'', 2), (2, ''Backfill'', 3)]"

definition seeded_ad_types :: "env \<Rightarrow> string \<Rightarrow> string \<Rightarrow> ad_type_row list" where
  "seeded_ad_types e oid pid =
     map (\<lambda>(n, name, w, h). \<lparr>ty_id = new_id e n, ty_org_id = oid, ty_project_id = pid, ty_name = name,
                             ty_width = Some w, ty_height = Some h, ty_created_at = clock_ms e\<rparr>)
       [(0, ''Medium Rectangle'', 300, 250), (1, ''Leaderboard'', 728, 90),
        (2, ''Mobile Banner'', 320, 50), (3, ''Large Leaderboard'', 970, 90)]"

text \<open>
  Three inserts under the policies of the tables, which admit the bound project only;
  \<open>priorities\<close> is unique on \<open>(project_id, tier)\<close>.
\<close>

definition seed_default_taxonomy :: "env \<Rightarrow> tx \<Rightarrow> string \<Rightarrow> string \<Rightarrow> db_error + tx" where
  "seed_default_taxonomy e t oid pid =
     (if fault e (Stmt ''seed channels'') then Inl conn_lost
      else if guc_project_id t \<noteq> Some pid then Inl (policy_error ''channels'')
      else if fault e (Stmt ''seed priorities'') then Inl conn_lost
      else if list_ex (\<lambda>r. py_project_id r = pid \<and> py_tier r \<in> {1, 2, 3}) (priorities (tx_db t)) then
        Inl (unique_error ''priorities_project_id_tier_key'')
      else if fault e (Stmt ''seed ad_types'') then Inl conn_lost
      else (let d = tx_db t in
        Inr (t\<lparr>tx_db := d\<lparr>channels := channels d @ seeded_channels e oid pid,
                        priorities := priorities d @ seeded_priorities e oid pid,
                        ad_types := ad_types d @ seeded_ad_types e oid pid\<rparr>\<rparr>)))"

lemma seed_default_taxonomy_InrD:
  "seed_default_taxonomy e t oid pid = Inr t' \<Longrightarrow>
     tx_db t' = (tx_db t)\<lparr>channels := channels (tx_db t) @ seeded_channels e oid pid,
                        priorities := priorities (tx_db t) @ seeded_priorities e oid pid,
                        ad_types := ad_types (tx_db t) @ seeded_ad_types e oid pid\<rparr>
     \<and> guc_org_id t' = guc_org_id t \<and> guc_project_id t' = guc_project_id t"
  by (auto simp: seed_default_taxonomy_def Let_def split: if_splits)

lemma taxonomy_list_success:
  assumes "taxonomy_list rows project_of order e od p pj = Ok200 (rs, c)"
  shows "\<exists>d. od = Some d \<and> in_org d (org_id p) pj \<and> c = None
    \<and> rs = sort_key order (filter (\<lambda>r. project_of r = pj) (rows d))"
proof -
  have "(\<lambda>r. pj = project_of r) = (\<lambda>r. project_of r = pj)" by auto
  then show ?thesis using assms
    by (auto simp: taxonomy_list_def forbid_def bound_tx_def dest!: open_project_tx_InrD
        split: option.splits sum.splits if_splits)
qed

end
