(* ===== verification/Org_Projects.thy ===== *)
theory Org_Projects
  imports Idempotency Taxonomy
begin

section \<open>Organisations and projects\<close>

text \<open>
  \<open>src/src/orgs.rs\<close> on the tables of \<open>0002_tenants.sql\<close>. \<open>project_world\<close> holds what a create
  takes from outside: the digest, the serde encoders of the request and the response, the six
  bytes of \<open>OsRng\<close> and the default of \<open>hmac_secret\<close>.
\<close>

record create_project_request =
  cq_external_id :: "string option"
  cq_name :: string

record project_response =
  prs_id :: string
  prs_external_id :: "string option"
  prs_name :: string
  prs_is_active :: bool
  prs_etag :: string
  prs_created_at :: int
  prs_updated_at :: int

record org_response =
  ors_id :: string
  ors_external_id :: "string option"
  ors_name :: string
  ors_is_active :: bool
  ors_etag :: string
  ors_created_at :: int
  ors_updated_at :: int

record project_world =
  pw_digest :: digest
  pw_ser_request :: "create_project_request \<Rightarrow> bytes option"
  pw_ser_response :: "project_response \<Rightarrow> bytes option"
  pw_de_response :: "bytes \<Rightarrow> project_response option"
  pw_random :: bytes
  pw_hmac_secret :: bytes

definition project_response_of :: "project_row \<Rightarrow> project_response" where
  "project_response_of r =
     \<lparr>prs_id = pr_id r, prs_external_id = pr_external_id r, prs_name = pr_name r,
      prs_is_active = pr_is_active r, prs_etag = pr_etag r, prs_created_at = pr_created_at r,
      prs_updated_at = pr_updated_at r\<rparr>"

definition org_response_of :: "org_row \<Rightarrow> org_response" where
  "org_response_of r =
     \<lparr>ors_id = org_row_id r, ors_external_id = org_row_external_id r, ors_name = org_row_name r,
      ors_is_active = org_row_is_active r, ors_etag = org_row_etag r,
      ors_created_at = org_row_created_at r, ors_updated_at = org_row_updated_at r\<rparr>"

definition random_pj_id :: "bytes \<Rightarrow> string" where
  "random_pj_id bs = ''pj_'' @ lower_hex bs"

text \<open>The prologue the four handlers write out: the org of the path, then the role.\<close>

definition org_prologue :: "principal \<Rightarrow> string \<Rightarrow> role \<Rightarrow> string \<Rightarrow> error_envelope option" where
  "org_prologue p path_org min_role message =
     (if org_id p \<noteq> path_org then
        Some (''wrong_tenant'', ''principal's org_id does not match the path'')
      else if \<not> has_role_at_least p min_role then Some (''role_insufficient'', message)
      else None)"

subsection \<open>Creating a project\<close>

definition ROUTE :: string where
  "ROUTE = ''POST /v1/orgs/{org_id}/projects''"

definition new_project :: "project_world \<Rightarrow> env \<Rightarrow> string \<Rightarrow> create_project_request \<Rightarrow> project_row" where
  "new_project w e oid req =
     \<lparr>pr_id = random_pj_id (pw_random w), pr_org_id = oid, pr_external_id = cq_external_id req,
      pr_name = cq_name req, pr_is_active = True, pr_hmac_secret = pw_hmac_secret w,
      pr_allow_force_decision = False, pr_etag = new_etag e 0, pr_created_at = clock_ms e,
      pr_updated_at = clock_ms e\<rparr>"

text \<open>The insert: the policy's check, the two unique keys and the reference to the org.\<close>

definition insert_project :: "env \<Rightarrow> tx \<Rightarrow> project_row \<Rightarrow> db_error + tx" where
  "insert_project e t r =
     (let rows = projects (tx_db t) in
      if fault e (Stmt ''insert'') then Inl conn_lost
      else if guc_org_id t \<noteq> Some (pr_org_id r) then Inl (policy_error ''projects'')
      else if list_ex (\<lambda>s. pr_id s = pr_id r) rows then Inl (unique_error ''projects_pkey'')
      else if list_ex (\<lambda>s. pr_org_id s = pr_org_id r \<and> pr_external_id r \<noteq> None
                         \<and> pr_external_id s = pr_external_id r) rows
        then Inl (unique_error ''projects_org_id_external_id_key'')
      else if \<not> list_ex (\<lambda>g. org_row_id g = pr_org_id r) (organizations (tx_db t))
        then Inl (fk_error ''projects'' ''projects_org_id_fkey'')
      else Inr (t\<lparr>tx_db := (tx_db t)\<lparr>projects := rows @ [r]\<rparr>\<rparr>))"

text \<open>What the idempotency lookup decides: answer now, or execute.\<close>

definition idempotency_answer ::
  "project_world \<Rightarrow> env \<Rightarrow> tx \<Rightarrow> string \<Rightarrow> string \<Rightarrow> string option
    \<Rightarrow> (project_response \<times> string option) api_resp option" where
  "idempotency_answer w e t oid h key =
     (case key of
        None \<Rightarrow> None
      | Some k \<Rightarrow>
          (case idem_check e t oid None k ROUTE h of
             Inl _ \<Rightarrow> Some (InternalError (''db_error'', ''idempotency check failed''))
           | Inr Fresh \<Rightarrow> None
           | Inr IdemConflict \<Rightarrow> Some (Conflict (''idempotency_conflict'',
                                  ''Idempotency-Key reused with a different request body''))
           | Inr (Replay status body) \<Rightarrow>
               (case pw_de_response w body of
                  Some resp \<Rightarrow> if status = 201 then Some (Created201 (resp, Some ''true'')) else None
                | None \<Rightarrow> None)))"

text \<open>Insert, bind the new project, seed its taxonomy, remember the answer, commit.\<close>

definition execute_create ::
  "project_world \<Rightarrow> env \<Rightarrow> db \<Rightarrow> tx \<Rightarrow> string \<Rightarrow> string option \<Rightarrow> string \<Rightarrow> create_project_request
    \<Rightarrow> (project_response \<times> string option) api_resp \<times> db" where
  "execute_create w e d t oid key h req =
     (let row = new_project w e oid req; response = project_response_of row in
      case insert_project e t row of
        Inl er \<Rightarrow>
          (if is_external_id_conflict (classify_pg_error er) then
             (Conflict (''external_id_conflict'', ''external_id is already taken in this org''), d)
           else (InternalError (''db_error'', ''insert failed''), d))
      | Inr t1 \<Rightarrow>
          if fault e (SetConfig ''knievel.project_id'') then
            (InternalError (''db_error'', ''could not bind project for taxonomy seed''), d)
          else
     (case seed_default_taxonomy e (t1\<lparr>guc_project_id := Some (prs_id response)\<rparr>) oid (prs_id response) of
        Inl _ \<Rightarrow> (InternalError (''db_error'', ''default taxonomy seed failed''), d)
      | Inr t2 \<Rightarrow>
     (case (case key of
              None \<Rightarrow> Inr t2
            | Some k \<Rightarrow>
                (case pw_ser_response w response of
                   None \<Rightarrow> Inl (''internal_error'', ''could not serialize response for idempotency cache'')
                 | Some stored_body \<Rightarrow>
                     (case idem_store e t2 oid None k ROUTE h 201 stored_body of
                        Inl _ \<Rightarrow> Inl (''db_error'', ''idempotency store failed'')
                      | Inr t3 \<Rightarrow> Inr t3))) of
        Inl er \<Rightarrow> (InternalError er, d)
      | Inr t3 \<Rightarrow>
     (case commit e t3 of
        Inl _ \<Rightarrow> (InternalError (''db_error'', ''could not commit transaction''), d)
      | Inr d' \<Rightarrow> (Created201 (response, None), d')))))"

definition create_project ::
  "project_world \<Rightarrow> env \<Rightarrow> db option \<Rightarrow> principal \<Rightarrow> string \<Rightarrow> string option \<Rightarrow> create_project_request
    \<Rightarrow> (project_response \<times> string option) api_resp \<times> db option" where
  "create_project w e od p path_org key req =
     (case org_prologue p path_org OrgAdmin ''creating a project requires org-admin or higher'' of
        Some er \<Rightarrow> (Forbidden er, od)
      | None \<Rightarrow>
     (case od of
        None \<Rightarrow> (InternalError no_db, od)
      | Some d \<Rightarrow>
     (case begin_bound e d path_org None of
        Inl _ \<Rightarrow> (InternalError (''db_error'', ''could not begin transaction''), od)
      | Inr t \<Rightarrow>
     (case body_hash (pw_digest w) (pw_ser_request w) req of
        None \<Rightarrow> (InternalError (''internal_error'', ''could not hash request body''), od)
      | Some h \<Rightarrow>
     (case idempotency_answer w e t path_org h key of
        Some answer \<Rightarrow> (answer, od)
      | None \<Rightarrow> (case execute_create w e d t path_org key h req of (resp, d') \<Rightarrow> (resp, Some d')))))))"

subsection \<open>Reading\<close>

definition get_project ::
  "env \<Rightarrow> db option \<Rightarrow> principal \<Rightarrow> string \<Rightarrow> string \<Rightarrow> project_response api_resp" where
  "get_project e od p path_org path_project =
     (case org_prologue p path_org Reader ''reading projects requires reader or higher'' of
        Some er \<Rightarrow> Forbidden er
      | None \<Rightarrow>
     (case od of
        None \<Rightarrow> InternalError no_db
      | Some d \<Rightarrow>
     (case begin_bound e d path_org None of
        Inl _ \<Rightarrow> InternalError (''db_error'', ''could not begin transaction'')
      | Inr t \<Rightarrow>
          if fault e (Stmt ''select'') then InternalError (''db_error'', ''select failed'')
          else (case select_project t path_project of
              Some r \<Rightarrow> Ok200 (project_response_of r)
            | None \<Rightarrow> NotFound (''not_found'', ''project not found'')))))"

text \<open>The policy of \<open>organizations\<close>: the bound org, or the org of the bound project.\<close>

definition org_visible :: "tx \<Rightarrow> org_row \<Rightarrow> bool" where
  "org_visible t r \<longleftrightarrow> Some (org_row_id r) = guc_org_id t
     \<or> list_ex (\<lambda>x. pr_org_id x = org_row_id r \<and> Some (pr_id x) = guc_project_id t) (projects (tx_db t))"

definition get_org :: "env \<Rightarrow> db option \<Rightarrow> principal \<Rightarrow> string \<Rightarrow> org_response api_resp" where
  "get_org e od p path_org =
     (case org_prologue p path_org Reader ''reading org metadata requires reader or higher'' of
        Some er \<Rightarrow> Forbidden er
      | None \<Rightarrow>
     (case od of
        None \<Rightarrow> InternalError no_db
      | Some d \<Rightarrow>
     (case begin_bound e d path_org None of
        Inl _ \<Rightarrow> InternalError (''db_error'', ''could not begin transaction'')
      | Inr t \<Rightarrow>
          if fault e (Stmt ''select'') then InternalError (''db_error'', ''select failed'')
          else (case find (\<lambda>r. org_visible t r \<and> org_row_id r = path_org) (organizations (tx_db t)) of
              Some r \<Rightarrow> Ok200 (org_response_of r)
            | None \<Rightarrow> NotFound (''not_found'', ''org not found'')))))"

text \<open>
  \<open>ORDER BY created_at DESC, id DESC\<close>: \<open>text_less\<close> is the collation of the database;
  \<open>insort_by\<close> keeps the list sorted.
\<close>

definition newer_first :: "(string \<Rightarrow> string \<Rightarrow> bool) \<Rightarrow> project_row \<Rightarrow> project_row \<Rightarrow> bool" where
  "newer_first text_less r s \<longleftrightarrow> pr_created_at s < pr_created_at r
     \<or> (pr_created_at s = pr_created_at r \<and> text_less (pr_id s) (pr_id r))"

fun insort_by :: "('a \<Rightarrow> 'a \<Rightarrow> bool) \<Rightarrow> 'a \<Rightarrow> 'a list \<Rightarrow> 'a list" where
  "insort_by before x [] = [x]"
| "insort_by before x (y # ys) = (if before x y then x # y # ys else y # insort_by before x ys)"

definition list_projects ::
  "(string \<Rightarrow> string \<Rightarrow> bool) \<Rightarrow> env \<Rightarrow> db option \<Rightarrow> principal \<Rightarrow> string \<Rightarrow> int option \<Rightarrow> string option
    \<Rightarrow> (project_response list \<times> string option) api_resp" where
  "list_projects text_less e od p path_org limit external_id =
     (case org_prologue p path_org Reader ''listing projects requires reader or higher'' of
        Some er \<Rightarrow> Forbidden er
      | None \<Rightarrow>
     (let limit_value = max 1 (min 500 (coalesce limit 500)) in
      case od of
        None \<Rightarrow> InternalError no_db
      | Some d \<Rightarrow>
     (case begin_bound e d path_org None of
        Inl _ \<Rightarrow> InternalError (''db_error'', ''could not begin transaction'')
      | Inr t \<Rightarrow>
          if fault e (Stmt ''select'') then InternalError (''db_error'', ''select failed'')
          else
            (let rows = filter (project_visible t) (projects (tx_db t));
                 hits = (case external_id of
                           None \<Rightarrow> rows
                         | Some x \<Rightarrow> filter (\<lambda>r. pr_external_id r = Some x) rows)
             in Ok200 (map project_response_of
                   (take (nat limit_value) (foldr (insort_by (newer_first text_less)) hits [])), None)))))"

subsection \<open>What a create does to the database\<close>

definition idem_row_for ::
  "env \<Rightarrow> string \<Rightarrow> string \<Rightarrow> string \<Rightarrow> bytes \<Rightarrow> idem_row" where
  "idem_row_for e oid k h body =
     \<lparr>ik_org_id = oid, ik_project_id = None, ik_key = k, ik_route = ROUTE, ik_body_hash = h,
      ik_status = 201, ik_body = body, ik_created_at = clock_ms e,
      ik_expires_at = clock_ms e + REPLAY_WINDOW_MS\<rparr>"

definition with_project :: "env \<Rightarrow> project_row \<Rightarrow> idem_row list \<Rightarrow> db \<Rightarrow> db" where
  "with_project e row keys d =
     d\<lparr>projects := projects d @ [row],
       channels := channels d @ seeded_channels e (pr_org_id row) (pr_id row),
       priorities := priorities d @ seeded_priorities e (pr_org_id row) (pr_id row),
       ad_types := ad_types d @ seeded_ad_types e (pr_org_id row) (pr_id row),
       idempotency_keys := keys\<rparr>"

lemma insert_project_InrD:
  "insert_project e t r = Inr t' \<Longrightarrow>
     t' = t\<lparr>tx_db := (tx_db t)\<lparr>projects := projects (tx_db t) @ [r]\<rparr>\<rparr>
     \<and> guc_org_id t = Some (pr_org_id r) \<and> pr_id r \<notin> pr_id ` set (projects (tx_db t))
     \<and> (\<forall>s \<in> set (projects (tx_db t)). pr_org_id s = pr_org_id r \<and> pr_external_id r \<noteq> None \<longrightarrow>
          pr_external_id s \<noteq> pr_external_id r)
     \<and> (\<exists>g \<in> set (organizations (tx_db t)). org_row_id g = pr_org_id r)"
  by (auto simp: insert_project_def Let_def list_ex_iff split: if_splits)

text \<open>The keys after the create: unchanged without a key, else with the answer offered to the store.\<close>

definition keys_after ::
  "project_world \<Rightarrow> env \<Rightarrow> string \<Rightarrow> string option \<Rightarrow> string \<Rightarrow> project_row \<Rightarrow> idem_row list \<Rightarrow> idem_row list" where
  "keys_after w e oid key h row ks =
     (case key of
        None \<Rightarrow> ks
      | Some k \<Rightarrow> put_idem ks (idem_row_for e oid k h (the (pw_ser_response w (project_response_of row)))))"

lemma execute_create_cases:
  fixes w e oid req
  defines "row \<equiv> new_project w e oid req"
  assumes "execute_create w e d t oid key h req = (resp, d')" and "tx_db t = d"
  shows "(\<forall>r. resp \<noteq> Created201 r) \<and> d' = d
    \<or> resp = Created201 (project_response_of row, None)
      \<and> (\<exists>t1. insert_project e t row = Inr t1)
      \<and> (key \<noteq> None \<longrightarrow> pw_ser_response w (project_response_of row) \<noteq> None)
      \<and> d' = with_project e row (keys_after w e oid key h row (idempotency_keys d)) d"
proof (cases "insert_project e t row")
  case (Inl er)
  with assms show ?thesis by (auto simp: execute_create_def Let_def split: if_splits)
next
  case (Inr t1)
  note ins = insert_project_InrD [OF Inr]
  have row: "pr_org_id row = oid" "prs_id (project_response_of row) = pr_id row"
    by (simp_all add: row_def new_project_def project_response_of_def)
  from assms Inr ins row show ?thesis
    by (auto simp: execute_create_def Let_def with_project_def keys_after_def idem_row_for_def
        row_def [symmetric] dest!: seed_default_taxonomy_InrD idem_store_InrD commit_InrD
        split: if_splits sum.splits option.splits)
qed

definition org_tx :: "db \<Rightarrow> string \<Rightarrow> tx" where
  "org_tx d oid = \<lparr>tx_db = d, guc_org_id = Some oid, guc_project_id = None\<rparr>"

lemma begin_bound_org: "begin_bound e d oid None = Inr t \<Longrightarrow> t = org_tx d oid"
  using begin_bound_cases [of e d oid] by (auto simp: org_tx_def)

lemma org_prologue_None:
  "org_prologue p oid mn m = None \<longleftrightarrow> org_id p = oid \<and> has_role_at_least p mn"
  by (simp add: org_prologue_def)

lemma create_project_cases:
  assumes "create_project w e (Some d) p oid key req = (resp, od')"
  shows "od' = Some d \<and> (\<forall>r. resp \<noteq> Created201 (r, None))
    \<or> (\<exists>h. org_id p = oid \<and> has_role_at_least p OrgAdmin
        \<and> body_hash (pw_digest w) (pw_ser_request w) req = Some h
        \<and> idempotency_answer w e (org_tx d oid) oid h key = None
        \<and> execute_create w e d (org_tx d oid) oid key h req = (resp, the od') \<and> od' \<noteq> None)"
proof -
  have ans: "idempotency_answer w e t oid h key \<noteq> Some (Created201 (r, None))" for t oid h r
    by (auto simp: idempotency_answer_def split: option.splits sum.splits check_result.splits if_splits)
  from assms show ?thesis
    by (auto simp: create_project_def org_prologue_None ans dest!: begin_bound_org
        split: option.splits sum.splits prod.splits)
qed

lemma create_project_created:
  assumes "create_project w e (Some d) p oid key req = (Created201 (r, None), od')"
  obtains h where "org_id p = oid" "has_role_at_least p OrgAdmin"
    "body_hash (pw_digest w) (pw_ser_request w) req = Some h"
    "r = project_response_of (new_project w e oid req)"
    "key \<noteq> None \<longrightarrow> pw_ser_response w r \<noteq> None"
    "od' = Some (with_project e (new_project w e oid req)
       (keys_after w e oid key h (new_project w e oid req) (idempotency_keys d)) d)"
proof -
  from create_project_cases [OF assms] obtain h where h: "org_id p = oid" "has_role_at_least p OrgAdmin"
    "body_hash (pw_digest w) (pw_ser_request w) req = Some h" "od' \<noteq> None"
    "execute_create w e d (org_tx d oid) oid key h req = (Created201 (r, None), the od')" by auto
  from execute_create_cases [OF h(5)] have "r = project_response_of (new_project w e oid req)"
    "key \<noteq> None \<longrightarrow> pw_ser_response w r \<noteq> None"
    "the od' = with_project e (new_project w e oid req)
       (keys_after w e oid key h (new_project w e oid req) (idempotency_keys d)) d"
    by (auto simp: org_tx_def)
  with h that show ?thesis by force
qed

lemma begin_bound_calm: "\<forall>s. \<not> fault e s \<Longrightarrow> begin_bound e d oid None = Inr (org_tx d oid)"
  by (simp add: begin_bound_def org_tx_def)

text \<open>The handler up to the answer of the replay store, for an org admin and no database error.\<close>

lemma create_project_calm:
  assumes "\<forall>s. \<not> fault e s" and "org_id p = oid" and "has_role_at_least p OrgAdmin"
    and "body_hash (pw_digest w) (pw_ser_request w) req = Some h"
  shows "create_project w e (Some d) p oid key req =
    (case idempotency_answer w e (org_tx d oid) oid h key of
       Some answer \<Rightarrow> (answer, Some d)
     | None \<Rightarrow> (case execute_create w e d (org_tx d oid) oid key h req of (resp, d') \<Rightarrow> (resp, Some d')))"
  using assms by (simp add: create_project_def org_prologue_def begin_bound_calm)

lemma idempotency_answer_entry:
  assumes "\<forall>s. \<not> fault e s" and "idem_keys_ok (idempotency_keys d)"
  shows "idempotency_answer w e (org_tx d oid) oid h (Some k) =
    (case idem_entry (idempotency_keys d) (oid, '''', k, ROUTE) of
       None \<Rightarrow> None
     | Some r \<Rightarrow>
         if ik_expires_at r \<le> clock_ms e then None
         else if ik_body_hash r \<noteq> h then
           Some (Conflict (''idempotency_conflict'', ''Idempotency-Key reused with a different request body''))
         else (case pw_de_response w (ik_body r) of
             None \<Rightarrow> None
           | Some resp \<Rightarrow> if nat (ik_status r mod 2 ^ 16) = 201 then Some (Created201 (resp, Some ''true'')) else None))"
  using idem_check_entry [of "org_tx d oid" oid e None k ROUTE h] assms
  by (auto simp: idempotency_answer_def org_tx_def or_empty_def split: option.splits)

lemma keys_after_Some:
  "keys_after w e oid (Some k) h row ks =
     put_idem ks (idem_row_for e oid k h (the (pw_ser_response w (project_response_of row))))"
  by (simp add: keys_after_def)

lemma idem_row_for_key [simp]: "idem_key_of (idem_row_for e oid k h b) = (oid, '''', k, ROUTE)"
  by (simp add: idem_row_for_def idem_key_of_def or_empty_def)

subsection \<open>A concrete create\<close>

definition org_db :: "idem_row list \<Rightarrow> db" where
  "org_db ks = empty_db\<lparr>organizations := [\<lparr>org_row_id = ''o'', org_row_external_id = None, org_row_name = ''n'',
     org_row_is_active = True, org_row_etag = ''t'', org_row_created_at = 0, org_row_updated_at = 0\<rparr>],
     idempotency_keys := ks\<rparr>"

definition org_admin :: principal where
  "org_admin = \<lparr>token_type = Opaque, scope = Org, org_id = ''o'', project_id = None, role = OrgAdmin,
     actor_id = ''t''\<rparr>"

definition sample_answer :: project_response where
  "sample_answer = \<lparr>prs_id = ''pj_00'', prs_external_id = None, prs_name = ''n'', prs_is_active = True,
     prs_etag = ''e'', prs_created_at = 0, prs_updated_at = 0\<rparr>"

definition create_world :: project_world where
  "create_world =
     \<lparr>pw_digest = \<lparr>dg_sha256 = (\<lambda>b. b), dg_hex = lower_hex\<rparr>,
      pw_ser_request = (\<lambda>q. Some (bytes_of (cq_name q))),
      pw_ser_response = (\<lambda>r. if r = sample_answer then Some [7] else None),
      pw_de_response = (\<lambda>b. if b = [7] then Some sample_answer else None),
      pw_random = [0], pw_hmac_secret = [1, 2]\<rparr>"

definition create_req :: "string \<Rightarrow> create_project_request" where
  "create_req n = \<lparr>cq_external_id = None, cq_name = n\<rparr>"

definition old_key :: idem_row where
  "old_key = (idem_row_for (calm_env 0) ''o'' ''k'' ''x'' [])\<lparr>ik_expires_at := -1\<rparr>"

lemma sample_new_project:
  "new_project create_world (calm_env 0) ''o'' (create_req ''n'') =
     \<lparr>pr_id = ''pj_00'', pr_org_id = ''o'', pr_external_id = None, pr_name = ''n'', pr_is_active = True,
      pr_hmac_secret = [1, 2], pr_allow_force_decision = False, pr_etag = ''e'', pr_created_at = 0,
      pr_updated_at = 0\<rparr>"
proof -
  have "lower_hex [0] = ''00''" by code_simp
  then show ?thesis
    by (simp add: new_project_def create_world_def create_req_def random_pj_id_def calm_env_def)
qed

lemma sample_response: "project_response_of (new_project create_world (calm_env 0) ''o'' (create_req ''n'')) = sample_answer"
  by (simp add: sample_new_project project_response_of_def sample_answer_def)

lemma insert_sample_project:
  "insert_project (calm_env 0) (org_tx (org_db ks) ''o'') (new_project create_world (calm_env 0) ''o'' (create_req ''n'')) =
     Inr ((org_tx (org_db ks) ''o'')\<lparr>tx_db := (org_db ks)\<lparr>projects :=
       [new_project create_world (calm_env 0) ''o'' (create_req ''n'')]\<rparr>\<rparr>)"
  by (simp add: insert_project_def Let_def sample_new_project org_tx_def org_db_def empty_db_def)

lemma execute_sample_create:
  "execute_create create_world (calm_env 0) (org_db ks) (org_tx (org_db ks) ''o'') ''o'' (Some ''k'') h (create_req ''n'') =
     (Created201 (sample_answer, None), with_project (calm_env 0)
        (new_project create_world (calm_env 0) ''o'' (create_req ''n''))
        (put_idem ks (idem_row_for (calm_env 0) ''o'' ''k'' h [7])) (org_db ks))"
proof -
  have ser: "pw_ser_response create_world sample_answer = Some [7]" by (simp add: create_world_def)
  have ids: "prs_id sample_answer = ''pj_00''"
    "pr_id (new_project create_world (calm_env 0) ''o'' (create_req ''n'')) = ''pj_00''"
    "pr_org_id (new_project create_world (calm_env 0) ''o'' (create_req ''n'')) = ''o''"
    by (simp_all add: sample_answer_def sample_new_project)
  show ?thesis
    unfolding execute_create_def Let_def insert_sample_project sample_response
    by (simp add: ser ids seed_default_taxonomy_def Let_def idem_store_def commit_def with_project_def
        idem_row_for_def org_tx_def org_db_def empty_db_def)
qed

lemma sample_create:
  assumes "idem_keys_ok ks" and "\<forall>r \<in> set ks. idem_key_of r = (''o'', '''', ''k'', ROUTE) \<longrightarrow> ik_expires_at r \<le> 0"
  shows "create_project create_world (calm_env 0) (Some (org_db ks)) org_admin ''o'' (Some ''k'') (create_req ''n'') =
     (Created201 (sample_answer, None), Some (with_project (calm_env 0)
        (new_project create_world (calm_env 0) ''o'' (create_req ''n''))
        (put_idem ks (idem_row_for (calm_env 0) ''o'' ''k'' ''6e'' [7])) (org_db ks)))"
proof -
  have h: "body_hash (pw_digest create_world) (pw_ser_request create_world) (create_req ''n'') = Some ''6e''"
    by (simp add: create_world_def body_hash_def create_req_def) code_simp
  have auth: "org_id org_admin = ''o''" "has_role_at_least org_admin OrgAdmin"
    by (simp_all add: org_admin_def has_role_at_least_def)
  have "idempotency_answer create_world (calm_env 0) (org_tx (org_db ks) ''o'') ''o'' ''6e'' (Some ''k'') = None"
    using assms by (subst idempotency_answer_entry)
      (auto simp: org_db_def empty_db_def idem_entry_def find_Some_iff split: option.splits)
  with create_project_calm [OF _ auth h, of "calm_env 0" "org_db ks" "Some ''k''"] show ?thesis
    by (simp add: execute_sample_create)
qed

subsection \<open>Properties\<close>

text \<open>
  C28: creating a project is one atomic step: either nothing is stored, or exactly the project
  (in the caller's org, which exists, with a fresh id and external id), its ten taxonomy rows
  and at most the idempotency row are added, for an org admin of that org.
\<close>

theorem create_project_atomic:
  assumes "create_project w e (Some d) p oid key req = (resp, od')"
  shows "(\<forall>r. resp \<noteq> Created201 (r, None)) \<and> od' = Some d
    \<or> (\<exists>row ks. resp = Created201 (project_response_of row, None) \<and> od' = Some (with_project e row ks d)
        \<and> org_id p = oid \<and> OrgAdmin \<le> role p
        \<and> pr_org_id row = oid \<and> pr_name row = cq_name req \<and> pr_external_id row = cq_external_id req
        \<and> pr_id row \<notin> pr_id ` set (projects d)
        \<and> (\<forall>s \<in> set (projects d). pr_org_id s = oid \<and> pr_external_id row \<noteq> None \<longrightarrow>
             pr_external_id s \<noteq> pr_external_id row)
        \<and> oid \<in> org_row_id ` set (organizations d)
        \<and> (ks = idempotency_keys d \<or> key \<noteq> None \<and> (\<exists>r. ks = idempotency_keys d @ [r])))"
  using create_project_cases [OF assms]
proof
  assume "\<exists>h. org_id p = oid \<and> has_role_at_least p OrgAdmin
        \<and> body_hash (pw_digest w) (pw_ser_request w) req = Some h
        \<and> idempotency_answer w e (org_tx d oid) oid h key = None
        \<and> execute_create w e d (org_tx d oid) oid key h req = (resp, the od') \<and> od' \<noteq> None"
  then obtain h d' where auth: "org_id p = oid" "OrgAdmin \<le> role p" and od': "od' = Some d'"
    and run: "execute_create w e d (org_tx d oid) oid key h req = (resp, d')"
    by (auto simp: has_role_at_least_def)
  let ?row = "new_project w e oid req"
  have row: "pr_org_id ?row = oid" "pr_name ?row = cq_name req" "pr_external_id ?row = cq_external_id req"
    by (simp_all add: new_project_def)
  have ks: "keys_after w e oid key h ?row ks = ks \<or> key \<noteq> None \<and> (\<exists>r. keys_after w e oid key h ?row ks = ks @ [r])" for ks
    by (auto simp: keys_after_def put_idem_def split: option.splits)
  from execute_create_cases [OF run] show ?thesis
  proof
    assume "resp = Created201 (project_response_of ?row, None)
      \<and> (\<exists>t1. insert_project e (org_tx d oid) ?row = Inr t1)
      \<and> (key \<noteq> None \<longrightarrow> pw_ser_response w (project_response_of ?row) \<noteq> None)
      \<and> d' = with_project e ?row (keys_after w e oid key h ?row (idempotency_keys d)) d"
    then obtain t1 where ok: "resp = Created201 (project_response_of ?row, None)"
      "insert_project e (org_tx d oid) ?row = Inr t1"
      "d' = with_project e ?row (keys_after w e oid key h ?row (idempotency_keys d)) d" by blast
    from insert_project_InrD [OF ok(2)] ok(1,3) row auth od' ks [of "idempotency_keys d"]
    show ?thesis by (intro disjI2 exI [of _ ?row] exI) (auto simp: org_tx_def image_iff dest: sym)
  qed (simp_all add: od' org_tx_def)
qed simp

theorem create_project_atomic_witness:
  "\<exists>row d' ks. create_project create_world (calm_env 0) (Some (org_db [])) org_admin ''o'' (Some ''k'')
        (create_req ''n'') = (Created201 (project_response_of row, None), Some d')
     \<and> d' = with_project (calm_env 0) row ks (org_db []) \<and> pr_org_id row = ''o''"
proof -
  note run = sample_create [of "[]", simplified idem_keys_ok_def, simplified]
  from create_project_atomic [OF run] run show ?thesis by auto
qed

text \<open>
  C29: a create that was answered 201 under a fresh idempotency key is executed once: within 24
  hours the same request replays the stored answer and a different one is a conflict, and
  neither changes the database.
\<close>

theorem idempotent_replay:
  assumes "create_project w e (Some d) p oid (Some k) req = (Created201 (r, None), Some d')"
    and "idem_keys_ok (idempotency_keys d)" and "idem_entry (idempotency_keys d) (oid, '''', k, ROUTE) = None"
    and "\<And>r b. pw_ser_response w r = Some b \<Longrightarrow> pw_de_response w b = Some r"
    and "\<forall>s. \<not> fault e' s" and "clock_ms e' < clock_ms e + 24 * 60 * 60 * 1000"
    and "body_hash (pw_digest w) (pw_ser_request w) req' = Some h'"
  shows "create_project (w\<lparr>pw_random := rnd\<rparr>) e' (Some d') p oid (Some k) req' =
    (if body_hash (pw_digest w) (pw_ser_request w) req = Some h'
     then Created201 (r, Some ''true'')
     else Conflict (''idempotency_conflict'', ''Idempotency-Key reused with a different request body''), Some d')"
proof -
  from create_project_created [OF assms(1)] obtain h b where auth: "org_id p = oid" "has_role_at_least p OrgAdmin"
    and h: "body_hash (pw_digest w) (pw_ser_request w) req = Some h"
    and b: "pw_ser_response w r = Some b"
    and keys: "idempotency_keys d' = put_idem (idempotency_keys d) (idem_row_for e oid k h b)"
    by (fastforce simp: with_project_def keys_after_Some)
  have "idem_entry (idempotency_keys d') (oid, '''', k, ROUTE) = Some (idem_row_for e oid k h b)"
    using idem.first_write_wins [of "idempotency_keys d" "idem_row_for e oid k h b" "[]"] assms(3) keys by simp
  moreover have "idem_keys_ok (idempotency_keys d')" by (simp add: keys put_idem_keys_ok assms(2))
  moreover note create_project_calm [OF assms(5) auth, of "w\<lparr>pw_random := rnd\<rparr>" req' h' d' "Some k"] assms(7) h
    idempotency_answer_entry [OF assms(5), of d' "w\<lparr>pw_random := rnd\<rparr>" oid h' k] assms(4) [OF b] assms(6)
  ultimately show ?thesis by (auto simp: idem_row_for_def REPLAY_WINDOW_MS_def)
qed

theorem idempotent_replay_witness:
  "\<exists>d'. create_project create_world (calm_env 0) (Some (org_db [])) org_admin ''o'' (Some ''k'')
        (create_req ''n'') = (Created201 (sample_answer, None), Some d')
     \<and> create_project (create_world\<lparr>pw_random := [9]\<rparr>) (calm_env 1000) (Some d') org_admin ''o'' (Some ''k'')
        (create_req ''n'') = (Created201 (sample_answer, Some ''true''), Some d')"
proof -
  note run = sample_create [of "[]", simplified idem_keys_ok_def, simplified]
  have h: "body_hash (pw_digest create_world) (pw_ser_request create_world) (create_req ''n'') = Some ''6e''"
    by (simp add: create_world_def body_hash_def create_req_def) code_simp
  have rt: "pw_ser_response create_world r = Some b \<Longrightarrow> pw_de_response create_world b = Some r" for r b
    by (auto simp: create_world_def split: if_splits)
  from idempotent_replay [OF run _ _ rt _ _ h, where e' = "calm_env 1000" and rnd = "[9]"] run
  show ?thesis by (simp add: org_db_def empty_db_def idem_keys_ok_def idem_entry_def h)
qed



end
