(* ===== verification/Ad_Library.thy ===== *)
theory Ad_Library
  imports Org_Projects
begin

section \<open>The ad library\<close>

text \<open>
  \<open>src/src/ad_library.rs\<close> on the table and policy of \<open>0012_ad_library.sql\<close>: the catalog of
  creatives an organisation shares among its projects. The random bytes of a new id are an
  argument. The response carries the row, of which \<open>COLS\<close> leaves out the org.
\<close>

record create_library_request =
  clq_external_id :: "string option"
  clq_name :: string
  clq_kind :: string
  clq_image_url :: "string option"
  clq_width :: "int option"
  clq_height :: "int option"
  clq_alt :: "string option"
  clq_body :: "string option"
  clq_template_id :: "int option"
  clq_values :: "json option"
  clq_click_through_url :: "string option"
  clq_is_active :: "bool option"

record update_library_request =
  ulq_name :: "string option"
  ulq_image_url :: "string option"
  ulq_width :: "int option"
  ulq_height :: "int option"
  ulq_alt :: "string option"
  ulq_body :: "string option"
  ulq_click_through_url :: "string option"
  ulq_is_active :: "bool option"

definition LIBRARY_KINDS :: "string list" where
  "LIBRARY_KINDS = [''image'', ''html'', ''native'']"

definition low_role :: string where
  "low_role = ''principal's role is below the endpoint minimum''"

subsection \<open>Statements under the policy\<close>

definition item_visible :: "tx \<Rightarrow> library_row \<Rightarrow> bool" where
  "item_visible t r \<longleftrightarrow> guc_org_id t = Some (li_org_id r)"

definition visible_items :: "tx \<Rightarrow> library_row list" where
  "visible_items t = filter (item_visible t) (ad_library_items (tx_db t))"

definition random_item_id :: "bytes \<Rightarrow> string" where
  "random_item_id bs = ''ali_'' @ lower_hex bs"

definition new_item :: "env \<Rightarrow> bytes \<Rightarrow> string \<Rightarrow> create_library_request \<Rightarrow> library_row" where
  "new_item e rnd path_org req =
     \<lparr>li_id = random_item_id rnd, li_org_id = path_org, li_external_id = clq_external_id req,
      li_name = clq_name req, li_kind = clq_kind req, li_image_url = clq_image_url req,
      li_width = clq_width req, li_height = clq_height req, li_alt = clq_alt req,
      li_body = clq_body req, li_template_id = clq_template_id req, li_values = clq_values req,
      li_click_through_url = clq_click_through_url req,
      li_is_active = coalesce (clq_is_active req) True, li_etag = new_etag e 0,
      li_created_at = clock_ms e, li_updated_at = clock_ms e\<rparr>"

definition same_library_key :: "library_row \<Rightarrow> library_row \<Rightarrow> bool" where
  "same_library_key r s \<longleftrightarrow>
     li_org_id s = li_org_id r \<and> li_external_id r \<noteq> None \<and> li_external_id s = li_external_id r"

definition insert_item :: "env \<Rightarrow> tx \<Rightarrow> library_row \<Rightarrow> db_error + tx" where
  "insert_item e t r =
     (let rows = ad_library_items (tx_db t) in
      if fault e (Stmt ''insert'') then Inl conn_lost
      else if \<not> item_visible t r then Inl (policy_error ''ad_library_items'')
      else if li_kind r \<notin> set LIBRARY_KINDS
        then Inl (check_error ''ad_library_items'' ''ad_library_items_kind_check'')
      else if list_ex (\<lambda>s. li_id s = li_id r) rows then Inl (unique_error ''ad_library_items_pkey'')
      else if list_ex (same_library_key r) rows
        then Inl (unique_error ''ad_library_items_org_id_external_id_key'')
      else if \<not> list_ex (\<lambda>g. org_row_id g = li_org_id r) (organizations (tx_db t))
        then Inl (fk_error ''ad_library_items'' ''ad_library_items_org_id_fkey'')
      else Inr (t\<lparr>tx_db := (tx_db t)\<lparr>ad_library_items := rows @ [r]\<rparr>\<rparr>))"

definition keep_unless :: "'a option \<Rightarrow> 'a option \<Rightarrow> 'a option" where
  "keep_unless new old = (case new of Some v \<Rightarrow> Some v | None \<Rightarrow> old)"

definition patch_item :: "env \<Rightarrow> update_library_request \<Rightarrow> library_row \<Rightarrow> library_row" where
  "patch_item e req r = r\<lparr>
     li_name := coalesce (ulq_name req) (li_name r),
     li_image_url := keep_unless (ulq_image_url req) (li_image_url r),
     li_width := keep_unless (ulq_width req) (li_width r),
     li_height := keep_unless (ulq_height req) (li_height r),
     li_alt := keep_unless (ulq_alt req) (li_alt r),
     li_body := keep_unless (ulq_body req) (li_body r),
     li_click_through_url := keep_unless (ulq_click_through_url req) (li_click_through_url r),
     li_is_active := coalesce (ulq_is_active req) (li_is_active r),
     li_etag := new_etag e 0,
     li_updated_at := clock_ms e\<rparr>"

definition update_item :: "env \<Rightarrow> tx \<Rightarrow> string \<Rightarrow> update_library_request
    \<Rightarrow> db_error + (library_row option \<times> tx)" where
  "update_item e t i req =
     (if fault e (Stmt ''update'') then Inl conn_lost
      else (case find (\<lambda>r. li_id r = i) (visible_items t) of
          None \<Rightarrow> Inr (None, t)
        | Some r \<Rightarrow>
            Inr (Some (patch_item e req r),
                 t\<lparr>tx_db := (tx_db t)\<lparr>ad_library_items :=
                   map (\<lambda>s. if item_visible t s \<and> li_id s = i then patch_item e req s else s)
                     (ad_library_items (tx_db t))\<rparr>\<rparr>)))"

subsection \<open>Handlers\<close>

definition create_item ::
  "env \<Rightarrow> db option \<Rightarrow> principal \<Rightarrow> string \<Rightarrow> bytes \<Rightarrow> create_library_request
    \<Rightarrow> library_row api_resp \<times> db option" where
  "create_item e od p path_org rnd req =
     (if clq_kind req \<notin> set LIBRARY_KINDS then
        (BadRequest (''validation_failed'', ''kind must be one of: image, html, native''), od)
      else (case org_prologue p path_org Editor low_role of
          Some er \<Rightarrow> (Forbidden er, od)
        | None \<Rightarrow>
     (case od of
          None \<Rightarrow> (InternalError no_db, od)
        | Some d \<Rightarrow>
     (case begin_bound e d path_org None of
          Inl _ \<Rightarrow> (InternalError (db_failed ''could not begin tx''), od)
        | Inr t \<Rightarrow>
     (let r = new_item e rnd path_org req in
      case insert_item e t r of
          Inl er \<Rightarrow>
            (if is_external_id_conflict (classify_pg_error er) then
               (Conflict (''external_id_conflict'', ''external_id already taken in this org''), od)
             else (InternalError (db_failed ''insert failed''), od))
        | Inr t' \<Rightarrow>
     (case commit e t' of
          Inl _ \<Rightarrow> (InternalError (db_failed ''commit failed''), od)
        | Inr d' \<Rightarrow> (Created201 r, Some d')))))))"

text \<open>\<open>ORDER BY created_at DESC LIMIT 500\<close>; rows of one instant stay in the order of the table.\<close>

definition list_items :: "env \<Rightarrow> db option \<Rightarrow> principal \<Rightarrow> string
    \<Rightarrow> (library_row list \<times> string option) api_resp" where
  "list_items e od p path_org =
     (case org_prologue p path_org Reader low_role of
        Some er \<Rightarrow> Forbidden er
      | None \<Rightarrow>
     (case od of
        None \<Rightarrow> InternalError no_db
      | Some d \<Rightarrow>
     (case begin_bound e d path_org None of
        Inl _ \<Rightarrow> InternalError (db_failed ''begin tx failed'')
      | Inr t \<Rightarrow>
          if fault e (Stmt ''select'') then InternalError (db_failed ''list failed'')
          else Ok200 (take 500 (sort_key (\<lambda>r. - li_created_at r) (visible_items t)), None))))"

definition get_item :: "env \<Rightarrow> db option \<Rightarrow> principal \<Rightarrow> string \<Rightarrow> string \<Rightarrow> library_row api_resp" where
  "get_item e od p path_org i =
     (case org_prologue p path_org Reader low_role of
        Some er \<Rightarrow> Forbidden er
      | None \<Rightarrow>
     (case od of
        None \<Rightarrow> InternalError no_db
      | Some d \<Rightarrow>
     (case begin_bound e d path_org None of
        Inl _ \<Rightarrow> InternalError (db_failed ''begin tx failed'')
      | Inr t \<Rightarrow>
          if fault e (Stmt ''select'') then InternalError (db_failed ''select failed'')
          else (case find (\<lambda>r. li_id r = i) (visible_items t) of
                  Some r \<Rightarrow> Ok200 r
                | None \<Rightarrow> NotFound (''not_found'', ''ad library item not found'')))))"

definition patch_item_handler ::
  "env \<Rightarrow> db option \<Rightarrow> principal \<Rightarrow> string \<Rightarrow> string \<Rightarrow> update_library_request
    \<Rightarrow> library_row api_resp \<times> db option" where
  "patch_item_handler e od p path_org i req =
     (case org_prologue p path_org Editor low_role of
        Some er \<Rightarrow> (Forbidden er, od)
      | None \<Rightarrow>
     (case od of
        None \<Rightarrow> (InternalError no_db, od)
      | Some d \<Rightarrow>
     (case begin_bound e d path_org None of
        Inl _ \<Rightarrow> (InternalError (db_failed ''begin tx failed''), od)
      | Inr t \<Rightarrow>
     (case update_item e t i req of
        Inl _ \<Rightarrow> (InternalError (db_failed ''update failed''), od)
      | Inr (None, _) \<Rightarrow> (NotFound (''not_found'', ''ad library item not found''), od)
      | Inr (Some r, t') \<Rightarrow>
     (case commit e t' of
        Inl _ \<Rightarrow> (InternalError (db_failed ''commit failed''), od)
      | Inr d' \<Rightarrow> (Ok200 r, Some d'))))))"

subsection \<open>What the handlers keep\<close>

definition library_ok :: "library_row list \<Rightarrow> bool" where
  "library_ok rows \<longleftrightarrow> distinct (map li_id rows)
     \<and> (\<forall>r \<in> set rows. \<forall>s \<in> set rows. same_library_key r s \<longrightarrow> li_id r = li_id s)
     \<and> (\<forall>r \<in> set rows. li_kind r \<in> set LIBRARY_KINDS)"

definition other_orgs :: "string \<Rightarrow> library_row list \<Rightarrow> library_row list" where
  "other_orgs o_id rows = filter (\<lambda>r. li_org_id r \<noteq> o_id) rows"

text \<open>Only the library of one org may have changed.\<close>

definition library_confined :: "string \<Rightarrow> db \<Rightarrow> db \<Rightarrow> bool" where
  "library_confined o_id d d' \<longleftrightarrow>
     d' = d\<lparr>ad_library_items := ad_library_items d'\<rparr>
     \<and> other_orgs o_id (ad_library_items d') = other_orgs o_id (ad_library_items d)
     \<and> (library_ok (ad_library_items d) \<longrightarrow> library_ok (ad_library_items d'))"

lemma patch_item_keeps [simp]:
  "li_id (patch_item e req r) = li_id r" "li_org_id (patch_item e req r) = li_org_id r"
  "li_external_id (patch_item e req r) = li_external_id r" "li_kind (patch_item e req r) = li_kind r"
  "li_template_id (patch_item e req r) = li_template_id r" "li_values (patch_item e req r) = li_values r"
  "li_created_at (patch_item e req r) = li_created_at r"
  by (simp_all add: patch_item_def)

lemma library_ok_snoc:
  assumes "library_ok rows" "li_kind r \<in> set LIBRARY_KINDS"
    and "\<forall>s \<in> set rows. li_id s \<noteq> li_id r" "\<forall>s \<in> set rows. \<not> same_library_key r s"
  shows "library_ok (rows @ [r])"
proof -
  have "\<not> same_library_key s r" if "s \<in> set rows" for s
    using assms(4) that by (auto simp: same_library_key_def)
  then show ?thesis using assms unfolding library_ok_def by fastforce
qed

lemma insert_item_InrD:
  assumes "insert_item e t r = Inr t'"
  shows "guc_org_id t = Some (li_org_id r)" "t' = t\<lparr>tx_db := (tx_db t)\<lparr>ad_library_items := ad_library_items (tx_db t) @ [r]\<rparr>\<rparr>"
    "library_ok (ad_library_items (tx_db t)) \<Longrightarrow> library_ok (ad_library_items (tx_db t'))"
proof -
  show g: "guc_org_id t = Some (li_org_id r)"
    and t': "t' = t\<lparr>tx_db := (tx_db t)\<lparr>ad_library_items := ad_library_items (tx_db t) @ [r]\<rparr>\<rparr>"
    using assms by (auto simp: insert_item_def Let_def item_visible_def split: if_splits)
  have "li_kind r \<in> set LIBRARY_KINDS" "\<forall>s \<in> set (ad_library_items (tx_db t)). li_id s \<noteq> li_id r"
    "\<forall>s \<in> set (ad_library_items (tx_db t)). \<not> same_library_key r s"
    using assms by (auto simp: insert_item_def Let_def list_ex_iff split: if_splits)
  then show "library_ok (ad_library_items (tx_db t)) \<Longrightarrow> library_ok (ad_library_items (tx_db t'))"
    unfolding t' by (auto intro: library_ok_snoc)
qed

lemma patch_rows_ok:
  assumes "library_ok rows"
  shows "library_ok (map (\<lambda>s. if P s then patch_item e req s else s) rows)"
proof -
  let ?f = "\<lambda>s. if P s then patch_item e req s else s"
  have k: "li_id (?f s) = li_id s" "same_library_key (?f r) (?f s) = same_library_key r s"
    "li_kind (?f s) = li_kind s" for r s
    by (simp_all add: same_library_key_def)
  have "map li_id (map ?f rows) = map li_id rows" by simp
  with assms show ?thesis
    unfolding library_ok_def by (simp only: set_map ball_simps(9) k simp_thms) blast
qed

lemma lib_begin_bound_org:
  "begin_bound e d oid None = Inr t \<Longrightarrow> t = \<lparr>tx_db = d, guc_org_id = Some oid, guc_project_id = None\<rparr>"
  using begin_bound_cases [of e d oid] by auto

lemma create_item_cases:
  assumes "create_item e (Some d) p path_org rnd req = (resp, od')"
  shows "od' = Some d \<and> \<not> is_success resp
    \<or> resp = Created201 (new_item e rnd path_org req) \<and> org_prologue p path_org Editor low_role = None
      \<and> (\<exists>d'. od' = Some d' \<and> library_confined path_org d d'
           \<and> ad_library_items d' = ad_library_items d @ [new_item e rnd path_org req])"
proof -
  let ?r = "new_item e rnd path_org req"
  consider (kind) "clq_kind req \<notin> set LIBRARY_KINDS"
    | (role) er where "clq_kind req \<in> set LIBRARY_KINDS" "org_prologue p path_org Editor low_role = Some er"
    | (no_tx) er where "clq_kind req \<in> set LIBRARY_KINDS" "org_prologue p path_org Editor low_role = None"
        "begin_bound e d path_org None = Inl er"
    | (tx) t where "clq_kind req \<in> set LIBRARY_KINDS" "org_prologue p path_org Editor low_role = None"
        "begin_bound e d path_org None = Inr t"
    by (cases "org_prologue p path_org Editor low_role"; cases "begin_bound e d path_org None") auto
  then show ?thesis
  proof cases
    case (tx t)
    show ?thesis
    proof (cases "insert_item e t ?r")
      case (Inl er)
      with assms tx show ?thesis by (auto simp: create_item_def split: if_splits)
    next
      case (Inr t')
      show ?thesis
      proof (cases "commit e t'")
        case c: (Inl er)
        with assms tx Inr show ?thesis by (auto simp: create_item_def)
      next
        case c: (Inr d')
        then have d': "d' = tx_db t'" by (simp add: commit_def split: if_splits)
        note t = lib_begin_bound_org [OF tx(3)] and ins = insert_item_InrD [OF Inr]
        from assms tx Inr c have res: "resp = Created201 ?r" "od' = Some d'" by (simp_all add: create_item_def)
        have org: "li_org_id ?r = path_org" by (simp add: new_item_def)
        have tt: "d' = d\<lparr>ad_library_items := ad_library_items d @ [?r]\<rparr>"
          unfolding d' ins(2) t by simp
        have "library_ok (ad_library_items d) \<Longrightarrow> library_ok (ad_library_items d @ [?r])"
          using ins(3) unfolding ins(2) t by simp
        then have "library_confined path_org d d'"
          unfolding library_confined_def other_orgs_def tt using org by simp
        moreover have "ad_library_items d' = ad_library_items d @ [?r]" unfolding tt by simp
        ultimately show ?thesis using res tx(2) by blast
      qed
    qed
  qed (use assms in \<open>auto simp: create_item_def\<close>)
qed

lemma patch_handler_cases:
  assumes "patch_item_handler e (Some d) p path_org i req = (resp, od')"
  shows "od' = Some d \<and> \<not> is_success resp
    \<or> org_prologue p path_org Editor low_role = None
      \<and> (\<exists>r d'. r \<in> set (ad_library_items d) \<and> li_org_id r = path_org \<and> li_id r = i
           \<and> resp = Ok200 (patch_item e req r) \<and> od' = Some d'
           \<and> d' = d\<lparr>ad_library_items := map (\<lambda>s. if li_org_id s = path_org \<and> li_id s = i
                 then patch_item e req s else s) (ad_library_items d)\<rparr>)"
proof -
  consider (role) er where "org_prologue p path_org Editor low_role = Some er"
    | (no_tx) er where "org_prologue p path_org Editor low_role = None" "begin_bound e d path_org None = Inl er"
    | (tx) t where "org_prologue p path_org Editor low_role = None" "begin_bound e d path_org None = Inr t"
    by (cases "org_prologue p path_org Editor low_role"; cases "begin_bound e d path_org None") auto
  then show ?thesis
  proof cases
    case (tx t)
    note t = lib_begin_bound_org [OF tx(2)]
    show ?thesis
    proof (cases "fault e (Stmt ''update'') \<or> find (\<lambda>r. li_id r = i) (visible_items t) = None")
      case True
      with assms tx show ?thesis by (cases "fault e (Stmt ''update'')") (auto simp: patch_item_handler_def update_item_def)
    next
      case False
      then obtain s where s: "find (\<lambda>r. li_id r = i) (visible_items t) = Some s" and f: "\<not> fault e (Stmt ''update'')"
        by auto
      let ?d = "d\<lparr>ad_library_items := map (\<lambda>s. if li_org_id s = path_org \<and> li_id s = i
                 then patch_item e req s else s) (ad_library_items d)\<rparr>"
      have upd: "update_item e t i req = Inr (Some (patch_item e req s), t\<lparr>tx_db := ?d\<rparr>)"
        using f s by (simp add: update_item_def t item_visible_def eq_commute [of path_org])
      have sd: "s \<in> set (ad_library_items d)" "li_org_id s = path_org" "li_id s = i"
        using s unfolding t by (auto simp: find_Some_iff visible_items_def item_visible_def dest!: nth_mem)
      show ?thesis
      proof (cases "fault e Commit")
        case True
        with assms tx upd show ?thesis by (auto simp: patch_item_handler_def commit_def)
      next
        case False
        with assms tx upd have "resp = Ok200 (patch_item e req s)" "od' = Some ?d"
          by (simp_all add: patch_item_handler_def commit_def)
        with tx(1) sd show ?thesis by blast
      qed
    qed
  qed (use assms in \<open>auto simp: patch_item_handler_def\<close>)
qed

lemma library_confined_patch:
  "library_confined path_org d (d\<lparr>ad_library_items := map (\<lambda>s. if li_org_id s = path_org \<and> li_id s = i
      then patch_item e req s else s) (ad_library_items d)\<rparr>)"
proof -
  let ?f = "\<lambda>s. if li_org_id s = path_org \<and> li_id s = i then patch_item e req s else s"
  have "filter (\<lambda>r. li_org_id r \<noteq> path_org) (map ?f rows) = filter (\<lambda>r. li_org_id r \<noteq> path_org) rows" for rows
    by (induction rows) auto
  then show ?thesis by (simp add: library_confined_def other_orgs_def patch_rows_ok)
qed

text \<open>
  The library is the organisation's. A create or a patch changes nothing but the library of
  the caller's own organisation, only for editors, keeps ids and external ids unique and the
  kinds legal, and changes nothing at all unless it answers with success.
\<close>

theorem library_writes_confined:
  "(case create_item e (Some d) p path_org rnd req of (resp, od') \<Rightarrow>
      (\<exists>d'. od' = Some d' \<and> library_confined (org_id p) d d')
      \<and> (is_success resp \<or> od' = Some d)
      \<and> (is_success resp \<longrightarrow> path_org = org_id p \<and> has_role_at_least p Editor))
   \<and> (case patch_item_handler e (Some d) p path_org i req' of (resp, od') \<Rightarrow>
      (\<exists>d'. od' = Some d' \<and> library_confined (org_id p) d d')
      \<and> (is_success resp \<or> od' = Some d)
      \<and> (is_success resp \<longrightarrow> path_org = org_id p \<and> has_role_at_least p Editor))"
proof -
  have refl: "library_confined x d d" for x by (simp add: library_confined_def)
  have pro: "org_prologue p path_org Editor low_role = None \<Longrightarrow> path_org = org_id p \<and> has_role_at_least p Editor"
    by (auto simp: org_prologue_def split: if_splits)
  obtain r1 o1 where 1: "create_item e (Some d) p path_org rnd req = (r1, o1)"
    by (cases "create_item e (Some d) p path_org rnd req")
  obtain r2 o2 where 2: "patch_item_handler e (Some d) p path_org i req' = (r2, o2)"
    by (cases "patch_item_handler e (Some d) p path_org i req'")
  have "(\<exists>d'. o1 = Some d' \<and> library_confined (org_id p) d d') \<and> (is_success r1 \<or> o1 = Some d)
      \<and> (is_success r1 \<longrightarrow> path_org = org_id p \<and> has_role_at_least p Editor)"
    using create_item_cases [OF 1] pro refl by auto
  moreover have "(\<exists>d'. o2 = Some d' \<and> library_confined (org_id p) d d') \<and> (is_success r2 \<or> o2 = Some d)
      \<and> (is_success r2 \<longrightarrow> path_org = org_id p \<and> has_role_at_least p Editor)"
    using patch_handler_cases [OF 2] pro refl library_confined_patch by (auto; blast)
  ultimately show ?thesis using 1 2 by simp
qed

definition library_request :: "string \<Rightarrow> create_library_request" where
  "library_request k =
     \<lparr>clq_external_id = Some ''banner'', clq_name = ''Banner'', clq_kind = k, clq_image_url = None,
      clq_width = None, clq_height = None, clq_alt = None, clq_body = None, clq_template_id = None,
      clq_values = None, clq_click_through_url = None, clq_is_active = None\<rparr>"

definition no_patch :: update_library_request where
  "no_patch = \<lparr>ulq_name = None, ulq_image_url = None, ulq_width = None, ulq_height = None,
     ulq_alt = None, ulq_body = None, ulq_click_through_url = None, ulq_is_active = None\<rparr>"

theorem library_writes_confined_witness:
  "snd (create_item (calm_env 5) (Some empty_db) \<lparr>token_type = Opaque, scope = Org, org_id = ''o'',
       project_id = None, role = Admin, actor_id = ''a''\<rparr> ''x'' [1] (library_request ''image'')) = Some empty_db"
  using library_writes_confined [where e = "calm_env 5" and d = empty_db and p = "\<lparr>token_type = Opaque, scope = Org,
       org_id = ''o'', project_id = None, role = Admin, actor_id = ''a''\<rparr>" and path_org = "''x''"
       and rnd = "[1]" and req = "library_request ''image''" and i = "''i''" and req' = no_patch]
  by (auto split: prod.splits)

text \<open>
  What was created can be read back: after a create that succeeds, the owner's get of the new
  id returns the item with the given fields, active unless the request says otherwise, and
  the same get by another organisation finds nothing.
\<close>

theorem library_create_then_get:
  assumes "create_item e (Some d) p path_org rnd req = (Created201 r, Some d')"
    and "library_ok (ad_library_items d)" and "\<And>s. \<not> fault e' s"
    and "has_role_at_least q Reader"
  shows "li_id r = ''ali_'' @ lower_hex rnd \<and> li_org_id r = path_org
     \<and> li_is_active r = (clq_is_active req \<noteq> Some False)
     \<and> (org_id q = path_org \<longrightarrow> get_item e' (Some d') q path_org (li_id r) = Ok200 r)
     \<and> (org_id q \<noteq> path_org \<longrightarrow>
          get_item e' (Some d') q (org_id q) (li_id r) = NotFound (''not_found'', ''ad library item not found''))"
proof -
  from create_item_cases [OF assms(1)] have r: "r = new_item e rnd path_org req"
    and d': "library_confined path_org d d'" "ad_library_items d' = ad_library_items d @ [r]"
    by auto
  have ok: "library_ok (ad_library_items d')" using d'(1) assms(2) by (simp add: library_confined_def)
  have rin: "r \<in> set (ad_library_items d')" and ro: "li_org_id r = path_org" by (simp_all add: d'(2) r new_item_def)
  have uniq: "s = r" if "s \<in> set (ad_library_items d')" "li_id s = li_id r" for s
    using ok that rin by (auto simp: library_ok_def distinct_map dest: inj_onD)
  let ?t = "\<lambda>x. \<lparr>tx_db = d', guc_org_id = Some x, guc_project_id = None\<rparr>"
  have bb: "begin_bound e' d' x None = Inr (?t x)" for x using assms(3) by (simp add: begin_bound_def)
  have own: "find (\<lambda>s. li_id s = li_id r) (visible_items (?t path_org)) = Some r"
  proof -
    have "r \<in> set (visible_items (?t path_org))" using rin ro by (simp add: visible_items_def item_visible_def)
    then have "find (\<lambda>s. li_id s = li_id r) (visible_items (?t path_org)) \<noteq> None"
      by (auto simp: find_None_iff)
    then obtain s where s: "find (\<lambda>s. li_id s = li_id r) (visible_items (?t path_org)) = Some s" by auto
    then have "s \<in> set (ad_library_items d')" "li_id s = li_id r"
      by (auto simp: find_Some_iff visible_items_def dest!: nth_mem)
    with uniq s show ?thesis by simp
  qed
  have other: "find (\<lambda>s. li_id s = li_id r) (visible_items (?t x)) = None" if "x \<noteq> path_org" for x
    using uniq that ro by (auto simp: find_None_iff visible_items_def item_visible_def)
  have "org_prologue q (org_id q) Reader low_role = None" using assms(4) by (simp add: org_prologue_def)
  then show ?thesis
    using bb own other assms(3) ro by (auto simp: get_item_def r new_item_def random_item_id_def coalesce_def split: option.split)
qed

text \<open>An editor confined to one project, in an organisation without items.\<close>

definition library_db :: db where
  "library_db = empty_db\<lparr>organizations := [\<lparr>org_row_id = ''o'', org_row_external_id = None,
     org_row_name = ''O'', org_row_is_active = True, org_row_etag = ''e'', org_row_created_at = 0,
     org_row_updated_at = 0\<rparr>]\<rparr>"

definition project_editor :: principal where
  "project_editor = \<lparr>token_type = Opaque, scope = Project, org_id = ''o'', project_id = Some ''pj_1'',
     role = Editor, actor_id = ''a''\<rparr>"

lemma project_editor_creates:
  "create_item (calm_env 5) (Some library_db) project_editor ''o'' [0xab] (library_request ''image'')
   = (Created201 (new_item (calm_env 5) [0xab] ''o'' (library_request ''image'')),
      Some (library_db\<lparr>ad_library_items := [new_item (calm_env 5) [0xab] ''o'' (library_request ''image'')]\<rparr>))"
  by (simp add: create_item_def LIBRARY_KINDS_def library_request_def org_prologue_def project_editor_def
      has_role_at_least_def begin_bound_def insert_item_def item_visible_def new_item_def commit_def
      library_db_def empty_db_def Let_def)

theorem library_create_then_get_witness:
  "li_id (new_item (calm_env 5) [0xab] ''o'' (library_request ''image'')) = ''ali_ab''"
proof -
  have "has_role_at_least project_editor Reader" by (simp add: has_role_at_least_def project_editor_def)
  from library_create_then_get [OF project_editor_creates _ _ this, of "calm_env 9"]
  have "li_id (new_item (calm_env 5) [0xab] ''o'' (library_request ''image'')) = ''ali_'' @ lower_hex [0xab]"
    by (simp add: library_db_def empty_db_def library_ok_def)
  moreover have "lower_hex [0xab] = ''ab''" by code_simp
  ultimately show ?thesis by simp
qed

end
