(* ===== verification/Api_Tokens.thy ===== *)
theory Api_Tokens
  imports Org_Projects Url_Signing
begin

section \<open>Bearer tokens\<close>

text \<open>
  \<open>src/src/auth/opaque.rs\<close> (the token format), \<open>src/src/auth/security.rs\<close> (\<open>verify_bearer\<close>),
  \<open>begin_auth_lookup\<close> of \<open>src/src/db.rs\<close> and \<open>src/src/tokens.rs\<close> (mint, list, revoke) on the
  table of \<open>0003_api_tokens.sql\<close>. Argon2 is a parameter: \<open>ar_hash\<close> takes the salt and the
  secret, \<open>ar_verify\<close> is \<open>PasswordHash::new\<close> and \<open>verify_password\<close> together. The verifier of
  JWTs is a parameter too (\<open>None\<close> when it is not enabled).
\<close>

record argon =
  ar_hash :: "bytes \<Rightarrow> string \<Rightarrow> string option"
  ar_verify :: "string \<Rightarrow> string \<Rightarrow> bool"

definition argon_ok :: "argon \<Rightarrow> bool" where
  "argon_ok a \<longleftrightarrow> (\<forall>salt s h. ar_hash a salt s = Some h \<longrightarrow> ar_verify a s h)"

subsection \<open>The opaque token\<close>

definition PREFIX :: string where
  "PREFIX = ''kvl_''"

definition ID_DB_PREFIX :: string where
  "ID_DB_PREFIX = ''tok_''"

record parsed_opaque =
  po_env :: string
  po_scope :: string
  po_id_short :: string
  po_secret :: string

definition db_id :: "parsed_opaque \<Rightarrow> string" where
  "db_id po = ID_DB_PREFIX @ po_id_short po"

text \<open>\<open>parts.next().unwrap_or("")\<close>, four times.\<close>

definition nth_or_empty :: "string list \<Rightarrow> nat \<Rightarrow> string" where
  "nth_or_empty xs i = (if i < length xs then xs ! i else '''')"

definition parse_opaque :: "string \<Rightarrow> parsed_opaque option" where
  "parse_opaque token =
     (case strip_prefix PREFIX token of
        None \<Rightarrow> None
      | Some rest \<Rightarrow>
          (let parts = splitn 4 (CHR ''_'') rest;
               e = nth_or_empty parts 0; s = nth_or_empty parts 1;
               i = nth_or_empty parts 2; x = nth_or_empty parts 3
           in if e = [] \<or> s = [] \<or> i = [] \<or> x = [] then None
              else if s \<noteq> ''org'' \<and> s \<noteq> ''project'' then None
              else Some \<lparr>po_env = e, po_scope = s, po_id_short = i, po_secret = x\<rparr>))"

text \<open>The form a token is written in.\<close>

definition format_token :: "parsed_opaque \<Rightarrow> string" where
  "format_token po = PREFIX @ po_env po @ ''_'' @ po_scope po @ ''_'' @ po_id_short po @ ''_'' @ po_secret po"

definition wf_opaque :: "parsed_opaque \<Rightarrow> bool" where
  "wf_opaque po \<longleftrightarrow> po_env po \<noteq> [] \<and> po_id_short po \<noteq> [] \<and> po_secret po \<noteq> []
     \<and> po_scope po \<in> {''org'', ''project''}
     \<and> CHR ''_'' \<notin> set (po_env po) \<and> CHR ''_'' \<notin> set (po_id_short po)"

lemma splitn_4_join:
  assumes "d \<notin> set a" "d \<notin> set b" "d \<notin> set c"
  shows "splitn 4 d (a @ d # b @ d # c @ d # x) = [a, b, c, x]"
  using assms by (simp add: numeral_eq_Suc)

lemma splitn_4_nonempty:
  assumes "nth_or_empty (splitn 4 d s) 3 \<noteq> []"
  obtains a b c x where "splitn 4 d s = [a, b, c, x]" "s = a @ d # b @ d # c @ d # x"
    "d \<notin> set a" "d \<notin> set b" "d \<notin> set c"
  using assms
  by (auto simp: numeral_eq_Suc nth_or_empty_def split: option.splits prod.splits if_splits
      dest!: split_once_char_SomeD)

lemma parse_opaque_iff:
  "parse_opaque token = Some po \<longleftrightarrow> wf_opaque po \<and> token = format_token po"
proof
  assume p: "parse_opaque token = Some po"
  then obtain rest where rest: "token = PREFIX @ rest"
    and ne: "nth_or_empty (splitn 4 (CHR ''_'') rest) 3 \<noteq> []"
    by (auto simp: parse_opaque_def Let_def split: option.splits if_splits dest!: strip_prefix_SomeD)
  from splitn_4_nonempty [OF ne] obtain a b c x where parts: "splitn 4 (CHR ''_'') rest = [a, b, c, x]"
    "rest = a @ CHR ''_'' # b @ CHR ''_'' # c @ CHR ''_'' # x"
    "CHR ''_'' \<notin> set a" "CHR ''_'' \<notin> set b" "CHR ''_'' \<notin> set c" .
  with p rest show "wf_opaque po \<and> token = format_token po"
    by (auto simp: parse_opaque_def Let_def nth_or_empty_def wf_opaque_def format_token_def
        split: if_splits)
next
  assume wf: "wf_opaque po \<and> token = format_token po"
  then have "CHR ''_'' \<notin> set (po_scope po)" by (auto simp: wf_opaque_def)
  with wf splitn_4_join [of "CHR ''_''" "po_env po" "po_scope po" "po_id_short po" "po_secret po"]
  show "parse_opaque token = Some po"
    by (auto simp: parse_opaque_def format_token_def wf_opaque_def nth_or_empty_def Let_def)
qed

subsection \<open>Verifying a bearer\<close>

text \<open>
  The transaction of the lookup has a third setting, \<open>knievel.auth_lookup_id\<close>; the policy of
  \<open>api_tokens\<close> admits the rows of the bound org, those of the bound project's org, and the one
  row the setting names.
\<close>

record auth_tx = tx +
  guc_auth_lookup_id :: "string option"

definition begin_auth_lookup :: "env \<Rightarrow> db \<Rightarrow> string \<Rightarrow> db_error + auth_tx" where
  "begin_auth_lookup e d token_id =
     (if fault e Begin then Inl conn_lost
      else if fault e (SetConfig ''knievel.auth_lookup_id'') then Inl conn_lost
      else Inr \<lparr>tx_db = d, guc_org_id = None, guc_project_id = None, guc_auth_lookup_id = Some token_id\<rparr>)"

definition token_visible :: "string option \<Rightarrow> 'z tx_scheme \<Rightarrow> token_row \<Rightarrow> bool" where
  "token_visible lookup t r \<longleftrightarrow> Some (tk_org_id r) = guc_org_id t
     \<or> list_ex (\<lambda>p. pr_org_id p = tk_org_id r \<and> Some (pr_id p) = guc_project_id t) (projects (tx_db t))
     \<or> Some (tk_id r) = lookup"

definition token_live :: "env \<Rightarrow> token_row \<Rightarrow> bool" where
  "token_live e r \<longleftrightarrow> tk_revoked_at r = None
     \<and> (case tk_expires_at r of None \<Rightarrow> True | Some x \<Rightarrow> clock_ms e < x)"

definition scope_from_str :: "string \<Rightarrow> scope option" where
  "scope_from_str s = (if s = ''org'' then Some Org else if s = ''project'' then Some Project else None)"

definition principal_of_row :: "string \<Rightarrow> token_row \<Rightarrow> principal option" where
  "principal_of_row actor r =
     (case scope_from_str (tk_scope r) of
        None \<Rightarrow> None
      | Some sc \<Rightarrow>
          (case role_from_str (tk_role r) of
             None \<Rightarrow> None
           | Some ro \<Rightarrow>
               Some \<lparr>token_type = Opaque, scope = sc, org_id = tk_org_id r, project_id = tk_project_id r,
                     role = ro, actor_id = actor\<rparr>))"

text \<open>\<open>serde_json::from_slice\<close> on the first segment is the parameter \<open>parse_json\<close>.\<close>

definition looks_like_jwt :: "crypto \<Rightarrow> (bytes \<Rightarrow> json option) \<Rightarrow> string \<Rightarrow> bool" where
  "looks_like_jwt cr parse_json token =
     (let parts = splitn 3 (CHR ''.'') token in
      if length parts \<noteq> 3 then False
      else (case b64_decode cr (parts ! 0) of
          None \<Rightarrow> False
        | Some header_bytes \<Rightarrow>
            (case parse_json header_bytes of
               None \<Rightarrow> False
             | Some header \<Rightarrow> Option.bind (json_get header ''alg'') json_as_str \<noteq> None)))"

definition verify_opaque :: "argon \<Rightarrow> env \<Rightarrow> db \<Rightarrow> string \<Rightarrow> principal option" where
  "verify_opaque a e d token =
     (case parse_opaque token of
        None \<Rightarrow> None
      | Some parsed \<Rightarrow>
     (case begin_auth_lookup e d (db_id parsed) of
        Inl _ \<Rightarrow> None
      | Inr t \<Rightarrow>
          if fault e (Stmt ''select token'') then None
          else (case find (\<lambda>r. token_visible (guc_auth_lookup_id t) t r \<and> tk_id r = db_id parsed \<and> token_live e r)
                       (api_tokens (tx_db t)) of
              None \<Rightarrow> None
            | Some r \<Rightarrow>
                if \<not> ar_verify a (po_secret parsed) (tk_secret_hash r) then None
                else principal_of_row (db_id parsed) r)))"

definition verify_bearer ::
  "crypto \<Rightarrow> (bytes \<Rightarrow> json option) \<Rightarrow> argon \<Rightarrow> (string \<Rightarrow> principal option) option \<Rightarrow> env \<Rightarrow> db option
    \<Rightarrow> string \<Rightarrow> principal option" where
  "verify_bearer cr parse_json a jwt e od token =
     (case jwt of
        Some verify_jwt \<Rightarrow>
          if looks_like_jwt cr parse_json token then verify_jwt token
          else Option.bind od (\<lambda>d. verify_opaque a e d token)
      | None \<Rightarrow> Option.bind od (\<lambda>d. verify_opaque a e d token))"

lemma looks_like_jwt_needs_dot: "looks_like_jwt cr pj token \<Longrightarrow> CHR ''.'' \<in> set token"
  by (auto simp: looks_like_jwt_def Let_def numeral_eq_Suc split_once_char_None split: option.splits if_splits)
     (metis in_set_conv_decomp split_once_char_SomeD)

lemma verify_bearer_opaque:
  "CHR ''.'' \<notin> set token \<Longrightarrow> verify_bearer cr pj a jwt e (Some d) token = verify_opaque a e d token"
  using looks_like_jwt_needs_dot by (auto simp: verify_bearer_def split: option.splits)

text \<open>Under the primary key a lookup finds the row with the id, whatever org it is in.\<close>

lemma find_live_token:
  assumes "distinct (map tk_id rows)"
  shows "find (\<lambda>r. Some (tk_id r) = Some i \<and> tk_id r = i \<and> token_live e r) rows = Some r \<longleftrightarrow>
    r \<in> set rows \<and> tk_id r = i \<and> token_live e r"
  using assms by (induction rows) (auto simp: image_iff)

lemma verify_opaque_iff:
  assumes "distinct (map tk_id (api_tokens d))" and "\<forall>s. \<not> fault e s"
  shows "verify_opaque a e d token = Some p \<longleftrightarrow>
    (\<exists>po r. parse_opaque token = Some po \<and> r \<in> set (api_tokens d) \<and> tk_id r = db_id po
      \<and> token_live e r \<and> ar_verify a (po_secret po) (tk_secret_hash r)
      \<and> principal_of_row (tk_id r) r = Some p)"
proof -
  have vis: "token_visible (Some i) \<lparr>tx_db = d, guc_org_id = None, guc_project_id = None,
      guc_auth_lookup_id = Some i\<rparr> r \<longleftrightarrow> Some (tk_id r) = Some i" for i r
    by (simp add: token_visible_def list_ex_iff)
  have "verify_opaque a e d token = Some p \<longleftrightarrow>
    (\<exists>po r. parse_opaque token = Some po
      \<and> find (\<lambda>r. Some (tk_id r) = Some (db_id po) \<and> tk_id r = db_id po \<and> token_live e r) (api_tokens d) = Some r
      \<and> ar_verify a (po_secret po) (tk_secret_hash r) \<and> principal_of_row (db_id po) r = Some p)"
    using assms(2)
    by (simp add: verify_opaque_def begin_auth_lookup_def vis split: option.split)
  then show ?thesis unfolding find_live_token [OF assms(1)] by metis
qed

lemma verify_opaque_dead:
  assumes "parse_opaque token = Some po"
    and "\<And>r. r \<in> set (api_tokens d) \<Longrightarrow> tk_id r = db_id po \<Longrightarrow> \<not> token_live e r"
  shows "verify_opaque a e d token = None"
proof -
  have none: "find (\<lambda>r. P r \<and> tk_id r = db_id po \<and> token_live e r) (api_tokens d) = None" for P
    using assms(2) by (auto simp: find_None_iff)
  show ?thesis
    by (simp add: verify_opaque_def begin_auth_lookup_def assms(1) none)
qed

subsection \<open>Minting\<close>

definition TOKEN_ENV :: string where
  "TOKEN_ENV = ''prod''"

record create_token_request =
  ck_name :: string
  ck_scope :: string
  ck_project_id :: "string option"
  ck_role :: string
  ck_expires_at :: "string option"
  ck_ip_allowlist :: "string list option"

record create_token_response =
  cs_id :: string
  cs_secret :: string
  cs_name :: string
  cs_scope :: string
  cs_role :: string
  cs_created_at :: int

text \<open>What a mint takes from outside: the bytes of \<open>OsRng\<close> (6 and 16), the salt, argon2, the digest.\<close>

record token_world =
  tw_id_bytes :: bytes
  tw_secret_bytes :: bytes
  tw_salt :: bytes
  tw_argon :: argon
  tw_digest :: digest
  tw_ser :: "create_token_request \<Rightarrow> bytes option"

definition token_request_error :: "create_token_request \<Rightarrow> error_envelope option" where
  "token_request_error req =
     (if ck_scope req \<noteq> ''org'' \<and> ck_scope req \<noteq> ''project'' then
        Some (''invalid_scope'', ''scope must be 'org' or 'project'' @ [CHR 0x27])
      else if \<not> (ck_role req = ''reader'' \<or> ck_role req = ''editor'' \<or> ck_role req = ''admin''
                 \<or> ck_role req = ''org-admin'' \<or> ck_role req = ''org-owner'') then
        Some (''invalid_role'', ''role must be one of reader, editor, admin, org-admin, org-owner'')
      else if ck_scope req = ''project'' \<and> ck_project_id req = None then
        Some (''project_id_required'', ''scope=project requires project_id'')
      else if ck_scope req = ''org'' \<and> ck_project_id req \<noteq> None then
        Some (''project_id_forbidden'', ''scope=org must not include project_id'')
      else None)"

definition new_token :: "token_world \<Rightarrow> env \<Rightarrow> string \<Rightarrow> string \<Rightarrow> create_token_request \<Rightarrow> token_row" where
  "new_token w e oid secret_hash req =
     \<lparr>tk_id = ''tok_'' @ lower_hex (tw_id_bytes w), tk_org_id = oid, tk_project_id = ck_project_id req,
      tk_scope = ck_scope req, tk_role = ck_role req, tk_name = ck_name req,
      tk_secret_hash = secret_hash, tk_ip_allowlist = (case ck_ip_allowlist req of Some l \<Rightarrow> l | None \<Rightarrow> []),
      tk_expires_at = None, tk_revoked_at = None, tk_last_used_at = None, tk_created_at = clock_ms e\<rparr>"

text \<open>The insert: the policy's check, the checks of the table, its key and its references.\<close>

definition insert_token :: "env \<Rightarrow> tx \<Rightarrow> token_row \<Rightarrow> db_error + tx" where
  "insert_token e t r =
     (let d = tx_db t in
      if fault e (Stmt ''insert token'') then Inl conn_lost
      else if guc_org_id t \<noteq> Some (tk_org_id r) then Inl (policy_error ''api_tokens'')
      else if scope_from_str (tk_scope r) = None then Inl (check_error ''api_tokens'' ''api_tokens_scope_check'')
      else if role_from_str (tk_role r) = None then Inl (check_error ''api_tokens'' ''api_tokens_role_check'')
      else if \<not> (tk_scope r = ''project'' \<and> tk_project_id r \<noteq> None
                 \<or> tk_scope r = ''org'' \<and> tk_project_id r = None)
        then Inl (check_error ''api_tokens'' ''api_tokens_check'')
      else if list_ex (\<lambda>s. tk_id s = tk_id r) (api_tokens d) then Inl (unique_error ''api_tokens_pkey'')
      else if \<not> list_ex (\<lambda>g. org_row_id g = tk_org_id r) (organizations d)
        then Inl (fk_error ''api_tokens'' ''api_tokens_org_id_fkey'')
      else if tk_project_id r \<noteq> None \<and> \<not> list_ex (\<lambda>p. Some (pr_id p) = tk_project_id r) (projects d)
        then Inl (fk_error ''api_tokens'' ''api_tokens_project_id_fkey'')
      else Inr (t\<lparr>tx_db := d\<lparr>api_tokens := api_tokens d @ [r]\<rparr>\<rparr>))"

definition create_token ::
  "token_world \<Rightarrow> env \<Rightarrow> db option \<Rightarrow> principal \<Rightarrow> string \<Rightarrow> create_token_request
    \<Rightarrow> create_token_response api_resp \<times> db option" where
  "create_token w e od p path_org req =
     (case org_prologue p path_org OrgAdmin ''minting tokens requires org-admin or higher'' of
        Some er \<Rightarrow> (Forbidden er, od)
      | None \<Rightarrow>
     (case token_request_error req of
        Some er \<Rightarrow> (BadRequest er, od)
      | None \<Rightarrow>
     (case od of
        None \<Rightarrow> (InternalError no_db, od)
      | Some d \<Rightarrow>
     (let id_short = lower_hex (tw_id_bytes w);
          secret = lower_hex (tw_secret_bytes w);
          plaintext = ''kvl_'' @ TOKEN_ENV @ ''_'' @ ck_scope req @ ''_'' @ id_short @ ''_'' @ secret
      in case ar_hash (tw_argon w) (tw_salt w) secret of
        None \<Rightarrow> (InternalError (''hash_failed'', ''could not hash token secret''), od)
      | Some secret_hash \<Rightarrow>
     (case begin_bound e d path_org None of
        Inl _ \<Rightarrow> (InternalError (''db_error'', ''could not begin transaction''), od)
      | Inr t \<Rightarrow>
     (let row = new_token w e path_org secret_hash req in
      case insert_token e t row of
        Inl _ \<Rightarrow> (InternalError (''db_error'', ''token insert failed''), od)
      | Inr t1 \<Rightarrow>
     (case audit_emit (tw_digest w) (tw_ser w) e t1 p ''tokens.mint'' ''token'' (tk_id row) (Some req) of
        Inl _ \<Rightarrow> (InternalError (''db_error'', ''audit_log insert failed''), od)
      | Inr t2 \<Rightarrow>
     (case commit e t2 of
        Inl _ \<Rightarrow> (InternalError (''db_error'', ''could not commit transaction''), od)
      | Inr d' \<Rightarrow>
          (Created201 \<lparr>cs_id = tk_id row, cs_secret = plaintext, cs_name = tk_name row, cs_scope = tk_scope row,
                       cs_role = tk_role row, cs_created_at = tk_created_at row\<rparr>, Some d')))))))))"

subsection \<open>Listing and revoking\<close>

record token_summary =
  ts_id :: string
  ts_name :: string
  ts_scope :: string
  ts_role :: string
  ts_project_id :: "string option"
  ts_created_at :: int
  ts_last_used_at :: "int option"
  ts_revoked_at :: "int option"
  ts_expires_at :: "int option"

definition token_summary_of :: "token_row \<Rightarrow> token_summary" where
  "token_summary_of r =
     \<lparr>ts_id = tk_id r, ts_name = tk_name r, ts_scope = tk_scope r, ts_role = tk_role r,
      ts_project_id = tk_project_id r, ts_created_at = tk_created_at r,
      ts_last_used_at = tk_last_used_at r, ts_revoked_at = tk_revoked_at r,
      ts_expires_at = tk_expires_at r\<rparr>"

definition list_tokens ::
  "env \<Rightarrow> db option \<Rightarrow> principal \<Rightarrow> string \<Rightarrow> (token_summary list \<times> string option) api_resp" where
  "list_tokens e od p path_org =
     (case org_prologue p path_org OrgAdmin ''listing tokens requires org-admin or higher'' of
        Some er \<Rightarrow> Forbidden er
      | None \<Rightarrow>
     (case od of
        None \<Rightarrow> InternalError no_db
      | Some d \<Rightarrow>
     (case begin_bound e d path_org None of
        Inl _ \<Rightarrow> InternalError (''db_error'', ''could not begin transaction'')
      | Inr t \<Rightarrow>
          if fault e (Stmt ''select'') then InternalError (''db_error'', ''list failed'')
          else Ok200 (map token_summary_of (take 500 (sort_key (\<lambda>r. - tk_created_at r)
                        (filter (token_visible None t) (api_tokens (tx_db t))))), None))))"

text \<open>The rows the \<open>UPDATE\<close> of a revocation touches.\<close>

definition revokes :: "tx \<Rightarrow> string \<Rightarrow> token_row \<Rightarrow> bool" where
  "revokes t i r \<longleftrightarrow> token_visible None t r \<and> tk_id r = i \<and> tk_revoked_at r = None"

definition revoked_rows :: "env \<Rightarrow> tx \<Rightarrow> string \<Rightarrow> token_row list" where
  "revoked_rows e t i =
     map (\<lambda>r. if revokes t i r then r\<lparr>tk_revoked_at := Some (clock_ms e)\<rparr> else r) (api_tokens (tx_db t))"

definition revoke_token ::
  "digest \<Rightarrow> env \<Rightarrow> db option \<Rightarrow> principal \<Rightarrow> string \<Rightarrow> string \<Rightarrow> unit api_resp \<times> db option" where
  "revoke_token dg e od p path_org token_id =
     (case org_prologue p path_org OrgAdmin ''revoking tokens requires org-admin or higher'' of
        Some er \<Rightarrow> (Forbidden er, od)
      | None \<Rightarrow>
     (case od of
        None \<Rightarrow> (InternalError no_db, od)
      | Some d \<Rightarrow>
     (case begin_bound e d path_org None of
        Inl _ \<Rightarrow> (InternalError (''db_error'', ''could not begin transaction''), od)
      | Inr t \<Rightarrow>
          if fault e (Stmt ''revoke'') then (InternalError (''db_error'', ''revoke failed''), od)
          else if \<not> list_ex (revokes t token_id) (api_tokens (tx_db t)) then
            (NotFound (''not_found'', ''token not found or already revoked''), od)
          else
     (let t1 = t\<lparr>tx_db := (tx_db t)\<lparr>api_tokens := revoked_rows e t token_id\<rparr>\<rparr>
      in case audit_emit dg (\<lambda>_. None) e t1 p ''tokens.revoke'' ''token'' token_id (None :: unit option) of
        Inl _ \<Rightarrow> (InternalError (''db_error'', ''audit_log insert failed''), od)
      | Inr t2 \<Rightarrow>
     (case commit e t2 of
        Inl _ \<Rightarrow> (InternalError (''db_error'', ''could not commit transaction''), od)
      | Inr d' \<Rightarrow> (NoContent, Some d'))))))"

text \<open>\<open>GET /v1/whoami\<close> echoes the principal (\<open>src/src/whoami.rs\<close>).\<close>

record whoami_response =
  wh_scope :: string
  wh_org_id :: string
  wh_project_id :: "string option"
  wh_role :: string
  wh_token_type :: string
  wh_actor_id :: string

definition whoami :: "principal \<Rightarrow> whoami_response" where
  "whoami p =
     \<lparr>wh_scope = (case scope p of Org \<Rightarrow> ''org'' | Project \<Rightarrow> ''project''), wh_org_id = org_id p,
      wh_project_id = project_id p, wh_role = as_str (role p),
      wh_token_type = (case token_type p of Opaque \<Rightarrow> ''opaque'' | Jwt \<Rightarrow> ''jwt''), wh_actor_id = actor_id p\<rparr>"

subsection \<open>What a mint stores\<close>

lemma hex_digit_in: "n < 16 \<Longrightarrow> hex_digit n \<in> set ''0123456789abcdef''"
proof -
  have "list_all (\<lambda>n. hex_digit n \<in> set ''0123456789abcdef'') [0..<16]" by code_simp
  then show "n < 16 \<Longrightarrow> hex_digit n \<in> set ''0123456789abcdef''" unfolding list_all_iff by simp
qed

lemma set_lower_hex: "set (lower_hex bs) \<subseteq> set ''0123456789abcdef''"
proof
  fix c assume "c \<in> set (lower_hex bs)"
  then have "\<exists>b :: u8. c = hex_digit (unat b div 16) \<or> c = hex_digit (unat b mod 16)"
    unfolding lower_hex_def by auto
  then obtain b :: u8 where "c = hex_digit (unat b div 16) \<or> c = hex_digit (unat b mod 16)" ..
  moreover have "unat b < 256" using unsigned_less [of b] by simp
  then have "unat b div 16 < 16" "unat b mod 16 < 16" by simp_all
  ultimately show "c \<in> set ''0123456789abcdef''" using hex_digit_in by metis
qed

lemma lower_hex_plain: "CHR ''_'' \<notin> set (lower_hex bs)" "CHR ''.'' \<notin> set (lower_hex bs)"
  using set_lower_hex [of bs] by auto

lemma lower_hex_nonempty: "bs \<noteq> [] \<Longrightarrow> lower_hex bs \<noteq> []"
  by (cases bs) (simp_all add: lower_hex_def)

lemma insert_token_InrD:
  "insert_token e t r = Inr t' \<Longrightarrow>
     t' = t\<lparr>tx_db := (tx_db t)\<lparr>api_tokens := api_tokens (tx_db t) @ [r]\<rparr>\<rparr>
     \<and> guc_org_id t = Some (tk_org_id r) \<and> tk_id r \<notin> tk_id ` set (api_tokens (tx_db t))
     \<and> (\<exists>sc. scope_from_str (tk_scope r) = Some sc) \<and> (\<exists>ro. role_from_str (tk_role r) = Some ro)"
  by (auto simp: insert_token_def Let_def list_ex_iff split: if_splits)

lemma new_token_simps [simp]:
  "tk_id (new_token w e oid h req) = ''tok_'' @ lower_hex (tw_id_bytes w)"
  "tk_org_id (new_token w e oid h req) = oid" "tk_project_id (new_token w e oid h req) = ck_project_id req"
  "tk_scope (new_token w e oid h req) = ck_scope req" "tk_role (new_token w e oid h req) = ck_role req"
  "tk_name (new_token w e oid h req) = ck_name req" "tk_secret_hash (new_token w e oid h req) = h"
  "tk_created_at (new_token w e oid h req) = clock_ms e" "tk_expires_at (new_token w e oid h req) = None"
  "tk_revoked_at (new_token w e oid h req) = None"
  by (simp_all add: new_token_def)

definition mint_audit :: "token_world \<Rightarrow> env \<Rightarrow> principal \<Rightarrow> create_token_request \<Rightarrow> audit_row" where
  "mint_audit w e p req =
     \<lparr>au_ts = clock_ms e, au_org_id = org_id p, au_project_id = project_id p, au_actor = actor_id p,
      au_operation = ''tokens.mint'',
      au_payload_hash = hash_payload (tw_digest w) (tw_ser w) ''token'' (''tok_'' @ lower_hex (tw_id_bytes w)) req,
      au_reason = None, au_request_id = None\<rparr>"

lemma create_token_cases:
  assumes "create_token w e (Some d) p oid req = (resp, od')"
  shows "od' = Some d \<and> (\<forall>r. resp \<noteq> Created201 r)
    \<or> (\<exists>h. org_id p = oid \<and> OrgAdmin \<le> role p \<and> token_request_error req = None
        \<and> ar_hash (tw_argon w) (tw_salt w) (lower_hex (tw_secret_bytes w)) = Some h
        \<and> ''tok_'' @ lower_hex (tw_id_bytes w) \<notin> tk_id ` set (api_tokens d)
        \<and> scope_from_str (ck_scope req) \<noteq> None \<and> role_from_str (ck_role req) \<noteq> None
        \<and> au_payload_hash (mint_audit w e p req) \<noteq> None
        \<and> resp = Created201 \<lparr>cs_id = ''tok_'' @ lower_hex (tw_id_bytes w),
            cs_secret = format_token \<lparr>po_env = ''prod'', po_scope = ck_scope req,
              po_id_short = lower_hex (tw_id_bytes w), po_secret = lower_hex (tw_secret_bytes w)\<rparr>,
            cs_name = ck_name req, cs_scope = ck_scope req, cs_role = ck_role req, cs_created_at = clock_ms e\<rparr>
        \<and> od' = Some (d\<lparr>api_tokens := api_tokens d @ [new_token w e oid h req],
                        audit_log := audit_log d @ [mint_audit w e p req]\<rparr>))"
proof (cases "\<exists>r. resp = Created201 r")
  case True
  with assms show ?thesis
    by (auto simp: create_token_def Let_def org_prologue_None has_role_at_least_def mint_audit_def
        format_token_def PREFIX_def TOKEN_ENV_def org_tx_def
        split: option.splits sum.splits
        dest!: begin_bound_org insert_token_InrD audit_emit_InrD commit_InrD)
next
  case False
  with assms show ?thesis
    by (auto simp: create_token_def Let_def split: option.splits sum.splits)
qed

lemma revoke_token_NoContent:
  assumes "revoke_token dg e (Some d) p oid i = (NoContent, Some d')"
  shows "list_ex (revokes (org_tx d oid) i) (api_tokens d)
    \<and> api_tokens d' = revoked_rows e (org_tx d oid) i
    \<and> (\<exists>row. audit_log d' = audit_log d @ [row] \<and> au_operation row = ''tokens.revoke'' \<and> au_actor row = actor_id p)"
proof -
  from assms obtain t where "begin_bound e d oid None = Inr t"
    by (auto simp: revoke_token_def split: option.splits sum.splits)
  from this begin_bound_org [OF this] have t: "begin_bound e d oid None = Inr (org_tx d oid)" by simp
  have live: "list_ex (revokes (org_tx d oid) i) (api_tokens d)"
  proof (rule ccontr)
    assume "\<not> list_ex (revokes (org_tx d oid) i) (api_tokens d)"
    with assms t show False by (simp add: revoke_token_def org_tx_def split: option.splits if_splits)
  qed
  with assms t obtain t2 where
    "audit_emit dg (\<lambda>_. None) e ((org_tx d oid)\<lparr>tx_db := d\<lparr>api_tokens := revoked_rows e (org_tx d oid) i\<rparr>\<rparr>)
       p ''tokens.revoke'' ''token'' i (None :: unit option) = Inr t2" "d' = tx_db t2"
    by (simp add: revoke_token_def org_tx_def Let_def split: option.splits if_splits sum.splits)
      (auto dest: commit_InrD)
  with live show ?thesis by (auto dest!: audit_emit_InrD)
qed

lemma format_token_no_dot:
  "CHR ''.'' \<notin> set (po_env po @ po_scope po @ po_id_short po @ po_secret po) \<Longrightarrow>
     CHR ''.'' \<notin> set (format_token po)"
  by (auto simp: format_token_def PREFIX_def)

lemma token_request_scope:
  "token_request_error req = None \<Longrightarrow> ck_scope req \<in> {''org'', ''project''}"
  by (auto simp: token_request_error_def split: if_splits)

subsection \<open>A concrete mint\<close>

text \<open>An org admin whose own token is confined to a project mints an org owner's token.\<close>

definition project_admin :: principal where
  "project_admin = org_admin\<lparr>scope := Project, project_id := Some ''pj''\<rparr>"

definition owner_request :: create_token_request where
  "owner_request = \<lparr>ck_name = ''n'', ck_scope = ''org'', ck_project_id = None, ck_role = ''org-owner'',
     ck_expires_at = Some ''2026-01-01T00:00:00Z'', ck_ip_allowlist = None\<rparr>"

definition sample_argon :: argon where
  "sample_argon = \<lparr>ar_hash = (\<lambda>salt s. Some s), ar_verify = (\<lambda>s h. s = h)\<rparr>"

definition mint_world :: token_world where
  "mint_world =
     \<lparr>tw_id_bytes = [0xab], tw_secret_bytes = [0xcd], tw_salt = [1], tw_argon = sample_argon,
      tw_digest = \<lparr>dg_sha256 = (\<lambda>b. b), dg_hex = lower_hex\<rparr>, tw_ser = (\<lambda>r. Some [])\<rparr>"

definition minted_db :: db where
  "minted_db = (org_db [])\<lparr>
     api_tokens := [new_token mint_world (calm_env 0) ''o'' ''cd'' owner_request],
     audit_log := [mint_audit mint_world (calm_env 0) project_admin owner_request]\<rparr>"

lemma sample_mint:
  "create_token mint_world (calm_env 0) (Some (org_db [])) project_admin ''o'' owner_request =
     (Created201 \<lparr>cs_id = ''tok_ab'', cs_secret = ''kvl_prod_org_ab_cd'', cs_name = ''n'', cs_scope = ''org'',
        cs_role = ''org-owner'', cs_created_at = 0\<rparr>, Some minted_db)"
proof -
  have hex: "lower_hex [0xab] = ''ab''" "lower_hex [0xcd] = ''cd''" by code_simp+
  have req: "org_prologue project_admin ''o'' OrgAdmin m = None" "token_request_error owner_request = None"
    for m
    by (simp_all add: org_prologue_def project_admin_def org_admin_def has_role_at_least_def
        token_request_error_def owner_request_def)
  have ins: "insert_token (calm_env 0) (org_tx (org_db []) ''o'') (new_token mint_world (calm_env 0) ''o'' ''cd'' owner_request)
    = Inr ((org_tx (org_db []) ''o'')\<lparr>tx_db := (org_db [])\<lparr>api_tokens :=
        [new_token mint_world (calm_env 0) ''o'' ''cd'' owner_request]\<rparr>\<rparr>)"
    by (simp add: insert_token_def Let_def org_tx_def org_db_def empty_db_def owner_request_def
        scope_from_str_def role_from_str_def)
  have world: "tw_id_bytes mint_world = [0xab]" "tw_secret_bytes mint_world = [0xcd]"
    "ar_hash (tw_argon mint_world) salt s = Some s" for salt s
    by (simp_all add: mint_world_def sample_argon_def)
  have ph: "hash_payload (tw_digest mint_world) (tw_ser mint_world) k i r \<noteq> None" for k i r
    by (simp add: hash_payload_def mint_world_def)
  have audit: "audit_emit (tw_digest mint_world) (tw_ser mint_world) (calm_env 0)
      ((org_tx (org_db []) ''o'')\<lparr>tx_db := (org_db [])\<lparr>api_tokens := rows\<rparr>\<rparr>) project_admin ''tokens.mint'' ''token''
        ''tok_ab'' (Some owner_request)
    = Inr ((org_tx (org_db []) ''o'')\<lparr>tx_db := (org_db [])\<lparr>api_tokens := rows,
        audit_log := [mint_audit mint_world (calm_env 0) project_admin owner_request]\<rparr>\<rparr>)" for rows
    using ph [of "''token''" "''tok_ab''" owner_request]
    by (auto simp: audit_emit_def org_tx_def org_db_def empty_db_def mint_audit_def world hex
        project_admin_def org_admin_def)
  have own: "ck_scope owner_request = ''org''" "ck_name owner_request = ''n''" "ck_role owner_request = ''org-owner''"
    by (simp_all add: owner_request_def)
  show ?thesis
    unfolding create_token_def Let_def world hex req
    by (simp add: begin_bound_calm ins audit world hex commit_def minted_db_def TOKEN_ENV_def own)
qed

subsection \<open>Properties\<close>

text \<open>
  parsing a token and writing it are inverse: a string parses exactly when it is a token
  whose segments are not empty, whose scope is known, and whose environment and id hold no
  underscore; the secret may hold any.
\<close>

theorem token_parse_exact:
  "parse_opaque token = Some po \<longleftrightarrow>
     token = ''kvl_'' @ po_env po @ ''_'' @ po_scope po @ ''_'' @ po_id_short po @ ''_'' @ po_secret po
     \<and> po_env po \<noteq> [] \<and> po_scope po \<in> {''org'', ''project''} \<and> po_id_short po \<noteq> [] \<and> po_secret po \<noteq> []
     \<and> CHR ''_'' \<notin> set (po_env po) \<union> set (po_id_short po)"
  unfolding parse_opaque_iff wf_opaque_def format_token_def PREFIX_def by auto

text \<open>
  C8: without database errors an opaque bearer is accepted exactly as the row its id names
  allows: the row is neither revoked nor expired, the secret verifies against its hash, and the
  principal has the row's org, project, scope and role.
\<close>

theorem bearer_accepted_exactly:
  assumes "distinct (map tk_id (api_tokens d))" and "\<forall>s. \<not> fault e s" and "CHR ''.'' \<notin> set token"
  shows "verify_bearer cr pj a jwt e (Some d) token = Some p \<longleftrightarrow>
    (\<exists>po r. parse_opaque token = Some po \<and> r \<in> set (api_tokens d) \<and> tk_id r = ''tok_'' @ po_id_short po
      \<and> tk_revoked_at r = None \<and> (\<forall>x. tk_expires_at r = Some x \<longrightarrow> clock_ms e < x)
      \<and> ar_verify a (po_secret po) (tk_secret_hash r)
      \<and> token_type p = Opaque \<and> actor_id p = tk_id r \<and> org_id p = tk_org_id r \<and> project_id p = tk_project_id r
      \<and> scope_from_str (tk_scope r) = Some (scope p) \<and> role_from_str (tk_role r) = Some (role p))"
proof -
  have "principal_of_row i r = Some p \<longleftrightarrow> token_type p = Opaque \<and> actor_id p = i \<and> org_id p = tk_org_id r
      \<and> project_id p = tk_project_id r \<and> scope_from_str (tk_scope r) = Some (scope p)
      \<and> role_from_str (tk_role r) = Some (role p)" for i r
    by (cases p) (auto simp: principal_of_row_def split: option.splits)
  moreover have "token_live e r \<longleftrightarrow> tk_revoked_at r = None \<and> (\<forall>x. tk_expires_at r = Some x \<longrightarrow> clock_ms e < x)" for r
    by (simp add: token_live_def split: option.splits)
  ultimately show ?thesis
    unfolding verify_bearer_opaque [OF assms(3)] verify_opaque_iff [OF assms(1,2)] db_id_def ID_DB_PREFIX_def
    by auto
qed

theorem bearer_accepted_exactly_witness:
  "\<exists>p. verify_bearer sample_crypto (\<lambda>_. None) sample_argon None (calm_env 5) (Some minted_db) ''kvl_prod_org_ab_cd'' = Some p
     \<and> role p = OrgOwner \<and> org_id p = ''o''"
proof -
  let ?p = "\<lparr>token_type = Opaque, scope = Org, org_id = ''o'', project_id = None, role = OrgOwner,
    actor_id = ''tok_ab''\<rparr>"
  have hex: "lower_hex [0xab] = ''ab''" by code_simp
  have po: "parse_opaque ''kvl_prod_org_ab_cd'' = Some \<lparr>po_env = ''prod'', po_scope = ''org'',
      po_id_short = ''ab'', po_secret = ''cd''\<rparr>" by code_simp
  have "verify_bearer sample_crypto (\<lambda>_. None) sample_argon None (calm_env 5) (Some minted_db) ''kvl_prod_org_ab_cd'' = Some ?p"
    by (subst bearer_accepted_exactly)
      (simp_all add: minted_db_def po sample_argon_def mint_world_def hex owner_request_def
        scope_from_str_def role_from_str_def)
  then show ?thesis by (intro exI [of _ ?p]) simp
qed

text \<open>
  C9: the secret a mint returns authenticates, whenever it is presented, as the scope, project
  and role that were asked for in the org of the path. Neither the scope and role of the minter
  (beyond org admin) nor the requested \<open>expires_at\<close> and \<open>ip_allowlist\<close> limit it.
\<close>

theorem minted_token_authenticates:
  assumes "create_token w e (Some d) p oid req = (Created201 resp, Some d')"
    and "distinct (map tk_id (api_tokens d))" and "argon_ok (tw_argon w)" and "\<forall>s. \<not> fault e' s"
    and "tw_id_bytes w \<noteq> []" and "tw_secret_bytes w \<noteq> []"
  shows "verify_bearer cr pj (tw_argon w) jwt e' (Some d') (cs_secret resp) =
    Some \<lparr>token_type = Opaque, scope = (if ck_scope req = ''org'' then Org else Project), org_id = oid,
          project_id = ck_project_id req, role = the (role_from_str (ck_role req)), actor_id = cs_id resp\<rparr>"
proof -
  let ?po = "\<lparr>po_env = ''prod'', po_scope = ck_scope req, po_id_short = lower_hex (tw_id_bytes w),
    po_secret = lower_hex (tw_secret_bytes w)\<rparr>"
  from create_token_cases [OF assms(1)] obtain h where h: "org_id p = oid" "token_request_error req = None"
    "ar_hash (tw_argon w) (tw_salt w) (lower_hex (tw_secret_bytes w)) = Some h"
    "''tok_'' @ lower_hex (tw_id_bytes w) \<notin> tk_id ` set (api_tokens d)" "role_from_str (ck_role req) \<noteq> None"
    "cs_id resp = ''tok_'' @ lower_hex (tw_id_bytes w)" "cs_secret resp = format_token ?po"
    "api_tokens d' = api_tokens d @ [new_token w e oid h req]" by auto
  note sc = token_request_scope [OF h(2)]
  then have parse: "parse_opaque (cs_secret resp) = Some ?po"
    using lower_hex_nonempty assms(5,6) lower_hex_plain by (auto simp: parse_opaque_iff wf_opaque_def h(7))
  have dot: "CHR ''.'' \<notin> set (cs_secret resp)"
    unfolding h(7) using sc lower_hex_plain by (intro format_token_no_dot) auto
  have "distinct (map tk_id (api_tokens d'))" using assms(2) h(4) by (simp add: h(8))
  moreover have "ar_verify (tw_argon w) (lower_hex (tw_secret_bytes w)) h"
    using assms(3) h(3) by (auto simp: argon_ok_def)
  ultimately show ?thesis
    unfolding verify_bearer_opaque [OF dot] using sc h(5) assms(4) parse
    by (subst verify_opaque_iff)
      (auto simp: h(6,8) db_id_def ID_DB_PREFIX_def token_live_def principal_of_row_def scope_from_str_def
        intro!: bexI [of _ "new_token w e oid h req"])
qed

theorem minted_token_authenticates_witness:
  "scope project_admin = Project \<and> role project_admin = OrgAdmin
   \<and> create_token mint_world (calm_env 0) (Some (org_db [])) project_admin ''o'' owner_request
       = (Created201 \<lparr>cs_id = ''tok_ab'', cs_secret = ''kvl_prod_org_ab_cd'', cs_name = ''n'', cs_scope = ''org'',
            cs_role = ''org-owner'', cs_created_at = 0\<rparr>, Some minted_db)
   \<and> verify_bearer sample_crypto (\<lambda>_. None) sample_argon None (calm_env (10 ^ 15)) (Some minted_db) ''kvl_prod_org_ab_cd''
       = Some \<lparr>token_type = Opaque, scope = Org, org_id = ''o'', project_id = None, role = OrgOwner,
               actor_id = ''tok_ab''\<rparr>"
proof -
  have a: "tw_argon mint_world = sample_argon" by (simp add: mint_world_def)
  have "argon_ok sample_argon" by (simp add: argon_ok_def sample_argon_def)
  then have "verify_bearer sample_crypto (\<lambda>_. None) sample_argon None (calm_env (10 ^ 15)) (Some minted_db) ''kvl_prod_org_ab_cd''
       = Some \<lparr>token_type = Opaque, scope = Org, org_id = ''o'', project_id = None, role = OrgOwner,
               actor_id = ''tok_ab''\<rparr>"
    using minted_token_authenticates [OF sample_mint, where e' = "calm_env (10 ^ 15)" and jwt = None and cr = sample_crypto and pj = "\<lambda>_. None"]
    by (simp add: a org_db_def empty_db_def mint_world_def owner_request_def role_from_str_def)
  with sample_mint show ?thesis by (simp add: project_admin_def org_admin_def)
qed

text \<open>
  C10: after a successful revocation no bearer that names the token is accepted, whatever its
  secret; the revocation is on record, and no other token changed.
\<close>

theorem revoked_token_never_authenticates:
  assumes "revoke_token dg e (Some d) p oid i = (NoContent, Some d')"
    and "distinct (map tk_id (api_tokens d))"
  shows "(\<forall>e' token po. parse_opaque token = Some po \<and> ''tok_'' @ po_id_short po = i \<and> CHR ''.'' \<notin> set token \<longrightarrow>
      verify_bearer cr pj a jwt e' (Some d') token = None)
    \<and> filter (\<lambda>r. tk_id r \<noteq> i) (api_tokens d') = filter (\<lambda>r. tk_id r \<noteq> i) (api_tokens d)
    \<and> (\<exists>row. audit_log d' = audit_log d @ [row] \<and> au_operation row = ''tokens.revoke'' \<and> au_actor row = actor_id p)"
proof -
  let ?f = "\<lambda>r. if revokes (org_tx d oid) i r then r\<lparr>tk_revoked_at := Some (clock_ms e)\<rparr> else r"
  note facts = revoke_token_NoContent [OF assms(1)]
  note some = conjunct1 [OF facts] and audit = conjunct2 [OF conjunct2 [OF facts]]
  have "revoked_rows e (org_tx d oid) i = map ?f (api_tokens d)" by (simp add: revoked_rows_def org_tx_def)
  with conjunct1 [OF conjunct2 [OF facts]] have d': "api_tokens d' = map ?f (api_tokens d)" by (rule trans)
  have dead: "tk_revoked_at r \<noteq> None" if "r \<in> set (api_tokens d')" "tk_id r = i" for r
  proof -
    from that(1) obtain s where s: "s \<in> set (api_tokens d)" "r = ?f s"
      unfolding d' set_map by (elim imageE)
    with that(2) have i: "tk_id s = i" by (simp split: if_splits)
    from some obtain s' where "s' \<in> set (api_tokens d)" "revokes (org_tx d oid) i s'" by (auto simp: list_ex_iff)
    with s(1) i assms(2) have "revokes (org_tx d oid) i s"
      by (auto simp: revokes_def distinct_map dest: inj_onD)
    with s(2) show ?thesis by simp
  qed
  have "verify_bearer cr pj a jwt e' (Some d') token = None"
    if "parse_opaque token = Some po" "''tok_'' @ po_id_short po = i" "CHR ''.'' \<notin> set token" for e' token po
    unfolding verify_bearer_opaque [OF that(3)] using that(1,2) dead
    by (intro verify_opaque_dead) (auto simp: db_id_def ID_DB_PREFIX_def token_live_def)
  moreover have "filter (\<lambda>r. tk_id r \<noteq> i) (map ?f rows) = filter (\<lambda>r. tk_id r \<noteq> i) rows" for rows
    by (induction rows) (auto simp: revokes_def)
  ultimately show ?thesis using audit by (simp add: d')
qed

theorem revoked_token_never_authenticates_witness:
  "\<exists>d'. revoke_token \<lparr>dg_sha256 = (\<lambda>b. b), dg_hex = lower_hex\<rparr> (calm_env 9) (Some minted_db) org_admin ''o'' ''tok_ab''
       = (NoContent, Some d')
     \<and> verify_bearer sample_crypto (\<lambda>_. None) sample_argon None (calm_env 10) (Some d') ''kvl_prod_org_ab_cd'' = None"
proof -
  have hex: "lower_hex [0xab] = ''ab''" by code_simp
  have po: "parse_opaque ''kvl_prod_org_ab_cd'' = Some \<lparr>po_env = ''prod'', po_scope = ''org'',
      po_id_short = ''ab'', po_secret = ''cd''\<rparr>" by code_simp
  have live: "list_ex (revokes (org_tx minted_db ''o'') ''tok_ab'') (api_tokens minted_db)"
    by (simp add: minted_db_def revokes_def token_visible_def org_tx_def mint_world_def hex)
  obtain d' where run: "revoke_token \<lparr>dg_sha256 = (\<lambda>b. b), dg_hex = lower_hex\<rparr> (calm_env 9) (Some minted_db)
      org_admin ''o'' ''tok_ab'' = (NoContent, Some d')"
    using live
    by (simp add: revoke_token_def org_prologue_def begin_bound_calm audit_emit_def commit_def org_tx_def
        org_admin_def has_role_at_least_def Let_def)
  have "distinct (map tk_id (api_tokens minted_db))" by (simp add: minted_db_def)
  from revoked_token_never_authenticates [OF run this, of sample_crypto "\<lambda>_. None" sample_argon None] po run show ?thesis by auto
qed

end
