(* ===== verification/Civil_Calendar.thy ===== *)
theory Civil_Calendar
  imports Rust_Text
begin

section \<open>Days and dates\<close>

text \<open>
  \<open>ymd_from_epoch\<close> and \<open>day_start_secs\<close> of \<open>src/src/partitions.rs\<close>, against the Gregorian
  calendar stated independently: 1 January 1970 is day 0, and the day after a date is
  \<open>next_date\<close>. The \<open>u64\<close> part of the computation is on naturals; \<open>year_starts\<close> shows that none
  of its subtractions underflows.
\<close>

definition wrap_i32 :: "int \<Rightarrow> int" where
  "wrap_i32 x = (x + 2 ^ 31) mod 2 ^ 32 - 2 ^ 31"

definition day_start_secs :: "int \<Rightarrow> int" where
  "day_start_secs s = s - s mod (24 * 60 * 60)"

definition year_of_era :: "nat \<Rightarrow> nat" where
  "year_of_era doe = (doe - doe div 1460 + doe div 36524 - doe div 146096) div 365"

definition days_before_year :: "nat \<Rightarrow> nat" where
  "days_before_year yoe = 365 * yoe + yoe div 4 - yoe div 100"

definition month_day :: "nat \<Rightarrow> nat \<times> nat" where
  "month_day doy =
     (let mp = (5 * doy + 2) div 153;
          d = (doy - (153 * mp + 2) div 5) + 1;
          m = (if mp < 10 then mp + 3 else mp - 9)
      in (m, d))"

definition era_of :: "int \<Rightarrow> int" where
  "era_of z = tdiv (if z \<ge> 0 then z else z - 146096) 146097"

definition ymd_from_epoch :: "int \<Rightarrow> int \<times> nat \<times> nat" where
  "ymd_from_epoch secs =
     (let days = tdiv secs 86400;
          z = days + 719468;
          era = era_of z;
          doe = as_u64 (z - era * 146097);
          yoe = year_of_era doe;
          y = int yoe + era * 400;
          doy = doe - days_before_year yoe;
          (m, d) = month_day doy;
          y = (if m \<le> 2 then y + 1 else y)
      in (wrap_i32 y, m, d))"

subsection \<open>The calendar\<close>

definition leap_year :: "int \<Rightarrow> bool" where
  "leap_year y \<longleftrightarrow> (y mod 4 = 0 \<and> y mod 100 \<noteq> 0) \<or> y mod 400 = 0"

definition month_length :: "int \<Rightarrow> nat \<Rightarrow> nat" where
  "month_length y m =
     (if m = 2 then (if leap_year y then 29 else 28) else if m \<in> {4, 6, 9, 11} then 30 else 31)"

fun next_date :: "int \<times> nat \<times> nat \<Rightarrow> int \<times> nat \<times> nat" where
  "next_date (y, m, d) =
     (if d < month_length y m then (y, m, d + 1)
      else if m < 12 then (y, m + 1, 1)
      else (y + 1, 1, 1))"

subsection \<open>Years of an era\<close>

text \<open>Day \<open>r\<close> of year \<open>s\<close> of the four-year cycle \<open>q\<close> of century \<open>c\<close> of an era.\<close>

definition era_day :: "nat \<Rightarrow> nat \<Rightarrow> nat \<Rightarrow> nat \<Rightarrow> nat" where
  "era_day c q s r = 36524 * c + 1461 * q + 365 * s + r"

definition era_date_ok :: "nat \<Rightarrow> nat \<Rightarrow> nat \<Rightarrow> nat \<Rightarrow> bool" where
  "era_date_ok c q s r \<longleftrightarrow> c < 4 \<and> q < 25 \<and> s < 4
     \<and> (r < 365 \<or> r = 365 \<and> s = 3 \<and> (q < 24 \<or> c = 3))"

lemma era_date_exists:
  assumes "doe < 146097"
  shows "\<exists>c q s r. doe = era_day c q s r \<and> era_date_ok c q s r"
proof -
  define c where "c = min 3 (doe div 36524)"
  define a where "a = doe - 36524 * c"
  define q where "q = a div 1461"
  define b where "b = a mod 1461"
  define s where "s = min 3 (b div 365)"
  define r where "r = b - 365 * s"
  have c: "36524 * c \<le> doe" "c < 4" "doe < 36524 * c + 36524 \<or> c = 3"
    unfolding c_def by (auto simp: min_def)
  have a: "doe = 36524 * c + a" "a < 36524 \<or> c = 3 \<and> a < 36525"
    using c assms unfolding a_def by auto
  have q: "a = 1461 * q + b" "b < 1461" "q < 25"
    using a unfolding q_def b_def by auto
  have s: "365 * s \<le> b" "s < 4" "b < 365 * s + 365 \<or> s = 3"
    unfolding s_def by (auto simp: min_def)
  have r: "b = 365 * s + r" "r < 365 \<or> s = 3 \<and> r = 365"
    using s q unfolding r_def by auto
  have "era_date_ok c q s r"
    unfolding era_date_ok_def using c(2) q s(2) r a by auto
  moreover have "doe = era_day c q s r"
    unfolding era_day_def using a(1) q(1) r(1) by simp
  ultimately show ?thesis by blast
qed

lemma days_before_year_era:
  assumes "era_date_ok c q s r"
  shows "days_before_year (100 * c + 4 * q + s) = era_day c q s 0"
proof -
  from assms have "c < 4" "q < 25" "s < 4" by (simp_all add: era_date_ok_def)
  then have "(100 * c + 4 * q + s) div 4 = 25 * c + q" "(100 * c + 4 * q + s) div 100 = c"
    by auto
  then show ?thesis unfolding days_before_year_def era_day_def by simp
qed

lemma year_of_era_day:
  assumes ok: "era_date_ok c q s r"
  shows "year_of_era (era_day c q s r) = 100 * c + 4 * q + s"
proof -
  let ?doe = "era_day c q s r"
  define over where "over = (24 * c + q + 365 * s + r) div 1460"
  from ok have b: "c < 4" "q < 25" "s < 4" "r \<le> 365" by (auto simp: era_date_ok_def)
  have "?doe = (24 * c + q + 365 * s + r) + 1460 * (25 * c + q)" by (simp add: era_day_def)
  then have d1: "?doe div 1460 = 25 * c + q + over" by (simp add: over_def)
  have d2: "?doe div 36524 - ?doe div 146096 = c" and d3: "?doe div 146096 \<le> ?doe div 36524"
  proof -
    have "1461 * q + 365 * s + r < 36524 \<or> c = 3 \<and> 1461 * q + 365 * s + r = 36524"
      using ok b by (auto simp: era_date_ok_def)
    then have "?doe < 36524 * c + 36524 \<or> ?doe = 146096" by (auto simp: era_day_def)
    moreover have "36524 * c \<le> ?doe" by (simp add: era_day_def)
    ultimately consider "?doe div 36524 = c" "?doe < 146096" | "?doe = 146096" "c = 3"
      using b \<open>1461 * q + 365 * s + r < 36524 \<or> _\<close> by (cases "?doe = 146096") (auto simp: era_day_def div_nat_eqI)
    then show "?doe div 36524 - ?doe div 146096 = c" "?doe div 146096 \<le> ?doe div 36524"
      by (cases; simp)+
  qed
  have o: "over \<le> r" "r \<le> 364 + over"
  proof -
    show "over \<le> r"
    proof (cases "r = 0")
      case True
      with b have "24 * c + q + 365 * s + r < 1460" by simp
      then show ?thesis by (simp add: over_def)
    next
      case False
      from b have "24 * c + q + 365 * s + r < 2920" by simp
      then have "over < 2" by (simp add: over_def less_mult_imp_div_less)
      with False show ?thesis by simp
    qed
    show "r \<le> 364 + over"
    proof (cases "r = 365")
      case True
      with ok have "1460 \<le> 24 * c + q + 365 * s + r" by (simp add: era_date_ok_def)
      then have "1460 div 1460 \<le> over" unfolding over_def by (rule div_le_mono)
      with True show ?thesis by simp
    qed (use b in simp)
  qed
  have pull: "doe - x + y - z = k + (r - v)"
    if "doe = k + r + (24 * c + q)" "x = 25 * c + q + v" "y - z = c" "z \<le> y" "v \<le> r" "c \<le> k"
    for doe x y z k v :: nat
    using that by linarith
  have "?doe - ?doe div 1460 + ?doe div 36524 - ?doe div 146096
      = 365 * (100 * c + 4 * q + s) + (r - over)"
    by (rule pull [OF _ d1 d2 d3 o(1)]) (simp_all add: era_day_def)
  moreover have "r - over < 365" using o(2) by simp
  ultimately show ?thesis by (simp add: year_of_era_def)
qed

subsection \<open>Months\<close>

lemma month_day_table:
  assumes "r < 366"
  shows "month_day r =
     (if r < 31 then (3, r - 0 + 1) else
      if r < 61 then (4, r - 31 + 1) else
      if r < 92 then (5, r - 61 + 1) else
      if r < 122 then (6, r - 92 + 1) else
      if r < 153 then (7, r - 122 + 1) else
      if r < 184 then (8, r - 153 + 1) else
      if r < 214 then (9, r - 184 + 1) else
      if r < 245 then (10, r - 214 + 1) else
      if r < 275 then (11, r - 245 + 1) else
      if r < 306 then (12, r - 275 + 1) else
      if r < 337 then (1, r - 306 + 1) else
      (2, r - 337 + 1))"
proof -
  consider "r < 31"
    | "31 \<le> r" "r < 61"
    | "61 \<le> r" "r < 92"
    | "92 \<le> r" "r < 122"
    | "122 \<le> r" "r < 153"
    | "153 \<le> r" "r < 184"
    | "184 \<le> r" "r < 214"
    | "214 \<le> r" "r < 245"
    | "245 \<le> r" "r < 275"
    | "275 \<le> r" "r < 306"
    | "306 \<le> r" "r < 337"
    | "337 \<le> r" "r < 366"
    using assms by linarith
  then show ?thesis
  proof cases
    case 1
    then have "(5 * r + 2) div 153 = 0" by (intro div_nat_eqI) simp_all
    with 1 show ?thesis by (simp add: month_day_def)
  next
    case 2
    then have "(5 * r + 2) div 153 = 1" by (intro div_nat_eqI) simp_all
    with 2 show ?thesis by (simp add: month_day_def)
  next
    case 3
    then have "(5 * r + 2) div 153 = 2" by (intro div_nat_eqI) simp_all
    with 3 show ?thesis by (simp add: month_day_def)
  next
    case 4
    then have "(5 * r + 2) div 153 = 3" by (intro div_nat_eqI) simp_all
    with 4 show ?thesis by (simp add: month_day_def)
  next
    case 5
    then have "(5 * r + 2) div 153 = 4" by (intro div_nat_eqI) simp_all
    with 5 show ?thesis by (simp add: month_day_def)
  next
    case 6
    then have "(5 * r + 2) div 153 = 5" by (intro div_nat_eqI) simp_all
    with 6 show ?thesis by (simp add: month_day_def)
  next
    case 7
    then have "(5 * r + 2) div 153 = 6" by (intro div_nat_eqI) simp_all
    with 7 show ?thesis by (simp add: month_day_def)
  next
    case 8
    then have "(5 * r + 2) div 153 = 7" by (intro div_nat_eqI) simp_all
    with 8 show ?thesis by (simp add: month_day_def)
  next
    case 9
    then have "(5 * r + 2) div 153 = 8" by (intro div_nat_eqI) simp_all
    with 9 show ?thesis by (simp add: month_day_def)
  next
    case 10
    then have "(5 * r + 2) div 153 = 9" by (intro div_nat_eqI) simp_all
    with 10 show ?thesis by (simp add: month_day_def)
  next
    case 11
    then have "(5 * r + 2) div 153 = 10" by (intro div_nat_eqI) simp_all
    with 11 show ?thesis by (simp add: month_day_def)
  next
    case 12
    then have "(5 * r + 2) div 153 = 11" by (intro div_nat_eqI) simp_all
    with 12 show ?thesis by (simp add: month_day_def)
  qed
qed

subsection \<open>The date of a day\<close>

lemma era_of_div: "era_of z = z div 146097"
proof (cases "z \<ge> 0")
  case False
  define w where "w = - z - 1"
  have w: "0 \<le> w" "z = - w - 1" using False by (simp_all add: w_def)
  have "era_of z = - ((w + 146097) div 146097)"
    using w by (simp add: era_of_def tdiv_def sgn_if)
  also have "\<dots> = z div 146097" using w(2) by simp
  finally show ?thesis .
qed (simp add: era_of_def)

text \<open>The date of day \<open>r\<close> of the year that starts on 1 March of year \<open>y\<close>.\<close>

definition march_date :: "int \<Rightarrow> nat \<Rightarrow> int \<times> nat \<times> nat" where
  "march_date y r = (let (m, d) = month_day r in (if m \<le> 2 then y + 1 else y, m, d))"

text \<open>The months from March on: first day of the year, length, number.\<close>

definition march_months :: "(nat \<times> nat \<times> nat) list" where
  "march_months = [(0, 31, 3), (31, 30, 4), (61, 31, 5), (92, 30, 6), (122, 31, 7), (153, 31, 8),
     (184, 30, 9), (214, 31, 10), (245, 30, 11), (275, 31, 12), (306, 31, 1), (337, 29, 2)]"

lemma march_month_exists:
  assumes "r < 366"
  shows "\<exists>(first, len, m) \<in> set march_months. first \<le> r \<and> r < first + len"
  using assms unfolding march_months_def by simp linarith

lemma march_month:
  assumes "r < 366"
  obtains first len m j where "(first, len, m) \<in> set march_months" "r = first + j" "j < len"
  using march_month_exists [OF assms] by (auto dest!: le_Suc_ex)

lemma month_day_in:
  "(first, len, m) \<in> set march_months \<Longrightarrow> j < len \<Longrightarrow> month_day (first + j) = (m, j + 1)"
  by (auto simp: march_months_def month_day_table)

lemma month_day_after:
  "(first, len, m) \<in> set march_months \<Longrightarrow> m \<noteq> 2
    \<Longrightarrow> month_day (first + len) = (if m < 12 then m + 1 else 1, 1)"
  by (auto simp: march_months_def month_day_table)

lemma march_month_length:
  "(first, len, m) \<in> set march_months \<Longrightarrow> m \<noteq> 2 \<Longrightarrow> month_length y m = len"
  "(first, len, 2) \<in> set march_months \<Longrightarrow> first = 337 \<and> len = 29"
  "(first, len, m) \<in> set march_months \<Longrightarrow> 0 < m \<and> m \<le> 12"
  by (auto simp: march_months_def month_length_def)

lemma march_date_next:
  assumes "r < 365" and leap: "r = 364 \<Longrightarrow> leap_year (y + 1)"
  shows "next_date (march_date y r) = march_date y (r + 1)"
proof -
  from assms(1) have "r < 366" by simp
  then obtain first len m j where m: "(first, len, m) \<in> set march_months" "r = first + j" "j < len"
    by (rule march_month)
  have md: "month_day r = (m, j + 1)" using month_day_in [OF m(1,3)] m(2) by simp
  show ?thesis
  proof (cases "m = 2")
    case True
    then have "first = 337 \<and> len = 29" using m(1) march_month_length(2) by blast
    with m assms have "j + 1 < len" "first = 337" "len = 29" by auto
    moreover have "leap_year (y + 1) \<or> j < 27"
      using calculation leap m(2) by (cases "j = 27") simp_all
    ultimately show ?thesis
      using month_day_in [OF m(1), of "j + 1"] m(2) md True
      by (auto simp: march_date_def month_length_def)
  next
    case False
    note len = march_month_length(1) [OF m(1) False]
    show ?thesis
    proof (cases "j + 1 < len")
      case True
      then show ?thesis
        using month_day_in [OF m(1) True] m(2) md len by (simp add: march_date_def)
    next
      case 2: False
      then have "r + 1 = first + len" using m by simp
      then have "month_day (r + 1) = (if m < 12 then m + 1 else 1, 1)"
        using month_day_after [OF m(1) False] by simp
      with 2 md len False march_month_length(3) [OF m(1)] show ?thesis
        by (auto simp: march_date_def)
    qed
  qed
qed

lemma march_date_year_end:
  assumes "r = (if leap_year (y + 1) then 365 else 364)"
  shows "next_date (march_date y r) = march_date (y + 1) 0"
  using assms by (cases "leap_year (y + 1)") (simp_all add: march_date_def month_day_table month_length_def)

definition day_of_era :: "int \<Rightarrow> nat \<Rightarrow> nat \<Rightarrow> nat \<Rightarrow> nat \<Rightarrow> int" where
  "day_of_era e c q s r = 146097 * e + int (era_day c q s r) - 719468"

definition year_in_era :: "int \<Rightarrow> nat \<Rightarrow> nat \<Rightarrow> nat \<Rightarrow> int" where
  "year_in_era e c q s = 400 * e + int (100 * c + 4 * q + s)"

lemma day_of_era_exists:
  "\<exists>e c q s r. n = day_of_era e c q s r \<and> era_date_ok c q s r"
proof -
  define z where "z = n + 719468"
  have "nat (z mod 146097) < 146097" by (simp add: nat_less_iff)
  then obtain c q s r where "nat (z mod 146097) = era_day c q s r" "era_date_ok c q s r"
    using era_date_exists by blast
  then have "n = day_of_era (z div 146097) c q s r"
    unfolding day_of_era_def z_def by (metis (no_types, opaque_lifting) add_diff_cancel int_nat_eq
        mult_div_mod_eq pos_mod_sign zero_less_numeral)
  with \<open>era_date_ok c q s r\<close> show ?thesis by blast
qed

lemma era_day_less: "era_date_ok c q s r \<Longrightarrow> era_day c q s r < 146097"
  by (auto simp: era_date_ok_def era_day_def)

lemma leap_year_in_era:
  assumes "c < 4" "q < 25" "s < 4"
  shows "leap_year (year_in_era e c q s + 1) \<longleftrightarrow> s = 3 \<and> (q < 24 \<or> c = 3)"
proof -
  let ?y = "year_in_era e c q s + 1"
  have "?y = int (s + 1) + 4 * (100 * e + 25 * int c + int q)"
    and "?y = int (4 * q + s + 1) + 100 * (4 * e + int c)"
    and "?y = int (100 * c + 4 * q + s + 1) + 400 * e"
    by (simp_all add: year_in_era_def)
  then have "?y mod 4 = int (s + 1) mod 4" "?y mod 100 = int (4 * q + s + 1) mod 100"
    "?y mod 400 = int (100 * c + 4 * q + s + 1) mod 400"
    by (metis mod_mult_self2)+
  moreover have "int (s + 1) mod 4 = 0 \<longleftrightarrow> s = 3"
    using assms by (cases "s = 3") simp_all
  moreover have "int (4 * q + s + 1) mod 100 = 0 \<longleftrightarrow> s = 3 \<and> q = 24"
  proof -
    have "int (4 * q + s + 1) mod 100 = 0 \<longleftrightarrow> 4 * q + s + 1 = 100"
      using assms by (cases "4 * q + s + 1 = 100") auto
    also have "\<dots> \<longleftrightarrow> s = 3 \<and> q = 24" using assms by presburger
    finally show ?thesis .
  qed
  moreover have "int (100 * c + 4 * q + s + 1) mod 400 = 0 \<longleftrightarrow> s = 3 \<and> q = 24 \<and> c = 3"
  proof -
    have "int (100 * c + 4 * q + s + 1) mod 400 = 0 \<longleftrightarrow> 100 * c + 4 * q + s + 1 = 400"
      using assms by (cases "100 * c + 4 * q + s + 1 = 400") auto
    also have "\<dots> \<longleftrightarrow> s = 3 \<and> q = 24 \<and> c = 3" using assms by presburger
    finally show ?thesis .
  qed
  ultimately show ?thesis
    using assms unfolding leap_year_def by auto
qed

subsection \<open>The next day\<close>

lemma ymd_of_day:
  assumes "era_date_ok c q s r"
  shows "ymd_from_epoch (86400 * day_of_era e c q s r)
    = (let (y, m, d) = march_date (year_in_era e c q s) r in (wrap_i32 y, m, d))"
proof -
  let ?doe = "era_day c q s r"
  have less: "int ?doe < 146097" using era_day_less [OF assms] by simp
  define z where "z = day_of_era e c q s r + 719468"
  have z: "z = 146097 * e + int ?doe" by (simp add: z_def day_of_era_def)
  have days: "tdiv (86400 * day_of_era e c q s r) 86400 = day_of_era e c q s r"
    by (simp add: tdiv_def abs_mult sgn_mult mult_sgn_abs)
  have era: "era_of z = e" unfolding era_of_div z using less by simp
  have doe: "as_u64 (z - e * 146097) = ?doe"
    using less by (simp add: z as_u64_nonneg)
  have yoe: "year_of_era ?doe = 100 * c + 4 * q + s" by (rule year_of_era_day [OF assms])
  have doy: "?doe - days_before_year (100 * c + 4 * q + s) = r"
    unfolding days_before_year_era [OF assms] by (simp add: era_day_def)
  show ?thesis
    unfolding ymd_from_epoch_def days z_def [symmetric] Let_def era doe yoe doy
    by (simp add: march_date_def year_in_era_def add.commute mult.commute split: prod.split)
qed

lemma wrap_i32_id: "- (2 ^ 31) \<le> y \<Longrightarrow> y < 2 ^ 31 \<Longrightarrow> wrap_i32 y = y"
  by (simp add: wrap_i32_def)

lemma next_date_fst: "fst (next_date (y, m, d)) \<in> {y, y + 1}"
  by simp

definition small_day :: "int \<Rightarrow> bool" where
  "small_day n \<longleftrightarrow> \<bar>n\<bar> \<le> 700000000000"

lemma small_day_year:
  assumes "small_day (day_of_era e c q s r)" "era_date_ok c q s r"
  shows "\<bar>year_in_era e c q s\<bar> + 2 < 2 ^ 31"
proof -
  have "int (era_day c q s r) < 146097" using era_day_less [OF assms(2)] by simp
  with assms(1) have "\<bar>e\<bar> \<le> 4800000" by (simp add: small_day_def day_of_era_def)
  moreover have "int (100 * c + 4 * q + s) < 400" using assms(2) by (auto simp: era_date_ok_def)
  ultimately show ?thesis unfolding year_in_era_def by simp
qed

lemma march_date_year: "fst (march_date y r) \<in> {y, y + 1}"
  by (auto simp: march_date_def split: prod.split)

lemma ymd_of_small_day:
  assumes "era_date_ok c q s r" "small_day (day_of_era e c q s r)"
  shows "ymd_from_epoch (86400 * day_of_era e c q s r) = march_date (year_in_era e c q s) r"
proof -
  have "- (2 ^ 31) \<le> fst (march_date (year_in_era e c q s) r)"
    "fst (march_date (year_in_era e c q s) r) < 2 ^ 31"
    using march_date_year [of "year_in_era e c q s" r] small_day_year [OF assms(2,1)] by auto
  then show ?thesis unfolding ymd_of_day [OF assms(1)] by (auto simp: wrap_i32_id split: prod.split)
qed

lemma day_of_era_next:
  assumes "era_date_ok c q s r"
  obtains (same) "era_date_ok c q s (r + 1)" "r < 365" "r = 364 \<Longrightarrow> leap_year (year_in_era e c q s + 1)"
      "day_of_era e c q s r + 1 = day_of_era e c q s (r + 1)"
  | (following) e' c' q' s' where "era_date_ok c' q' s' 0"
      "year_in_era e' c' q' s' = year_in_era e c q s + 1"
      "day_of_era e c q s r + 1 = day_of_era e' c' q' s' 0"
      "r = (if leap_year (year_in_era e c q s + 1) then 365 else 364)"
proof -
  have b: "c < 4" "q < 25" "s < 4" using assms by (auto simp: era_date_ok_def)
  note leap = leap_year_in_era [OF b, of e]
  define last where "last = (if leap_year (year_in_era e c q s + 1) then 365 else 364 :: nat)"
  have "r \<le> last" using assms unfolding last_def leap era_date_ok_def by auto
  show thesis
  proof (cases "r = last")
    case False
    with \<open>r \<le> last\<close> have "r + 1 \<le> last" by simp
    then show ?thesis
      using assms b by (intro same) (auto simp: era_date_ok_def last_def leap day_of_era_def era_day_def split: if_splits)
  next
    case True
    note r = True [unfolded last_def leap]
    note nxt = following [OF _ _ _ True [unfolded last_def]]
    show ?thesis
    proof (cases "s < 3")
      case True
      with b r show ?thesis
        by (intro nxt [of c q "s + 1" e])
          (simp_all add: era_date_ok_def year_in_era_def day_of_era_def era_day_def)
    next
      case 3: False
      then have s: "s = 3" using b by simp
      show ?thesis
      proof (cases "q < 24")
        case True
        with b r s show ?thesis
          by (intro nxt [of c "q + 1" 0 e])
            (simp_all add: era_date_ok_def year_in_era_def day_of_era_def era_day_def)
      next
        case False
        then have q: "q = 24" using b by simp
        show ?thesis
        proof (cases "c < 3")
          case True
          with b r s q show ?thesis
            by (intro nxt [of "c + 1" 0 0 e])
              (simp_all add: era_date_ok_def year_in_era_def day_of_era_def era_day_def)
        next
          case False
          then have "c = 3" using b by simp
          with r s q show ?thesis
            by (intro nxt [of 0 0 0 "e + 1"])
              (simp_all add: era_date_ok_def year_in_era_def day_of_era_def era_day_def)
        qed
      qed
    qed
  qed
qed

lemma ymd_next:
  assumes "small_day n" "small_day (n + 1)"
  shows "ymd_from_epoch (86400 * (n + 1)) = next_date (ymd_from_epoch (86400 * n))"
proof -
  obtain e c q s r where n: "n = day_of_era e c q s r" and ok: "era_date_ok c q s r"
    using day_of_era_exists by blast
  note this_day = ymd_of_small_day [OF ok assms(1) [unfolded n]]
  from ok show ?thesis
  proof (rule day_of_era_next [where e = e])
    assume s: "era_date_ok c q s (r + 1)" "r < 365" "r = 364 \<Longrightarrow> leap_year (year_in_era e c q s + 1)"
      "day_of_era e c q s r + 1 = day_of_era e c q s (r + 1)"
    with assms(2) show ?thesis
      unfolding n by (simp add: ymd_of_small_day this_day march_date_next)
  next
    fix e' c' q' s'
    assume nxt: "era_date_ok c' q' s' 0" "year_in_era e' c' q' s' = year_in_era e c q s + 1"
      "day_of_era e c q s r + 1 = day_of_era e' c' q' s' 0"
      and r: "r = (if leap_year (year_in_era e c q s + 1) then 365 else 364)"
    from assms(2) nxt show ?thesis
      unfolding n by (simp add: ymd_of_small_day this_day march_date_year_end [OF r])
  qed
qed

lemma ymd_epoch: "ymd_from_epoch 0 = (1970, 1, 1)"
proof -
  have "day_of_era 4 3 17 1 306 = 0" "era_date_ok 3 17 1 306"
    by (simp_all add: day_of_era_def era_day_def era_date_ok_def)
  then have "ymd_from_epoch 0 = march_date (year_in_era 4 3 17 1) 306"
    using ymd_of_small_day [of 3 17 1 306 4] by (simp add: small_day_def)
  then show ?thesis by (simp add: march_date_def year_in_era_def month_day_table)
qed

end
