(* ===== verification/Event_Channel.thy ===== *)
theory Event_Channel
  imports Database
begin

section \<open>The event channel and its flusher\<close>

text \<open>
  \<open>src/src/events.rs\<close>: the bounded channel between the request handlers and the flusher
  task, the flusher's loop as a step relation, and the transaction that writes a batch to
  \<open>events_raw\<close>. The \<open>tokio\<close> channel is modelled by what its documentation says of
  \<open>try_send\<close> and \<open>recv_many\<close>; how many queued events one \<open>recv_many\<close> takes is left open
  up to its limit.
\<close>

subsection \<open>Events\<close>

datatype event_kind = Decision | Impression | Click

fun kind_code :: "event_kind \<Rightarrow> int" where
  "kind_code Decision = 0"
| "kind_code Impression = 1"
| "kind_code Click = 2"

record event =
  ev_ts_ms :: int
  ev_org_id :: string
  ev_project_id :: string
  ev_kind :: event_kind
  ev_placement_id :: "string option"
  ev_site_id :: "int option"
  ev_zone_id :: "int option"
  ev_ad_id :: "int option"
  ev_creative_id :: "int option"
  ev_flight_id :: "int option"
  ev_campaign_id :: "int option"
  ev_advertiser_id :: "int option"
  ev_url :: "string option"
  ev_referrer_host :: "string option"
  ev_user_agent_hash :: "bytes option"
  ev_signature_nonce :: "bytes option"
  ev_dedup_key :: "bytes option"
  ev_snapshot_version :: "int option"

definition DEFAULT_CAPACITY :: nat where "DEFAULT_CAPACITY = 8192"
definition DRAIN_BATCH :: nat where "DRAIN_BATCH = 5000"

subsection \<open>The channel\<close>

record channel =
  q_items :: "event list"
  q_capacity :: nat
  q_receiver_alive :: bool

datatype send_error = ChannelSaturated | FlusherDown

definition try_send :: "channel \<Rightarrow> event \<Rightarrow> send_error + channel" where
  "try_send c e =
     (if \<not> q_receiver_alive c then Inl FlusherDown
      else if q_capacity c \<le> length (q_items c) then Inl ChannelSaturated
      else Inr (c\<lparr>q_items := q_items c @ [e]\<rparr>))"

text \<open>
  The interface the senders use: a bounded first-in first-out buffer. A rejected send
  leaves it unchanged (it returns no new buffer), an accepted one appends.
\<close>

locale bounded_fifo =
  fixes items :: "'c \<Rightarrow> 'e list"
    and capacity :: "'c \<Rightarrow> nat"
    and send :: "'c \<Rightarrow> 'e \<Rightarrow> 'x + 'c"
  assumes send_items: "send c e = Inr c' \<Longrightarrow> items c' = items c @ [e]"
    and send_capacity: "send c e = Inr c' \<Longrightarrow> capacity c' = capacity c"
    and send_room: "send c e = Inr c' \<Longrightarrow> length (items c) < capacity c"
begin

fun send_all :: "'c \<Rightarrow> 'e list \<Rightarrow> 'x option \<times> 'c" where
  "send_all c [] = (None, c)"
| "send_all c (e # es) =
     (case send c e of Inl x \<Rightarrow> (Some x, c) | Inr c' \<Rightarrow> send_all c' es)"

lemma send_all_prefix:
  "send_all c es = (r, c') \<Longrightarrow>
     \<exists>n \<le> length es. items c' = items c @ take n es \<and> capacity c' = capacity c
       \<and> (r = None \<longleftrightarrow> n = length es)"
proof (induction es arbitrary: c)
  case (Cons e es)
  show ?case
  proof (cases "send c e")
    case (Inl x)
    with Cons.prems show ?thesis by (intro exI [of _ 0]) auto
  next
    case (Inr c1)
    with Cons obtain n where "n \<le> length es" "items c' = items c1 @ take n es"
      "capacity c' = capacity c1" "r = None \<longleftrightarrow> n = length es" by auto
    with Inr show ?thesis
      by (intro exI [of _ "Suc n"]) (simp add: send_items send_capacity)
  qed
qed simp

lemma send_all_bounded:
  "send_all c es = (r, c') \<Longrightarrow> length (items c) \<le> capacity c \<Longrightarrow> length (items c') \<le> capacity c'"
proof (induction es arbitrary: c)
  case (Cons e es)
  show ?case
  proof (cases "send c e")
    case (Inr c1)
    from Inr have "length (items c1) \<le> capacity c1"
      using send_items [OF Inr] send_capacity [OF Inr] send_room [OF Inr] by simp
    with Cons Inr show ?thesis by simp
  qed (use Cons in auto)
qed simp

end

interpretation events: bounded_fifo q_items q_capacity try_send
  by unfold_locales (auto simp: try_send_def split: if_splits)

subsection \<open>Writing a batch\<close>

record event_row =
  er_event :: event
  er_is_duplicate :: bool

text \<open>The \<open>UNIQUE (project_id, kind, dedup_key, ts)\<close> key; a NULL \<open>dedup_key\<close> never conflicts.\<close>

definition event_key :: "event \<Rightarrow> (string \<times> event_kind \<times> bytes \<times> int) option" where
  "event_key e = map_option (\<lambda>k. (ev_project_id e, ev_kind e, k, ev_ts_ms e)) (ev_dedup_key e)"

definition key_conflict :: "event_row \<Rightarrow> event \<Rightarrow> bool" where
  "key_conflict r e \<longleftrightarrow> event_key e \<noteq> None \<and> event_key (er_event r) = event_key e"

text \<open>
  \<open>INSERT \<dots> ON CONFLICT DO UPDATE SET is_duplicate = true\<close>. The setting \<open>knievel.org_id\<close> is
  the event's own org, so the policy lets the insert pass and refuses the update of a row
  of another org. \<open>has_partition\<close> says whether a partition holds the timestamp.
\<close>

definition insert_event ::
  "(int \<Rightarrow> bool) \<Rightarrow> event_row list \<Rightarrow> event \<Rightarrow> event_row list option" where
  "insert_event has_partition rows e =
     (if \<not> has_partition (ev_ts_ms e) then None
      else if list_ex (\<lambda>r. key_conflict r e) rows then
        if list_ex (\<lambda>r. key_conflict r e \<and> ev_org_id (er_event r) \<noteq> ev_org_id e) rows then None
        else Some (map (\<lambda>r. if key_conflict r e then r\<lparr>er_is_duplicate := True\<rparr> else r) rows)
      else Some (rows @ [\<lparr>er_event = e, er_is_duplicate = False\<rparr>]))"

record flush_env =
  fe_fault :: "stmt \<Rightarrow> bool"
  fe_partition :: "int \<Rightarrow> bool"

fun flush_rows :: "flush_env \<Rightarrow> nat \<Rightarrow> event_row list \<Rightarrow> event list \<Rightarrow> event_row list option" where
  "flush_rows fe i rows [] = Some rows"
| "flush_rows fe i rows (e # es) =
     (if fe_fault fe (StmtAt ''set org_id'' i) \<or> fe_fault fe (StmtAt ''insert'' i) then None
      else (case insert_event (fe_partition fe) rows e of
          None \<Rightarrow> None
        | Some rows' \<Rightarrow> flush_rows fe (Suc i) rows' es))"

text \<open>\<open>None\<close> is \<open>Err\<close>: the transaction is dropped and the table keeps its rows.\<close>

definition flush_batch :: "flush_env \<Rightarrow> event_row list \<Rightarrow> event list \<Rightarrow> event_row list option" where
  "flush_batch fe rows batch =
     (if batch = [] then Some rows
      else if fe_fault fe Begin then None
      else (case flush_rows fe 0 rows batch of
          None \<Rightarrow> None
        | Some rows' \<Rightarrow> if fe_fault fe Commit then None else Some rows'))"

subsection \<open>What a batch leaves of a key\<close>

type_synonym dedup_slot = "string \<times> event_kind \<times> bytes \<times> int"

definition slot_rows :: "dedup_slot \<Rightarrow> event_row list \<Rightarrow> event_row list" where
  "slot_rows k rows = filter (\<lambda>r. event_key (er_event r) = Some k) rows"

definition countable :: "dedup_slot \<Rightarrow> event_row list \<Rightarrow> nat" where
  "countable k rows = length (filter (\<lambda>r. \<not> er_is_duplicate r) (slot_rows k rows))"

definition hits :: "dedup_slot \<Rightarrow> event list \<Rightarrow> nat" where
  "hits k es = length (filter (\<lambda>e. event_key e = Some k) es)"

lemma hits_simps [simp]:
  "hits k [] = 0"
  "hits k (e # es) = (if event_key e = Some k then Suc (hits k es) else hits k es)"
  by (simp_all add: hits_def)

lemma slot_rows_append [simp]: "slot_rows k (xs @ ys) = slot_rows k xs @ slot_rows k ys"
  by (simp add: slot_rows_def)

lemma insert_event_other:
  assumes "insert_event hp rows e = Some rows'" and "event_key e \<noteq> Some k"
  shows "slot_rows k rows' = slot_rows k rows"
proof -
  have *: "filter (\<lambda>r. event_key (er_event r) = Some k)
      (map (\<lambda>r. if key_conflict r e then r\<lparr>er_is_duplicate := True\<rparr> else r) xs)
    = filter (\<lambda>r. event_key (er_event r) = Some k) xs" for xs
    using assms(2) by (induction xs) (auto simp: key_conflict_def)
  show ?thesis
    using assms by (auto simp: insert_event_def slot_rows_def * split: if_splits)
qed

lemma insert_event_first:
  assumes "insert_event hp rows e = Some rows'" and "event_key e = Some k" and "slot_rows k rows = []"
  shows "slot_rows k rows' = [\<lparr>er_event = e, er_is_duplicate = False\<rparr>]"
proof -
  have "\<not> list_ex (\<lambda>r. key_conflict r e) rows"
    using assms(2,3) by (auto simp: list_ex_iff key_conflict_def slot_rows_def filter_empty_conv)
  with assms show ?thesis by (auto simp: insert_event_def slot_rows_def split: if_splits)
qed

lemma insert_event_again:
  assumes "insert_event hp rows e = Some rows'" and "event_key e = Some k" and "slot_rows k rows \<noteq> []"
  shows "slot_rows k rows' = map (\<lambda>r. r\<lparr>er_is_duplicate := True\<rparr>) (slot_rows k rows)"
proof -
  have "list_ex (\<lambda>r. key_conflict r e) rows"
    using assms(2,3) by (auto simp: list_ex_iff key_conflict_def slot_rows_def filter_empty_conv)
  moreover have "filter (\<lambda>r. event_key (er_event r) = Some k)
      (map (\<lambda>r. if key_conflict r e then r\<lparr>er_is_duplicate := True\<rparr> else r) xs)
    = map (\<lambda>r. r\<lparr>er_is_duplicate := True\<rparr>) (filter (\<lambda>r. event_key (er_event r) = Some k) xs)" for xs
    using assms(2) by (induction xs) (auto simp: key_conflict_def)
  ultimately show ?thesis
    using assms(1) by (auto simp: insert_event_def slot_rows_def split: if_splits)
qed

lemma flush_rows_slot:
  assumes "flush_rows fe i rows es = Some rows'"
  shows "length (slot_rows k rows') = (if slot_rows k rows = [] \<and> 0 < hits k es then 1 else length (slot_rows k rows))
    \<and> countable k rows' =
        (if hits k es = 0 then countable k rows
         else if slot_rows k rows = [] \<and> hits k es = 1 then 1 else 0)"
  using assms
proof (induction es arbitrary: i rows)
  case (Cons e es)
  then obtain r1 where ins: "insert_event (fe_partition fe) rows e = Some r1"
    and rest: "flush_rows fe (Suc i) r1 es = Some rows'"
    by (auto split: if_splits option.splits)
  note IH = Cons.IH [OF rest]
  consider "event_key e \<noteq> Some k" | "event_key e = Some k" "slot_rows k rows = []"
    | "event_key e = Some k" "slot_rows k rows \<noteq> []" by blast
  then show ?case
  proof cases
    case 1
    with IH insert_event_other [OF ins] show ?thesis by (simp add: countable_def)
  next
    case 2
    with IH insert_event_first [OF ins] show ?thesis by (auto simp: countable_def)
  next
    case 3
    with IH insert_event_again [OF ins] show ?thesis by (auto simp: countable_def)
  qed
qed simp

lemma flush_batch_slot:
  assumes "flush_batch fe rows es = Some rows'"
  shows "length (slot_rows k rows') = (if slot_rows k rows = [] \<and> 0 < hits k es then 1 else length (slot_rows k rows))
    \<and> countable k rows' =
        (if hits k es = 0 then countable k rows
         else if slot_rows k rows = [] \<and> hits k es = 1 then 1 else 0)"
proof (cases "es = []")
  case False
  with assms show ?thesis
    by (intro flush_rows_slot [of fe 0 rows])
       (auto simp: flush_batch_def split: if_splits option.splits)
qed (use assms in \<open>simp add: flush_batch_def\<close>)

subsection \<open>The flusher task\<close>

text \<open>
  The channel, whether a sender is left, the batch being collected, the table and whether
  the loop still runs. \<open>fs_accepted\<close> and \<open>fs_log\<close> record, for the proofs, the events the
  channel accepted and the batches the loop handed to \<open>flush_batch\<close> with their outcome.
\<close>

record flusher =
  fs_channel :: channel
  fs_senders_alive :: bool
  fs_batch :: "event list"
  fs_table :: "event_row list"
  fs_running :: bool
  fs_accepted :: "event list"
  fs_log :: "(event list \<times> bool) list"

definition spawn_flusher :: "nat \<Rightarrow> flusher" where
  "spawn_flusher capacity =
     \<lparr>fs_channel = \<lparr>q_items = [], q_capacity = capacity, q_receiver_alive = True\<rparr>,
      fs_senders_alive = True, fs_batch = [], fs_table = [], fs_running = True,
      fs_accepted = [], fs_log = []\<rparr>"

definition flush_and_clear :: "flush_env \<Rightarrow> flusher \<Rightarrow> flusher" where
  "flush_and_clear fe s =
     (if fs_batch s = [] then s
      else (case flush_batch fe (fs_table s) (fs_batch s) of
          None \<Rightarrow> s\<lparr>fs_batch := [], fs_log := fs_log s @ [(fs_batch s, False)]\<rparr>
        | Some rows \<Rightarrow>
            s\<lparr>fs_batch := [], fs_table := rows, fs_log := fs_log s @ [(fs_batch s, True)]\<rparr>))"

definition want :: "flusher \<Rightarrow> nat" where
  "want s = DRAIN_BATCH - length (fs_batch s)"

text \<open>
  \<open>recv_many\<close> returns 0 at once for a limit of 0, and when the channel is empty with no
  sender left; with an empty channel and a sender it waits; otherwise it takes between one
  event and the limit.
\<close>

definition recv_zero :: "flusher \<Rightarrow> bool" where
  "recv_zero s \<longleftrightarrow> want s = 0 \<or> q_items (fs_channel s) = [] \<and> \<not> fs_senders_alive s"

definition on_recv :: "flush_env \<Rightarrow> nat \<Rightarrow> flusher \<Rightarrow> flusher" where
  "on_recv fe n s =
     (let c = fs_channel s;
          s' = s\<lparr>fs_channel := c\<lparr>q_items := drop n (q_items c)\<rparr>,
                 fs_batch := fs_batch s @ take n (q_items c)\<rparr>
      in if DRAIN_BATCH \<le> length (fs_batch s') then flush_and_clear fe s' else s')"

definition on_closed :: "flush_env \<Rightarrow> flusher \<Rightarrow> flusher" where
  "on_closed fe s =
     (let s' = flush_and_clear fe s
      in s'\<lparr>fs_running := False,
            fs_channel := (fs_channel s')\<lparr>q_items := [], q_receiver_alive := False\<rparr>\<rparr>)"

definition send_step :: "event \<Rightarrow> flusher \<Rightarrow> send_error + flusher" where
  "send_step e s =
     map_sum (\<lambda>x. x) (\<lambda>c. s\<lparr>fs_channel := c, fs_accepted := fs_accepted s @ [e]\<rparr>)
       (try_send (fs_channel s) e)"

text \<open>
  The \<open>select!\<close> is biased: the tick arm runs only when \<open>recv_many\<close> has to wait.
\<close>

inductive flusher_step :: "flusher \<Rightarrow> flusher \<Rightarrow> bool" where
  send: "fs_senders_alive s \<Longrightarrow> send_step e s = Inr s' \<Longrightarrow> flusher_step s s'"
| drop_senders: "flusher_step s (s\<lparr>fs_senders_alive := False\<rparr>)"
| recv: "fs_running s \<Longrightarrow> 0 < n \<Longrightarrow> n \<le> want s \<Longrightarrow> n \<le> length (q_items (fs_channel s)) \<Longrightarrow>
    flusher_step s (on_recv fe n s)"
| closed: "fs_running s \<Longrightarrow> recv_zero s \<Longrightarrow> flusher_step s (on_closed fe s)"
| tick: "fs_running s \<Longrightarrow> \<not> recv_zero s \<Longrightarrow> q_items (fs_channel s) = [] \<Longrightarrow>
    flusher_step s (flush_and_clear fe s)"

inductive flusher_run :: "nat \<Rightarrow> flusher \<Rightarrow> bool" for capacity where
  init: "flusher_run capacity (spawn_flusher capacity)"
| step: "flusher_run capacity s \<Longrightarrow> flusher_step s s' \<Longrightarrow> flusher_run capacity s'"

inductive_cases flusher_stepE: "flusher_step s s'"

text \<open>The events of the batches that were committed.\<close>

definition committed :: "(event list \<times> bool) list \<Rightarrow> event list" where
  "committed log = concat (map fst (filter snd log))"

text \<open>What a loop that has not been dropped keeps.\<close>

definition flusher_inv :: "nat \<Rightarrow> flusher \<Rightarrow> bool" where
  "flusher_inv capacity s \<longleftrightarrow>
     length (fs_batch s) < DRAIN_BATCH
     \<and> q_capacity (fs_channel s) = capacity
     \<and> length (q_items (fs_channel s)) \<le> capacity
     \<and> fs_accepted s = concat (map fst (fs_log s)) @ fs_batch s @ q_items (fs_channel s)
     \<and> fs_running s = q_receiver_alive (fs_channel s)
     \<and> (fs_running s \<or> fs_batch s = [] \<and> q_items (fs_channel s) = [] \<and> \<not> fs_senders_alive s)"

definition unkeyed :: "event list \<Rightarrow> event list" where
  "unkeyed es = filter (\<lambda>e. event_key e = None) es"

text \<open>What the table holds, in terms of the committed events.\<close>

definition table_inv :: "flusher \<Rightarrow> bool" where
  "table_inv s \<longleftrightarrow>
     unkeyed (map er_event (fs_table s)) = unkeyed (committed (fs_log s))
     \<and> (\<forall>k. length (slot_rows k (fs_table s)) = (if hits k (committed (fs_log s)) = 0 then 0 else 1)
          \<and> countable k (fs_table s) = (if hits k (committed (fs_log s)) = 1 then 1 else 0))"

lemma hits_append [simp]: "hits k (xs @ ys) = hits k xs + hits k ys"
  by (simp add: hits_def)

lemma committed_simps [simp]:
  "committed [] = []"
  "committed (log @ [(b, ok)]) = committed log @ (if ok then b else [])"
  by (simp_all add: committed_def)

lemma unkeyed_simps [simp]:
  "unkeyed [] = []" "unkeyed (xs @ ys) = unkeyed xs @ unkeyed ys"
  "unkeyed (e # es) = (if event_key e = None then e # unkeyed es else unkeyed es)"
  by (simp_all add: unkeyed_def)

lemma insert_event_unkeyed:
  assumes "insert_event hp rows e = Some rows'"
  shows "unkeyed (map er_event rows') = unkeyed (map er_event rows) @ unkeyed [e]"
proof -
  have *: "map er_event (map (\<lambda>r. if key_conflict r e then r\<lparr>er_is_duplicate := True\<rparr> else r) xs)
    = map er_event xs" for xs
    by (induction xs) auto
  show ?thesis
  proof (cases "list_ex (\<lambda>r. key_conflict r e) rows")
    case True
    then have "event_key e \<noteq> None" by (auto simp: list_ex_iff key_conflict_def)
    with assms True show ?thesis
      by (simp add: insert_event_def * del: map_map split: if_splits)
         (metis * append.right_neutral unkeyed_simps(1))
  qed (use assms in \<open>auto simp: insert_event_def split: if_splits\<close>)
qed

lemma flush_rows_unkeyed:
  "flush_rows fe i rows es = Some rows' \<Longrightarrow>
     unkeyed (map er_event rows') = unkeyed (map er_event rows) @ unkeyed es"
  by (induction es arbitrary: i rows)
     (auto simp: insert_event_unkeyed split: if_splits option.splits)

lemma flush_batch_unkeyed:
  "flush_batch fe rows es = Some rows' \<Longrightarrow>
     unkeyed (map er_event rows') = unkeyed (map er_event rows) @ unkeyed es"
  by (auto simp: flush_batch_def flush_rows_unkeyed split: if_splits option.splits)

lemma flush_and_clear_inv:
  assumes "flusher_inv c s"
  shows "flusher_inv c (flush_and_clear fe s) \<and> fs_batch (flush_and_clear fe s) = []
    \<and> fs_channel (flush_and_clear fe s) = fs_channel s
    \<and> fs_senders_alive (flush_and_clear fe s) = fs_senders_alive s
    \<and> fs_running (flush_and_clear fe s) = fs_running s"
  using assms by (auto simp: flush_and_clear_def flusher_inv_def DRAIN_BATCH_def split: option.splits)

lemma flush_and_clear_table:
  assumes "table_inv s"
  shows "table_inv (flush_and_clear fe s)"
proof (cases "flush_batch fe (fs_table s) (fs_batch s)")
  case (Some rows)
  have 1: "length (slot_rows k rows) = (if slot_rows k (fs_table s) = [] \<and> 0 < hits k (fs_batch s)
      then 1 else length (slot_rows k (fs_table s)))" for k
    using flush_batch_slot [OF Some] by blast
  have 2: "countable k rows = (if hits k (fs_batch s) = 0 then countable k (fs_table s)
      else if slot_rows k (fs_table s) = [] \<and> hits k (fs_batch s) = 1 then 1 else 0)" for k
    using flush_batch_slot [OF Some] by blast
  have "unkeyed (map er_event rows) = unkeyed (committed (fs_log s @ [(fs_batch s, True)]))"
    using flush_batch_unkeyed [OF Some] assms by (simp add: table_inv_def)
  moreover have "slot_rows k (fs_table s) = [] \<longleftrightarrow> hits k (committed (fs_log s)) = 0" for k
    using assms unfolding table_inv_def by (metis length_0_conv zero_neq_one)
  ultimately show ?thesis
    using assms Some by (auto simp: flush_and_clear_def table_inv_def 1 2)
qed (use assms in \<open>auto simp: flush_and_clear_def table_inv_def\<close>)

lemma on_recv_inv:
  assumes "flusher_inv c s" and "fs_running s" and "0 < n" and "n \<le> want s"
    and "n \<le> length (q_items (fs_channel s))"
  shows "flusher_inv c (on_recv fe n s)"
  using assms
  by (auto simp: on_recv_def Let_def flusher_inv_def flush_and_clear_def want_def DRAIN_BATCH_def
           split: option.splits)

lemma on_recv_table:
  assumes "table_inv s"
  shows "table_inv (on_recv fe n s)"
  using assms by (auto simp: on_recv_def Let_def intro!: flush_and_clear_table) (simp_all add: table_inv_def)

lemma recv_zero_closed:
  assumes "flusher_inv c s"
  shows "recv_zero s \<longleftrightarrow> q_items (fs_channel s) = [] \<and> \<not> fs_senders_alive s"
  using assms by (auto simp: recv_zero_def want_def flusher_inv_def)

lemma on_closed_inv:
  assumes "flusher_inv c s" and "recv_zero s"
  shows "flusher_inv c (on_closed fe s)"
  using flush_and_clear_inv [OF assms(1), of fe] recv_zero_closed [OF assms(1)] assms(2)
  by (auto simp: on_closed_def Let_def flusher_inv_def)

lemma on_closed_table: "table_inv s \<Longrightarrow> table_inv (on_closed fe s)"
  using flush_and_clear_table [of s fe] by (simp add: on_closed_def Let_def table_inv_def)

lemma send_step_inv:
  assumes "flusher_inv c s" and "send_step e s = Inr s'" and "fs_senders_alive s"
  shows "flusher_inv c s' \<and> fs_table s' = fs_table s \<and> fs_log s' = fs_log s"
proof -
  from assms(2) obtain ch where ch: "try_send (fs_channel s) e = Inr ch"
    "s' = s\<lparr>fs_channel := ch, fs_accepted := fs_accepted s @ [e]\<rparr>"
    by (cases "try_send (fs_channel s) e") (auto simp: send_step_def)
  have "q_receiver_alive ch = q_receiver_alive (fs_channel s)"
    using ch(1) by (auto simp: try_send_def split: if_splits)
  with assms ch events.send_items [OF ch(1)] events.send_capacity [OF ch(1)] events.send_room [OF ch(1)]
  show ?thesis by (auto simp: flusher_inv_def)
qed

lemma flusher_step_inv:
  assumes "flusher_step s s'" and "flusher_inv c s" and "table_inv s"
  shows "flusher_inv c s' \<and> table_inv s'"
  using assms
proof (cases rule: flusher_step.cases)
  case (send e)
  then show ?thesis using send_step_inv [OF assms(2)] assms(3) by (simp add: table_inv_def)
next
  case drop_senders
  then show ?thesis using assms by (auto simp: flusher_inv_def table_inv_def)
next
  case recv
  then show ?thesis using on_recv_inv on_recv_table assms by blast
next
  case closed
  then show ?thesis using on_closed_inv on_closed_table assms by blast
next
  case tick
  then show ?thesis using flush_and_clear_inv flush_and_clear_table assms by blast
qed

lemma flusher_run_inv: "flusher_run c s \<Longrightarrow> flusher_inv c s \<and> table_inv s"
proof (induction rule: flusher_run.induct)
  case init
  then show ?case
    by (simp add: spawn_flusher_def flusher_inv_def table_inv_def DRAIN_BATCH_def slot_rows_def countable_def)
next
  case (step s s')
  then show ?case using flusher_step_inv by blast
qed

subsection \<open>Properties\<close>

text \<open>
  C16: however sends, drains, ticks, failures and shutdown interleave, every accepted event is
  in exactly one place: a batch handed to the database (committed or dropped as a whole), the
  batch being collected, or the queue, in the order of acceptance; the queue never exceeds
  its capacity, a full batch is never waiting, and the loop stops only after every sender
  has gone and nothing is left.
\<close>

theorem flusher_loses_no_event:
  assumes "flusher_run capacity s"
  shows "fs_accepted s = concat (map fst (fs_log s)) @ fs_batch s @ q_items (fs_channel s)
    \<and> length (q_items (fs_channel s)) \<le> capacity
    \<and> length (fs_batch s) < DRAIN_BATCH
    \<and> (fs_running s \<or> fs_batch s = [] \<and> q_items (fs_channel s) = [] \<and> \<not> fs_senders_alive s)"
  using flusher_run_inv [OF assms] by (auto simp: flusher_inv_def)

text \<open>
  C17: the table holds the committed events: those without a dedup key once each and in
  order, those sharing a (project, kind, key, timestamp) as one row, which is countable
  exactly when a single event carried the key.
\<close>

theorem table_is_committed_events:
  assumes "flusher_run capacity s"
  shows "filter (\<lambda>e. event_key e = None) (map er_event (fs_table s))
      = filter (\<lambda>e. event_key e = None) (committed (fs_log s))
    \<and> length (slot_rows k (fs_table s)) = (if hits k (committed (fs_log s)) = 0 then 0 else 1)
    \<and> countable k (fs_table s) = (if hits k (committed (fs_log s)) = 1 then 1 else 0)"
  using flusher_run_inv [OF assms] unfolding table_inv_def unkeyed_def by blast

definition sample_event :: "bytes option \<Rightarrow> event" where
  "sample_event key =
     \<lparr>ev_ts_ms = 5, ev_org_id = ''o'', ev_project_id = ''pj'', ev_kind = Click, ev_placement_id = None,
      ev_site_id = None, ev_zone_id = None, ev_ad_id = Some 8, ev_creative_id = None,
      ev_flight_id = None, ev_campaign_id = None, ev_advertiser_id = None, ev_url = None,
      ev_referrer_host = None, ev_user_agent_hash = None, ev_signature_nonce = None,
      ev_dedup_key = key, ev_snapshot_version = None\<rparr>"

definition healthy_flush :: flush_env where
  "healthy_flush = \<lparr>fe_fault = (\<lambda>s. False), fe_partition = (\<lambda>t. True)\<rparr>"

text \<open>The same click twice, drained and flushed by a tick.\<close>

definition sample_queued :: "flusher" where
  "sample_queued = (spawn_flusher 2)
     \<lparr>fs_channel := \<lparr>q_items = [sample_event (Some [1]), sample_event (Some [1])], q_capacity = 2,
                     q_receiver_alive = True\<rparr>,
      fs_accepted := [sample_event (Some [1]), sample_event (Some [1])]\<rparr>"

definition sample_flushed :: "flusher" where
  "sample_flushed = flush_and_clear healthy_flush (on_recv healthy_flush 2 sample_queued)"

lemma sample_queued_run: "flusher_run 2 sample_queued"
proof -
  let ?e = "sample_event (Some [1])"
  let ?s1 = "(spawn_flusher 2)
     \<lparr>fs_channel := \<lparr>q_items = [?e], q_capacity = 2, q_receiver_alive = True\<rparr>, fs_accepted := [?e]\<rparr>"
  have "flusher_step (spawn_flusher 2) ?s1"
    by (rule flusher_step.send [of _ ?e]) (simp_all add: spawn_flusher_def send_step_def try_send_def)
  moreover have "flusher_step ?s1 sample_queued"
    by (rule flusher_step.send [of _ ?e])
       (simp_all add: spawn_flusher_def send_step_def try_send_def sample_queued_def)
  ultimately show ?thesis by (meson flusher_run.intros)
qed

lemma sample_flushed_run: "flusher_run 2 sample_flushed"
proof -
  let ?s = "on_recv healthy_flush 2 sample_queued"
  have "flusher_step sample_queued ?s"
    by (rule flusher_step.recv) (simp_all add: sample_queued_def spawn_flusher_def want_def DRAIN_BATCH_def)
  moreover have "flusher_step ?s sample_flushed"
    unfolding sample_flushed_def
    by (rule flusher_step.tick)
       (simp_all add: sample_queued_def spawn_flusher_def want_def DRAIN_BATCH_def on_recv_def recv_zero_def Let_def)
  ultimately show ?thesis using sample_queued_run by (meson flusher_run.intros)
qed

theorem flusher_loses_no_event_witness:
  "fs_accepted sample_queued = [sample_event (Some [1]), sample_event (Some [1])]
   \<and> fs_accepted sample_queued
       = concat (map fst (fs_log sample_queued)) @ fs_batch sample_queued @ q_items (fs_channel sample_queued)"
  using flusher_loses_no_event [OF sample_queued_run] by (simp add: sample_queued_def)

theorem table_is_committed_events_witness:
  "length (fs_table sample_flushed) = 1 \<and> countable (''pj'', Click, [1], 5) (fs_table sample_flushed) = 0"
proof -
  have log: "fs_log sample_flushed = [([sample_event (Some [1]), sample_event (Some [1])], True)]"
    and tab: "length (fs_table sample_flushed) = 1"
    by (simp_all add: sample_flushed_def on_recv_def sample_queued_def spawn_flusher_def DRAIN_BATCH_def
        flush_and_clear_def flush_batch_def healthy_flush_def insert_event_def Let_def
        key_conflict_def event_key_def sample_event_def)
  have "hits (''pj'', Click, [1], 5) (committed (fs_log sample_flushed)) = 2"
    by (simp add: log committed_def event_key_def sample_event_def)
  with tab table_is_committed_events [OF sample_flushed_run, of "(''pj'', Click, [1], 5)"] show ?thesis
    by simp
qed

end
