(* ===== verification/Partition_Manager.thy ===== *)
theory Partition_Manager
  imports Civil_Calendar Event_Channel "HOL-Library.Multiset"
begin

section \<open>The partition manager\<close>

text \<open>
  \<open>src/src/partitions.rs\<close>: the name of a day's leaf of \<open>events_raw\<close> and the maintenance pass
  that creates the leaves of the next days and detaches the aged ones, over the partitioned
  table that migration 0010 creates with its seed leaf. The server may refuse a statement for
  reasons of its own (\<open>refuses\<close>); the refusals the statements provoke themselves (overlapping
  bounds, a missing table) are modelled.
\<close>

subsection \<open>Names of leaves\<close>

definition pad_zeros :: "nat \<Rightarrow> string \<Rightarrow> string" where
  "pad_zeros w s = replicate (w - length s) (CHR ''0'') @ s"

text \<open>\<open>format!("{y:0w}")\<close> puts the zeros after the sign and counts it in the width.\<close>

definition pad_int :: "nat \<Rightarrow> int \<Rightarrow> string" where
  "pad_int w i = (if i < 0 then CHR ''-'' # pad_zeros (w - 1) (show_nat (nat (- i)))
                  else pad_zeros w (show_nat (nat i)))"

definition leaf_prefix :: string where "leaf_prefix = ''events_raw_p''"

definition leaf_name :: "int \<Rightarrow> string" where
  "leaf_name day_start =
     (let (y, m, d) = ymd_from_epoch day_start
      in leaf_prefix @ pad_int 4 y @ ''_'' @ pad_zeros 2 (show_nat m) @ ''_'' @ pad_zeros 2 (show_nat d))"

text \<open>\<open>String\<close>'s order compares the bytes from the left; a proper prefix is smaller.\<close>

fun str_less :: "string \<Rightarrow> string \<Rightarrow> bool" where
  "str_less [] [] = False"
| "str_less [] (c # cs) = True"
| "str_less (c # cs) [] = False"
| "str_less (c # cs) (d # ds) =
     ((of_char c :: nat) < of_char d \<or> c = d \<and> str_less cs ds)"

subsection \<open>The partitioned table\<close>

record leaf =
  lf_name :: string
  lf_from :: int
  lf_to :: int
  lf_rows :: "event_row list"

record partitioned =
  leaves :: "leaf list"
  detached :: "leaf list"
  forced_rls :: "string list"

definition tables :: "partitioned \<Rightarrow> leaf list" where
  "tables db = leaves db @ detached db"

definition table_names :: "partitioned \<Rightarrow> string list" where
  "table_names db = map lf_name (tables db)"

definition in_leaf :: "leaf \<Rightarrow> int \<Rightarrow> bool" where
  "in_leaf l ts_ms \<longleftrightarrow> 1000 * lf_from l \<le> ts_ms \<and> ts_ms < 1000 * lf_to l"

text \<open>What \<open>insert_event\<close> asks of the table: does a leaf take the timestamp?\<close>

definition has_partition :: "partitioned \<Rightarrow> int \<Rightarrow> bool" where
  "has_partition db ts_ms \<longleftrightarrow> list_ex (\<lambda>l. in_leaf l ts_ms) (leaves db)"

definition overlaps :: "leaf \<Rightarrow> int \<Rightarrow> int \<Rightarrow> bool" where
  "overlaps l a b \<longleftrightarrow> lf_from l < b \<and> a < lf_to l"

datatype ddl =
    CreateLeaf string int int
  | AlterRls string
  | ListLeaves
  | DetachLeaf string

datatype ddl_error = Refused | WouldOverlap | NoSuchTable

type_synonym refusals = "ddl \<Rightarrow> bool"

definition create_leaf :: "refusals \<Rightarrow> partitioned \<Rightarrow> string \<Rightarrow> int \<Rightarrow> int \<Rightarrow> ddl_error + partitioned" where
  "create_leaf refuses db n a b =
     (if refuses (CreateLeaf n a b) then Inl Refused
      else if n \<in> set (table_names db) then Inr db
      else if list_ex (\<lambda>l. overlaps l a b) (leaves db) then Inl WouldOverlap
      else Inr (db\<lparr>leaves := leaves db @ [\<lparr>lf_name = n, lf_from = a, lf_to = b, lf_rows = []\<rparr>]\<rparr>))"

definition alter_rls :: "refusals \<Rightarrow> partitioned \<Rightarrow> string \<Rightarrow> ddl_error + partitioned" where
  "alter_rls refuses db n =
     (if refuses (AlterRls n) then Inl Refused
      else if n \<notin> set (table_names db) then Inl NoSuchTable
      else Inr (db\<lparr>forced_rls := List.insert n (forced_rls db)\<rparr>))"

definition detach_leaf :: "refusals \<Rightarrow> partitioned \<Rightarrow> string \<Rightarrow> ddl_error + partitioned" where
  "detach_leaf refuses db n =
     (if refuses (DetachLeaf n) then Inl Refused
      else if n \<notin> lf_name ` set (leaves db) then Inl NoSuchTable
      else Inr (db\<lparr>leaves := filter (\<lambda>l. lf_name l \<noteq> n) (leaves db),
                   detached := detached db @ filter (\<lambda>l. lf_name l = n) (leaves db)\<rparr>))"

text \<open>SQL's \<open>LIKE\<close>: a percent sign matches any string, an underscore any character.\<close>

fun sql_like :: "string \<Rightarrow> string \<Rightarrow> bool" where
  "sql_like [] s = (s = [])"
| "sql_like (p # ps) s =
     (if p = CHR ''%'' then sql_like ps s \<or> (case s of [] \<Rightarrow> False | c # cs \<Rightarrow> sql_like (p # ps) cs)
      else (case s of [] \<Rightarrow> False | c # cs \<Rightarrow> (p = CHR ''_'' \<or> p = c) \<and> sql_like ps cs))"

subsection \<open>The maintenance pass\<close>

definition PREMAKE_DAYS :: nat where "PREMAKE_DAYS = 4"
definition RETENTION_DAYS_DEFAULT :: int where "RETENTION_DAYS_DEFAULT = 30"

fun premake :: "refusals \<Rightarrow> partitioned \<Rightarrow> int \<Rightarrow> nat list \<Rightarrow> ddl_error option \<times> partitioned" where
  "premake refuses db today_start [] = (None, db)"
| "premake refuses db today_start (d # ds) =
     (let day_start = today_start + int d * 86400;
          day_end = day_start + 86400;
          n = leaf_name day_start
      in case create_leaf refuses db n day_start day_end of
           Inl e \<Rightarrow> (Some e, db)
         | Inr db1 \<Rightarrow>
             (case alter_rls refuses db1 n of
                Inl e \<Rightarrow> (Some e, db1)
              | Inr db2 \<Rightarrow> premake refuses db2 today_start ds))"

definition list_leaves :: "partitioned \<Rightarrow> string list" where
  "list_leaves db = filter (sql_like ''events_raw_p%'') (map lf_name (leaves db))"

fun sweep :: "refusals \<Rightarrow> string \<Rightarrow> partitioned \<Rightarrow> string list \<Rightarrow> partitioned" where
  "sweep refuses cutoff_leaf db [] = db"
| "sweep refuses cutoff_leaf db (n # ns) =
     (if str_less n cutoff_leaf \<and> take (length leaf_prefix) n = leaf_prefix then
        (case detach_leaf refuses db n of
           Inl _ \<Rightarrow> sweep refuses cutoff_leaf db ns
         | Inr db1 \<Rightarrow> sweep refuses cutoff_leaf db1 ns)
      else sweep refuses cutoff_leaf db ns)"

definition run_once :: "refusals \<Rightarrow> int \<Rightarrow> int \<Rightarrow> partitioned \<Rightarrow> ddl_error option \<times> partitioned" where
  "run_once refuses now_secs retention_days db =
     (let today_start = day_start_secs now_secs
      in case premake refuses db today_start [0..<PREMAKE_DAYS] of
           (Some e, db1) \<Rightarrow> (Some e, db1)
         | (None, db1) \<Rightarrow>
             (let cutoff = today_start - retention_days * 86400
              in if refuses ListLeaves then (Some Refused, db1)
                 else (None, sweep refuses (leaf_name cutoff) db1 (list_leaves db1))))"

text \<open>The hourly task: only the leader runs a pass; a pass that succeeds records a tick.\<close>

definition maintenance_tick :: "refusals \<Rightarrow> bool \<Rightarrow> int \<Rightarrow> int \<Rightarrow> partitioned \<Rightarrow> bool \<times> partitioned" where
  "maintenance_tick refuses is_leader now_secs retention_days db =
     (if \<not> is_leader then (False, db)
      else (case run_once refuses now_secs retention_days db of (err, db') \<Rightarrow> (err = None, db')))"

text \<open>The table after the migrations.\<close>

definition seed_leaf :: leaf where
  "seed_leaf = \<lparr>lf_name = ''events_raw_p2026'', lf_from = 1767225600, lf_to = 1798761600, lf_rows = []\<rparr>"

definition migrated :: partitioned where
  "migrated = \<lparr>leaves = [seed_leaf], detached = [], forced_rls = [''events_raw_p2026'']\<rparr>"

subsection \<open>The order of the names\<close>

fun dec :: "nat \<Rightarrow> nat \<Rightarrow> string" where
  "dec 0 n = []"
| "dec (Suc w) n = dec w (n div 10) @ [digit_char (n mod 10)]"

lemma length_dec [simp]: "length (dec w n) = w"
  by (induction w arbitrary: n) simp_all

lemma digit_char_0: "digit_char 0 = CHR ''0''"
  by code_simp

lemma dec_0: "dec w 0 = replicate w (CHR ''0'')"
  by (induction w) (simp_all add: digit_char_0 replicate_append_same)

lemma length_show_nat: "n < 10 ^ w \<Longrightarrow> 0 < w \<Longrightarrow> length (show_nat n) \<le> w"
proof (induction n arbitrary: w rule: show_nat.induct)
  case (1 n)
  show ?case
  proof (cases "n < 10")
    case False
    with 1 obtain v where w: "w = Suc v" by (cases w) auto
    with 1 False have "n div 10 < 10 ^ v" "0 < v" by (auto intro: ccontr simp: less_mult_imp_div_less)
    with 1 False w show ?thesis by (subst show_nat.simps) simp
  qed (use 1 in \<open>subst show_nat.simps; simp\<close>)
qed

lemma pad_zeros_dec: "n < 10 ^ w \<Longrightarrow> 0 < w \<Longrightarrow> pad_zeros w (show_nat n) = dec w n"
proof (induction n arbitrary: w rule: show_nat.induct)
  case (1 n)
  then obtain v where w: "w = Suc v" by (cases w) auto
  show ?case
  proof (cases "n < 10")
    case True
    then show ?thesis unfolding w by (subst show_nat.simps) (simp add: pad_zeros_def dec_0)
  next
    case False
    with 1 w have v: "n div 10 < 10 ^ v" "0 < v" by (auto intro: ccontr simp: less_mult_imp_div_less)
    with 1 False have "pad_zeros v (show_nat (n div 10)) = dec v (n div 10)" by blast
    with False w show ?thesis by (subst show_nat.simps) (simp add: pad_zeros_def)
  qed
qed

lemma str_less_irrefl [simp]: "\<not> str_less s s"
  by (induction s) simp_all

lemma str_less_append:
  "length a = length b \<Longrightarrow> str_less (a @ x) (b @ y) \<longleftrightarrow> str_less a b \<or> a = b \<and> str_less x y"
  by (induction a b rule: list_induct2) auto

lemma str_less_same [simp]: "str_less (a @ x) (a @ y) \<longleftrightarrow> str_less x y"
  by (induction a) simp_all

lemma str_less_digit:
  "m < 10 \<Longrightarrow> n < 10 \<Longrightarrow> str_less [digit_char m] [digit_char n] \<longleftrightarrow> m < n"
  by (simp add: of_char_digit_char)

lemma dec_inject: "m < 10 ^ w \<Longrightarrow> n < 10 ^ w \<Longrightarrow> dec w m = dec w n \<longleftrightarrow> m = n"
proof (induction w arbitrary: m n)
  case (Suc w)
  then have "m div 10 < 10 ^ w" "n div 10 < 10 ^ w" by (simp_all add: less_mult_imp_div_less)
  moreover have "digit_char (m mod 10) = digit_char (n mod 10) \<longleftrightarrow> m mod 10 = n mod 10"
    using str_less_digit [of "m mod 10" "n mod 10"] str_less_digit [of "n mod 10" "m mod 10"]
    by (metis linorder_cases mod_less_divisor str_less_irrefl zero_less_numeral)
  ultimately show ?case
    using Suc.IH by simp (metis div_mult_mod_eq)
qed simp

lemma str_less_dec: "m < 10 ^ w \<Longrightarrow> n < 10 ^ w \<Longrightarrow> str_less (dec w m) (dec w n) \<longleftrightarrow> m < n"
proof (induction w arbitrary: m n)
  case (Suc w)
  then have *: "m div 10 < 10 ^ w" "n div 10 < 10 ^ w" by (simp_all add: less_mult_imp_div_less)
  have "str_less (dec (Suc w) m) (dec (Suc w) n)
      \<longleftrightarrow> m div 10 < n div 10 \<or> m div 10 = n div 10 \<and> m mod 10 < n mod 10"
    using * by (simp add: str_less_append Suc.IH dec_inject str_less_digit del: str_less.simps)
  also have "\<dots> \<longleftrightarrow> 10 * (m div 10) + m mod 10 < 10 * (n div 10) + n mod 10"
    using mod_less_divisor [of 10 m] mod_less_divisor [of 10 n] by linarith
  also have "\<dots> \<longleftrightarrow> m < n" by simp
  finally show ?case .
qed simp

fun date_less :: "int \<times> nat \<times> nat \<Rightarrow> int \<times> nat \<times> nat \<Rightarrow> bool" where
  "date_less (y, m, d) (y', m', d') \<longleftrightarrow> y < y' \<or> y = y' \<and> (m < m' \<or> m = m' \<and> d < d')"

lemma date_less_trans: "date_less a b \<Longrightarrow> date_less b c \<Longrightarrow> date_less a c"
  by (cases a; cases b; cases c) auto

lemma date_less_next: "date_less a (next_date a)"
  by (cases a) auto

fun four_digit_date :: "int \<times> nat \<times> nat \<Rightarrow> bool" where
  "four_digit_date (y, m, d) \<longleftrightarrow> 0 \<le> y \<and> y < 10000 \<and> m < 100 \<and> d < 100"

fun date_text :: "int \<times> nat \<times> nat \<Rightarrow> string" where
  "date_text (y, m, d) = dec 4 (nat y) @ ''_'' @ dec 2 m @ ''_'' @ dec 2 d"

lemma leaf_name_text:
  "four_digit_date (ymd_from_epoch s) \<Longrightarrow> leaf_name s = leaf_prefix @ date_text (ymd_from_epoch s)"
  by (cases "ymd_from_epoch s") (auto simp: leaf_name_def pad_int_def pad_zeros_dec nat_less_iff)

lemma date_text_less:
  assumes "four_digit_date a" "four_digit_date b"
  shows "str_less (date_text a) (date_text b) \<longleftrightarrow> date_less a b"
proof -
  obtain y m d y' m' d' where ab: "a = (y, m, d)" "b = (y', m', d')" by (cases a; cases b) auto
  with assms have "nat y < 10 ^ 4" "nat y' < 10 ^ 4" "m < 10 ^ 2" "m' < 10 ^ 2" "d < 10 ^ 2" "d' < 10 ^ 2"
    and y: "0 \<le> y" "0 \<le> y'" by (simp_all add: nat_less_iff)
  then show ?thesis
    unfolding ab date_text.simps
    by (simp add: str_less_append str_less_dec dec_inject del: dec.simps) auto
qed

subsection \<open>The dates of the model\<close>

lemma date_less_days:
  assumes "a < b" "small_day a" "small_day b"
  shows "date_less (ymd_from_epoch (86400 * a)) (ymd_from_epoch (86400 * b))"
proof -
  have "small_day (a + int k) \<Longrightarrow> 0 < k
      \<Longrightarrow> date_less (ymd_from_epoch (86400 * a)) (ymd_from_epoch (86400 * (a + int k)))" for k
  proof (induction k)
    case (Suc k)
    have s: "small_day (a + int k)"
      using Suc.prems(1) assms(2) by (simp add: small_day_def)
    have "ymd_from_epoch (86400 * (a + int (Suc k))) = next_date (ymd_from_epoch (86400 * (a + int k)))"
      using ymd_next [OF s] Suc.prems(1) by (simp add: algebra_simps)
    with Suc.IH [OF s] show ?case
      by (cases "k = 0") (auto simp: date_less_next intro: date_less_trans)
  qed simp
  from this [of "nat (b - a)"] assms show ?thesis by simp
qed

lemma march_date_bounds:
  assumes "r < 366" and "march_date y r = (y', m, d)"
  shows "m < 100 \<and> d < 100"
proof -
  obtain first len k j where k: "(first, len, k) \<in> set march_months" "r = first + j" "j < len"
    using march_month [OF assms(1)] .
  then have "len \<le> 31" "k \<le> 12" by (auto simp: march_months_def)
  with month_day_in [OF k(1,3)] k assms(2) show ?thesis by (simp add: march_date_def)
qed

lemma ymd_bounds:
  assumes "small_day n" and "ymd_from_epoch (86400 * n) = (y, m, d)"
  shows "m < 100 \<and> d < 100"
proof -
  obtain e c q s r where n: "n = day_of_era e c q s r" and ok: "era_date_ok c q s r"
    using day_of_era_exists by blast
  have "r < 366" using ok by (auto simp: era_date_ok_def)
  moreover have "march_date (year_in_era e c q s) r = (y, m, d)"
    using ymd_of_small_day [OF ok assms(1) [unfolded n]] assms(2) n by simp
  ultimately show ?thesis by (rule march_date_bounds)
qed

definition LAST_DAY :: int where "LAST_DAY = 2932896"

definition day_ok :: "int \<Rightarrow> bool" where
  "day_ok n \<longleftrightarrow> 0 \<le> n \<and> n \<le> LAST_DAY"

lemma ymd_last: "ymd_from_epoch (86400 * LAST_DAY) = (9999, 12, 31)"
proof -
  have "day_of_era 24 3 24 3 305 = LAST_DAY" "era_date_ok 3 24 3 305"
    by (simp_all add: day_of_era_def era_day_def era_date_ok_def LAST_DAY_def)
  then have "ymd_from_epoch (86400 * LAST_DAY) = march_date (year_in_era 24 3 24 3) 305"
    using ymd_of_small_day [of 3 24 3 305 24] by (simp add: small_day_def LAST_DAY_def)
  then show ?thesis by (simp add: march_date_def year_in_era_def month_day_table)
qed

lemma day_ok_small: "day_ok n \<Longrightarrow> small_day n"
  by (simp add: day_ok_def LAST_DAY_def small_day_def)

lemma day_ok_four_digit:
  assumes "day_ok n"
  shows "four_digit_date (ymd_from_epoch (86400 * n))"
proof -
  obtain y m d where ymd: "ymd_from_epoch (86400 * n) = (y, m, d)" by (cases "ymd_from_epoch (86400 * n)")
  have ends: "small_day 0" "small_day LAST_DAY" by (simp_all add: small_day_def LAST_DAY_def)
  note small = day_ok_small [OF assms]
  have "n = 0 \<or> date_less (1970, 1, 1) (y, m, d)"
    using date_less_days [of 0 n] assms small ends ymd ymd_epoch by (auto simp: day_ok_def)
  then have "0 \<le> y" using ymd ymd_epoch by auto
  moreover have "n = LAST_DAY \<or> date_less (y, m, d) (9999, 12, 31)"
    using date_less_days [of n LAST_DAY] assms small ends ymd ymd_last by (auto simp: day_ok_def)
  then have "y < 10000" using ymd ymd_last by auto
  ultimately show ?thesis using ymd_bounds [OF small ymd] ymd by simp
qed

abbreviation day_leaf_name :: "int \<Rightarrow> string" where
  "day_leaf_name n \<equiv> leaf_name (86400 * n)"

lemma leaf_names_ordered:
  assumes "day_ok a" "day_ok b"
  shows "str_less (day_leaf_name a) (day_leaf_name b) \<longleftrightarrow> a < b"
proof -
  let ?d = "\<lambda>n. ymd_from_epoch (86400 * n)"
  have "str_less (day_leaf_name a) (day_leaf_name b) \<longleftrightarrow> date_less (?d a) (?d b)"
    using assms by (simp add: leaf_name_text day_ok_four_digit date_text_less)
  moreover have "date_less (?d a) (?d b)" if "a < b"
    using that assms by (intro date_less_days day_ok_small)
  moreover have "\<not> date_less (?d a) (?d b)" if "b \<le> a"
  proof -
    have "a = b \<or> date_less (?d b) (?d a)"
      using that date_less_days [of b a] day_ok_small [OF assms(1)] day_ok_small [OF assms(2)]
      by (cases "a = b") simp_all
    then show ?thesis by (cases "?d a"; cases "?d b") auto
  qed
  ultimately show ?thesis by linarith
qed

lemma leaf_name_inject:
  "day_ok a \<Longrightarrow> day_ok b \<Longrightarrow> day_leaf_name a = day_leaf_name b \<longleftrightarrow> a = b"
  using leaf_names_ordered [of a b] leaf_names_ordered [of b a]
  by (metis linorder_neq_iff str_less_irrefl)

lemma leaf_name_prefix:
  "take (length leaf_prefix) (leaf_name s) = leaf_prefix"
  by (simp add: leaf_name_def split: prod.split)

lemma sql_like_any: "sql_like [CHR ''%''] s"
  by (induction s) simp_all

lemma sql_like_prefix: "CHR ''%'' \<notin> set p \<Longrightarrow> sql_like (p @ [CHR ''%'']) (p @ rest)"
proof (induction p)
  case Nil
  show ?case using sql_like_any by simp
qed simp

lemma leaf_name_like: "sql_like ''events_raw_p%'' (leaf_name s)"
proof -
  obtain rest where "leaf_name s = leaf_prefix @ rest" by (cases "ymd_from_epoch s") (auto simp: leaf_name_def)
  then show ?thesis using sql_like_prefix [of leaf_prefix rest] by (simp add: leaf_prefix_def)
qed

lemma day_start_of: "day_start_secs s = 86400 * (s div 86400)"
  by (simp add: day_start_secs_def minus_mod_eq_mult_div)

subsection \<open>What a pass does to the tables\<close>

lemma detach_leaf_tables:
  "detach_leaf refuses db n = Inr db' \<Longrightarrow> mset (tables db') = mset (tables db)"
  using multiset_partition [of "mset (leaves db)" "\<lambda>l. lf_name l = n"]
  by (auto simp: detach_leaf_def tables_def add_ac split: if_splits)

lemma sweep_tables: "mset (tables (sweep refuses old db ns)) = mset (tables db)"
proof (induction ns arbitrary: db)
  case (Cons n ns)
  then show ?case by (auto simp: detach_leaf_tables split: sum.split)
qed simp

lemma create_leaf_cases:
  assumes "create_leaf refuses db n a b = Inr db'"
  obtains "db' = db" | "db' = db\<lparr>leaves := leaves db @ [\<lparr>lf_name = n, lf_from = a, lf_to = b, lf_rows = []\<rparr>]\<rparr>"
  using assms by (auto simp: create_leaf_def split: if_splits)

lemma alter_rls_tables:
  "alter_rls refuses db n = Inr db' \<Longrightarrow> leaves db' = leaves db \<and> detached db' = detached db"
  by (auto simp: alter_rls_def split: if_splits)

lemma premake_tables:
  assumes "premake refuses db t ds = (r, db')"
  shows "detached db' = detached db \<and> (\<exists>new. leaves db' = leaves db @ new \<and> length new \<le> length ds
    \<and> (\<forall>l \<in> set new. lf_rows l = []))"
  using assms
proof (induction ds arbitrary: db)
  case (Cons d ds)
  let ?s = "t + int d * 86400"
  show ?case
  proof (cases "create_leaf refuses db (leaf_name ?s) ?s (?s + 86400)")
    case (Inl e)
    with Cons.prems show ?thesis by simp
  next
    case (Inr db1)
    obtain new1 where 1: "detached db1 = detached db" "leaves db1 = leaves db @ new1" "length new1 \<le> 1"
      "\<forall>l \<in> set new1. lf_rows l = []"
      using Inr by (rule create_leaf_cases) auto
    show ?thesis
    proof (cases "alter_rls refuses db1 (leaf_name ?s)")
      case 2: (Inl e)
      with Cons.prems Inr 1 show ?thesis by auto
    next
      case 2: (Inr db2)
      with Cons.prems Inr have "premake refuses db2 t ds = (r, db')" by simp
      from Cons.IH [OF this] obtain new2 where "detached db' = detached db2"
        "leaves db' = leaves db2 @ new2" "length new2 \<le> length ds" "\<forall>l \<in> set new2. lf_rows l = []"
        by blast
      with 1 alter_rls_tables [OF 2] show ?thesis by (intro conjI exI [of _ "new1 @ new2"]) auto
    qed
  qed
qed simp

text \<open>
  Maintenance never drops or rewrites events: whatever statements the server refuses,
  a pass leaves every table of the partitioned set in place with its rows, attached or
  detached, and adds at most four empty leaves. A pass that fails has detached nothing.
\<close>

theorem maintenance_keeps_rows:
  "case run_once refuses now retention db of (err, db') \<Rightarrow>
     (\<exists>new. mset (tables db') = mset (tables db) + mset new \<and> length new \<le> 4
        \<and> list_all (\<lambda>l. lf_rows l = []) new)
     \<and> (err = None \<or> detached db' = detached db)"
proof -
  obtain r db1 where pre: "premake refuses db (day_start_secs now) [0..<PREMAKE_DAYS] = (r, db1)"
    by (cases "premake refuses db (day_start_secs now) [0..<PREMAKE_DAYS]")
  from premake_tables [OF this] obtain new where new: "detached db1 = detached db"
    "leaves db1 = leaves db @ new" "length new \<le> 4" "\<forall>l \<in> set new. lf_rows l = []"
    by (auto simp: PREMAKE_DAYS_def)
  have db1: "mset (tables db1) = mset (tables db) + mset new" using new by (simp add: tables_def add_ac)
  show ?thesis
    using pre new db1
    by (auto simp: run_once_def Let_def sweep_tables list_all_iff split: option.split)
qed

subsection \<open>A pass over daily leaves\<close>

definition empty_leaf :: "int \<Rightarrow> leaf" where
  "empty_leaf d = \<lparr>lf_name = day_leaf_name d, lf_from = 86400 * d, lf_to = 86400 * d + 86400, lf_rows = []\<rparr>"

definition day_leaf :: "int \<Rightarrow> leaf \<Rightarrow> bool" where
  "day_leaf d l \<longleftrightarrow> day_ok d \<and> lf_name l = day_leaf_name d
     \<and> lf_from l = 86400 * d \<and> lf_to l = 86400 * d + 86400"

definition daily :: "partitioned \<Rightarrow> bool" where
  "daily db \<longleftrightarrow> distinct (table_names db) \<and> (\<forall>l \<in> set (leaves db). \<exists>d. day_leaf d l)"

definition has_day :: "partitioned \<Rightarrow> int \<Rightarrow> bool" where
  "has_day db d \<longleftrightarrow> (\<exists>l \<in> set (leaves db). day_leaf d l)"

text \<open>No detached table has the name of day \<open>d\<close>.\<close>

definition free_day :: "partitioned \<Rightarrow> int \<Rightarrow> bool" where
  "free_day db d \<longleftrightarrow> day_leaf_name d \<notin> lf_name ` set (detached db)"

definition add_day :: "partitioned \<Rightarrow> int \<Rightarrow> partitioned" where
  "add_day db d = (if has_day db d then db else db\<lparr>leaves := leaves db @ [empty_leaf d]\<rparr>)"

definition force_day :: "partitioned \<Rightarrow> int \<Rightarrow> partitioned" where
  "force_day db d = db\<lparr>forced_rls := List.insert (day_leaf_name d) (forced_rls db)\<rparr>"

lemma day_leaf_empty: "day_ok d \<Longrightarrow> day_leaf d (empty_leaf d)"
  by (simp add: day_leaf_def empty_leaf_def)

lemma day_leaf_unique: "day_leaf d l \<Longrightarrow> day_leaf d' l \<Longrightarrow> d = d'"
  by (simp add: day_leaf_def)

lemma has_day_name:
  assumes "daily db" "day_ok d"
  shows "has_day db d \<longleftrightarrow> day_leaf_name d \<in> lf_name ` set (leaves db)"
proof
  assume "day_leaf_name d \<in> lf_name ` set (leaves db)"
  then obtain l where l: "l \<in> set (leaves db)" "lf_name l = day_leaf_name d" by auto
  then obtain d' where "day_leaf d' l" using assms(1) by (auto simp: daily_def)
  with l assms(2) have "d' = d" using leaf_name_inject by (auto simp: day_leaf_def)
  with l \<open>day_leaf d' l\<close> show "has_day db d" by (auto simp: has_day_def)
qed (auto simp: has_day_def day_leaf_def intro: rev_image_eqI)

lemma no_overlap:
  assumes "daily db" "\<not> has_day db d"
  shows "\<not> list_ex (\<lambda>l. overlaps l (86400 * d) (86400 * d + 86400)) (leaves db)"
proof
  assume "list_ex (\<lambda>l. overlaps l (86400 * d) (86400 * d + 86400)) (leaves db)"
  then obtain l where l: "l \<in> set (leaves db)" "overlaps l (86400 * d) (86400 * d + 86400)"
    by (auto simp: list_ex_iff)
  then obtain d' where d': "day_leaf d' l" using assms(1) by (auto simp: daily_def)
  with l(2) have "d' = d" by (auto simp: overlaps_def day_leaf_def)
  with d' l(1) assms(2) show False by (auto simp: has_day_def)
qed

lemma create_day:
  assumes "\<And>c. \<not> refuses c" "daily db" "day_ok d" "free_day db d"
  shows "create_leaf refuses db (day_leaf_name d) (86400 * d) (86400 * d + 86400) = Inr (add_day db d)"
proof (cases "has_day db d")
  case True
  then have "day_leaf_name d \<in> set (table_names db)"
    using has_day_name [OF assms(2,3)] by (simp add: table_names_def tables_def)
  with assms(1) True show ?thesis by (simp add: create_leaf_def add_day_def)
next
  case False
  then have "day_leaf_name d \<notin> set (table_names db)"
    using has_day_name [OF assms(2,3)] assms(4) by (auto simp: table_names_def tables_def free_day_def)
  with assms(1) False no_overlap [OF assms(2) False] show ?thesis
    by (simp add: create_leaf_def add_day_def empty_leaf_def)
qed

lemma daily_add_day:
  assumes "daily db" "day_ok d" "free_day db d"
  shows "daily (add_day db d)"
proof (cases "has_day db d")
  case False
  then have "day_leaf_name d \<notin> set (table_names db)"
    using has_day_name [OF assms(1,2)] assms(3) by (auto simp: table_names_def tables_def free_day_def)
  then show ?thesis
    using assms day_leaf_empty [OF assms(2)] False
    by (auto simp: add_day_def daily_def table_names_def tables_def empty_leaf_def)
qed (use assms in \<open>simp add: add_day_def\<close>)

lemma force_day_simps [simp]:
  "leaves (force_day db d) = leaves db" "detached (force_day db d) = detached db"
  "has_day (force_day db d) = has_day db" "daily (force_day db d) = daily db"
  "free_day (force_day db d) = free_day db"
  by (auto simp: force_day_def has_day_def daily_def free_day_def table_names_def tables_def fun_eq_iff)

lemma add_day_simps:
  "detached (add_day db d) = detached db" "free_day (add_day db d) = free_day db"
  "day_ok d \<Longrightarrow> has_day (add_day db d) d' \<longleftrightarrow> has_day db d' \<or> d' = d"
  using day_leaf_empty day_leaf_unique
  by (auto simp: add_day_def has_day_def free_day_def fun_eq_iff)

lemma alter_day:
  assumes "\<And>c. \<not> refuses c" "has_day db d"
  shows "alter_rls refuses db (day_leaf_name d) = Inr (force_day db d)"
  using assms by (auto simp: alter_rls_def force_day_def has_day_def day_leaf_def table_names_def tables_def intro: rev_image_eqI)

abbreviation ensure_day :: "partitioned \<Rightarrow> int \<Rightarrow> partitioned" where
  "ensure_day db d \<equiv> force_day (add_day db d) d"

lemma premake_days:
  assumes "\<And>c. \<not> refuses c" "daily db" "\<forall>d \<in> set ds. day_ok (t + int d) \<and> free_day db (t + int d)"
  shows "premake refuses db (86400 * t) ds = (None, foldl ensure_day db (map (\<lambda>d. t + int d) ds))"
  using assms(2,3)
proof (induction ds arbitrary: db)
  case (Cons d ds)
  let ?d = "t + int d"
  have ok: "day_ok ?d" "free_day db ?d" using Cons.prems by simp_all
  have s: "86400 * t + int d * 86400 = 86400 * ?d" by (simp add: algebra_simps)
  have "has_day (add_day db ?d) ?d" by (simp add: add_day_simps ok)
  note alt = alter_day [OF assms(1) this]
  have "premake refuses (ensure_day db ?d) (86400 * t) ds
      = (None, foldl ensure_day (ensure_day db ?d) (map (\<lambda>d. t + int d) ds))"
    using Cons.prems daily_add_day [OF _ ok]
    by (intro Cons.IH) (auto simp: add_day_simps)
  then show ?case
    by (simp only: premake.simps Let_def s create_day [OF assms(1) Cons.prems(1) ok] alt sum.case list.map foldl.simps)
qed simp

lemma premade:
  assumes "daily db" "\<forall>d \<in> set ds. day_ok d \<and> free_day db d"
  defines "db' \<equiv> foldl ensure_day db ds"
  shows "daily db'" "detached db' = detached db"
    "set (leaves db') = set (leaves db) \<union> empty_leaf ` {d \<in> set ds. \<not> has_day db d}"
    "\<forall>d \<in> set ds. has_day db' d \<and> day_leaf_name d \<in> set (forced_rls db')"
    "set (forced_rls db) \<subseteq> set (forced_rls db')"
proof -
  have "daily db' \<and> detached db' = detached db
    \<and> set (leaves db') = set (leaves db) \<union> empty_leaf ` {d \<in> set ds. \<not> has_day db d}
    \<and> (\<forall>d. has_day db' d \<longleftrightarrow> has_day db d \<or> d \<in> set ds)
    \<and> (\<forall>d \<in> set ds. day_leaf_name d \<in> set (forced_rls db'))
    \<and> set (forced_rls db) \<subseteq> set (forced_rls db')"
    using assms(1,2) unfolding db'_def
  proof (induction ds arbitrary: db)
    case (Cons d ds)
    have ok: "day_ok d" "free_day db d" using Cons.prems by simp_all
    let ?e = "ensure_day db d"
    have prem: "daily ?e" "\<forall>d \<in> set ds. day_ok d \<and> free_day ?e d"
      using Cons.prems daily_add_day [OF _ ok] by (simp_all add: add_day_simps)
    have e: "set (leaves ?e) = set (leaves db) \<union> (if has_day db d then {} else {empty_leaf d})"
      "detached ?e = detached db" "set (forced_rls ?e) = insert (day_leaf_name d) (set (forced_rls db))"
      by (auto simp: add_day_def force_day_def)
    have h: "has_day ?e d' \<longleftrightarrow> has_day db d' \<or> d' = d" for d'
      using ok(1) by (simp add: add_day_simps)
    from Cons.IH [OF prem] show ?case
      unfolding foldl_Cons e h by auto
  qed simp
  then show "daily db'" "detached db' = detached db"
    "set (leaves db') = set (leaves db) \<union> empty_leaf ` {d \<in> set ds. \<not> has_day db d}"
    "\<forall>d \<in> set ds. has_day db' d \<and> day_leaf_name d \<in> set (forced_rls db')"
    "set (forced_rls db) \<subseteq> set (forced_rls db')"
    by blast+
qed

lemma premade_again:
  "\<forall>d \<in> set ds. has_day db d \<and> day_leaf_name d \<in> set (forced_rls db) \<Longrightarrow> foldl ensure_day db ds = db"
  by (induction ds) (simp_all add: add_day_def force_day_def)

definition aged :: "string \<Rightarrow> string \<Rightarrow> bool" where
  "aged cutoff_leaf n \<longleftrightarrow> str_less n cutoff_leaf \<and> take (length leaf_prefix) n = leaf_prefix"

lemma sweep_effect:
  assumes "\<And>c. \<not> refuses c"
  shows "leaves (sweep refuses cut_leaf db ns)
      = filter (\<lambda>l. \<not> (lf_name l \<in> set ns \<and> aged cut_leaf (lf_name l))) (leaves db)"
    and "set (detached (sweep refuses cut_leaf db ns))
      = set (detached db) \<union> {l \<in> set (leaves db). lf_name l \<in> set ns \<and> aged cut_leaf (lf_name l)}"
    and "forced_rls (sweep refuses cut_leaf db ns) = forced_rls db"
proof (induction ns arbitrary: db)
  case (Cons n ns)
  {
    case 1
    show ?case using assms Cons.IH(1)
      by (auto simp: detach_leaf_def aged_def [symmetric] intro!: filter_cong split: sum.split)
  next
    case 2
    show ?case using assms Cons.IH(2)
      by (auto simp: detach_leaf_def aged_def [symmetric] split: sum.split)
  next
    case 3
    show ?case using assms Cons.IH(3)
      by (auto simp: detach_leaf_def aged_def [symmetric] split: sum.split)
  }
qed simp_all

lemma sweep_nothing:
  "\<forall>n \<in> set ns. \<not> aged cut_leaf n \<Longrightarrow> sweep refuses cut_leaf db ns = db"
  by (induction ns) (auto simp: aged_def)

lemma day_leaf_aged:
  assumes "day_leaf d l" "day_ok c"
  shows "aged (day_leaf_name c) (lf_name l) \<longleftrightarrow> d < c"
  using assms leaf_names_ordered leaf_name_prefix by (simp add: day_leaf_def aged_def)

lemma list_leaves_daily:
  "daily db \<Longrightarrow> set (list_leaves db) = lf_name ` set (leaves db)"
  using leaf_name_like by (auto simp: list_leaves_def daily_def day_leaf_def)

lemma run_once_daily:
  assumes ok: "\<And>c. \<not> refuses c" and day: "now div 86400 = t" and "0 \<le> keep"
    and days: "day_ok (t - keep)" "day_ok (t + 3)" and db: "daily db" "\<forall>d \<ge> t. free_day db d"
  defines "db' \<equiv> snd (run_once refuses now keep db)"
  shows "fst (run_once refuses now keep db) = None"
    and "daily db'" and "\<forall>d \<ge> t. day_ok d \<longrightarrow> free_day db' d"
    and "set (leaves db') = {l \<in> set (leaves db). 86400 * (t - keep) < lf_to l}
           \<union> empty_leaf ` {d \<in> {t..t + 3}. \<not> has_day db d}"
    and "set (detached db') = set (detached db) \<union> {l \<in> set (leaves db). lf_to l \<le> 86400 * (t - keep)}"
    and "\<forall>d \<in> {t..t + 3}. has_day db' d \<and> day_leaf_name d \<in> set (forced_rls db')"
proof -
  define ds where "ds = map (\<lambda>d. t + int d) [0..<PREMAKE_DAYS]"
  have "[0..<PREMAKE_DAYS] = [0, 1, 2, 3]" by (simp add: PREMAKE_DAYS_def upt_rec)
  then have ds: "set ds = {t..t + 3}" by (auto simp: ds_def)
  have dok: "\<forall>d \<in> set ds. day_ok d \<and> free_day db d"
    using days \<open>0 \<le> keep\<close> db(2) by (auto simp: ds day_ok_def)
  define pre where "pre = foldl ensure_day db ds"
  note p = premade [OF db(1) dok, folded pre_def]
  have pm: "premake refuses db (86400 * t) [0..<PREMAKE_DAYS] = (None, pre)"
    unfolding pre_def ds_def by (rule premake_days [of refuses db, OF ok db(1)]) (use dok in \<open>auto simp: ds_def\<close>)
  define until where "until = 86400 * (t - keep)"
  define cutoff where "cutoff = day_leaf_name (t - keep)"
  have cut: "86400 * t - keep * 86400 = 86400 * (t - keep)" by simp
  have run: "run_once refuses now keep db = (None, sweep refuses cutoff pre (list_leaves pre))"
    unfolding run_once_def day_start_of day Let_def pm cut cutoff_def [symmetric] using ok by simp
  then have db': "db' = sweep refuses cutoff pre (list_leaves pre)" by (simp add: db'_def)
  note s = sweep_effect [of refuses cutoff pre "list_leaves pre", OF ok, folded db',
      unfolded list_leaves_daily [OF p(1)]]
  have aged: "aged cutoff (lf_name l) \<longleftrightarrow> lf_to l \<le> until" if "l \<in> set (leaves pre)" for l
  proof -
    obtain d where d: "day_leaf d l" using p(1) \<open>l \<in> set (leaves pre)\<close> by (auto simp: daily_def)
    then have "lf_to l = 86400 * (d + 1)" by (simp add: day_leaf_def)
    moreover have "86400 * (d + 1) \<le> 86400 * (t - keep) \<longleftrightarrow> d + 1 \<le> t - keep"
      by (rule mult_le_cancel_left_pos) simp
    ultimately show ?thesis unfolding cutoff_def until_def day_leaf_aged [OF d days(1)] by auto
  qed
  have new: "\<not> lf_to (empty_leaf d) \<le> until" if "t \<le> d" for d
    using that \<open>0 \<le> keep\<close> by (simp add: empty_leaf_def until_def)
  have kept: "set (leaves db') = {l \<in> set (leaves pre). \<not> lf_to l \<le> until}"
    using aged unfolding s(1) by auto
  have gone: "set (detached db') = set (detached db) \<union> {l \<in> set (leaves pre). lf_to l \<le> until}"
    using aged unfolding s(2) p(2) by auto
  show "fst (run_once refuses now keep db) = None" using run by simp
  show l: "set (leaves db') = {l \<in> set (leaves db). 86400 * (t - keep) < lf_to l}
           \<union> empty_leaf ` {d \<in> {t..t + 3}. \<not> has_day db d}"
    using new unfolding kept p(3) ds until_def [symmetric] by auto
  show d: "set (detached db') = set (detached db) \<union> {l \<in> set (leaves db). lf_to l \<le> 86400 * (t - keep)}"
    using new unfolding gone p(3) ds until_def [symmetric] by auto
  have "distinct (table_names db')"
    using p(1) sweep_tables [of refuses cutoff pre "list_leaves pre", folded db']
    by (metis daily_def mset_eq_imp_distinct_iff mset_map table_names_def)
  moreover have "\<forall>l \<in> set (leaves db'). \<exists>d. day_leaf d l"
    using p(1) by (auto simp: daily_def kept)
  ultimately show "daily db'" by (simp add: daily_def)
  show "\<forall>d \<ge> t. day_ok d \<longrightarrow> free_day db' d"
  proof (intro allI impI)
    fix e assume e: "t \<le> e" "day_ok e"
    have nm: "lf_name l \<noteq> day_leaf_name e" if l: "l \<in> set (leaves db)" "lf_to l \<le> 86400 * (t - keep)" for l
    proof -
      obtain d where d: "day_leaf d l" using db(1) l(1) by (auto simp: daily_def)
      then have "lf_to l = 86400 * d + 86400" "day_ok d" "lf_name l = day_leaf_name d"
        by (simp_all add: day_leaf_def)
      moreover from this(1) l(2) e(1) \<open>0 \<le> keep\<close> have "d \<noteq> e" by auto
      ultimately show ?thesis using leaf_name_inject [of d e] e(2) by simp
    qed
    have "day_leaf_name e \<notin> lf_name ` set (detached db)"
      using db(2) e(1) by (simp add: free_day_def)
    then show "free_day db' e" unfolding free_day_def d by (auto dest: nm)
  qed
  show "\<forall>d \<in> {t..t + 3}. has_day db' d \<and> day_leaf_name d \<in> set (forced_rls db')"
  proof
    fix e assume e: "e \<in> {t..t + 3}"
    then have pe: "has_day pre e" "day_leaf_name e \<in> set (forced_rls pre)" using p(4) unfolding ds by blast+
    then obtain l where l: "l \<in> set (leaves pre)" "day_leaf e l" unfolding has_day_def by blast
    have "\<not> lf_to l \<le> until" using l(2) e \<open>0 \<le> keep\<close> by (simp add: day_leaf_def until_def)
    with l have "has_day db' e" by (auto simp: has_day_def kept)
    with s(3) pe show "has_day db' e \<and> day_leaf_name e \<in> set (forced_rls db')" by simp
  qed
qed

lemma run_once_daily_again:
  assumes ok: "\<And>c. \<not> refuses c" and day: "now div 86400 = t" "now' div 86400 = t" and "0 \<le> keep"
    and days: "day_ok (t - keep)" "day_ok (t + 3)" and db: "daily db" "\<forall>d \<ge> t. free_day db d"
  defines "db' \<equiv> snd (run_once refuses now keep db)"
  shows "run_once refuses now' keep db' = (None, db')"
proof -
  note r = run_once_daily [of refuses now t keep db, OF ok day(1) assms(4) days db, folded db'_def]
  define ds where "ds = map (\<lambda>d. t + int d) [0..<PREMAKE_DAYS]"
  have "[0..<PREMAKE_DAYS] = [0, 1, 2, 3]" by (simp add: PREMAKE_DAYS_def upt_rec)
  then have ds: "set ds = {t..t + 3}" by (auto simp: ds_def)
  have "\<forall>d \<in> set ds. day_ok d \<and> free_day db' d"
    using days r(3) \<open>0 \<le> keep\<close> unfolding ds by (auto simp: day_ok_def)
  then have dok: "\<forall>d \<in> set [0..<PREMAKE_DAYS]. day_ok (t + int d) \<and> free_day db' (t + int d)"
    by (simp add: ds_def)
  have "foldl ensure_day db' ds = db'"
    by (rule premade_again) (use r(6) in \<open>simp add: ds\<close>)
  then have pm: "premake refuses db' (86400 * t) [0..<PREMAKE_DAYS] = (None, db')"
    using premake_days [of refuses db', OF ok r(2) dok] by (simp add: ds_def)
  have old: "\<not> aged (day_leaf_name (t - keep)) n" if "n \<in> set (list_leaves db')" for n
  proof -
    from that obtain l where l: "l \<in> set (leaves db')" "n = lf_name l"
      unfolding list_leaves_daily [OF r(2)] by blast
    then obtain d where d: "day_leaf d l" using r(2) unfolding daily_def by blast
    have "86400 * (t - keep) < lf_to l"
      using l(1) \<open>0 \<le> keep\<close> unfolding r(4) by (auto simp: empty_leaf_def)
    moreover have "lf_to l = 86400 * (d + 1)" using d by (simp add: day_leaf_def)
    ultimately have "t - keep < d + 1" by (simp only: mult_less_cancel_left_pos)
    then show ?thesis unfolding l(2) day_leaf_aged [OF d days(1)] by simp
  qed
  have cut: "86400 * t - keep * 86400 = 86400 * (t - keep)" by simp
  show ?thesis
    unfolding run_once_def day_start_of day(2) Let_def pm cut
    using ok old sweep_nothing [of "list_leaves db'" "day_leaf_name (t - keep)" refuses db'] by simp
qed


text \<open>Two leaves, of 2 January and 1 March 1970, on 5 March, with a retention of 30 days.\<close>

definition two_days :: partitioned where
  "two_days = \<lparr>leaves = [empty_leaf 1, empty_leaf 59], detached = [], forced_rls = []\<rparr>"

lemma two_days_daily: "daily two_days"
  using leaf_name_inject [of 1 59] day_leaf_empty [of 1] day_leaf_empty [of 59]
  by (auto simp: two_days_def daily_def table_names_def tables_def day_ok_def LAST_DAY_def empty_leaf_def)


subsection \<open>The seed leaf and refused statements\<close>

lemma create_overlap:
  assumes "l \<in> set (leaves db)" "overlaps l a b" "n \<notin> set (table_names db)"
  shows "\<exists>e. create_leaf refuses db n a b = Inl e"
proof -
  have "list_ex (\<lambda>l. overlaps l a b) (leaves db)" using assms(1,2) by (auto simp: list_ex_iff)
  with assms(3) show ?thesis by (simp add: create_leaf_def)
qed

lemma PREMAKE_upt: "[0..<PREMAKE_DAYS] = 0 # [1, 2, 3]"
  by (simp add: PREMAKE_DAYS_def upt_rec)

text \<open>
  While today lies inside an attached leaf that is not the leaf of today, such as the
  seed leaf of 2026 that the migration creates, every pass fails at its first statement and
  changes nothing, whatever the retention: no leaf is created ahead and none is detached.
\<close>

theorem wide_leaf_blocks_maintenance:
  assumes "l \<in> set (leaves db)" and "lf_from l \<le> day_start_secs now" "day_start_secs now < lf_to l"
    and "leaf_name (day_start_secs now) \<notin> set (table_names db)"
  shows "\<exists>e. run_once refuses now keep db = (Some e, db)"
proof -
  have "overlaps l (day_start_secs now) (day_start_secs now + 86400)"
    using assms(2,3) by (simp add: overlaps_def)
  from create_overlap [OF assms(1) this assms(4)] obtain e where
    "create_leaf refuses db (leaf_name (day_start_secs now)) (day_start_secs now) (day_start_secs now + 86400)
      = Inl e" by blast
  then show ?thesis by (simp add: run_once_def PREMAKE_upt Let_def)
qed

lemma length_leaf_name: "day_ok n \<Longrightarrow> length (day_leaf_name n) = 22"
  by (cases "ymd_from_epoch (86400 * n)")
     (simp add: leaf_name_text [OF day_ok_four_digit] leaf_prefix_def)

theorem wide_leaf_blocks_maintenance_witness:
  "\<exists>e. run_once (\<lambda>_. False) (20500 * 86400 + 7) 30 migrated = (Some e, migrated)"
proof (rule wide_leaf_blocks_maintenance [of seed_leaf])
  have "length (day_leaf_name 20500) = 22" by (rule length_leaf_name) (simp add: day_ok_def LAST_DAY_def)
  then have "leaf_name 1771200000 \<noteq> ''events_raw_p2026''" by auto
  then show "leaf_name (day_start_secs (20500 * 86400 + 7)) \<notin> set (table_names migrated)"
    by (simp add: migrated_def table_names_def tables_def seed_leaf_def day_start_secs_def)
qed (simp_all add: migrated_def seed_leaf_def day_start_secs_def)

lemma run_once_detaches:
  assumes ok: "\<And>c. \<not> refuses c" and "fst (run_once refuses now keep db) = None"
    and l: "l \<in> set (leaves db)" "aged (leaf_name (day_start_secs now - keep * 86400)) (lf_name l)"
    "sql_like ''events_raw_p%'' (lf_name l)"
  shows "l \<in> set (detached (snd (run_once refuses now keep db)))"
proof -
  obtain r db1 where pm: "premake refuses db (day_start_secs now) [0..<PREMAKE_DAYS] = (r, db1)"
    by (cases "premake refuses db (day_start_secs now) [0..<PREMAKE_DAYS]")
  with assms(2) have r: "r = None" by (cases r) (simp_all add: run_once_def Let_def)
  from premake_tables [OF pm] l(1) have "l \<in> set (leaves db1)" by auto
  moreover from this l(3) have "lf_name l \<in> set (list_leaves db1)" by (simp add: list_leaves_def)
  ultimately show ?thesis
    using l(2) sweep_effect(2) [of refuses "leaf_name (day_start_secs now - keep * 86400)" db1 "list_leaves db1", OF ok]
    by (simp add: run_once_def Let_def pm r ok)
qed

lemma year_2026: "ymd_from_epoch (86400 * 20454) = (2026, 1, 1)"
proof -
  have "day_of_era 5 0 6 1 306 = 20454" "era_date_ok 0 6 1 306"
    by (simp_all add: day_of_era_def era_day_def era_date_ok_def)
  then have "ymd_from_epoch (86400 * 20454) = march_date (year_in_era 5 0 6 1) 306"
    using ymd_of_small_day [of 0 6 1 306 5] by (simp add: small_day_def)
  then show ?thesis by (simp add: march_date_def year_in_era_def month_day_table)
qed

lemma dec_2026: "dec 4 2026 = ''2026''"
proof -
  have "dec (Suc (Suc (Suc (Suc 0)))) 2026 = [digit_char 2, digit_char 0, digit_char 2, digit_char 6]"
    by simp
  moreover have "digit_char 2 = CHR ''2''" "digit_char 0 = CHR ''0''" "digit_char 6 = CHR ''6''"
    by code_simp+
  moreover have "Suc (Suc (Suc (Suc 0))) = 4" by simp
  ultimately show ?thesis by (simp only:)
qed

lemma seed_leaf_aged:
  assumes "day_ok c" "20454 \<le> c"
  shows "aged (day_leaf_name c) (lf_name seed_leaf)"
proof -
  obtain y m d where ymd: "ymd_from_epoch (86400 * c) = (y, m, d)" by (cases "ymd_from_epoch (86400 * c)")
  have "c = 20454 \<or> date_less (2026, 1, 1) (y, m, d)"
    using assms date_less_days [of 20454 c] year_2026 ymd day_ok_small [OF assms(1)]
    by (auto simp: small_day_def)
  then have y: "2026 \<le> y" using year_2026 ymd by auto
  have fd: "four_digit_date (y, m, d)" using day_ok_four_digit [OF assms(1)] ymd by simp
  then have "str_less (dec 4 2026) (dec 4 (nat y)) \<or> dec 4 2026 = dec 4 (nat y)"
    using y str_less_dec [of 2026 4 "nat y"] by (cases "y = 2026") (auto simp: nat_less_iff)
  then have "str_less (dec 4 2026 @ []) (dec 4 (nat y) @ (''_'' @ dec 2 m @ ''_'' @ dec 2 d))"
    by (subst str_less_append) auto
  moreover have "lf_name seed_leaf = leaf_prefix @ dec 4 2026"
    by (simp add: seed_leaf_def dec_2026 leaf_prefix_def)
  moreover have "day_leaf_name c = leaf_prefix @ dec 4 (nat y) @ ''_'' @ dec 2 m @ ''_'' @ dec 2 d"
    using leaf_name_text [of "86400 * c"] fd ymd by simp
  ultimately show ?thesis by (simp add: aged_def del: append_Cons append.simps)
qed

text \<open>
  The whole-year seed leaf ends on 31 December 2026, but its name is smaller than the name
  of every day of 2026. So the first successful pass whose cutoff is 1 January 2026 or later
  detaches it with all its rows, also those inside the retention period.
\<close>

theorem year_leaf_detached_early:
  assumes "\<And>c. \<not> refuses c" and "l \<in> set (leaves db)" and "lf_name l = lf_name seed_leaf"
    and "20454 \<le> now div 86400 - keep" "day_ok (now div 86400 - keep)"
    and "fst (run_once refuses now keep db) = None"
  shows "l \<in> set (detached (snd (run_once refuses now keep db)))"
proof (rule run_once_detaches [OF assms(1,6,2)])
  have "day_start_secs now - keep * 86400 = 86400 * (now div 86400 - keep)"
    by (simp add: day_start_of mult.commute)
  then show "aged (leaf_name (day_start_secs now - keep * 86400)) (lf_name l)"
    using seed_leaf_aged [OF assms(5,4)] assms(3) by (simp only:)
  have "sql_like (leaf_prefix @ [CHR ''%'']) (leaf_prefix @ ''2026'')"
    by (rule sql_like_prefix) (simp add: leaf_prefix_def)
  then show "sql_like ''events_raw_p%'' (lf_name l)"
    using assms(3) by (simp add: leaf_prefix_def seed_leaf_def)
qed

text \<open>
  C23: The two \<open>ALTER\<close> commands are sent as one query. A server that refuses them, as Postgres
  refuses several commands in one prepared statement, makes every pass fail: at most one leaf
  is added, nothing is detached, no leaf is protected.
\<close>

theorem refused_alter_stops_maintenance:
  assumes "\<And>n. refuses (AlterRls n)"
  shows "case run_once refuses now keep db of (err, db') \<Rightarrow>
     err \<noteq> None \<and> detached db' = detached db \<and> forced_rls db' = forced_rls db
     \<and> (\<exists>new. leaves db' = leaves db @ new \<and> length new \<le> 1)"
proof -
  let ?t = "day_start_secs now"
  show ?thesis
  proof (cases "create_leaf refuses db (leaf_name ?t) ?t (?t + 86400)")
    case (Inl e)
    then show ?thesis by (simp add: run_once_def PREMAKE_upt Let_def)
  next
    case (Inr db1)
    then have "run_once refuses now keep db = (Some Refused, db1)"
      using assms by (simp add: run_once_def PREMAKE_upt Let_def alter_rls_def)
    moreover from Inr have "detached db1 = detached db" "forced_rls db1 = forced_rls db"
      "\<exists>new. leaves db1 = leaves db @ new \<and> length new \<le> 1"
      by (rule create_leaf_cases; simp)+
    ultimately show ?thesis by simp
  qed
qed

definition prepared :: refusals where
  "prepared c = (case c of AlterRls n \<Rightarrow> True | _ \<Rightarrow> False)"

theorem refused_alter_stops_maintenance_witness:
  "fst (run_once prepared 0 30 (migrated\<lparr>leaves := []\<rparr>)) \<noteq> None"
  using refused_alter_stops_maintenance [where refuses = prepared and now = 0 and keep = 30
      and db = "migrated\<lparr>leaves := []\<rparr>"]
  by (auto simp: prepared_def split: prod.splits)

text \<open>
  The dates in the names are Gregorian: day 0 is 1 January 1970 and the date of the next day
  is the calendar's next date, for 1900 million years around it.
\<close>

theorem dates_are_gregorian:
  "ymd_from_epoch 0 = (1970, 1, 1)
   \<and> (\<bar>n\<bar> < 700000000000 \<longrightarrow> ymd_from_epoch (86400 * (n + 1)) = next_date (ymd_from_epoch (86400 * n)))"
  using ymd_epoch ymd_next [of n] by (auto simp: small_day_def)

theorem dates_are_gregorian_witness:
  "ymd_from_epoch (86400 * (20453 + 1)) = next_date (ymd_from_epoch (86400 * 20453))"
  using dates_are_gregorian [of 20453] by simp

text \<open>
  The order of the names as byte strings is the order of the days, up to the year 9999.
\<close>

theorem names_in_date_order:
  assumes "0 \<le> a" "a \<le> LAST_DAY" "0 \<le> b" "b \<le> LAST_DAY"
  shows "str_less (leaf_name (86400 * a)) (leaf_name (86400 * b)) \<longleftrightarrow> a < b"
  using leaf_names_ordered assms by (simp add: day_ok_def)

theorem names_in_date_order_witness:
  "str_less (leaf_name (86400 * 9)) (leaf_name (86400 * 10))"
  using names_in_date_order [of 9 10] by (simp add: LAST_DAY_def)

text \<open>On 1 January 2027, with the four leaves of the day already created.\<close>

definition new_year_2027 :: partitioned where
  "new_year_2027 = migrated\<lparr>leaves := seed_leaf # map empty_leaf [20820, 20821, 20822, 20823]\<rparr>"

theorem year_leaf_detached_early_witness:
  "seed_leaf \<in> set (detached (snd (run_once (\<lambda>_. False) (20820 * 86400) 30 new_year_2027)))"
proof (rule year_leaf_detached_early)
  have names: "leaf_name (86400 * d) \<in> set (table_names new_year_2027)" if "d \<in> {20820..20823}" for d
  proof -
    from that have "d = 20820 \<or> d = 20821 \<or> d = 20822 \<or> d = 20823" by auto
    then show ?thesis by (auto simp: new_year_2027_def table_names_def tables_def empty_leaf_def)
  qed
  have step: "premake (\<lambda>_. False) db (20820 * 86400) ds
      = (None, db\<lparr>forced_rls := forced_rls (snd (premake (\<lambda>_. False) db (20820 * 86400) ds))\<rparr>)"
    if "table_names db = table_names new_year_2027" "\<forall>d \<in> set ds. d < 4" for db ds
    using that
  proof (induction ds arbitrary: db)
    case (Cons d ds)
    have s: "20820 * 86400 + int d * 86400 = 86400 * (20820 + int d)" by simp
    have n: "leaf_name (86400 * (20820 + int d)) \<in> set (table_names db)"
      using Cons.prems by (simp only: Cons.prems(1)) (rule names, simp)
    define db2 where "db2 = db\<lparr>forced_rls := List.insert (leaf_name (86400 * (20820 + int d))) (forced_rls db)\<rparr>"
    have "table_names db2 = table_names db" by (simp add: db2_def table_names_def tables_def)
    then have "premake (\<lambda>_. False) db2 (20820 * 86400) ds
        = (None, db2\<lparr>forced_rls := forced_rls (snd (premake (\<lambda>_. False) db2 (20820 * 86400) ds))\<rparr>)"
      using Cons by simp
    moreover have "premake (\<lambda>_. False) db (20820 * 86400) (d # ds) = premake (\<lambda>_. False) db2 (20820 * 86400) ds"
      using n by (simp only: premake.simps Let_def s create_leaf_def alter_rls_def db2_def if_True if_False sum.case not_True_eq_False)
    ultimately show ?case by (simp add: db2_def)
  qed simp
  have "fst (premake (\<lambda>_. False) new_year_2027 (20820 * 86400) [0..<PREMAKE_DAYS]) = None"
    by (subst step) (simp_all add: PREMAKE_DAYS_def)
  moreover have "day_start_secs (20820 * 86400) = 20820 * 86400" by (simp add: day_start_secs_def)
  ultimately show "fst (run_once (\<lambda>_. False) (20820 * 86400) 30 new_year_2027) = None"
    by (simp only: run_once_def Let_def) (auto split: prod.split)
qed (simp_all add: new_year_2027_def day_ok_def LAST_DAY_def)

end
