(* ===== verification/Rollup.thy ===== *)
theory Rollup
  imports Event_Channel
begin

section \<open>The hourly rollup\<close>

text \<open>
  \<open>src/src/rollup.rs\<close>: the job that counts the rows of \<open>events_raw\<close> by hour and dimension into
  \<open>events_rollup\<close> and moves the watermark, hour by hour, each hour in a transaction of its own
  under the role that the row-level policies do not bind. A statement may fail, and a commit
  may be applied although its answer is lost (\<open>Unanswered\<close>). Hours are those of UTC, the
  time zone of the session.
\<close>

subsection \<open>Tables\<close>

record rollup_key =
  rk_hour :: int
  rk_project_id :: string
  rk_kind :: int
  rk_site_id :: int
  rk_zone_id :: int
  rk_flight_id :: int
  rk_ad_id :: int
  rk_creative_id :: int

record rollup_db =
  ru_events :: "event_row list"
  ru_counts :: "rollup_key \<Rightarrow> nat option"
  ru_watermark :: int

text \<open>
  The role of a transaction. No connection of the pool carries a tenant setting here, so the
  policies of the two event tables show the request role no row, and the watermark table has
  no policy that would let it write.
\<close>

datatype db_role = RequestRole | LoaderRole

record rollup_tx =
  rt_role :: db_role
  rt_db :: rollup_db

datatype outcome = Answered | Lost | Unanswered

datatype rollup_stmt =
    RBegin | RSetRole | RReadWatermark | REarliest | RAdvance
  | RAggregate int | RUpdate int | RCommit int

type_synonym network = "rollup_stmt \<Rightarrow> outcome"

definition coalesce0 :: "int option \<Rightarrow> int" where
  "coalesce0 x = (case x of None \<Rightarrow> 0 | Some i \<Rightarrow> i)"

definition event_hour :: "event \<Rightarrow> int" where
  "event_hour e = 3600 * (ev_ts_ms e div 3600000)"

definition key_of :: "event \<Rightarrow> rollup_key" where
  "key_of e =
     \<lparr>rk_hour = event_hour e, rk_project_id = ev_project_id e, rk_kind = kind_code (ev_kind e),
      rk_site_id = coalesce0 (ev_site_id e), rk_zone_id = coalesce0 (ev_zone_id e),
      rk_flight_id = coalesce0 (ev_flight_id e), rk_ad_id = coalesce0 (ev_ad_id e),
      rk_creative_id = coalesce0 (ev_creative_id e)\<rparr>"

definition visible_events :: "rollup_tx \<Rightarrow> event_row list" where
  "visible_events tx = (if rt_role tx = LoaderRole then ru_events (rt_db tx) else [])"

subsection \<open>Statements\<close>

definition set_loader_role :: "network \<Rightarrow> rollup_tx \<Rightarrow> rollup_tx option" where
  "set_loader_role net tx = (if net RSetRole = Answered then Some (tx\<lparr>rt_role := LoaderRole\<rparr>) else None)"

definition begin_tx :: "network \<Rightarrow> rollup_db \<Rightarrow> rollup_tx option" where
  "begin_tx net db = (if net RBegin = Answered then Some \<lparr>rt_role = RequestRole, rt_db = db\<rparr> else None)"

definition commit_tx :: "network \<Rightarrow> int \<Rightarrow> rollup_db \<Rightarrow> rollup_tx \<Rightarrow> bool \<times> rollup_db" where
  "commit_tx net h db tx =
     (case net (RCommit h) of
        Answered \<Rightarrow> (True, rt_db tx)
      | Lost \<Rightarrow> (False, db)
      | Unanswered \<Rightarrow> (False, rt_db tx))"

definition in_hour :: "int \<Rightarrow> int \<Rightarrow> event_row \<Rightarrow> bool" where
  "in_hour hour_start hour_end r \<longleftrightarrow> \<not> er_is_duplicate r
     \<and> 1000 * hour_start \<le> ev_ts_ms (er_event r) \<and> ev_ts_ms (er_event r) < 1000 * hour_end"

definition group_count :: "event_row list \<Rightarrow> rollup_key \<Rightarrow> nat" where
  "group_count rows k = length (filter (\<lambda>r. key_of (er_event r) = k) rows)"

text \<open>\<open>INSERT \<dots> SELECT \<dots> GROUP BY \<dots> ON CONFLICT DO UPDATE SET count = EXCLUDED.count\<close>.\<close>

definition aggregate_hour :: "network \<Rightarrow> rollup_tx \<Rightarrow> int \<Rightarrow> int \<Rightarrow> (nat \<times> rollup_tx) option" where
  "aggregate_hour net tx hour_start hour_end =
     (if net (RAggregate hour_start) \<noteq> Answered then None
      else
        (let rows = filter (in_hour hour_start hour_end) (visible_events tx);
             counts = (\<lambda>k. if group_count rows k = 0 then ru_counts (rt_db tx) k
                            else Some (group_count rows k))
         in Some (length (remdups (map (\<lambda>r. key_of (er_event r)) rows)),
                  tx\<lparr>rt_db := (rt_db tx)\<lparr>ru_counts := counts\<rparr>\<rparr>)))"

definition update_watermark :: "rollup_tx \<Rightarrow> int \<Rightarrow> rollup_tx" where
  "update_watermark tx to =
     (if rt_role tx = LoaderRole then tx\<lparr>rt_db := (rt_db tx)\<lparr>ru_watermark := to\<rparr>\<rparr> else tx)"

subsection \<open>Transactions\<close>

text \<open>The watermark table is readable for every session with an org setting; the loader reads it.\<close>

definition read_watermark :: "network \<Rightarrow> rollup_db \<Rightarrow> int option" where
  "read_watermark net db =
     (case begin_tx net db of None \<Rightarrow> None
      | Some tx \<Rightarrow>
          (case set_loader_role net tx of None \<Rightarrow> None
           | Some tx \<Rightarrow>
               (if net RReadWatermark \<noteq> Answered \<or> rt_role tx \<noteq> LoaderRole \<or> net (RCommit 0) \<noteq> Answered
                then None else Some (ru_watermark (rt_db tx)))))"

definition earliest_event_hour :: "network \<Rightarrow> rollup_db \<Rightarrow> int option option" where
  "earliest_event_hour net db =
     (case begin_tx net db of None \<Rightarrow> None
      | Some tx \<Rightarrow>
          (case set_loader_role net tx of None \<Rightarrow> None
           | Some tx \<Rightarrow>
               (if net REarliest \<noteq> Answered \<or> net (RCommit 0) \<noteq> Answered then None
                else
                  (case map (\<lambda>r. ev_ts_ms (er_event r)) (visible_events tx) of
                     [] \<Rightarrow> Some None
                   | t # ts \<Rightarrow> Some (Some (3600 * (foldr min ts t div 3600000)))))))"

definition advance_watermark_to :: "network \<Rightarrow> rollup_db \<Rightarrow> int \<Rightarrow> bool \<times> rollup_db" where
  "advance_watermark_to net db to_secs =
     (case begin_tx net db of None \<Rightarrow> (False, db)
      | Some tx \<Rightarrow>
          (case set_loader_role net tx of None \<Rightarrow> (False, db)
           | Some tx \<Rightarrow>
               (if net RAdvance \<noteq> Answered then (False, db)
                else commit_tx net to_secs db (update_watermark tx to_secs))))"

definition aggregate_and_advance ::
  "network \<Rightarrow> rollup_db \<Rightarrow> int \<Rightarrow> int \<Rightarrow> nat option \<times> rollup_db" where
  "aggregate_and_advance net db hour_start hour_end =
     (case begin_tx net db of None \<Rightarrow> (None, db)
      | Some tx \<Rightarrow>
          (case set_loader_role net tx of None \<Rightarrow> (None, db)
           | Some tx \<Rightarrow>
               (case aggregate_hour net tx hour_start hour_end of None \<Rightarrow> (None, db)
                | Some (aggregated, tx) \<Rightarrow>
                    (if net (RUpdate hour_end) \<noteq> Answered then (None, db)
                     else
                       (case commit_tx net hour_end db (update_watermark tx hour_end) of
                          (ok, db') \<Rightarrow> (if ok then Some aggregated else None, db'))))))"

subsection \<open>The pass\<close>

definition COLD_START_GAP_SECS :: int where "COLD_START_GAP_SECS = 60 * 24 * 3600"

function catch_up :: "network \<Rightarrow> rollup_db \<Rightarrow> int \<Rightarrow> int \<Rightarrow> int option \<times> rollup_db" where
  "catch_up net db wm target =
     (if wm < target then
        (let hour_end = wm + 3600
         in case aggregate_and_advance net db wm hour_end of
              (None, db') \<Rightarrow> (None, db')
            | (Some _, db') \<Rightarrow> catch_up net db' hour_end target)
      else (Some wm, db))"
  by pat_completeness auto

termination by (relation "measure (\<lambda>(net, db, wm, target). nat (target - wm))") auto

declare catch_up.simps [simp del]

definition rollup_target :: "int \<Rightarrow> int" where
  "rollup_target now_secs = now_secs - now_secs mod 3600 - 3600"

text \<open>\<open>run_once\<close>: the new watermark, or \<open>None\<close> for an error.\<close>

definition rollup_once :: "network \<Rightarrow> int \<Rightarrow> rollup_db \<Rightarrow> int option \<times> rollup_db" where
  "rollup_once net now_secs db =
     (case read_watermark net db of
        None \<Rightarrow> (None, db)
      | Some wm \<Rightarrow>
          (let target = rollup_target now_secs
           in if target - wm > COLD_START_GAP_SECS then
                (case earliest_event_hour net db of
                   None \<Rightarrow> (None, db)
                 | Some (Some earliest) \<Rightarrow> catch_up net db (max wm earliest) target
                 | Some None \<Rightarrow>
                     (case advance_watermark_to net db target of
                        (ok, db') \<Rightarrow> (if ok then Some target else None, db')))
              else catch_up net db wm target))"

text \<open>The hourly task: the leader runs a pass and, when it succeeds, records a tick.\<close>

definition rollup_tick :: "network \<Rightarrow> bool \<Rightarrow> int \<Rightarrow> rollup_db \<Rightarrow> bool \<times> rollup_db" where
  "rollup_tick net is_leader now_secs db =
     (if \<not> is_leader then (False, db)
      else (case rollup_once net now_secs db of (r, db') \<Rightarrow> (r \<noteq> None, db')))"

subsection \<open>The counts that should be there\<close>

definition true_count :: "event_row list \<Rightarrow> rollup_key \<Rightarrow> nat" where
  "true_count rows k = length (filter (\<lambda>r. \<not> er_is_duplicate r \<and> key_of (er_event r) = k) rows)"

text \<open>Below the watermark the table has the counts of the rows, from the watermark on nothing.\<close>

definition rollup_ok :: "rollup_db \<Rightarrow> bool" where
  "rollup_ok db \<longleftrightarrow> ru_watermark db mod 3600 = 0
     \<and> (\<forall>k. ru_counts db k =
          (if rk_hour k < ru_watermark db \<and> true_count (ru_events db) k \<noteq> 0
           then Some (true_count (ru_events db) k) else None))"

definition fresh_rollup :: "event_row list \<Rightarrow> rollup_db" where
  "fresh_rollup rows = \<lparr>ru_events = rows, ru_counts = (\<lambda>k. None), ru_watermark = 0\<rparr>"

subsection \<open>One hour\<close>

lemma event_hour_in:
  fixes s t :: int
  assumes "s mod 3600 = 0"
  shows "1000 * s \<le> t \<and> t < 1000 * (s + 3600) \<longleftrightarrow> 3600 * (t div 3600000) = s"
proof -
  obtain h where s: "s = 3600 * h" using assms by (auto elim: dvdE simp: mod_eq_0_iff_dvd)
  have "1000 * s \<le> t \<and> t < 1000 * (s + 3600) \<longleftrightarrow> h * 3600000 \<le> t \<and> t < (h + 1) * 3600000"
    unfolding s by (simp add: algebra_simps)
  also have "\<dots> \<longleftrightarrow> t div 3600000 = h"
  proof
    assume "h * 3600000 \<le> t \<and> t < (h + 1) * 3600000"
    then show "t div 3600000 = h"
      by (intro int_div_pos_eq [of t 3600000 h "t - h * 3600000"]) simp_all
  next
    assume "t div 3600000 = h"
    then have "t = h * 3600000 + t mod 3600000" using div_mult_mod_eq [of t 3600000] by simp
    then obtain r where "t = h * 3600000 + r" "0 \<le> r" "r < 3600000"
      using pos_mod_bound [of 3600000 t] pos_mod_sign [of 3600000 t] by (metis zero_less_numeral)
    then show "h * 3600000 \<le> t \<and> t < (h + 1) * 3600000" by simp
  qed
  finally show ?thesis by (simp add: s)
qed

lemma in_hour_iff:
  "s mod 3600 = 0 \<Longrightarrow> in_hour s (s + 3600) r \<longleftrightarrow> \<not> er_is_duplicate r \<and> event_hour (er_event r) = s"
  using event_hour_in [of s "ev_ts_ms (er_event r)"] by (auto simp: in_hour_def event_hour_def)

lemma group_count_hour:
  assumes "s mod 3600 = 0"
  shows "group_count (filter (in_hour s (s + 3600)) rows) k = (if rk_hour k = s then true_count rows k else 0)"
proof -
  have "filter (\<lambda>r. key_of (er_event r) = k) (filter (in_hour s (s + 3600)) rows)
      = (if rk_hour k = s then filter (\<lambda>r. \<not> er_is_duplicate r \<and> key_of (er_event r) = k) rows else [])"
    using assms by (induction rows) (auto simp: in_hour_iff key_of_def)
  then show ?thesis by (simp add: group_count_def true_count_def)
qed

definition hour_done :: "rollup_db \<Rightarrow> int \<Rightarrow> rollup_db" where
  "hour_done db s = db\<lparr>ru_counts := (\<lambda>k. if rk_hour k = s \<and> true_count (ru_events db) k \<noteq> 0
       then Some (true_count (ru_events db) k) else ru_counts db k),
     ru_watermark := s + 3600\<rparr>"

lemma aggregate_hour_loader:
  assumes "s mod 3600 = 0" and "net (RAggregate s) = Answered" and "rt_role tx = LoaderRole"
  shows "\<exists>n. aggregate_hour net tx s (s + 3600)
    = Some (n, tx\<lparr>rt_db := (rt_db tx)\<lparr>ru_counts := ru_counts (hour_done (rt_db tx) s)\<rparr>\<rparr>)"
proof -
  have "(\<lambda>k. if group_count (filter (in_hour s (s + 3600)) (ru_events (rt_db tx))) k = 0
        then ru_counts (rt_db tx) k
        else Some (group_count (filter (in_hour s (s + 3600)) (ru_events (rt_db tx))) k))
      = ru_counts (hour_done (rt_db tx) s)"
    by (simp add: group_count_hour [OF assms(1)] hour_done_def fun_eq_iff)
  then show ?thesis using assms(2,3) by (simp add: aggregate_hour_def visible_events_def Let_def)
qed

lemma aggregate_and_advance_cases:
  assumes "s mod 3600 = 0" and "aggregate_and_advance net db s (s + 3600) = (r, db')"
  shows "db' = hour_done db s \<or> r = None \<and> db' = db"
proof (cases "net RBegin = Answered \<and> net RSetRole = Answered \<and> net (RAggregate s) = Answered")
  case True
  let ?tx = "\<lparr>rt_role = LoaderRole, rt_db = db\<rparr>"
  obtain n where "aggregate_hour net ?tx s (s + 3600)
      = Some (n, \<lparr>rt_role = LoaderRole, rt_db = db\<lparr>ru_counts := ru_counts (hour_done db s)\<rparr>\<rparr>)"
    using aggregate_hour_loader [of s net ?tx] assms(1) True by auto
  moreover have "db\<lparr>ru_counts := ru_counts (hour_done db s), ru_watermark := s + 3600\<rparr> = hour_done db s"
    by (simp add: hour_done_def)
  ultimately show ?thesis
    using assms(2) True
    by (auto simp: aggregate_and_advance_def begin_tx_def set_loader_role_def update_watermark_def
        commit_tx_def split: if_splits outcome.splits)
next
  case False
  with assms(2) show ?thesis
    by (auto simp: aggregate_and_advance_def begin_tx_def set_loader_role_def aggregate_hour_def
        split: if_splits)
qed

lemma aggregate_and_advance_answered:
  assumes "s mod 3600 = 0" and "\<And>q. net q = Answered"
  shows "\<exists>n. aggregate_and_advance net db s (s + 3600) = (Some n, hour_done db s)"
proof -
  obtain r db' where a: "aggregate_and_advance net db s (s + 3600) = (r, db')"
    by (cases "aggregate_and_advance net db s (s + 3600)")
  have "r \<noteq> None"
    using a by (auto simp: aggregate_and_advance_def begin_tx_def set_loader_role_def aggregate_hour_def
        assms(2) commit_tx_def Let_def)
  with aggregate_and_advance_cases [OF assms(1) a] a show ?thesis by auto
qed

text \<open>No countable row lies between the watermark and \<open>wm\<close>.\<close>

definition gap_empty :: "rollup_db \<Rightarrow> int \<Rightarrow> bool" where
  "gap_empty db wm \<longleftrightarrow> ru_watermark db \<le> wm \<and>
     (\<forall>r \<in> set (ru_events db). \<not> er_is_duplicate r
        \<longrightarrow> \<not> (ru_watermark db \<le> event_hour (er_event r) \<and> event_hour (er_event r) < wm))"

lemma true_count_0:
  "true_count rows k = 0 \<longleftrightarrow> (\<forall>r \<in> set rows. \<not> er_is_duplicate r \<longrightarrow> key_of (er_event r) \<noteq> k)"
  by (auto simp: true_count_def filter_empty_conv)

lemma gap_empty_count:
  "gap_empty db wm \<Longrightarrow> ru_watermark db \<le> rk_hour k \<Longrightarrow> rk_hour k < wm \<Longrightarrow> true_count (ru_events db) k = 0"
  by (auto simp: gap_empty_def true_count_0 key_of_def)

lemma key_hour_aligned: "true_count rows k \<noteq> 0 \<Longrightarrow> rk_hour k mod 3600 = 0"
  by (auto simp: true_count_0 key_of_def event_hour_def)

lemma aligned_less: "a mod 3600 = 0 \<Longrightarrow> b mod 3600 = 0 \<Longrightarrow> a < b \<Longrightarrow> a + 3600 \<le> (b :: int)"
proof -
  assume "a mod 3600 = 0" "b mod 3600 = 0" "a < b"
  then obtain x y where "a = 3600 * x" "b = 3600 * y" by (auto elim!: dvdE simp: mod_eq_0_iff_dvd)
  with \<open>a < b\<close> have "x + 1 \<le> y" by simp
  then have "3600 * (x + 1) \<le> 3600 * y" by (rule mult_left_mono) simp
  with \<open>a = 3600 * x\<close> \<open>b = 3600 * y\<close> show ?thesis by simp
qed

lemma hour_done_ok:
  assumes "rollup_ok db" "wm mod 3600 = 0" "gap_empty db wm"
  shows "rollup_ok (hour_done db wm)" "gap_empty (hour_done db wm) (wm + 3600)"
    "ru_events (hour_done db wm) = ru_events db" "ru_watermark (hour_done db wm) = wm + 3600"
proof -
  have le: "ru_watermark db \<le> wm" using assms(3) by (simp add: gap_empty_def)
  have "ru_counts (hour_done db wm) k
      = (if rk_hour k < wm + 3600 \<and> true_count (ru_events db) k \<noteq> 0 then Some (true_count (ru_events db) k) else None)"
    for k
  proof (cases "true_count (ru_events db) k = 0")
    case True
    then show ?thesis using assms(1) by (simp add: hour_done_def rollup_ok_def)
  next
    case False
    then have "rk_hour k < wm + 3600 \<longleftrightarrow> rk_hour k \<le> wm"
      using aligned_less [OF assms(2) key_hour_aligned [OF False]] by linarith
    moreover have "rk_hour k < wm \<Longrightarrow> rk_hour k < ru_watermark db"
      using gap_empty_count [OF assms(3)] False by (metis linorder_not_less)
    ultimately show ?thesis using assms(1) False le by (auto simp: hour_done_def rollup_ok_def)
  qed
  moreover have "(wm + 3600) mod 3600 = 0" using assms(2) by simp
  ultimately show "rollup_ok (hour_done db wm)"
    by (simp add: rollup_ok_def) (simp add: hour_done_def)
qed (simp_all add: hour_done_def gap_empty_def)

subsection \<open>The loop\<close>

lemma catch_up_ok:
  assumes "catch_up net db wm target = (r, db')"
    and "rollup_ok db" "wm mod 3600 = 0" "target mod 3600 = 0" "gap_empty db wm"
  shows "rollup_ok db' \<and> ru_events db' = ru_events db \<and> ru_watermark db \<le> ru_watermark db'
    \<and> (ru_watermark db' = ru_watermark db \<or> ru_watermark db' \<le> target)
    \<and> (\<forall>w. r = Some w \<longrightarrow> target \<le> w \<and> gap_empty db' w)"
  using assms(1,2,3,5)
proof (induction "nat (target - wm)" arbitrary: db wm rule: less_induct)
  case less
  show ?case
  proof (cases "wm < target")
    case False
    with less.prems show ?thesis by (subst (asm) catch_up.simps) auto
  next
    case True
    obtain a db1 where a: "aggregate_and_advance net db wm (wm + 3600) = (a, db1)"
      by (cases "aggregate_and_advance net db wm (wm + 3600)")
    have le: "ru_watermark db \<le> wm" using less.prems(4) by (simp add: gap_empty_def)
    have to: "wm + 3600 \<le> target" using aligned_less [OF less.prems(3) assms(4) True] .
    note hd = hour_done_ok [OF less.prems(2,3,4)]
    show ?thesis
    proof (cases a)
      case None
      then have "r = None" "db' = db1" using less.prems(1) a True by (subst (asm) catch_up.simps, simp)+
      with aggregate_and_advance_cases [OF less.prems(3) a] hd le to less.prems show ?thesis by auto
    next
      case (Some n)
      then have db1: "db1 = hour_done db wm" using aggregate_and_advance_cases [OF less.prems(3) a] by simp
      have run: "catch_up net (hour_done db wm) (wm + 3600) target = (r, db')"
        using less.prems(1) a True Some db1 by (subst (asm) catch_up.simps) simp
      have "nat (target - (wm + 3600)) < nat (target - wm)" "(wm + 3600) mod 3600 = 0"
        using True less.prems(3) by simp_all
      from less.hyps [OF this(1) run hd(1) this(2) hd(2)] hd(3,4) le to show ?thesis by auto
    qed
  qed
qed

lemma catch_up_answered:
  assumes "\<And>q. net q = Answered"
  shows "wm mod 3600 = 0 \<Longrightarrow> fst (catch_up net db wm target) \<noteq> None"
proof (induction "nat (target - wm)" arbitrary: db wm rule: less_induct)
  case less
  show ?case
  proof (cases "wm < target")
    case True
    obtain n where a: "aggregate_and_advance net db wm (wm + 3600) = (Some n, hour_done db wm)"
      using aggregate_and_advance_answered [of wm net db, OF less.prems assms] by blast
    have "fst (catch_up net (hour_done db wm) (wm + 3600) target) \<noteq> None"
      by (rule less.hyps) (use True less.prems in auto)
    with a True show ?thesis by (subst catch_up.simps) simp
  qed (subst catch_up.simps, simp)
qed

subsection \<open>The pass\<close>

lemma foldr_min_le: "x \<in> set (t # ts) \<Longrightarrow> foldr min ts t \<le> (x :: int)"
  by (induction ts) auto

lemma earliest_event_hourD:
  assumes "earliest_event_hour net db = Some e"
  shows "e = None \<Longrightarrow> ru_events db = []"
    and "e = Some h \<Longrightarrow> h mod 3600 = 0 \<and> (\<forall>r \<in> set (ru_events db). h \<le> event_hour (er_event r))"
proof -
  have *: "(case map (\<lambda>r. ev_ts_ms (er_event r)) (ru_events db) of [] \<Rightarrow> Some None
      | t # ts \<Rightarrow> Some (Some (3600 * (foldr min ts t div 3600000)))) = Some e"
    using assms
    by (auto simp: earliest_event_hour_def begin_tx_def set_loader_role_def visible_events_def split: if_splits)
  show "e = None \<Longrightarrow> ru_events db = []"
    using * by (auto split: list.splits)
  show "h mod 3600 = 0 \<and> (\<forall>r \<in> set (ru_events db). h \<le> event_hour (er_event r))" if "e = Some h"
  proof -
    from * that obtain t ts where ts: "map (\<lambda>r. ev_ts_ms (er_event r)) (ru_events db) = t # ts"
      and h: "h = 3600 * (foldr min ts t div 3600000)"
      by (auto split: list.splits)
    have "foldr min ts t \<le> ev_ts_ms (er_event r)" if "r \<in> set (ru_events db)" for r
    proof (rule foldr_min_le)
      show "ev_ts_ms (er_event r) \<in> set (t # ts)" using that unfolding ts [symmetric] by simp
    qed
    then show ?thesis by (auto simp: h event_hour_def zdiv_mono1)
  qed
qed

lemma read_watermarkD: "read_watermark net db = Some wm \<Longrightarrow> wm = ru_watermark db"
  by (auto simp: read_watermark_def begin_tx_def set_loader_role_def split: if_splits)

lemma target_aligned: "rollup_target now mod 3600 = 0"
  by (simp add: rollup_target_def mod_diff_eq minus_mod_eq_mult_div)

lemma rollup_once_cases [consumes 1, case_names failed empty loop]:
  assumes "rollup_once net now db = (r, db')"
  obtains (failed) "r = None" "db' = db"
  | (empty) "ru_events db = []" "ru_watermark db < rollup_target now"
      "db' = db\<lparr>ru_watermark := rollup_target now\<rparr> \<or> r = None \<and> db' = db"
      "r = None \<or> r = Some (rollup_target now)"
  | (loop) wm where "catch_up net db wm (rollup_target now) = (r, db')" "ru_watermark db \<le> wm"
      "ru_watermark db mod 3600 = 0 \<Longrightarrow> wm mod 3600 = 0" "gap_empty db wm"
proof (cases "read_watermark net db")
  case None
  with assms failed show ?thesis by (auto simp: rollup_once_def)
next
  case (Some wm)
  then have wm: "wm = ru_watermark db" by (rule read_watermarkD)
  show ?thesis
  proof (cases "rollup_target now - wm > COLD_START_GAP_SECS")
    case False
    with assms Some loop [of wm] wm show ?thesis by (simp add: rollup_once_def gap_empty_def)
  next
    case cold: True
    show ?thesis
    proof (cases "earliest_event_hour net db")
      case None
      with assms Some cold failed show ?thesis by (simp add: rollup_once_def)
    next
      case e: (Some e)
      show ?thesis
      proof (cases e)
        case None
        then have "ru_events db = []" using earliest_event_hourD(1) [OF e] by simp
        moreover have "ru_watermark db < rollup_target now"
          using cold wm by (simp add: COLD_START_GAP_SECS_def)
        ultimately show ?thesis
          using assms Some cold e None
          by (intro empty)
             (auto simp: rollup_once_def Let_def advance_watermark_to_def begin_tx_def set_loader_role_def
                commit_tx_def update_watermark_def split: if_splits outcome.splits)
      next
        case h: (Some h)
        note hD = earliest_event_hourD(2) [OF e h]
        have "gap_empty db (max wm h)" using hD wm by (auto simp: gap_empty_def max_def)
        with assms Some cold e h hD wm show ?thesis
          by (intro loop [of "max wm h"]) (auto simp: rollup_once_def max_def)
      qed
    qed
  qed
qed

lemma rollup_once_ok:
  assumes "rollup_once net now db = (r, db')" and "rollup_ok db"
  shows "rollup_ok db' \<and> ru_events db' = ru_events db \<and> ru_watermark db \<le> ru_watermark db'
    \<and> (ru_watermark db' = ru_watermark db \<or> ru_watermark db' \<le> rollup_target now)
    \<and> (\<forall>w. r = Some w \<longrightarrow> rollup_target now \<le> w \<and> gap_empty db' w)"
  using assms(1)
proof (cases rule: rollup_once_cases)
  case failed
  with assms(2) show ?thesis by simp
next
  case empty
  have "true_count [] k = 0" for k by (simp add: true_count_def)
  with assms(2) empty show ?thesis
    by (auto simp: rollup_ok_def gap_empty_def target_aligned)
next
  case (loop wm)
  from assms(2) have "ru_watermark db mod 3600 = 0" by (simp add: rollup_ok_def)
  from catch_up_ok [OF loop(1) assms(2) loop(3) [OF this] target_aligned loop(4)] show ?thesis .
qed

text \<open>
  C20: The rollup invariant survives every pass, whatever statement or commit the network loses:
  the table has the exact counts of the countable rows below the watermark and nothing beyond,
  and the watermark never goes back nor past the last settled hour.
\<close>

theorem rollup_keeps_exact_counts:
  assumes "rollup_ok db"
  shows "case rollup_once net now db of (r, db') \<Rightarrow>
     rollup_ok db' \<and> ru_events db' = ru_events db \<and> ru_watermark db \<le> ru_watermark db'
     \<and> (ru_watermark db' = ru_watermark db \<or> ru_watermark db' \<le> rollup_target now)"
  using rollup_once_ok [OF _ assms] by (auto split: prod.split)

text \<open>
  C21: A pass that succeeds has every settled hour in the table with its exact counts, and when
  the network answers every statement the pass does succeed, however far the watermark is
  behind.
\<close>

theorem rollup_complete:
  assumes "rollup_ok db"
  shows "(fst (rollup_once net now db) \<noteq> None \<longrightarrow>
       (\<forall>k. rk_hour k < rollup_target now \<longrightarrow>
          ru_counts (snd (rollup_once net now db)) k
            = (if true_count (ru_events db) k = 0 then None else Some (true_count (ru_events db) k))))
     \<and> ((\<forall>q. net q = Answered) \<longrightarrow> fst (rollup_once net now db) \<noteq> None)"
proof -
  obtain r db' where run: "rollup_once net now db = (r, db')" by (cases "rollup_once net now db")
  note ok = rollup_once_ok [OF run assms]
  have "ru_counts db' k = (if true_count (ru_events db) k = 0 then None else Some (true_count (ru_events db) k))"
    if "r = Some w" "rk_hour k < rollup_target now" for k w
  proof (cases "rk_hour k < ru_watermark db'")
    case False
    with ok that have "true_count (ru_events db') k = 0"
      by (intro gap_empty_count [of db' w]) auto
    with ok show ?thesis by (simp add: rollup_ok_def)
  qed (use ok in \<open>simp add: rollup_ok_def\<close>)
  moreover have "r \<noteq> None" if net: "\<forall>q. net q = Answered"
  proof -
    have wm0: "ru_watermark db mod 3600 = 0" using assms by (simp add: rollup_ok_def)
    have rd: "read_watermark net db = Some (ru_watermark db)"
      using net by (simp add: read_watermark_def begin_tx_def set_loader_role_def)
    have "earliest_event_hour net db \<noteq> None"
      using net by (simp add: earliest_event_hour_def begin_tx_def set_loader_role_def split: list.split)
    then obtain e where e: "earliest_event_hour net db = Some e" by blast
    have cu: "x \<noteq> None" if "catch_up net db wm (rollup_target now) = (x, y)" "3600 dvd wm" for wm x y
      using catch_up_answered [of net wm db "rollup_target now"] net that by (simp add: mod_eq_0_iff_dvd)
    from run rd e wm0 earliest_event_hourD(2) [OF e] net show ?thesis
      by (auto simp: rollup_once_def Let_def advance_watermark_to_def begin_tx_def set_loader_role_def
          commit_tx_def max_def dest: cu split: if_splits option.splits)
  qed
  ultimately show ?thesis using run by auto
qed

subsection \<open>Rows that come later\<close>

lemma catch_up_frozen:
  "catch_up net db wm target = (r, db') \<Longrightarrow> wm mod 3600 = 0 \<Longrightarrow> rk_hour k < wm
    \<Longrightarrow> ru_counts db' k = ru_counts db k"
proof (induction "nat (target - wm)" arbitrary: db wm rule: less_induct)
  case less
  show ?case
  proof (cases "wm < target")
    case False
    with less.prems show ?thesis by (subst (asm) catch_up.simps) auto
  next
    case True
    obtain a db1 where a: "aggregate_and_advance net db wm (wm + 3600) = (a, db1)"
      by (cases "aggregate_and_advance net db wm (wm + 3600)")
    have same: "ru_counts db1 k = ru_counts db k"
      using aggregate_and_advance_cases [OF less.prems(2) a] less.prems(3) by (auto simp: hour_done_def)
    show ?thesis
    proof (cases a)
      case None
      with less.prems(1) a True same show ?thesis by (subst (asm) catch_up.simps) simp
    next
      case (Some n)
      then have "catch_up net db1 (wm + 3600) target = (r, db')"
        using less.prems(1) a True by (subst (asm) catch_up.simps) simp
      from less.hyps [OF _ this] True less.prems same show ?thesis by simp
    qed
  qed
qed

text \<open>
  A closed hour is final: whatever rows reach \<open>events_raw\<close> after the watermark has passed
  their hour, no later pass changes a count of that hour.
\<close>

theorem closed_hours_are_final:
  assumes "ru_watermark db mod 3600 = 0" and "rk_hour k < ru_watermark db"
  shows "ru_counts (snd (rollup_once net now db)) k = ru_counts db k"
proof -
  obtain r db' where run: "rollup_once net now db = (r, db')" by (cases "rollup_once net now db")
  then have "ru_counts db' k = ru_counts db k"
  proof (cases rule: rollup_once_cases)
    case (loop wm)
    with catch_up_frozen [OF loop(1)] assms show ?thesis by simp
  qed auto
  with run show ?thesis by simp
qed

lemma insert_event_count:
  assumes "insert_event hp rows e = Some rows'" and "rk_hour k < h" "h \<le> event_hour e"
  shows "true_count rows' k = true_count rows k"
proof -
  have "true_count (map (\<lambda>r. if key_conflict r e then r\<lparr>er_is_duplicate := True\<rparr> else r) rows) k = true_count rows k"
  proof (induction rows)
    case (Cons r rows)
    have "event_hour (er_event r) = event_hour e" if "key_conflict r e"
      using that by (auto simp: key_conflict_def event_key_def event_hour_def)
    with assms(2,3) Cons show ?case by (auto simp: true_count_def key_of_def)
  qed simp
  moreover have "true_count (rows @ [\<lparr>er_event = e, er_is_duplicate = d\<rparr>]) k = true_count rows k" for d
    using assms(2,3) by (auto simp: true_count_def key_of_def)
  ultimately show ?thesis using assms(1) by (auto simp: insert_event_def split: if_splits)
qed

lemma flush_rows_count:
  "flush_rows fe i rows es = Some rows' \<Longrightarrow> rk_hour k < h \<Longrightarrow> \<forall>e \<in> set es. h \<le> event_hour e
    \<Longrightarrow> true_count rows' k = true_count rows k"
proof (induction es arbitrary: i rows)
  case (Cons e es)
  then obtain r1 where ins: "insert_event (fe_partition fe) rows e = Some r1"
    and rest: "flush_rows fe (Suc i) r1 es = Some rows'"
    by (auto split: if_splits option.splits)
  from Cons.IH [OF rest] Cons.prems(2,3) insert_event_count [OF ins] show ?case by simp
qed simp

text \<open>
  The flusher and the rollup compose: a batch whose events lie at or after the watermark
  keeps the rollup exact, so a pass after it counts them once, duplicates left out.
\<close>

theorem flush_keeps_rollup_exact:
  assumes "rollup_ok db" and "flush_batch fe (ru_events db) es = Some rows'"
    and "\<forall>e \<in> set es. ru_watermark db \<le> event_hour e"
  shows "rollup_ok (db\<lparr>ru_events := rows'\<rparr>)"
proof -
  have "true_count rows' k = true_count (ru_events db) k" if "rk_hour k < ru_watermark db" for k
    using assms(2) flush_rows_count [OF _ that assms(3)]
    by (auto simp: flush_batch_def split: if_splits option.splits)
  with assms(1) show ?thesis by (auto simp: rollup_ok_def)
qed

subsection \<open>At a fresh installation\<close>

lemma fresh_rollup_ok:
  assumes "\<forall>r \<in> set rows. 0 \<le> event_hour (er_event r)"
  shows "rollup_ok (fresh_rollup rows)"
proof -
  have "true_count rows k = 0" if "rk_hour k < 0" for k
    using assms that by (auto simp: true_count_0 key_of_def)
  then show ?thesis by (auto simp: rollup_ok_def fresh_rollup_def)
qed

definition click_at :: "int \<Rightarrow> event_row" where
  "click_at t = \<lparr>er_event = \<lparr>ev_ts_ms = t, ev_org_id = ''o'', ev_project_id = ''p'', ev_kind = Click,
     ev_placement_id = None, ev_site_id = None, ev_zone_id = None, ev_ad_id = Some 7,
     ev_creative_id = Some 3, ev_flight_id = None, ev_campaign_id = None, ev_advertiser_id = None,
     ev_url = None, ev_referrer_host = None, ev_user_agent_hash = None, ev_signature_nonce = None,
     ev_dedup_key = None, ev_snapshot_version = None\<rparr>, er_is_duplicate = False\<rparr>"

definition two_clicks :: rollup_db where
  "two_clicks = fresh_rollup [click_at 5000, click_at 3599000]"

lemma two_clicks_ok: "rollup_ok two_clicks"
  unfolding two_clicks_def by (rule fresh_rollup_ok) (simp add: click_at_def event_hour_def)

definition down_at :: "rollup_stmt \<Rightarrow> network" where
  "down_at s q = (if q = s then Lost else Answered)"

theorem rollup_keeps_exact_counts_witness:
  "rollup_ok (snd (rollup_once (down_at (RUpdate 7200)) 20000 two_clicks))"
  using rollup_keeps_exact_counts [OF two_clicks_ok, where net = "down_at (RUpdate 7200)" and now = 20000]
  by (auto split: prod.splits)

theorem rollup_complete_witness:
  "ru_counts (snd (rollup_once (\<lambda>_. Answered) 20000 two_clicks)) (key_of (er_event (click_at 5000))) = Some 2"
proof -
  have "rk_hour (key_of (er_event (click_at 5000))) < rollup_target 20000"
    by (simp add: key_of_def click_at_def event_hour_def rollup_target_def)
  moreover have "true_count (ru_events two_clicks) (key_of (er_event (click_at 5000))) = 2"
    by (simp add: true_count_def two_clicks_def fresh_rollup_def key_of_def click_at_def event_hour_def)
  ultimately show ?thesis
    using rollup_complete [OF two_clicks_ok, where net = "\<lambda>_. Answered" and now = 20000] by auto
qed

definition key_hour0 :: rollup_key where "key_hour0 = key_of (er_event (click_at 5000))"

theorem closed_hours_are_final_witness:
  "ru_counts (snd (rollup_once (\<lambda>_. Answered) 90000 (two_clicks\<lparr>ru_watermark := 3600\<rparr>))) key_hour0 = None"
proof -
  have "rk_hour key_hour0 < 3600" by (simp add: key_hour0_def key_of_def click_at_def event_hour_def)
  then show ?thesis
    using closed_hours_are_final [of "two_clicks\<lparr>ru_watermark := 3600\<rparr>" key_hour0, where net = "\<lambda>_. Answered" and now = 90000]
    by (simp add: two_clicks_def fresh_rollup_def)
qed

theorem flush_keeps_rollup_exact_witness:
  "rollup_ok (fresh_rollup [click_at 5000])"
proof -
  have "rollup_ok (fresh_rollup [])" by (rule fresh_rollup_ok) simp
  moreover have "flush_batch healthy_flush (ru_events (fresh_rollup [])) [er_event (click_at 5000)] = Some [click_at 5000]"
    by (simp add: flush_batch_def healthy_flush_def insert_event_def fresh_rollup_def click_at_def)
  ultimately have "rollup_ok (fresh_rollup []\<lparr>ru_events := [click_at 5000]\<rparr>)"
    by (rule flush_keeps_rollup_exact) (simp add: click_at_def event_hour_def fresh_rollup_def)
  then show ?thesis by (simp add: fresh_rollup_def)
qed

end
