(* ===== verification/Leader_Election.thy ===== *)
theory Leader_Election
  imports Partition_Manager Rollup
begin

section \<open>Leader election\<close>

text \<open>
  \<open>src/src/leader.rs\<close>: every process races for one advisory lock of Postgres and the leader
  runs the maintenance jobs. The statements of \<open>run_one_session\<close> are the program counters of
  a process; the steps of all processes interleave freely with the clock, with sessions that
  end and with the ticks the jobs record. An advisory lock belongs to a session, counts its
  acquisitions, and is freed when the session ends. A connection that is dropped goes back to
  the pool of its process: its session lives on.
\<close>

subsection \<open>State\<close>

type_synonym process = nat
type_synonym session = "process \<times> nat"

definition WATCHDOG_BUDGET :: int where "WATCHDOG_BUDGET = 4 * 60 * 60"

datatype pc =
    Acquire
  | TryLock session
  | Wait session
  | StoreTrue session
  | FirstTick session
  | Nap session
  | Check session
  | Release session
  | StoreFalse session
  | Probe session
  | Ended
  | Rest

record proc =
  p_pc :: pc
  p_is_leader :: bool
  p_last_tick :: "int option"

record cluster =
  procs :: "process \<Rightarrow> proc"
  lock :: "(session \<times> nat) option"
  alive :: "session \<Rightarrow> bool"
  clock :: int

definition start :: "int \<Rightarrow> cluster" where
  "start t = \<lparr>procs = (\<lambda>p. \<lparr>p_pc = Acquire, p_is_leader = False, p_last_tick = None\<rparr>),
     lock = None, alive = (\<lambda>s. False), clock = t\<rparr>"

definition goto :: "process \<Rightarrow> pc \<Rightarrow> cluster \<Rightarrow> cluster" where
  "goto p c S = S\<lparr>procs := (procs S)(p := (procs S p)\<lparr>p_pc := c\<rparr>)\<rparr>"

definition set_flag :: "process \<Rightarrow> bool \<Rightarrow> cluster \<Rightarrow> cluster" where
  "set_flag p b S = S\<lparr>procs := (procs S)(p := (procs S p)\<lparr>p_is_leader := b\<rparr>)\<rparr>"

definition record_tick :: "process \<Rightarrow> cluster \<Rightarrow> cluster" where
  "record_tick p S = S\<lparr>procs := (procs S)(p := (procs S p)\<lparr>p_last_tick := Some (clock S)\<rparr>)\<rparr>"

subsection \<open>The advisory lock\<close>

definition can_lock :: "session \<Rightarrow> cluster \<Rightarrow> bool" where
  "can_lock s S \<longleftrightarrow> (case lock S of None \<Rightarrow> True | Some (s', n) \<Rightarrow> s' = s)"

definition take_lock :: "session \<Rightarrow> cluster \<Rightarrow> cluster" where
  "take_lock s S = S\<lparr>lock := Some (s, case lock S of None \<Rightarrow> 1 | Some (_, n) \<Rightarrow> Suc n)\<rparr>"

text \<open>\<open>release\<close> gives back one acquisition; a session that does not hold the lock frees nothing.\<close>

definition drop_lock :: "session \<Rightarrow> cluster \<Rightarrow> cluster" where
  "drop_lock s S =
     (case lock S of
        Some (s', n) \<Rightarrow> if s' = s then S\<lparr>lock := if n \<le> 1 then None else Some (s, n - 1)\<rparr> else S
      | None \<Rightarrow> S)"

definition end_session :: "session \<Rightarrow> cluster \<Rightarrow> cluster" where
  "end_session s S =
     S\<lparr>alive := (alive S)(s := False),
       lock := (case lock S of Some (s', n) \<Rightarrow> if s' = s then None else lock S | None \<Rightarrow> None)\<rparr>"

definition overdue :: "process \<Rightarrow> cluster \<Rightarrow> bool" where
  "overdue p S \<longleftrightarrow>
     (let last = (case p_last_tick (procs S p) of None \<Rightarrow> clock S | Some t \<Rightarrow> t)
      in clock S - last > WATCHDOG_BUDGET)"

subsection \<open>Steps\<close>

text \<open>
  A statement is answered when its session lives; it fails at any time, and a failed
  \<open>pg_try_advisory_lock\<close> may still have taken the lock.
\<close>

inductive lstep :: "cluster \<Rightarrow> cluster \<Rightarrow> bool" where
  acquired: "p_pc (procs S p) = Acquire \<Longrightarrow>
    lstep S (goto p (TryLock (p, n)) (S\<lparr>alive := (alive S)((p, n) := True)\<rparr>))"
| acquire_failed: "p_pc (procs S p) = Acquire \<Longrightarrow> lstep S (goto p Ended S)"
| got_lock: "p_pc (procs S p) = TryLock s \<Longrightarrow> alive S s \<Longrightarrow> can_lock s S \<Longrightarrow>
    lstep S (goto p (StoreTrue s) (take_lock s S))"
| lock_taken: "p_pc (procs S p) = TryLock s \<Longrightarrow> alive S s \<Longrightarrow> \<not> can_lock s S \<Longrightarrow>
    lstep S (goto p (Wait s) S)"
| try_failed: "p_pc (procs S p) = TryLock s \<Longrightarrow> lstep S (goto p Ended S)"
| try_unanswered: "p_pc (procs S p) = TryLock s \<Longrightarrow> alive S s \<Longrightarrow> can_lock s S \<Longrightarrow>
    lstep S (goto p Ended (take_lock s S))"
| retry: "p_pc (procs S p) = Wait s \<Longrightarrow> lstep S (goto p (TryLock s) S)"
| became_leader: "p_pc (procs S p) = StoreTrue s \<Longrightarrow> lstep S (goto p (FirstTick s) (set_flag p True S))"
| first_tick: "p_pc (procs S p) = FirstTick s \<Longrightarrow> lstep S (goto p (Nap s) (record_tick p S))"
| woke: "p_pc (procs S p) = Nap s \<Longrightarrow> lstep S (goto p (Check s) S)"
| deadline_passed: "p_pc (procs S p) = Check s \<Longrightarrow> overdue p S \<Longrightarrow> lstep S (goto p (Release s) S)"
| in_time: "p_pc (procs S p) = Check s \<Longrightarrow> \<not> overdue p S \<Longrightarrow> lstep S (goto p (Probe s) S)"
| released: "p_pc (procs S p) = Release s \<Longrightarrow> alive S s \<Longrightarrow> lstep S (goto p (StoreFalse s) (drop_lock s S))"
| release_ignored: "p_pc (procs S p) = Release s \<Longrightarrow> lstep S (goto p (StoreFalse s) S)"
| stepped_down: "p_pc (procs S p) = StoreFalse s \<Longrightarrow> lstep S (goto p Ended (set_flag p False S))"
| probed: "p_pc (procs S p) = Probe s \<Longrightarrow> alive S s \<Longrightarrow> lstep S (goto p (Nap s) S)"
| probe_failed: "p_pc (procs S p) = Probe s \<Longrightarrow> lstep S (goto p Ended S)"
| session_ended: "p_pc (procs S p) = Ended \<Longrightarrow> lstep S (goto p Rest (set_flag p False S))"
| again: "p_pc (procs S p) = Rest \<Longrightarrow> lstep S (goto p Acquire S)"
| connection_lost: "lstep S (end_session s S)"
| job_ticked: "lstep S (record_tick p S)"
| time_passed: "0 < d \<Longrightarrow> lstep S (S\<lparr>clock := clock S + d\<rparr>)"

inductive reach :: "cluster \<Rightarrow> cluster \<Rightarrow> bool" for S0 where
  reach_refl: "reach S0 S0"
| reach_step: "reach S0 S \<Longrightarrow> lstep S S' \<Longrightarrow> reach S0 S'"

lemma reach_trans: "reach b c \<Longrightarrow> reach a b \<Longrightarrow> reach a c"
  by (induction rule: reach.induct) (auto intro: reach_step)

lemmas step_defs = goto_def set_flag_def record_tick_def take_lock_def drop_lock_def end_session_def

subsection \<open>One leader\<close>

text \<open>The session on which a process believes to hold the lock.\<close>

fun held_by :: "pc \<Rightarrow> session option" where
  "held_by (StoreTrue s) = Some s"
| "held_by (FirstTick s) = Some s"
| "held_by (Nap s) = Some s"
| "held_by (Check s) = Some s"
| "held_by (Release s) = Some s"
| "held_by (Probe s) = Some s"
| "held_by _ = None"

fun session_of :: "pc \<Rightarrow> session option" where
  "session_of (TryLock s) = Some s"
| "session_of (Wait s) = Some s"
| "session_of (StoreFalse s) = Some s"
| "session_of c = held_by c"

definition election_inv :: "cluster \<Rightarrow> bool" where
  "election_inv S \<longleftrightarrow>
     (\<forall>p s. session_of (p_pc (procs S p)) = Some s \<longrightarrow> fst s = p)
     \<and> (\<forall>p s. held_by (p_pc (procs S p)) = Some s \<longrightarrow> alive S s \<longrightarrow> (\<exists>n. lock S = Some (s, n)))
     \<and> (\<forall>p. p_is_leader (procs S p) \<longrightarrow>
          (\<exists>s. held_by (p_pc (procs S p)) = Some s \<or> p_pc (procs S p) = StoreFalse s) \<or> p_pc (procs S p) = Ended)
     \<and> (\<forall>s n. lock S = Some (s, n) \<longrightarrow> alive S s)"

lemma election_invI:
  assumes "\<And>p s. session_of (p_pc (procs S p)) = Some s \<Longrightarrow> fst s = p"
    and "\<And>p s. held_by (p_pc (procs S p)) = Some s \<Longrightarrow> alive S s \<Longrightarrow> \<exists>n. lock S = Some (s, n)"
    and "\<And>p. p_is_leader (procs S p) \<Longrightarrow>
          (\<exists>s. held_by (p_pc (procs S p)) = Some s \<or> p_pc (procs S p) = StoreFalse s) \<or> p_pc (procs S p) = Ended"
    and "\<And>s n. lock S = Some (s, n) \<Longrightarrow> alive S s"
  shows "election_inv S"
  using assms unfolding election_inv_def by blast

lemma election_invD:
  assumes "election_inv S"
  shows "session_of (p_pc (procs S p)) = Some s \<Longrightarrow> fst s = p"
    and "held_by (p_pc (procs S p)) = Some s \<Longrightarrow> alive S s \<Longrightarrow> \<exists>n. lock S = Some (s, n)"
    and "p_is_leader (procs S p) \<Longrightarrow>
          (\<exists>s. held_by (p_pc (procs S p)) = Some s \<or> p_pc (procs S p) = StoreFalse s) \<or> p_pc (procs S p) = Ended"
    and "lock S = Some (s, n) \<Longrightarrow> alive S s"
  using assms unfolding election_inv_def by blast+

lemma held_session: "held_by c = Some s \<Longrightarrow> session_of c = Some s"
  by (cases c) simp_all

text \<open>Two steps of a program counter that move neither the lock nor the sessions.\<close>

lemma inv_goto:
  assumes "election_inv S" and "session_of c = None \<or> session_of c = session_of (p_pc (procs S p))"
    and "held_by c = None \<or> held_by c = held_by (p_pc (procs S p))"
    and "p_is_leader (procs S p) \<Longrightarrow> (\<exists>s. held_by c = Some s \<or> c = StoreFalse s) \<or> c = Ended"
  shows "election_inv (goto p c S)"
proof (rule election_invI)
  fix q s
  assume "session_of (p_pc (procs (goto p c S) q)) = Some s"
  then show "fst s = q"
    using assms(1,2) by (cases "q = p") (auto simp: goto_def dest: election_invD(1) election_invD(1) [OF _ sym])
next
  fix q s
  assume "held_by (p_pc (procs (goto p c S) q)) = Some s" "alive (goto p c S) s"
  then show "\<exists>n. lock (goto p c S) = Some (s, n)"
    using assms(1,3) by (cases "q = p") (auto simp: goto_def dest: election_invD(2) election_invD(2) [OF _ sym])
next
  fix q
  assume "p_is_leader (procs (goto p c S) q)"
  then show "(\<exists>s. held_by (p_pc (procs (goto p c S) q)) = Some s \<or> p_pc (procs (goto p c S) q) = StoreFalse s)
      \<or> p_pc (procs (goto p c S) q) = Ended"
    using assms(4) election_invD(3) [OF assms(1), of q] by (cases "q = p") (auto simp: goto_def)
next
  fix s n
  assume "lock (goto p c S) = Some (s, n)"
  then show "alive (goto p c S) s" using assms(1) by (auto simp: goto_def dest: election_invD(4))
qed

lemma inv_unset:
  assumes "election_inv S" "\<not> b \<or> (\<exists>s. held_by (p_pc (procs S p)) = Some s)"
  shows "election_inv (set_flag p b S)"
  using assms unfolding election_inv_def set_flag_def by auto

lemma inv_record_tick: "election_inv S \<Longrightarrow> election_inv (record_tick p S)"
  unfolding election_inv_def record_tick_def by auto

lemma inv_take_lock:
  assumes "election_inv S" "alive S s" "can_lock s S"
  shows "election_inv (take_lock s S)"
  using assms unfolding election_inv_def take_lock_def can_lock_def
  by (auto split: option.splits)

lemma inv_end_session:
  assumes "election_inv S" shows "election_inv (end_session s S)"
  using assms unfolding election_inv_def end_session_def
  by (auto split: option.splits)

lemma inv_drop_lock:
  assumes "election_inv S" "\<And>q. held_by (p_pc (procs S q)) \<noteq> Some s"
  shows "election_inv (drop_lock s S)"
  using assms unfolding election_inv_def drop_lock_def
  by (auto split: option.splits)

lemma procs_simps [simp]:
  "p_pc (procs (goto p c S) q) = (if q = p then c else p_pc (procs S q))"
  "p_is_leader (procs (goto p c S) q) = p_is_leader (procs S q)"
  "p_pc (procs (set_flag p b S) q) = p_pc (procs S q)"
  "p_is_leader (procs (set_flag p b S) q) = (if q = p then b else p_is_leader (procs S q))"
  "p_pc (procs (record_tick p S) q) = p_pc (procs S q)"
  "p_is_leader (procs (record_tick p S) q) = p_is_leader (procs S q)"
  "procs (take_lock s S) = procs S" "procs (end_session s S) = procs S" "procs (drop_lock s S) = procs S"
  "lock (goto p c S) = lock S" "lock (set_flag p b S) = lock S" "lock (record_tick p S) = lock S"
  "alive (goto p c S) = alive S" "alive (set_flag p b S) = alive S" "alive (record_tick p S) = alive S"
  "alive (take_lock s S) = alive S" "alive (drop_lock s S) = alive S"
  by (simp_all add: step_defs split: option.split)

lemma election_inv_start: "election_inv (start t)"
  by (simp add: election_inv_def start_def)

lemma no_flag: "election_inv S \<Longrightarrow> held_by (p_pc (procs S p)) = None \<Longrightarrow> p_pc (procs S p) \<noteq> Ended
    \<Longrightarrow> \<forall>s. p_pc (procs S p) \<noteq> StoreFalse s \<Longrightarrow> \<not> p_is_leader (procs S p)"
  by (auto dest: election_invD(3))

lemma only_holder:
  assumes "election_inv S" "session_of (p_pc (procs S p)) = Some s" "held_by (p_pc (procs S q)) = Some s"
  shows "q = p"
  using election_invD(1) [OF assms(1,2)] election_invD(1) [OF assms(1) held_session [OF assms(3)]] by simp

text \<open>Taking the lock, with or without learning about it.\<close>

lemma inv_lock_to:
  assumes "election_inv S" "p_pc (procs S p) = TryLock s" "alive S s" "can_lock s S"
    and "c = StoreTrue s \<or> c = Ended"
  shows "election_inv (goto p c (take_lock s S))"
proof -
  have inv: "election_inv (take_lock s S)" by (rule inv_take_lock [OF assms(1,3,4)])
  have fst: "fst s = p" using election_invD(1) [OF assms(1)] assms(2) by simp
  have flag: "\<not> p_is_leader (procs S p)" using no_flag [OF assms(1), of p] assms(2) by simp
  have "\<exists>n. lock (take_lock s S) = Some (s, n)" by (simp add: take_lock_def)
  with inv fst flag assms(5) show ?thesis
    unfolding election_inv_def by (auto simp: goto_def)
qed

lemma election_inv_step: "lstep S S' \<Longrightarrow> election_inv S \<Longrightarrow> election_inv S'"
proof (induction rule: lstep.induct)
  case (acquired S p n)
  have flag: "\<not> p_is_leader (procs S p)" using no_flag [OF acquired(2), of p] acquired(1) by simp
  have "\<And>q. held_by (p_pc (procs S q)) = Some (p, n) \<Longrightarrow> q = p"
    using election_invD(1) [OF acquired(2) held_session] by fastforce
  with acquired flag show ?case
    unfolding election_inv_def goto_def by (auto split: if_splits)
next
  case (got_lock S p s)
  then show ?case by (intro inv_lock_to) simp_all
next
  case (try_unanswered S p s)
  then show ?case by (intro inv_lock_to) simp_all
next
  case (became_leader S p s)
  then have "election_inv (set_flag p True S)" by (intro inv_unset) auto
  with became_leader show ?case by (intro inv_goto) auto
next
  case (first_tick S p s)
  then show ?case by (intro inv_goto inv_record_tick) auto
next
  case (released S p s)
  have only: "held_by (p_pc (procs S q)) = Some s \<Longrightarrow> q = p" for q
    using only_holder [OF released(3), of p s q] released(1) by simp
  have "election_inv (goto p (StoreFalse s) S)"
    using released by (intro inv_goto) auto
  then have "election_inv (drop_lock s (goto p (StoreFalse s) S))"
    by (rule inv_drop_lock) (use only in auto)
  moreover have "drop_lock s (goto p (StoreFalse s) S) = goto p (StoreFalse s) (drop_lock s S)"
    by (simp add: goto_def drop_lock_def split: option.split)
  ultimately show ?case by simp
next
  case (stepped_down S p s)
  then show ?case by (intro inv_goto inv_unset) auto
next
  case (session_ended S p)
  then show ?case by (intro inv_goto inv_unset) auto
next
  case (connection_lost s S)
  then show ?case by (intro inv_end_session)
next
  case (job_ticked p S)
  then show ?case by (intro inv_record_tick)
next
  case (time_passed d S)
  then show ?case by (simp add: election_inv_def)
next
  case (acquire_failed S p)
  then show ?case by (intro inv_goto) (auto dest: no_flag)
next
  case (lock_taken S p s)
  then show ?case using no_flag [of S p] by (intro inv_goto) auto
next
  case (try_failed S p s)
  then show ?case by (intro inv_goto) auto
next
  case (retry S p s)
  then show ?case using no_flag [of S p] by (intro inv_goto) auto
next
  case (again S p)
  then show ?case using no_flag [of S p] by (intro inv_goto) auto
qed (intro inv_goto; auto)+

lemma election_inv_reach: "reach (start t) S \<Longrightarrow> election_inv S"
  by (induction rule: reach.induct) (auto intro: election_inv_start election_inv_step)

text \<open>
  C18: There is one leader among the processes whose session lives. In every interleaving of
  the processes with lost connections, failing statements and the clock, two processes that
  are past the lock and not yet told to stop, with their sessions alive, are the same; and a
  process says it is the leader only while it is past the lock or on its way out.
\<close>

theorem one_live_leader:
  assumes "reach (start t) S"
  shows "(held_by (p_pc (procs S p)) = Some s \<and> alive S s
        \<and> held_by (p_pc (procs S q)) = Some s' \<and> alive S s' \<longrightarrow> p = q)
    \<and> (p_is_leader (procs S p) \<longrightarrow>
        (\<exists>s. held_by (p_pc (procs S p)) = Some s \<or> p_pc (procs S p) = StoreFalse s) \<or> p_pc (procs S p) = Ended)"
proof (intro conjI impI)
  note inv = election_inv_reach [OF assms]
  assume h: "held_by (p_pc (procs S p)) = Some s \<and> alive S s
        \<and> held_by (p_pc (procs S q)) = Some s' \<and> alive S s'"
  then have "s = s'" using election_invD(2) [OF inv, of p s] election_invD(2) [OF inv, of q s'] by auto
  with h show "p = q" using only_holder [OF inv held_session, of q s p] by simp
next
  show "p_is_leader (procs S p) \<Longrightarrow>
      (\<exists>s. held_by (p_pc (procs S p)) = Some s \<or> p_pc (procs S p) = StoreFalse s) \<or> p_pc (procs S p) = Ended"
    by (rule election_invD(3) [OF election_inv_reach [OF assms]])
qed

subsection \<open>Taking over\<close>

text \<open>The steps of one process on its way to leadership, when the lock is free.\<close>

definition elected :: "process \<Rightarrow> nat \<Rightarrow> cluster \<Rightarrow> cluster" where
  "elected p n S =
     goto p (Nap (p, n)) (record_tick p (set_flag p True
       (take_lock (p, n) (S\<lparr>alive := (alive S)((p, n) := True)\<rparr>))))"

lemma goto_goto [simp]: "goto p c (goto p c' S) = goto p c S"
  by (simp add: goto_def)

lemma goto_commute:
  "take_lock s (goto p c S) = goto p c (take_lock s S)"
  "set_flag p b (goto p c S) = goto p c (set_flag p b S)"
  "record_tick p (goto p c S) = goto p c (record_tick p S)"
  "drop_lock s (goto p c S) = goto p c (drop_lock s S)"
  by (cases "procs S p"; simp add: step_defs split: option.split)+

lemma reach_one: "lstep S S' \<Longrightarrow> reach S S'"
  by (rule reach_step [OF reach_refl])

lemma can_be_elected:
  assumes "p_pc (procs S p) = Acquire" "lock S = None"
  shows "reach S (elected p n S)"
proof -
  let ?A = "S\<lparr>alive := (alive S)((p, n) := True)\<rparr>"
  let ?L = "take_lock (p, n) ?A"
  have "lstep S (goto p (TryLock (p, n)) ?A)" by (rule acquired) (rule assms(1))
  moreover have "lstep (goto p (TryLock (p, n)) ?A) (goto p (StoreTrue (p, n)) (take_lock (p, n) (goto p (TryLock (p, n)) ?A)))"
    by (rule got_lock) (simp_all add: can_lock_def assms(2))
  moreover have "lstep (goto p (StoreTrue (p, n)) ?L)
      (goto p (FirstTick (p, n)) (set_flag p True (goto p (StoreTrue (p, n)) ?L)))"
    by (rule became_leader) simp
  moreover have "lstep (goto p (FirstTick (p, n)) (set_flag p True ?L))
      (goto p (Nap (p, n)) (record_tick p (goto p (FirstTick (p, n)) (set_flag p True ?L))))"
    by (rule first_tick) simp
  ultimately show ?thesis
    unfolding elected_def goto_commute goto_goto by (meson reach_one reach_trans)
qed

lemma elected_simps:
  "procs (elected p n S) = (procs S)(p := \<lparr>p_pc = Nap (p, n), p_is_leader = True, p_last_tick = Some (clock S)\<rparr>)"
  "alive (elected p n S) = (alive S)((p, n) := True)"
  "lock S = None \<Longrightarrow> lock (elected p n S) = Some ((p, n), 1)" "clock (elected p n S) = clock S"
  by (cases "procs S p"; simp add: elected_def step_defs)+

theorem one_live_leader_witness:
  "p_is_leader (procs (elected 0 0 (start 0)) 0)
   \<and> \<not> (held_by (p_pc (procs (elected 0 0 (start 0)) 1)) = Some (1, 5) \<and> alive (elected 0 0 (start 0)) (1, 5))"
proof -
  let ?S = "elected 0 0 (start 0)"
  have r: "reach (start 0) ?S" by (rule can_be_elected) (simp_all add: start_def)
  have "p_is_leader (procs ?S 0)" "held_by (p_pc (procs ?S 0)) = Some (0, 0)" "alive ?S (0, 0)"
    by (simp_all add: elected_simps)
  with one_live_leader [OF r, of 0 "(0, 0)" 1 "(1, 5)"] show ?thesis by (metis zero_neq_one)
qed

text \<open>
  Two processes can both say that they lead. When the session of the leader ends, Postgres
  frees the lock at once, but the process clears its flag only after its next probe fails, and
  another process may have taken the lock meanwhile.
\<close>

theorem flags_may_overlap:
  assumes "p \<noteq> q"
  shows "\<exists>S. reach (start t) S \<and> p_is_leader (procs S p) \<and> p_is_leader (procs S q)
    \<and> p_pc (procs S p) = Nap (p, 0) \<and> \<not> alive S (p, 0)"
proof -
  define S1 where "S1 = elected p 0 (start t)"
  define S2 where "S2 = end_session (p, 0) S1"
  have r1: "reach (start t) S1" unfolding S1_def by (rule can_be_elected) (simp_all add: start_def)
  have r2: "reach S1 S2" unfolding S2_def by (rule reach_one [OF connection_lost])
  have l2: "lock S2 = None" "p_pc (procs S2 q) = Acquire"
    using assms by (simp_all add: S2_def S1_def end_session_def elected_simps start_def)
  have "reach S2 (elected q 0 S2)" by (rule can_be_elected [OF l2(2,1)])
  then have "reach (start t) (elected q 0 S2)" using r1 r2 by (meson reach_trans)
  moreover have "p_is_leader (procs (elected q 0 S2) p)" "p_pc (procs (elected q 0 S2) p) = Nap (p, 0)"
    "\<not> alive (elected q 0 S2) (p, 0)" "p_is_leader (procs (elected q 0 S2) q)"
    using assms by (simp_all add: elected_simps S2_def S1_def end_session_def)
  ultimately show ?thesis by blast
qed

theorem flags_may_overlap_witness:
  "\<exists>S. reach (start 9) S \<and> p_is_leader (procs S 1) \<and> p_is_leader (procs S 2)"
  using flags_may_overlap [of 1 2 9] by auto

subsection \<open>The watchdog\<close>

text \<open>Once past its deadline, a process leaves leadership at its next check.\<close>

lemma check_step:
  assumes "lstep S S'" "p_pc (procs S p) = Check s" "p_pc (procs S' p) \<noteq> Check s"
  shows "p_pc (procs S' p) = (if overdue p S then Release s else Probe s) \<and> S' = goto p (p_pc (procs S' p)) S"
  using assms by (cases rule: lstep.cases) (auto split: if_splits)

text \<open>
  C19: The watchdog decides exactly. The step that leaves the check goes on to give up the lock
  when the last tick is more than four hours old and to the probe otherwise; and a leader past
  the deadline, with its session alive and the lock held once, can go through to a state in
  which the lock is free, its flag is clear and it races for the lock again: the process
  itself goes on.
\<close>

theorem watchdog_exact:
  "(lstep S S' \<and> p_pc (procs S p) = Check s \<and> p_pc (procs S' p) \<noteq> Check s
        \<and> p_last_tick (procs S p) = Some t
      \<longrightarrow> p_pc (procs S' p) = (if clock S - t > 4 * 60 * 60 then Release s else Probe s))
   \<and> (p_pc (procs S p) = Check s \<and> overdue p S \<and> alive S s \<and> lock S = Some (s, 1)
      \<longrightarrow> (\<exists>T. reach S T \<and> lock T = None \<and> \<not> p_is_leader (procs T p) \<and> p_pc (procs T p) = Acquire))"
proof (intro conjI impI)
  assume "lstep S S' \<and> p_pc (procs S p) = Check s \<and> p_pc (procs S' p) \<noteq> Check s
        \<and> p_last_tick (procs S p) = Some t"
  moreover from this have "overdue p S \<longleftrightarrow> clock S - t > 4 * 60 * 60"
    by (simp add: overdue_def WATCHDOG_BUDGET_def)
  ultimately show "p_pc (procs S' p) = (if clock S - t > 4 * 60 * 60 then Release s else Probe s)"
    using check_step [of S S' p s] by simp
next
  assume a: "p_pc (procs S p) = Check s \<and> overdue p S \<and> alive S s \<and> lock S = Some (s, 1)"
  let ?R = "goto p (Release s) S"
  let ?F = "goto p (StoreFalse s) (drop_lock s ?R)"
  let ?E = "goto p Ended (set_flag p False ?F)"
  let ?Z = "goto p Rest (set_flag p False ?E)"
  have "lstep S ?R" using a by (intro deadline_passed) auto
  moreover have "lstep ?R ?F" using a by (intro released) auto
  moreover have "lstep ?F ?E" by (rule stepped_down) simp
  moreover have "lstep ?E ?Z" by (rule session_ended) simp
  moreover have "lstep ?Z (goto p Acquire ?Z)" by (rule again) simp
  ultimately have "reach S (goto p Acquire ?Z)" by (meson reach_one reach_trans)
  moreover have "lock (goto p Acquire ?Z) = None" using a by (simp add: drop_lock_def)
  ultimately show "\<exists>T. reach S T \<and> lock T = None \<and> \<not> p_is_leader (procs T p) \<and> p_pc (procs T p) = Acquire"
    by (intro exI [of _ "goto p Acquire ?Z"]) simp
qed

definition stalled :: cluster where
  "stalled = (let S = goto 0 (Check (0, 0)) (elected 0 0 (start 0)) in S\<lparr>clock := 20000\<rparr>)"

theorem watchdog_exact_witness:
  "\<exists>T. reach stalled T \<and> lock T = None"
proof -
  have "p_pc (procs stalled 0) = Check (0, 0) \<and> overdue 0 stalled \<and> alive stalled (0, 0)
      \<and> lock stalled = Some ((0, 0), 1)"
    by (simp add: stalled_def Let_def overdue_def elected_simps goto_def start_def WATCHDOG_BUDGET_def)
  then show ?thesis
    using watchdog_exact [of stalled stalled 0 "(0, 0)"] by blast
qed

text \<open>
  A probe that fails while the session lives on leaves the lock with the pooled session:
  the process steps down and races again, and no other session can take the lock.
\<close>

theorem failed_probe_keeps_lock:
  assumes "p_pc (procs S p) = Probe s" "lock S = Some (s, n)"
  shows "\<exists>T. reach S T \<and> p_pc (procs T p) = Acquire \<and> \<not> p_is_leader (procs T p)
    \<and> lock T = Some (s, n) \<and> alive T = alive S \<and> (\<forall>s'. s' \<noteq> s \<longrightarrow> \<not> can_lock s' T)"
proof -
  let ?E = "goto p Ended S"
  let ?Z = "goto p Rest (set_flag p False ?E)"
  have "lstep S ?E" using assms(1) by (rule probe_failed)
  moreover have "lstep ?E ?Z" by (rule session_ended) simp
  moreover have "lstep ?Z (goto p Acquire ?Z)" by (rule again) simp
  ultimately have "reach S (goto p Acquire ?Z)" by (meson reach_one reach_trans)
  then show ?thesis
    using assms(2) by (intro exI [of _ "goto p Acquire ?Z"]) (auto simp: can_lock_def)
qed

definition probing :: cluster where
  "probing = goto 0 (Probe (0, 0)) (elected 0 0 (start 0))"

theorem failed_probe_keeps_lock_witness:
  "\<exists>T. reach probing T \<and> lock T = Some ((0, 0), 1) \<and> \<not> can_lock (1, 3) T"
proof -
  have "p_pc (procs probing 0) = Probe (0, 0)" "lock probing = Some ((0, 0), 1)"
    by (simp_all add: probing_def goto_def elected_simps start_def)
  from failed_probe_keeps_lock [OF this] show ?thesis by force
qed

end
