(* ===== verification/Ad_Selection.thy ===== *)
theory Ad_Selection
  imports Kn_Prelude "HOL-Library.Multiset"
begin

section \<open>Ad selection\<close>

text \<open>
  \<open>src/src/selection.rs\<close>: the filter over flights and ads, the priority tier and the
  weighted random draw without replacement. The generator of the \<open>rand\<close> crate is a
  parameter (\<open>rng\<close>); what the code relies on is that \<open>gen_range(0..n)\<close> returns a
  value in its range (\<open>rng_ok\<close>). Field names carry a prefix per record: \<open>fl_\<close> for
  \<open>Flight\<close>, \<open>ad_\<close> for \<open>Ad\<close>, \<open>pl_\<close> for \<open>Placement\<close>, \<open>bl_\<close> for \<open>BlockSet\<close>.
\<close>

subsection \<open>Data\<close>

record flight =
  fl_id :: int
  fl_campaign_id :: int
  fl_advertiser_id :: int
  fl_priority_tier :: int
  fl_start_ms :: "int option"
  fl_end_ms :: "int option"
  fl_site_ids :: "int list"
  fl_zone_ids :: "int list"
  fl_ad_types :: "int list"
  fl_is_active :: bool

record ad =
  ad_id :: int
  ad_flight_id :: int
  ad_creative_id :: "int option"
  ad_weight :: int
  ad_is_active :: bool

record placement =
  pl_site_id :: int
  pl_zone_ids :: "int list"
  pl_ad_types :: "int list"
  pl_count :: nat

record block_set =
  bl_creative_ids :: "int list"
  bl_advertiser_ids :: "int list"
  bl_campaign_ids :: "int list"

record candidate =
  cand_ad :: ad
  cand_flight :: flight

subsection \<open>Operations\<close>

definition active_at :: "flight \<Rightarrow> int \<Rightarrow> bool" where
  "active_at f now_ms =
     (if (case fl_start_ms f of Some start \<Rightarrow> now_ms < start | None \<Rightarrow> False) then False
      else if (case fl_end_ms f of Some end_ms \<Rightarrow> now_ms > end_ms | None \<Rightarrow> False) then False
      else True)"

definition targets_placement :: "flight \<Rightarrow> placement \<Rightarrow> bool" where
  "targets_placement f p =
     (if fl_site_ids f \<noteq> [] \<and> pl_site_id p \<notin> set (fl_site_ids f) then False
      else if fl_zone_ids f \<noteq> [] \<and> \<not> list_ex (\<lambda>z. z \<in> set (fl_zone_ids f)) (pl_zone_ids p) then False
      else if fl_ad_types f \<noteq> [] \<and> \<not> list_ex (\<lambda>t. t \<in> set (fl_ad_types f)) (pl_ad_types p) then False
      else True)"

fun sel_filter :: "flight list \<Rightarrow> ad list \<Rightarrow> placement \<Rightarrow> block_set \<Rightarrow> int \<Rightarrow> candidate list" where
  "sel_filter [] ads p b now_ms = []"
| "sel_filter (f # fs) ads p b now_ms =
     (if \<not> fl_is_active f then sel_filter fs ads p b now_ms
      else if \<not> active_at f now_ms then sel_filter fs ads p b now_ms
      else if \<not> targets_placement f p then sel_filter fs ads p b now_ms
      else if fl_advertiser_id f \<in> set (bl_advertiser_ids b) then sel_filter fs ads p b now_ms
      else if fl_campaign_id f \<in> set (bl_campaign_ids b) then sel_filter fs ads p b now_ms
      else map (\<lambda>a. \<lparr>cand_ad = a, cand_flight = f\<rparr>)
             (filter (\<lambda>a. ad_is_active a \<and> ad_flight_id a = fl_id f) ads)
           @ sel_filter fs ads p b now_ms)"

definition cand_tier :: "candidate \<Rightarrow> int" where
  "cand_tier c = fl_priority_tier (cand_flight c)"

definition priority :: "candidate list \<Rightarrow> candidate list" where
  "priority cs =
     (case map cand_tier cs of
        [] \<Rightarrow> []
      | t # ts \<Rightarrow> filter (\<lambda>c. cand_tier c = fold min ts t) cs)"

text \<open>The random generator: seeding, and one draw from \<open>0..n\<close> with the next state.\<close>

record 'r rng =
  seed_from_u64 :: "nat \<Rightarrow> 'r"
  gen_range :: "'r \<Rightarrow> int \<Rightarrow> int \<times> 'r"

definition rng_ok :: "'r rng \<Rightarrow> bool" where
  "rng_ok g \<longleftrightarrow> (\<forall>s n. 0 < n \<longrightarrow> 0 \<le> fst (gen_range g s n) \<and> fst (gen_range g s n) < n)"

text \<open>The inner loop: subtract the weights from the roll until it falls into a slot.\<close>

fun scan_roll :: "int list \<Rightarrow> int \<Rightarrow> nat option" where
  "scan_roll [] roll = None"
| "scan_roll (w # ws) roll =
     (if w = 0 then map_option Suc (scan_roll ws roll)
      else if roll < w then Some 0
      else map_option Suc (scan_roll ws (roll - w)))"

text \<open>The outer loop: \<open>target\<close> rounds, each zeroing the slot it chose.\<close>

fun pick_loop :: "'r rng \<Rightarrow> candidate list \<Rightarrow> nat \<Rightarrow> 'r \<Rightarrow> int list \<Rightarrow> candidate list" where
  "pick_loop g cs 0 r weights = []"
| "pick_loop g cs (Suc n) r weights =
     (let total = sum_list weights in
      if total \<le> 0 then []
      else let (roll, r') = gen_range g r total in
        (case scan_roll weights roll of
           None \<Rightarrow> []
         | Some i \<Rightarrow> cs ! i # pick_loop g cs n r' (weights[i := 0])))"

definition weighted_random :: "'r rng \<Rightarrow> candidate list \<Rightarrow> nat \<Rightarrow> nat \<Rightarrow> candidate list" where
  "weighted_random g cs n seed =
     (if cs = [] \<or> n = 0 then []
      else pick_loop g cs (min n (length cs mod 2 ^ 32)) (seed_from_u64 g seed)
             (map (\<lambda>c. max (ad_weight (cand_ad c)) 0) cs))"

subsection \<open>The filter\<close>

text \<open>What a flight has to satisfy, and what a candidate is, as predicates.\<close>

definition flight_eligible :: "flight \<Rightarrow> placement \<Rightarrow> block_set \<Rightarrow> int \<Rightarrow> bool" where
  "flight_eligible f p b now_ms \<longleftrightarrow>
     fl_is_active f
     \<and> (\<forall>t. fl_start_ms f = Some t \<longrightarrow> t \<le> now_ms)
     \<and> (\<forall>t. fl_end_ms f = Some t \<longrightarrow> now_ms \<le> t)
     \<and> (fl_site_ids f = [] \<or> pl_site_id p \<in> set (fl_site_ids f))
     \<and> (fl_zone_ids f = [] \<or> set (pl_zone_ids p) \<inter> set (fl_zone_ids f) \<noteq> {})
     \<and> (fl_ad_types f = [] \<or> set (pl_ad_types p) \<inter> set (fl_ad_types f) \<noteq> {})
     \<and> fl_advertiser_id f \<notin> set (bl_advertiser_ids b)
     \<and> fl_campaign_id f \<notin> set (bl_campaign_ids b)"

lemma active_at_iff:
  "active_at f now_ms \<longleftrightarrow>
     (\<forall>t. fl_start_ms f = Some t \<longrightarrow> t \<le> now_ms) \<and> (\<forall>t. fl_end_ms f = Some t \<longrightarrow> now_ms \<le> t)"
  by (auto simp: active_at_def split: option.splits)

lemma targets_placement_iff:
  "targets_placement f p \<longleftrightarrow>
     (fl_site_ids f = [] \<or> pl_site_id p \<in> set (fl_site_ids f))
     \<and> (fl_zone_ids f = [] \<or> set (pl_zone_ids p) \<inter> set (fl_zone_ids f) \<noteq> {})
     \<and> (fl_ad_types f = [] \<or> set (pl_ad_types p) \<inter> set (fl_ad_types f) \<noteq> {})"
  by (auto simp: targets_placement_def list_ex_iff)

lemma flight_eligible_guards:
  "flight_eligible f p b now_ms \<longleftrightarrow>
     fl_is_active f \<and> active_at f now_ms \<and> targets_placement f p
     \<and> fl_advertiser_id f \<notin> set (bl_advertiser_ids b) \<and> fl_campaign_id f \<notin> set (bl_campaign_ids b)"
  by (auto simp: flight_eligible_def active_at_iff targets_placement_iff)

lemma sel_filter_eq:
  "sel_filter fs ads p b now_ms =
     concat (map (\<lambda>f. map (\<lambda>a. \<lparr>cand_ad = a, cand_flight = f\<rparr>)
                        (filter (\<lambda>a. ad_is_active a \<and> ad_flight_id a = fl_id f) ads))
               (filter (\<lambda>f. flight_eligible f p b now_ms) fs))"
  by (induction fs) (auto simp: flight_eligible_guards)

lemma set_sel_filter:
  "c \<in> set (sel_filter fs ads p b now_ms) \<longleftrightarrow>
     cand_flight c \<in> set fs \<and> cand_ad c \<in> set ads
     \<and> flight_eligible (cand_flight c) p b now_ms
     \<and> ad_is_active (cand_ad c) \<and> ad_flight_id (cand_ad c) = fl_id (cand_flight c)"
  by (cases c) (auto simp: sel_filter_eq)

lemma sel_filter_blocks_mono:
  assumes "set (bl_advertiser_ids b) \<subseteq> set (bl_advertiser_ids b')"
    and "set (bl_campaign_ids b) \<subseteq> set (bl_campaign_ids b')"
  shows "set (sel_filter fs ads p b' now_ms) \<subseteq> set (sel_filter fs ads p b now_ms)"
  using assms by (auto simp: set_sel_filter flight_eligible_def)

text \<open>
  The selector never reads the creative ids of a block set. (The comment on
  \<open>filter\<close> leaves them to the decision handler.)
\<close>

lemma sel_filter_ignores_creative_block:
  "sel_filter fs ads p (b\<lparr>bl_creative_ids := xs\<rparr>) now_ms = sel_filter fs ads p b now_ms"
  by (simp add: sel_filter_eq flight_eligible_def)

lemma distinct_sel_filter_ads:
  assumes "distinct (map fl_id fs)" and "distinct (map ad_id ads)"
  shows "distinct (map (\<lambda>c. ad_id (cand_ad c)) (sel_filter fs ads p b now_ms))"
  using assms(1)
proof (induction fs)
  case (Cons f fs)
  let ?own = "filter (\<lambda>a. ad_is_active a \<and> ad_flight_id a = fl_id f) ads"
  let ?rest = "sel_filter fs ads p b now_ms"
  have own: "distinct (map ad_id ?own)"
    using assms(2) by (rule distinct_map_filter)
  have "ad_id ` set ?own \<inter> (\<lambda>c. ad_id (cand_ad c)) ` set ?rest = {}"
  proof (rule ccontr)
    assume "\<not> ?thesis"
    then obtain a c where a: "a \<in> set ads" "ad_flight_id a = fl_id f"
      and c: "c \<in> set ?rest" "ad_id a = ad_id (cand_ad c)" by auto
    from c(1) have "cand_ad c \<in> set ads" "cand_flight c \<in> set fs"
      "ad_flight_id (cand_ad c) = fl_id (cand_flight c)"
      by (simp_all add: set_sel_filter)
    with a c(2) assms(2) have "fl_id f \<in> fl_id ` set fs"
      by (metis distinct_map image_eqI inj_onD)
    with Cons.prems show False by simp
  qed
  with own Cons show ?case by (auto simp: comp_def)
qed simp

subsection \<open>The priority tier\<close>

lemma fold_min_Min: "fold min ts (t::int) = Min (set (t # ts))"
  by (simp only: Min.set_eq_fold)

lemma priority_eq: "priority cs = filter (\<lambda>c. cand_tier c = Min (cand_tier ` set cs)) cs"
proof (cases cs)
  case (Cons c ds)
  have "fold min (map cand_tier ds) (cand_tier c) = Min (cand_tier ` set cs)"
    by (simp only: fold_min_Min) (simp add: Cons)
  with Cons show ?thesis by (simp add: priority_def)
qed (simp add: priority_def)

lemma priority_empty_iff [simp]: "priority cs = [] \<longleftrightarrow> cs = []"
proof
  assume "priority cs = []"
  show "cs = []"
  proof (rule ccontr)
    assume "cs \<noteq> []"
    then have "Min (cand_tier ` set cs) \<in> cand_tier ` set cs" by (intro Min_in) auto
    then obtain c where "c \<in> set cs" "cand_tier c = Min (cand_tier ` set cs)" by auto
    then have "c \<in> set (priority cs)" by (simp add: priority_eq)
    with \<open>priority cs = []\<close> show False by simp
  qed
qed (simp add: priority_def)

lemma set_priority:
  "c \<in> set (priority cs) \<longleftrightarrow> c \<in> set cs \<and> (\<forall>d \<in> set cs. cand_tier c \<le> cand_tier d)"
proof
  assume "c \<in> set (priority cs)"
  then show "c \<in> set cs \<and> (\<forall>d \<in> set cs. cand_tier c \<le> cand_tier d)"
    by (auto simp: priority_eq)
next
  assume c: "c \<in> set cs \<and> (\<forall>d \<in> set cs. cand_tier c \<le> cand_tier d)"
  then have "cand_tier c = Min (cand_tier ` set cs)"
    by (intro antisym Min.boundedI) (auto intro!: Min_le)
  with c show "c \<in> set (priority cs)" by (simp add: priority_eq)
qed

lemma distinct_priority: "distinct (map f cs) \<Longrightarrow> distinct (map f (priority cs))"
  by (simp add: priority_eq distinct_map_filter)

subsection \<open>The roll\<close>

text \<open>
  The inner loop chooses slot \<open>i\<close> exactly when the roll lies in the half-open interval of
  length \<open>w\<^sub>i\<close> that starts at the sum of the weights before it.
\<close>

lemma scan_roll_iff:
  assumes "\<forall>w \<in> set ws. 0 \<le> w" and "0 \<le> roll"
  shows "scan_roll ws roll = Some i \<longleftrightarrow>
           i < length ws \<and> sum_list (take i ws) \<le> roll \<and> roll < sum_list (take (Suc i) ws)"
  using assms
proof (induction ws arbitrary: roll i)
  case (Cons w ws)
  show ?case
  proof (cases i)
    case 0
    then show ?thesis using Cons.prems by auto
  next
    case (Suc j)
    have pos: "0 \<le> sum_list (take k ws)" for k
      using Cons.prems(1) by (intro sum_list_nonneg) (auto dest: in_set_takeD)
    consider "w = 0" | "w \<noteq> 0" "roll < w" | "w \<noteq> 0" "w \<le> roll" by linarith
    then show ?thesis
    proof cases
      case 1
      then show ?thesis using Cons Suc by simp
    next
      case 2
      then show ?thesis using pos [of j] Suc by simp
    next
      case 3
      then show ?thesis using Cons.IH [of "roll - w" j] Cons.prems Suc by auto
    qed
  qed
qed simp

lemma scan_roll_lt:
  assumes "\<forall>w \<in> set ws. 0 \<le> w" and "0 \<le> roll" and "scan_roll ws roll = Some i"
  shows "i < length ws \<and> 0 < ws ! i"
proof -
  from assms have i: "i < length ws" and "sum_list (take i ws) < sum_list (take (Suc i) ws)"
    by (auto simp: scan_roll_iff)
  then have "0 < ws ! i" by (simp add: take_Suc_conv_app_nth)
  with i show ?thesis by simp
qed

lemma scan_roll_total:
  assumes "\<forall>w \<in> set ws. 0 \<le> w" and "0 \<le> roll" and "roll < sum_list ws"
  shows "\<exists>i. scan_roll ws roll = Some i"
  using assms by (induction ws arbitrary: roll) auto

lemma scan_roll_share:
  assumes "\<forall>w \<in> set ws. 0 \<le> w" and "i < length ws"
  shows "{roll. 0 \<le> roll \<and> roll < sum_list ws \<and> scan_roll ws roll = Some i}
         = {sum_list (take i ws) ..< sum_list (take (Suc i) ws)}"
proof -
  have split: "sum_list ws = sum_list (take k ws) + sum_list (drop k ws)" for k
    by (metis append_take_drop_id sum_list_append)
  have pos: "0 \<le> sum_list (take k ws)" "0 \<le> sum_list (drop k ws)" for k
    using assms(1) by (auto intro!: sum_list_nonneg dest: in_set_takeD in_set_dropD)
  show ?thesis
    using assms pos(1) [of i] pos(2) [of "Suc i"] split [of "Suc i"]
    by (auto simp: scan_roll_iff)
qed

subsection \<open>The draw\<close>

text \<open>The slots the loop chooses, of which \<open>pick_loop\<close> returns the candidates.\<close>

fun pick_slots :: "'r rng \<Rightarrow> nat \<Rightarrow> 'r \<Rightarrow> int list \<Rightarrow> nat list" where
  "pick_slots g 0 r weights = []"
| "pick_slots g (Suc n) r weights =
     (if sum_list weights \<le> 0 then []
      else let (roll, r') = gen_range g r (sum_list weights) in
        (case scan_roll weights roll of
           None \<Rightarrow> []
         | Some i \<Rightarrow> i # pick_slots g n r' (weights[i := 0])))"

lemma pick_loop_slots: "pick_loop g cs n r ws = map ((!) cs) (pick_slots g n r ws)"
  by (induction g cs n r ws rule: pick_loop.induct)
     (auto simp: Let_def split: prod.splits option.splits)

definition positive_slots :: "int list \<Rightarrow> nat set" where
  "positive_slots ws = {i. i < length ws \<and> 0 < ws ! i}"

lemma positive_slots_clear:
  "i < length ws \<Longrightarrow> positive_slots (ws[i := 0]) = positive_slots ws - {i}"
  by (auto simp: positive_slots_def nth_list_update split: if_splits)

lemma finite_positive_slots [simp]: "finite (positive_slots ws)"
  by (simp add: positive_slots_def)

lemma positive_slots_empty:
  assumes "\<forall>w \<in> set ws. 0 \<le> w"
  shows "sum_list ws \<le> 0 \<longleftrightarrow> positive_slots ws = {}"
proof
  assume le: "sum_list ws \<le> 0"
  show "positive_slots ws = {}"
  proof (rule ccontr)
    assume "positive_slots ws \<noteq> {}"
    then obtain i where i: "i < length ws" "0 < ws ! i" by (auto simp: positive_slots_def)
    then have "ws ! i \<le> sum_list ws"
      using assms by (intro member_le_sum_list) auto
    with i le show False by simp
  qed
next
  assume "positive_slots ws = {}"
  then have "\<forall>w \<in> set ws. w = 0"
    using assms by (force simp: positive_slots_def in_set_conv_nth)
  then show "sum_list ws \<le> 0" by (induction ws) auto
qed

lemma pick_slots_spec:
  assumes "rng_ok g" and "\<forall>w \<in> set ws. 0 \<le> w"
  shows "distinct (pick_slots g n r ws) \<and> set (pick_slots g n r ws) \<subseteq> positive_slots ws
         \<and> length (pick_slots g n r ws) = min n (card (positive_slots ws))"
  using assms(2)
proof (induction n arbitrary: r ws)
  case (Suc n)
  show ?case
  proof (cases "sum_list ws \<le> 0")
    case True
    with Suc.prems show ?thesis by (simp add: positive_slots_empty)
  next
    case False
    obtain roll r' where draw: "gen_range g r (sum_list ws) = (roll, r')" by fastforce
    from assms(1) False have roll: "0 \<le> roll" "roll < sum_list ws"
      using draw unfolding rng_ok_def by (metis fst_conv not_le)+
    then obtain i where i: "scan_roll ws roll = Some i"
      using scan_roll_total Suc.prems by blast
    with roll Suc.prems have lt: "i < length ws" "0 < ws ! i"
      using scan_roll_lt by blast+
    then have mem: "i \<in> positive_slots ws" by (simp add: positive_slots_def)
    have nonneg: "\<forall>w \<in> set (ws[i := 0]). 0 \<le> w"
      using Suc.prems set_update_subset_insert by fastforce
    have "card (positive_slots (ws[i := 0])) = card (positive_slots ws) - 1"
      using lt mem by (simp add: positive_slots_clear)
    moreover have "card (positive_slots ws) > 0"
      using mem by (auto simp: card_gt_0_iff)
    ultimately show ?thesis
      using Suc.IH [OF nonneg, of r'] False draw i lt mem
      by (auto simp: positive_slots_clear)
  qed
qed simp

text \<open>The weights a call starts with are non-negative, and slot \<open>i\<close> is candidate \<open>i\<close>.\<close>

definition drawable :: "candidate \<Rightarrow> bool" where
  "drawable c \<longleftrightarrow> 0 < ad_weight (cand_ad c)"

lemma card_positive_weights:
  "card (positive_slots (map (\<lambda>c. max (ad_weight (cand_ad c)) 0) cs)) = length (filter drawable cs)"
proof -
  have "positive_slots (map (\<lambda>c. max (ad_weight (cand_ad c)) 0) cs) = {i. i < length cs \<and> drawable (cs ! i)}"
    by (auto simp: positive_slots_def drawable_def)
  then show ?thesis by (simp add: length_filter_conv_card)
qed

lemma weighted_random_slots:
  assumes "rng_ok g"
  shows "\<exists>is. weighted_random g cs n seed = map ((!) cs) is \<and> distinct is
           \<and> (\<forall>i \<in> set is. i < length cs \<and> drawable (cs ! i))
           \<and> length is = min (min n (length cs mod 2 ^ 32)) (length (filter drawable cs))"
proof -
  let ?ws = "map (\<lambda>c. max (ad_weight (cand_ad c)) 0) cs"
  let ?m = "min n (length cs mod 2 ^ 32)"
  let ?is = "pick_slots g ?m (seed_from_u64 g seed) ?ws"
  have ws: "\<forall>w \<in> set ?ws. 0 \<le> w" by auto
  have spec: "distinct ?is" "set ?is \<subseteq> positive_slots ?ws"
    "length ?is = min ?m (length (filter drawable cs))"
    using pick_slots_spec [OF assms ws, of ?m "seed_from_u64 g seed"]
    by (simp_all add: card_positive_weights)
  have eq: "weighted_random g cs n seed = map ((!) cs) ?is"
    by (cases "cs = []"; cases "n = 0") (auto simp: weighted_random_def pick_loop_slots)
  have "\<forall>i \<in> set ?is. i < length cs \<and> drawable (cs ! i)"
    using spec(2) by (auto simp: positive_slots_def drawable_def)
  with spec eq show ?thesis by blast
qed

lemma set_weighted_random:
  assumes "rng_ok g" and "c \<in> set (weighted_random g cs n seed)"
  shows "c \<in> set cs \<and> drawable c"
  using weighted_random_slots [OF assms(1), of cs n seed] assms(2) by fastforce

lemma length_weighted_random_le:
  assumes "rng_ok g"
  shows "length (weighted_random g cs n seed) \<le> n"
  using weighted_random_slots [OF assms, of cs n seed] by fastforce

lemma distinct_weighted_random:
  assumes "rng_ok g" and "distinct (map f cs)"
  shows "distinct (map f (weighted_random g cs n seed))"
proof -
  obtain js where js: "weighted_random g cs n seed = map ((!) cs) js" "distinct js"
    "\<forall>i \<in> set js. i < length cs"
    using weighted_random_slots [OF assms(1), of cs n seed] by blast
  have "inj_on (\<lambda>i. f (cs ! i)) (set js)"
    using js(3) assms(2) by (auto simp: inj_on_def distinct_conv_nth)
  with js show ?thesis by (simp add: distinct_map comp_def)
qed

subsection \<open>Properties\<close>

text \<open>A generator and a handful of candidates to evaluate the draw on.\<close>

definition sample_rng :: "int rng" where
  "sample_rng = \<lparr>seed_from_u64 = int, gen_range = (\<lambda>r n. (r mod n, r + 1))\<rparr>"

lemma sample_rng_ok [simp]: "rng_ok sample_rng"
  by (simp add: rng_ok_def sample_rng_def)

definition sample_flight :: "int \<Rightarrow> int \<Rightarrow> flight" where
  "sample_flight i tier =
     \<lparr>fl_id = i, fl_campaign_id = 10 * i, fl_advertiser_id = 100 * i, fl_priority_tier = tier,
      fl_start_ms = Some 1000, fl_end_ms = None, fl_site_ids = [], fl_zone_ids = [],
      fl_ad_types = [5], fl_is_active = True\<rparr>"

definition sample_ad :: "int \<Rightarrow> int \<Rightarrow> int \<Rightarrow> ad" where
  "sample_ad i fid w =
     \<lparr>ad_id = i, ad_flight_id = fid, ad_creative_id = Some (i + 40), ad_weight = w, ad_is_active = True\<rparr>"

definition sample_placement :: placement where
  "sample_placement = \<lparr>pl_site_id = 1, pl_zone_ids = [], pl_ad_types = [5], pl_count = 2\<rparr>"

definition no_block :: block_set where
  "no_block = \<lparr>bl_creative_ids = [], bl_advertiser_ids = [], bl_campaign_ids = []\<rparr>"

lemmas sample_selection = sample_flight_def sample_ad_def sample_placement_def no_block_def

text \<open>
  C25: the filter returns exactly the pairs of a live flight and one of its active ads that
  the time window, the site, zone and ad-type targeting and the advertiser and campaign
  blocks admit, and no ad twice.
\<close>

theorem selection_filter_exact:
  assumes "distinct (map fl_id fs)" and "distinct (map ad_id as)"
  shows "set (sel_filter fs as p b now) =
      {\<lparr>cand_ad = a, cand_flight = f\<rparr> | a f.
         f \<in> set fs \<and> a \<in> set as \<and> ad_flight_id a = fl_id f \<and> ad_is_active a \<and> fl_is_active f
         \<and> (\<forall>t. fl_start_ms f = Some t \<longrightarrow> t \<le> now)
         \<and> (\<forall>t. fl_end_ms f = Some t \<longrightarrow> now \<le> t)
         \<and> (fl_site_ids f = [] \<or> pl_site_id p \<in> set (fl_site_ids f))
         \<and> (fl_zone_ids f = [] \<or> set (pl_zone_ids p) \<inter> set (fl_zone_ids f) \<noteq> {})
         \<and> (fl_ad_types f = [] \<or> set (pl_ad_types p) \<inter> set (fl_ad_types f) \<noteq> {})
         \<and> fl_advertiser_id f \<notin> set (bl_advertiser_ids b)
         \<and> fl_campaign_id f \<notin> set (bl_campaign_ids b)}
    \<and> distinct (map (\<lambda>c. ad_id (cand_ad c)) (sel_filter fs as p b now))"
proof (rule conjI, goal_cases)
  case 1
  show ?case
    by (rule set_eqI, rename_tac c, case_tac c)
       (auto simp: set_sel_filter flight_eligible_def)
next
  case 2
  show ?case using assms by (rule distinct_sel_filter_ads)
qed

theorem selection_filter_exact_witness:
  "\<lparr>cand_ad = sample_ad 7 1 3, cand_flight = sample_flight 1 2\<rparr>
     \<in> set (sel_filter [sample_flight 1 2, sample_flight 2 1] [sample_ad 7 1 3, sample_ad 8 2 0]
              sample_placement (no_block\<lparr>bl_campaign_ids := [20]\<rparr>) 5000)"
  using selection_filter_exact [of "[sample_flight 1 2, sample_flight 2 1]"
      "[sample_ad 7 1 3, sample_ad 8 2 0]" sample_placement "no_block\<lparr>bl_campaign_ids := [20]\<rparr>" 5000]
  by (simp add: sample_selection)

text \<open>
  the priority step keeps, in order, exactly the candidates of the numerically lowest
  tier present, and never empties a non-empty list.
\<close>

theorem priority_keeps_best_tier:
  "priority cs = filter (\<lambda>c. \<forall>d \<in> set cs. cand_tier c \<le> cand_tier d) cs
   \<and> (priority cs = [] \<longleftrightarrow> cs = [])"
proof
  have "cand_tier c = Min (cand_tier ` set cs) \<longleftrightarrow> (\<forall>d \<in> set cs. cand_tier c \<le> cand_tier d)"
    if "c \<in> set cs" for c
    using that set_priority [of c cs] by (simp add: priority_eq)
  then show "priority cs = filter (\<lambda>c. \<forall>d \<in> set cs. cand_tier c \<le> cand_tier d) cs"
    unfolding priority_eq by (rule filter_cong [OF refl])
qed (rule priority_empty_iff)

theorem priority_keeps_best_tier_witness:
  "let c = (\<lambda>i t. \<lparr>cand_ad = sample_ad i i 1, cand_flight = sample_flight i t\<rparr>)
   in priority [c 1 5, c 2 3, c 3 5, c 4 3] = [c 2 3, c 4 3]"
  using priority_keeps_best_tier
    [of "map (\<lambda>(i, t). \<lparr>cand_ad = sample_ad i i 1, cand_flight = sample_flight i t\<rparr>)
           [(1, 5), (2, 3), (3, 5), (4, 3)]"]
  by (simp add: sample_selection cand_tier_def)

text \<open>
  the weighted draw returns distinct slots of the candidate list, each of positive
  weight, and as many as asked for or as there are (the length passes through a \<open>u32\<close>).
\<close>

theorem weighted_random_draw:
  assumes "rng_ok g"
  shows "\<exists>is. weighted_random g cs n seed = map ((!) cs) is \<and> distinct is
      \<and> set is \<subseteq> {i. i < length cs \<and> 0 < ad_weight (cand_ad (cs ! i))}
      \<and> length is = min (min n (length cs mod 2 ^ 32))
                       (length (filter (\<lambda>c. 0 < ad_weight (cand_ad c)) cs))"
proof -
  have "filter drawable cs = filter (\<lambda>c. 0 < ad_weight (cand_ad c)) cs"
    by (simp add: drawable_def [abs_def])
  with weighted_random_slots [OF assms, of cs n seed] show ?thesis
    by (auto simp: drawable_def subset_iff)
qed

theorem weighted_random_draw_witness:
  "\<exists>is. weighted_random sample_rng
      [\<lparr>cand_ad = sample_ad 1 1 3, cand_flight = sample_flight 1 0\<rparr>,
       \<lparr>cand_ad = sample_ad 2 1 0, cand_flight = sample_flight 1 0\<rparr>] 5 77
     = map ((!) [\<lparr>cand_ad = sample_ad 1 1 3, cand_flight = sample_flight 1 0\<rparr>,
       \<lparr>cand_ad = sample_ad 2 1 0, cand_flight = sample_flight 1 0\<rparr>]) is \<and> length is = 1"
  using weighted_random_draw [OF sample_rng_ok,
    of "[\<lparr>cand_ad = sample_ad 1 1 3, cand_flight = sample_flight 1 0\<rparr>,
         \<lparr>cand_ad = sample_ad 2 1 0, cand_flight = sample_flight 1 0\<rparr>]" 5 77]
  by (auto simp: sample_ad_def)

text \<open>
  the share of the rolls that chooses slot \<open>i\<close> is exactly its weight, and the shares
  fill the range the roll is drawn from, so a uniform roll is a weighted choice.
\<close>

theorem roll_share_is_weight:
  assumes "\<forall>w \<in> set ws. 0 \<le> w" and "i < length ws"
  shows "card {roll. 0 \<le> roll \<and> roll < sum_list ws \<and> scan_roll ws roll = Some i} = nat (ws ! i)
    \<and> (\<forall>r. 0 \<le> r \<and> r < sum_list ws \<longrightarrow> (\<exists>j < length ws. scan_roll ws r = Some j))"
  using assms scan_roll_total [of ws] scan_roll_lt [of ws]
  by (auto simp: scan_roll_share take_Suc_conv_app_nth) (metis)

theorem roll_share_is_weight_witness:
  "card {roll. 0 \<le> roll \<and> roll < sum_list [2, 0, 5, 1] \<and> scan_roll [2, 0, 5, 1] roll = Some 2} = 5"
  using roll_share_is_weight [of "[2, 0, 5, 1]" 2] by simp

end
