(* ===== verification/Snapshot_Store.thy ===== *)
theory Snapshot_Store
  imports Database Ad_Selection
begin

section \<open>The configuration snapshot\<close>

text \<open>
  \<open>src/src/snapshot.rs\<close>: the in-memory view the decision path reads, the store that
  swaps it, the poll loop and the queries that build it. The queries run against one
  database state; \<open>SET LOCAL ROLE knievel_loader\<close> bypasses row-level security, so they see
  every row. Rows come in nested-loop order, which SQL leaves open.
\<close>

subsection \<open>Data\<close>

record snapshot_site =
  ss_id :: int
  ss_url :: string
  ss_aliases :: "string list"

record snapshot_zone =
  sz_id :: int
  sz_site_id :: int

record snapshot_creative =
  sc_id :: int
  sc_kind :: string
  sc_image_url :: "string option"
  sc_width :: "int option"
  sc_height :: "int option"
  sc_alt :: "string option"
  sc_body :: "string option"
  sc_template_name :: "string option"
  sc_template_source :: "string option"
  sc_values :: json
  sc_click_through_url :: "string option"

record project_snapshot =
  ps_project_id :: string
  ps_org_id_for_event :: string
  ps_flights :: "flight list"
  ps_ads :: "ad list"
  ps_sites :: "snapshot_site list"
  ps_zones :: "snapshot_zone list"
  ps_click_through_urls :: "int \<rightharpoonup> string"
  ps_creatives :: "int \<rightharpoonup> snapshot_creative"
  ps_hmac_secret :: bytes
  ps_hmac_secret_previous :: "bytes option"
  ps_allow_force_decision :: bool

definition default_project_snapshot :: project_snapshot where
  "default_project_snapshot =
     \<lparr>ps_project_id = '''', ps_org_id_for_event = '''', ps_flights = [], ps_ads = [],
      ps_sites = [], ps_zones = [], ps_click_through_urls = Map.empty, ps_creatives = Map.empty,
      ps_hmac_secret = [], ps_hmac_secret_previous = None, ps_allow_force_decision = False\<rparr>"

record snapshot =
  sn_config_version :: int
  sn_projects :: "string \<rightharpoonup> project_snapshot"

definition default_snapshot :: snapshot where
  "default_snapshot = \<lparr>sn_config_version = 0, sn_projects = Map.empty\<rparr>"

subsection \<open>The store\<close>

text \<open>The pointer behind the lock, and how often \<open>notify_waiters\<close> has run.\<close>

record snapshot_store =
  inner :: snapshot
  bumped :: nat

definition store_empty :: snapshot_store where
  "store_empty = \<lparr>inner = default_snapshot, bumped = 0\<rparr>"

definition store_read :: "snapshot_store \<Rightarrow> snapshot" where
  "store_read s = inner s"

definition store_swap :: "snapshot_store \<Rightarrow> snapshot \<Rightarrow> snapshot_store" where
  "store_swap s nxt = s\<lparr>inner := nxt, bumped := Suc (bumped s)\<rparr>"

subsection \<open>The interface of an atomically swapped value\<close>

text \<open>
  What the loader relies on of the store, and what it gives its readers: a value is only
  replaced as a whole, and a replacement guarded by the version never lowers it.
\<close>

locale versioned_cell =
  fixes read :: "'s \<Rightarrow> 'v"
    and swap :: "'s \<Rightarrow> 'v \<Rightarrow> 's"
    and version :: "'v \<Rightarrow> int"
  assumes read_swap: "read (swap s x) = x"
begin

lemma read_fold_swap: "read (fold (\<lambda>x s. swap s x) xs s) = last (read s # xs)"
  by (induction xs arbitrary: s) (auto simp: read_swap)

lemma guarded_swap_mono:
  "version (read s) \<le> version (read (if version (read s) < version x then swap s x else s))"
  by (simp add: read_swap)

end

interpretation store: versioned_cell store_read store_swap sn_config_version
  by unfold_locales (simp add: store_read_def store_swap_def)

subsection \<open>The poll loop\<close>

definition read_config_version :: "env \<Rightarrow> db \<Rightarrow> db_error + int" where
  "read_config_version e d =
     (if fault e (Stmt ''select config_version'') then Inl conn_lost else Inr (config_version d))"

text \<open>
  \<open>run_loader\<close>: the cold load before the loop, and one iteration of the loop. \<open>reload\<close> is
  the function the caller supplies (\<open>load_snapshot\<close> in \<open>server.rs\<close>), here its result.
\<close>

definition loader_cold :: "db_error + snapshot \<Rightarrow> snapshot_store \<Rightarrow> snapshot_store" where
  "loader_cold reload s = (case reload of Inr snap \<Rightarrow> store_swap s snap | Inl _ \<Rightarrow> s)"

definition loader_tick ::
  "db_error + int \<Rightarrow> db_error + snapshot \<Rightarrow> snapshot_store \<Rightarrow> snapshot_store" where
  "loader_tick poll reload s =
     (let cur_version = sn_config_version (store_read s) in
      case poll of
        Inl _ \<Rightarrow> s
      | Inr db_version \<Rightarrow>
          if db_version \<le> cur_version then s
          else (case reload of Inr snap \<Rightarrow> store_swap s snap | Inl _ \<Rightarrow> s))"

subsection \<open>Building a snapshot\<close>

definition upd_project ::
  "(string \<rightharpoonup> project_snapshot) \<Rightarrow> string \<Rightarrow> (project_snapshot \<Rightarrow> project_snapshot)
    \<Rightarrow> (string \<rightharpoonup> project_snapshot)" where
  "upd_project m pid f = (case m pid of None \<Rightarrow> m | Some ps \<Rightarrow> m(pid \<mapsto> f ps))"

definition seed_projects :: "project_row list \<Rightarrow> (string \<rightharpoonup> project_snapshot)" where
  "seed_projects rows =
     fold (\<lambda>r m. m(pr_id r \<mapsto> default_project_snapshot
              \<lparr>ps_project_id := pr_id r, ps_org_id_for_event := pr_org_id r,
               ps_hmac_secret := pr_hmac_secret r, ps_hmac_secret_previous := None,
               ps_allow_force_decision := pr_allow_force_decision r\<rparr>))
       (filter pr_is_active rows) Map.empty"

text \<open>\<open>flights JOIN priorities JOIN campaigns\<close>.\<close>

definition flight_rows :: "db \<Rightarrow> (string \<times> flight) list" where
  "flight_rows d =
     [(row_project_id f,
       \<lparr>fl_id = row_id f, fl_campaign_id = fr_campaign_id f, fl_advertiser_id = cp_advertiser_id c,
        fl_priority_tier = py_tier p, fl_start_ms = fr_start_date f, fl_end_ms = fr_end_date f,
        fl_site_ids = fr_site_ids f, fl_zone_ids = fr_zone_ids f, fl_ad_types = fr_ad_types f,
        fl_is_active = row_is_active f\<rparr>).
      f \<leftarrow> flights d, p \<leftarrow> priorities d, py_id p = fr_priority_id f,
      c \<leftarrow> campaigns d, row_id c = fr_campaign_id f]"

definition ad_rows :: "db \<Rightarrow> (string \<times> ad) list" where
  "ad_rows d =
     map (\<lambda>a. (row_project_id a,
       \<lparr>ad_id = row_id a, ad_flight_id = ar_flight_id a, ad_creative_id = ar_creative_id a,
        ad_weight = ar_weight a, ad_is_active = row_is_active a\<rparr>)) (ads d)"

definition site_rows :: "db \<Rightarrow> (string \<times> snapshot_site) list" where
  "site_rows d =
     map (\<lambda>s. (row_project_id s, \<lparr>ss_id = row_id s, ss_url = si_url s, ss_aliases = si_aliases s\<rparr>))
       (sites d)"

definition zone_rows :: "db \<Rightarrow> (string \<times> snapshot_zone) list" where
  "zone_rows d =
     map (\<lambda>z. (row_project_id z, \<lparr>sz_id = row_id z, sz_site_id = zn_site_id z\<rparr>)) (zones d)"

text \<open>\<open>ads JOIN creatives WHERE click_through_url IS NOT NULL\<close>.\<close>

definition click_rows :: "db \<Rightarrow> (string \<times> int \<times> string) list" where
  "click_rows d =
     [(row_project_id a, row_id a, url).
      a \<leftarrow> ads d, c \<leftarrow> creatives d, ar_creative_id a = Some (row_id c),
      url \<leftarrow> (case ct_click_through_url c of None \<Rightarrow> [] | Some u \<Rightarrow> [u])]"

text \<open>\<open>creatives LEFT JOIN creative_templates\<close> on the template id and the same project.\<close>

definition joined_templates :: "db \<Rightarrow> creative_row \<Rightarrow> template_row option list" where
  "joined_templates d c =
     (case filter (\<lambda>t. ct_template_id c = Some (row_id t) \<and> row_project_id t = row_project_id c)
             (creative_templates d) of
        [] \<Rightarrow> [None]
      | ts \<Rightarrow> map Some ts)"

definition snapshot_creative_of :: "creative_row \<Rightarrow> template_row option \<Rightarrow> snapshot_creative" where
  "snapshot_creative_of c t =
     \<lparr>sc_id = row_id c, sc_kind = ct_kind c, sc_image_url = ct_image_url c,
      sc_width = ct_width c, sc_height = ct_height c, sc_alt = ct_alt c, sc_body = ct_body c,
      sc_template_name = map_option tp_name t,
      sc_template_source = Option.bind t tp_template,
      sc_values = (case ct_values c of None \<Rightarrow> JObj [] | Some v \<Rightarrow> v),
      sc_click_through_url = ct_click_through_url c\<rparr>"

definition creative_rows :: "db \<Rightarrow> (string \<times> snapshot_creative) list" where
  "creative_rows d =
     [(row_project_id c, snapshot_creative_of c t). c \<leftarrow> creatives d, t \<leftarrow> joined_templates d c]"

definition fill_projects ::
  "(project_snapshot \<Rightarrow> 'r \<Rightarrow> project_snapshot) \<Rightarrow> (string \<times> 'r) list
    \<Rightarrow> (string \<rightharpoonup> project_snapshot) \<Rightarrow> (string \<rightharpoonup> project_snapshot)" where
  "fill_projects f rows m = fold (\<lambda>(pid, r) m. upd_project m pid (\<lambda>ps. f ps r)) rows m"

definition loader_queries :: "string list" where
  "loader_queries =
     [''set role'', ''config_version'', ''projects'', ''flights'', ''ads'', ''sites'', ''zones'',
      ''click_through_urls'', ''creatives'']"

definition load_snapshot :: "env \<Rightarrow> db \<Rightarrow> db_error + snapshot" where
  "load_snapshot e d =
     (if fault e Begin \<or> list_ex (\<lambda>q. fault e (Stmt q)) loader_queries \<or> fault e Commit
      then Inl conn_lost
      else
        let m = seed_projects (projects d);
            m = fill_projects (\<lambda>ps f. ps\<lparr>ps_flights := ps_flights ps @ [f]\<rparr>) (flight_rows d) m;
            m = fill_projects (\<lambda>ps a. ps\<lparr>ps_ads := ps_ads ps @ [a]\<rparr>) (ad_rows d) m;
            m = fill_projects (\<lambda>ps s. ps\<lparr>ps_sites := ps_sites ps @ [s]\<rparr>) (site_rows d) m;
            m = fill_projects (\<lambda>ps z. ps\<lparr>ps_zones := ps_zones ps @ [z]\<rparr>) (zone_rows d) m;
            m = fill_projects (\<lambda>ps (i, u). ps\<lparr>ps_click_through_urls := (ps_click_through_urls ps)(i \<mapsto> u)\<rparr>)
                  (click_rows d) m;
            m = fill_projects (\<lambda>ps c. ps\<lparr>ps_creatives := (ps_creatives ps)(sc_id c \<mapsto> c)\<rparr>)
                  (creative_rows d) m
        in Inr \<lparr>sn_config_version = config_version d, sn_projects = m\<rparr>)"

subsection \<open>Each project holds its own rows\<close>

text \<open>The rows of one project, in query order.\<close>

definition rows_of :: "string \<Rightarrow> (string \<times> 'r) list \<Rightarrow> 'r list" where
  "rows_of pid rows = map snd (filter (\<lambda>x. fst x = pid) rows)"

lemma rows_of_simps [simp]:
  "rows_of pid [] = []"
  "rows_of pid ((k, r) # rows) = (if k = pid then r # rows_of pid rows else rows_of pid rows)"
  by (simp_all add: rows_of_def)

lemma set_rows_of: "r \<in> set (rows_of pid rows) \<longleftrightarrow> (pid, r) \<in> set rows"
  by (auto simp: rows_of_def image_iff)

lemma fill_projects_lookup:
  "fill_projects f rows m pid = map_option (\<lambda>ps. foldl f ps (rows_of pid rows)) (m pid)"
proof (induction rows arbitrary: m)
  case Nil
  then show ?case by (simp add: fill_projects_def option.map_ident)
next
  case (Cons x rows)
  obtain k r where x: "x = (k, r)" by fastforce
  have "fill_projects f (x # rows) m pid = fill_projects f rows (upd_project m k (\<lambda>ps. f ps r)) pid"
    by (simp add: fill_projects_def x)
  also have "\<dots> = map_option (\<lambda>ps. foldl f ps (rows_of pid (x # rows))) (m pid)"
    by (cases "m k") (auto simp: Cons x upd_project_def option.map_comp comp_def split: option.splits)
  finally show ?case .
qed

lemma foldl_snoc_map: "foldl (\<lambda>a x. a @ [x]) xs ys = xs @ ys"
  by (induction ys arbitrary: xs) auto

lemma foldl_flights:
  "foldl (\<lambda>ps f. ps\<lparr>ps_flights := ps_flights ps @ [f]\<rparr>) ps fs = ps\<lparr>ps_flights := ps_flights ps @ fs\<rparr>"
  by (induction fs arbitrary: ps) auto

lemma foldl_ads:
  "foldl (\<lambda>ps f. ps\<lparr>ps_ads := ps_ads ps @ [f]\<rparr>) ps fs = ps\<lparr>ps_ads := ps_ads ps @ fs\<rparr>"
  by (induction fs arbitrary: ps) auto

lemma foldl_sites:
  "foldl (\<lambda>ps f. ps\<lparr>ps_sites := ps_sites ps @ [f]\<rparr>) ps fs = ps\<lparr>ps_sites := ps_sites ps @ fs\<rparr>"
  by (induction fs arbitrary: ps) auto

lemma foldl_zones:
  "foldl (\<lambda>ps f. ps\<lparr>ps_zones := ps_zones ps @ [f]\<rparr>) ps fs = ps\<lparr>ps_zones := ps_zones ps @ fs\<rparr>"
  by (induction fs arbitrary: ps) auto

lemma foldl_clicks:
  "foldl (\<lambda>ps (i, u). ps\<lparr>ps_click_through_urls := (ps_click_through_urls ps)(i \<mapsto> u)\<rparr>) ps cs
   = ps\<lparr>ps_click_through_urls := foldl (\<lambda>m (i, u). m(i \<mapsto> u)) (ps_click_through_urls ps) cs\<rparr>"
  by (induction cs arbitrary: ps) (auto split: prod.splits)

lemma foldl_creatives:
  "foldl (\<lambda>ps c. ps\<lparr>ps_creatives := (ps_creatives ps)(sc_id c \<mapsto> c)\<rparr>) ps cs
   = ps\<lparr>ps_creatives := foldl (\<lambda>m c. m(sc_id c \<mapsto> c)) (ps_creatives ps) cs\<rparr>"
  by (induction cs arbitrary: ps) auto

lemmas foldl_fill = foldl_flights foldl_ads foldl_sites foldl_zones foldl_clicks foldl_creatives

lemma rows_of_map: "rows_of pid (map (\<lambda>a. (k a, f a)) xs) = map f (filter (\<lambda>a. k a = pid) xs)"
  by (induction xs) auto

lemma seed_projects_fold:
  "fold (\<lambda>r m. m(key r \<mapsto> val r)) rs m pid =
     (case rev (filter (\<lambda>r. key r = pid) rs) of [] \<Rightarrow> m pid | r # _ \<Rightarrow> Some (val r))"
  by (induction rs rule: rev_induct) auto

definition seeded :: "project_row \<Rightarrow> project_snapshot" where
  "seeded r = default_project_snapshot
     \<lparr>ps_project_id := pr_id r, ps_org_id_for_event := pr_org_id r,
      ps_hmac_secret := pr_hmac_secret r, ps_hmac_secret_previous := None,
      ps_allow_force_decision := pr_allow_force_decision r\<rparr>"

lemma seed_projects_SomeD:
  assumes "seed_projects rows pid = Some ps"
  shows "\<exists>r \<in> set rows. pr_is_active r \<and> pr_id r = pid \<and> ps = seeded r"
proof -
  from assms obtain r rs where
    r: "rev (filter (\<lambda>r. pr_id r = pid) (filter pr_is_active rows)) = r # rs" "ps = seeded r"
    by (auto simp: seed_projects_def seed_projects_fold seeded_def split: list.splits)
  then have "r \<in> set (filter (\<lambda>r. pr_id r = pid) (filter pr_is_active rows))"
    by (metis list.set_intros(1) set_rev)
  with r(2) show ?thesis by auto
qed

lemma seed_projects_known:
  assumes "r \<in> set rows" and "pr_is_active r"
  shows "seed_projects rows (pr_id r) \<noteq> None"
proof -
  have "filter (\<lambda>x. pr_id x = pr_id r) (filter pr_is_active rows) \<noteq> []"
    using assms by (auto simp: filter_empty_conv)
  then have "rev (filter (\<lambda>x. pr_id x = pr_id r) (filter pr_is_active rows)) \<noteq> []"
    by simp
  then show ?thesis
    by (cases "rev (filter (\<lambda>x. pr_id x = pr_id r) (filter pr_is_active rows))")
       (simp_all add: seed_projects_def seed_projects_fold)
qed

definition loaded_project :: "db \<Rightarrow> string \<Rightarrow> project_snapshot \<Rightarrow> project_snapshot" where
  "loaded_project d pid ps = ps
     \<lparr>ps_flights := ps_flights ps @ rows_of pid (flight_rows d),
      ps_ads := ps_ads ps @ rows_of pid (ad_rows d),
      ps_sites := ps_sites ps @ rows_of pid (site_rows d),
      ps_zones := ps_zones ps @ rows_of pid (zone_rows d),
      ps_click_through_urls :=
        foldl (\<lambda>m (i, u). m(i \<mapsto> u)) (ps_click_through_urls ps) (rows_of pid (click_rows d)),
      ps_creatives := foldl (\<lambda>m c. m(sc_id c \<mapsto> c)) (ps_creatives ps) (rows_of pid (creative_rows d))\<rparr>"

lemma load_snapshot_InrD:
  assumes "load_snapshot e d = Inr sn"
  shows "sn_config_version sn = config_version d"
    and "sn_projects sn pid = map_option (loaded_project d pid) (seed_projects (projects d) pid)"
proof -
  from assms show "sn_config_version sn = config_version d"
    by (auto simp: load_snapshot_def Let_def split: if_splits)
  from assms show "sn_projects sn pid = map_option (loaded_project d pid) (seed_projects (projects d) pid)"
    by (auto simp: load_snapshot_def Let_def fill_projects_lookup foldl_fill
          option.map_comp comp_def loaded_project_def [abs_def] split: if_splits)
qed

lemma loaded_projectD:
  assumes "load_snapshot e d = Inr sn" and "sn_projects sn pid = Some ps"
  obtains r where "r \<in> set (projects d)" "pr_is_active r" "pr_id r = pid"
    "ps = loaded_project d pid (seeded r)"
proof -
  from load_snapshot_InrD(2) [OF assms(1), of pid] assms(2)
  obtain ps0 where "seed_projects (projects d) pid = Some ps0" "ps = loaded_project d pid ps0"
    by (metis map_option_eq_Some)
  with that show thesis using seed_projects_SomeD by blast
qed

lemma foldl_upd_SomeD:
  "foldl (\<lambda>m c. m(k c \<mapsto> c)) m cs i = Some c \<Longrightarrow> m i = Some c \<or> c \<in> set cs \<and> k c = i"
proof (induction cs arbitrary: m)
  case (Cons a cs)
  from Cons.prems have "foldl (\<lambda>m c. m(k c \<mapsto> c)) (m(k a \<mapsto> a)) cs i = Some c"
    by (simp only: foldl_Cons)
  then have "(m(k a \<mapsto> a)) i = Some c \<or> c \<in> set cs \<and> k c = i" by (rule Cons.IH)
  then show ?case by (auto split: if_splits)
qed simp

lemma joined_templates_SomeD:
  "Some t \<in> set (joined_templates d c) \<Longrightarrow>
     t \<in> set (creative_templates d) \<and> ct_template_id c = Some (row_id t) \<and> row_project_id t = row_project_id c"
proof -
  let ?ts = "filter (\<lambda>t. ct_template_id c = Some (row_id t) \<and> row_project_id t = row_project_id c)
               (creative_templates d)"
  assume "Some t \<in> set (joined_templates d c)"
  then have "t \<in> set ?ts" by (cases ?ts) (auto simp: joined_templates_def)
  then show ?thesis by simp
qed

lemma creative_template_own:
  assumes "(pid, c) \<in> set (creative_rows d)" and "sc_template_source c = Some src"
  shows "\<exists>t \<in> set (creative_templates d). row_project_id t = pid \<and> tp_template t = Some src"
proof -
  from assms(1) obtain r ot where r: "pid = row_project_id r" "ot \<in> set (joined_templates d r)"
    "c = snapshot_creative_of r ot"
    by (auto simp: creative_rows_def)
  with assms(2) obtain t where "ot = Some t" "tp_template t = Some src"
    by (auto simp: snapshot_creative_of_def bind_eq_Some_conv)
  with r show ?thesis using joined_templates_SomeD by metis
qed

subsection \<open>The loader\<close>

lemma loader_tick_version:
  assumes "\<And>sn. reload = Inr sn \<Longrightarrow> sn_config_version sn = v" and "poll = Inr v"
  shows "sn_config_version (store_read s) \<le> sn_config_version (store_read (loader_tick poll reload s))"
  using assms by (auto simp: loader_tick_def store.read_swap split: sum.splits)

lemma loader_tick_current:
  "poll = Inr v \<Longrightarrow> v \<le> sn_config_version (store_read s) \<Longrightarrow> loader_tick poll reload s = s"
  by (simp add: loader_tick_def)

subsection \<open>Properties\<close>

lemma rows_of_flightD:
  "f \<in> set (rows_of pid (flight_rows d)) \<Longrightarrow>
     \<exists>row \<in> set (flights d). row_project_id row = pid \<and> row_id row = fl_id f"
  by (auto simp: set_rows_of flight_rows_def)

lemma rows_of_adD:
  "a \<in> set (rows_of pid (ad_rows d)) \<Longrightarrow>
     \<exists>row \<in> set (ads d). row_project_id row = pid \<and> row_id row = ad_id a"
  by (auto simp: set_rows_of ad_rows_def)

lemma foldl_click_SomeD:
  "foldl (\<lambda>m (i, u). m(i \<mapsto> u)) m cs i = Some u \<Longrightarrow> m i = Some u \<or> (i, u) \<in> set cs"
proof (induction cs arbitrary: m)
  case (Cons a cs)
  obtain j v where a: "a = (j, v)" by fastforce
  from Cons.prems have "foldl (\<lambda>m (i, u). m(i \<mapsto> u)) (m(j \<mapsto> v)) cs i = Some u"
    by (simp only: foldl_Cons a prod.case)
  then have "(m(j \<mapsto> v)) i = Some u \<or> (i, u) \<in> set cs" by (rule Cons.IH)
  then show ?case by (auto simp: a split: if_splits)
qed simp

lemma rows_of_clickD:
  "(i, u) \<in> set (rows_of pid (click_rows d)) \<Longrightarrow>
     \<exists>a \<in> set (ads d). row_project_id a = pid \<and> row_id a = i
       \<and> (\<exists>c \<in> set (creatives d). ar_creative_id a = Some (row_id c) \<and> ct_click_through_url c = Some u)"
  by (fastforce simp: set_rows_of click_rows_def split: option.splits if_splits)

definition own_rows :: "db \<Rightarrow> string \<Rightarrow> project_snapshot \<Rightarrow> bool" where
  "own_rows d pid ps \<longleftrightarrow>
     (\<forall>f \<in> set (ps_flights ps). \<exists>row \<in> set (flights d). row_project_id row = pid \<and> row_id row = fl_id f)
     \<and> (\<forall>a \<in> set (ps_ads ps). \<exists>row \<in> set (ads d). row_project_id row = pid \<and> row_id row = ad_id a)
     \<and> (\<forall>i u. ps_click_through_urls ps i = Some u \<longrightarrow>
          (\<exists>a \<in> set (ads d). row_project_id a = pid \<and> row_id a = i))
     \<and> (\<forall>i c src. ps_creatives ps i = Some c \<longrightarrow> sc_template_source c = Some src \<longrightarrow>
          (\<exists>t \<in> set (creative_templates d). row_project_id t = pid \<and> tp_template t = Some src))"

lemma loaded_project_own_rows: "own_rows d pid (loaded_project d pid (seeded r))"
proof -
  have cr: "\<exists>t \<in> set (creative_templates d). row_project_id t = pid \<and> tp_template t = Some src"
    if "foldl (\<lambda>m c. m(sc_id c \<mapsto> c)) Map.empty (rows_of pid (creative_rows d)) i = Some c"
      and "sc_template_source c = Some src" for i c src
    using foldl_upd_SomeD [OF that(1)] creative_template_own [OF _ that(2)]
    by (auto simp: set_rows_of)
  have cl: "\<exists>a \<in> set (ads d). row_project_id a = pid \<and> row_id a = i"
    if "foldl (\<lambda>m (i, u). m(i \<mapsto> u)) Map.empty (rows_of pid (click_rows d)) i = Some u" for i u
    using foldl_click_SomeD [OF that] rows_of_clickD by fastforce
  show ?thesis
    using rows_of_flightD rows_of_adD cr cl
    by (simp add: own_rows_def loaded_project_def seeded_def default_project_snapshot_def)
qed


lemma load_snapshot_calm: "\<exists>sn. load_snapshot (calm_env t) d = Inr sn"
proof -
  have "\<not> (fault (calm_env t) Begin \<or> list_ex (\<lambda>q. fault (calm_env t) (Stmt q)) loader_queries
      \<or> fault (calm_env t) Commit)"
    by (simp add: list_ex_iff)
  then show ?thesis unfolding load_snapshot_def Let_def by (simp only: if_False simp_thms) blast
qed

definition loader_db :: db where
  "loader_db = empty_db
     \<lparr>projects := [\<lparr>pr_id = ''pj'', pr_org_id = ''o'', pr_external_id = None, pr_name = ''p'',
        pr_is_active = True, pr_hmac_secret = [1], pr_allow_force_decision = False, pr_etag = ''t'',
        pr_created_at = 0, pr_updated_at = 0\<rparr>],
      ads := [\<lparr>row_id = 3, row_org_id = ''o'', row_project_id = ''pj'', row_external_id = None,
         row_etag = ''t'', row_created_at = 0, row_updated_at = 0, row_is_active = True,
        ar_flight_id = 4, ar_creative_id = None, ar_ad_library_item_id = None, ar_weight = 1\<rparr>],
      config_version := 5\<rparr>"


text \<open>The loop after its cold load: one pair of poll and reload results per tick.\<close>

definition loader_run ::
  "((db_error + int) \<times> (db_error + snapshot)) list \<Rightarrow> snapshot_store \<Rightarrow> snapshot_store" where
  "loader_run ticks s = foldl (\<lambda>s (poll, reload). loader_tick poll reload s) s ticks"

text \<open>
  as long as a reload sees a version no older than the poll before it, the store's
  version never decreases, whatever errors occur, the store always holds the initial value
  or one whole loaded snapshot, and while the polled version stays the same nothing is
  reloaded.
\<close>

theorem loader_run_monotone:
  assumes "\<forall>(poll, reload) \<in> set ticks. \<forall>v sn. poll = Inr v \<and> reload = Inr sn \<longrightarrow> v \<le> sn_config_version sn"
  shows "sn_config_version (store_read s) \<le> sn_config_version (store_read (loader_run ticks s))
    \<and> store_read (loader_run ticks s) \<in> insert (store_read s) {sn. Inr sn \<in> snd ` set ticks}
    \<and> ((\<forall>(poll, reload) \<in> set ticks. \<forall>v. poll = Inr v \<longrightarrow> v \<le> sn_config_version (store_read s))
        \<longrightarrow> loader_run ticks s = s)"
  using assms
proof (induction ticks arbitrary: s)
  case (Cons t ticks)
  obtain poll reload where t: "t = (poll, reload)" by fastforce
  let ?s = "loader_tick poll reload s"
  have step: "sn_config_version (store_read s) \<le> sn_config_version (store_read ?s)
      \<and> (store_read ?s = store_read s \<or> (\<exists>sn. reload = Inr sn \<and> store_read ?s = sn))"
    using Cons.prems by (auto simp: t loader_tick_def Let_def store.read_swap split: sum.splits)
  have keep: "?s = s" if "\<forall>v. poll = Inr v \<longrightarrow> v \<le> sn_config_version (store_read s)"
    using that by (auto simp: loader_tick_def Let_def split: sum.splits)
  have run: "loader_run (t # ticks) s = loader_run ticks ?s" by (simp add: loader_run_def t)
  from Cons.prems have "\<forall>(poll, reload) \<in> set ticks. \<forall>v sn. poll = Inr v \<and> reload = Inr sn \<longrightarrow> v \<le> sn_config_version sn"
    by simp
  note IH = Cons.IH [OF this, of ?s]
  show ?case
    unfolding run using IH step keep by (auto simp: t)
qed (simp add: loader_run_def)

theorem loader_run_monotone_witness:
  "sn_config_version (store_read store_empty)
     \<le> sn_config_version (store_read (loader_run [(Inr 2, Inr (default_snapshot\<lparr>sn_config_version := 2\<rparr>)),
          (Inl conn_lost, Inl conn_lost), (Inr 2, Inl conn_lost)] store_empty))"
  by (rule loader_run_monotone [THEN conjunct1]) simp

end
