(* ===== verification/Decision_Api.thy ===== *)
theory Decision_Api
  imports Tenancy Snapshot_Store Url_Signing Event_Channel Rust_Text
begin

section \<open>The decision API\<close>

text \<open>
  \<open>src/src/decisions.rs\<close> (\<open>decide_pure\<close>, the \<open>decisions\<close> handler with its force gate and
  audit row) and \<open>src/src/rendering.rs\<close>. What the code takes from crates and from the
  process is the record \<open>externals\<close>: the cryptography, the random generator, the hash
  behind \<open>selection_seed\<close> (one fresh \<open>RandomState\<close> per call, so it takes the call's number),
  the Liquid engine, SHA-256 and the hash of a request body. Prefixes: \<open>dp_\<close> for
  \<open>DecisionPlacement\<close>, \<open>da_\<close> for \<open>DecisionAd\<close>, \<open>rq_\<close> for \<open>DecisionsRequest\<close>.
\<close>

subsection \<open>Request and response\<close>

record decision_context =
  cx_url :: "string option"
  cx_referrer :: "string option"
  cx_user_agent :: "string option"

record force_override =
  fo_ad_id :: "int option"
  fo_campaign_id :: "int option"
  fo_flight_id :: "int option"
  fo_creative_id :: "int option"

record decision_placement =
  dp_id :: string
  dp_site_id :: "int option"
  dp_site_url :: "string option"
  dp_site_external_id :: "string option"
  dp_zone_ids :: "int list option"
  dp_ad_types :: "int list"
  dp_count :: "int option"
  dp_force :: "force_override option"

record decision_block =
  db_creative_ids :: "int list option"
  db_advertiser_ids :: "int list option"
  db_campaign_ids :: "int list option"

record decisions_request =
  rq_context :: "decision_context option"
  rq_placements :: "decision_placement list"
  rq_block :: "decision_block option"
  rq_force_reason :: "string option"

datatype decision_creative =
    ImageCreative "string option" "int option" "int option" "string option" "string option"
  | HtmlCreative "string option" "string option"
  | NativeCreative "string option" json "string option"
  | TemplatedCreative "string option" json string "string option"

record decision_ad =
  da_ad_id :: int
  da_creative_id :: int
  da_flight_id :: int
  da_campaign_id :: int
  da_advertiser_id :: int
  da_priority_id :: int
  da_site_id :: int
  da_click_url :: string
  da_impression_url :: string
  da_creative :: "decision_creative option"

record decisions_response =
  rs_snapshot_version :: int
  rs_decisions :: "string \<rightharpoonup> decision_ad list"

record decide_outcome =
  oc_response :: decisions_response
  oc_events :: "event list"

datatype decide_error = PlacementsRequired | TooManyPlacements | AdTypesRequired

fun decide_code :: "decide_error \<Rightarrow> string" where
  "decide_code PlacementsRequired = ''placements_required''"
| "decide_code TooManyPlacements = ''too_many_placements''"
| "decide_code AdTypesRequired = ''ad_types_required''"

fun decide_message :: "decide_error \<Rightarrow> string" where
  "decide_message PlacementsRequired = ''placements must be a non-empty array''"
| "decide_message TooManyPlacements = ''max 32 placements per request''"
| "decide_message AdTypesRequired = ''placements[].ad_types must be a non-empty array''"

record 'r externals =
  xt_crypto :: crypto
  xt_rng :: "'r rng"
  xt_seed :: "nat \<Rightarrow> string \<Rightarrow> int \<Rightarrow> nat"
  xt_liquid :: "string \<Rightarrow> json \<Rightarrow> string option"
  xt_sha256 :: "bytes \<Rightarrow> bytes"
  xt_body_hash :: "decisions_request \<Rightarrow> string option"

subsection \<open>Rendering a templated creative\<close>

definition MAX_OUTPUT_BYTES :: nat where
  "MAX_OUTPUT_BYTES = 256 * 1024"

record render_ctx =
  rc_ad_id :: int
  rc_click_url :: string
  rc_impression_url :: string
  rc_placement_id :: string
  rc_snapshot_version :: int

definition render_globals :: "json \<Rightarrow> render_ctx \<Rightarrow> json" where
  "render_globals vals ctx =
     JObj [(''values'', vals),
           (''ad'', JObj [(''id'', JInt (rc_ad_id ctx)),
                          (''click_url'', JStr (rc_click_url ctx)),
                          (''impression_url'', JStr (rc_impression_url ctx))]),
           (''placement'', JObj [(''id'', JStr (rc_placement_id ctx))]),
           (''decision'', JObj [(''snapshot_version'', JInt (rc_snapshot_version ctx))])]"

text \<open>\<open>xt_liquid\<close> is parsing and rendering; \<open>None\<close> is an error of either, or of the cap.\<close>

definition render_templated :: "'r externals \<Rightarrow> string \<Rightarrow> json \<Rightarrow> render_ctx \<Rightarrow> string option" where
  "render_templated x source vals ctx =
     (case xt_liquid x source (render_globals vals ctx) of
        None \<Rightarrow> None
      | Some out \<Rightarrow> if length out > MAX_OUTPUT_BYTES then None else Some out)"

definition build_decision_creative ::
  "'r externals \<Rightarrow> snapshot_creative \<Rightarrow> render_ctx \<Rightarrow> decision_creative option" where
  "build_decision_creative x c ctx =
     (if sc_kind c = ''image'' then
        Some (ImageCreative (sc_image_url c) (sc_width c) (sc_height c) (sc_alt c) (sc_click_through_url c))
      else if sc_kind c = ''html'' then
        Some (HtmlCreative (sc_body c) (sc_click_through_url c))
      else if sc_kind c = ''native'' then
        Some (NativeCreative (sc_template_name c) (sc_values c) (sc_click_through_url c))
      else if sc_kind c = ''templated'' then
        (case sc_template_source c of
           None \<Rightarrow> None
         | Some source \<Rightarrow>
             (case render_templated x source (sc_values c) ctx of
                None \<Rightarrow> None
              | Some body \<Rightarrow>
                  Some (TemplatedCreative (sc_template_name c) (sc_values c) body
                          (sc_click_through_url c))))
      else None)"

subsection \<open>Helpers\<close>

definition build_block :: "decision_block option \<Rightarrow> block_set" where
  "build_block req =
     (case req of
        None \<Rightarrow> \<lparr>bl_creative_ids = [], bl_advertiser_ids = [], bl_campaign_ids = []\<rparr>
      | Some b \<Rightarrow>
          \<lparr>bl_creative_ids = (case db_creative_ids b of Some v \<Rightarrow> v | None \<Rightarrow> []),
           bl_advertiser_ids = (case db_advertiser_ids b of Some v \<Rightarrow> v | None \<Rightarrow> []),
           bl_campaign_ids = (case db_campaign_ids b of Some v \<Rightarrow> v | None \<Rightarrow> [])\<rparr>)"

definition resolve_site :: "project_snapshot \<Rightarrow> decision_placement \<Rightarrow> int option" where
  "resolve_site project p =
     (case dp_site_id p of
        Some i \<Rightarrow> map_option ss_id (find (\<lambda>s. ss_id s = i) (ps_sites project))
      | None \<Rightarrow>
     (case dp_site_url p of
        Some url \<Rightarrow>
          map_option ss_id
            (find (\<lambda>s. ss_url s = url \<or> list_ex (\<lambda>a. a = url) (ss_aliases s)) (ps_sites project))
      | None \<Rightarrow> None))"

definition mint_nonce :: "int \<Rightarrow> int \<Rightarrow> bytes" where
  "mint_nonce now_ms ad = i64_to_be (wrap_i64 (now_ms * 2654435761 + ad))"

definition forced_candidate :: "project_snapshot \<Rightarrow> int \<Rightarrow> candidate option" where
  "forced_candidate project i =
     (case find (\<lambda>a. ad_id a = i) (ps_ads project) of
        None \<Rightarrow> None
      | Some a \<Rightarrow>
          (case find (\<lambda>f. fl_id f = ad_flight_id a) (ps_flights project) of
             None \<Rightarrow> None
           | Some f \<Rightarrow> Some \<lparr>cand_ad = a, cand_flight = f\<rparr>))"

definition referrer_host :: "string \<Rightarrow> string option" where
  "referrer_host referrer =
     (let after_scheme = (case split_once ''://'' referrer of Some (_, r) \<Rightarrow> r | None \<Rightarrow> referrer);
          host = hd (split_chars {CHR ''/'', CHR ''?'', CHR ''#''} after_scheme)
      in if host = [] then None else Some host)"

definition ua_hash :: "'r externals \<Rightarrow> string \<Rightarrow> bytes" where
  "ua_hash x ua = xt_sha256 x (bytes_of ua)"

definition decision_event ::
  "'r externals \<Rightarrow> principal \<Rightarrow> string \<Rightarrow> decision_placement \<Rightarrow> int \<Rightarrow> candidate \<Rightarrow> bytes
    \<Rightarrow> int \<Rightarrow> int \<Rightarrow> decision_context option \<Rightarrow> event" where
  "decision_event x p pid pl site c nonce sv now_ms context =
     \<lparr>ev_ts_ms = now_ms, ev_org_id = org_id p, ev_project_id = pid, ev_kind = Decision,
      ev_placement_id = Some (dp_id pl), ev_site_id = Some site,
      ev_zone_id = (case dp_zone_ids pl of Some (z # _) \<Rightarrow> Some z | _ \<Rightarrow> None),
      ev_ad_id = Some (ad_id (cand_ad c)), ev_creative_id = ad_creative_id (cand_ad c),
      ev_flight_id = Some (fl_id (cand_flight c)),
      ev_campaign_id = Some (fl_campaign_id (cand_flight c)),
      ev_advertiser_id = Some (fl_advertiser_id (cand_flight c)),
      ev_url = Option.bind context cx_url,
      ev_referrer_host = Option.bind (Option.bind context cx_referrer) referrer_host,
      ev_user_agent_hash = map_option (ua_hash x) (Option.bind context cx_user_agent),
      ev_signature_nonce = Some nonce, ev_dedup_key = None, ev_snapshot_version = Some sv\<rparr>"

subsection \<open>decide_pure\<close>

definition placement_of :: "decision_placement \<Rightarrow> int \<Rightarrow> placement" where
  "placement_of pl resolved =
     \<lparr>pl_site_id = resolved,
      pl_zone_ids = (case dp_zone_ids pl of Some zs \<Rightarrow> zs | None \<Rightarrow> []),
      pl_ad_types = dp_ad_types pl,
      pl_count = nat (max 1 (min 10 (case dp_count pl of Some n \<Rightarrow> n | None \<Rightarrow> 1)))\<rparr>"

text \<open>Filter, priority, draw, then the override when the gate let it through.\<close>

definition eligible_tier ::
  "project_snapshot \<Rightarrow> placement \<Rightarrow> block_set \<Rightarrow> int \<Rightarrow> candidate list" where
  "eligible_tier project p block now =
     priority (sel_filter (ps_flights project) (ps_ads project) p block now)"

definition select_picks ::
  "'r externals \<Rightarrow> nat \<Rightarrow> project_snapshot \<Rightarrow> decision_placement \<Rightarrow> placement \<Rightarrow> block_set
    \<Rightarrow> int \<Rightarrow> bool \<Rightarrow> candidate list" where
  "select_picks x call project pl p block now force_active =
     (let top = eligible_tier project p block now;
          seed = xt_seed x call (dp_id pl) now;
          picks = weighted_random (xt_rng x) top (pl_count p) seed
      in if force_active then
           (case Option.bind (dp_force pl) fo_ad_id of
              None \<Rightarrow> picks
            | Some i \<Rightarrow> (case forced_candidate project i of Some c \<Rightarrow> [c] | None \<Rightarrow> []))
         else picks)"

definition decision_payload ::
  "'r externals \<Rightarrow> string \<Rightarrow> decision_placement \<Rightarrow> candidate \<Rightarrow> int \<Rightarrow> signature_payload" where
  "decision_payload x pid pl c now =
     \<lparr>sp_project_id = pid, sp_ad_id = ad_id (cand_ad c),
      sp_creative_id = (case ad_creative_id (cand_ad c) of Some i \<Rightarrow> i | None \<Rightarrow> 0),
      sp_placement_id_hash = placement_id_hash (xt_crypto x) pid (dp_id pl),
      sp_issued_at_secs = as_u64 (tdiv now 1000),
      sp_nonce = mint_nonce now (ad_id (cand_ad c))\<rparr>"

text \<open>
  One pick: \<open>None\<close> is the panic of \<open>pack_record\<close>, \<open>Some None\<close> the no-fill of a failed render.
\<close>

definition decide_pick ::
  "'r externals \<Rightarrow> project_snapshot \<Rightarrow> int \<Rightarrow> principal \<Rightarrow> string \<Rightarrow> decision_placement \<Rightarrow> int
    \<Rightarrow> int \<Rightarrow> decision_context option \<Rightarrow> candidate \<Rightarrow> (decision_ad \<times> event) option option" where
  "decide_pick x project sv p pid pl resolved now context c =
     (let creative_id = (case ad_creative_id (cand_ad c) of Some i \<Rightarrow> i | None \<Rightarrow> 0);
          nonce = mint_nonce now (ad_id (cand_ad c))
      in case sign (xt_crypto x) (decision_payload x pid pl c now) (ps_hmac_secret project) of
           None \<Rightarrow> None
         | Some blob \<Rightarrow>
             (let click_url = ''/e/c/'' @ blob;
                  impression_url = ''/e/i/'' @ blob;
                  ctx = \<lparr>rc_ad_id = ad_id (cand_ad c), rc_click_url = click_url,
                         rc_impression_url = impression_url, rc_placement_id = dp_id pl,
                         rc_snapshot_version = sv\<rparr>;
                  out = (\<lambda>creative.
                    (\<lparr>da_ad_id = ad_id (cand_ad c), da_creative_id = creative_id,
                      da_flight_id = fl_id (cand_flight c),
                      da_campaign_id = fl_campaign_id (cand_flight c),
                      da_advertiser_id = fl_advertiser_id (cand_flight c),
                      da_priority_id = fl_priority_tier (cand_flight c),
                      da_site_id = resolved, da_click_url = click_url,
                      da_impression_url = impression_url, da_creative = creative\<rparr>,
                     decision_event x p pid pl resolved c nonce sv now context))
              in case Option.bind (ad_creative_id (cand_ad c)) (ps_creatives project) of
                   None \<Rightarrow> Some (Some (out None))
                 | Some sc \<Rightarrow>
                     (case build_decision_creative x sc ctx of
                        Some dc \<Rightarrow> Some (Some (out (Some dc)))
                      | None \<Rightarrow> Some None)))"

fun decide_picks ::
  "(candidate \<Rightarrow> (decision_ad \<times> event) option option) \<Rightarrow> candidate list
    \<Rightarrow> (decision_ad list \<times> event list) option" where
  "decide_picks pick [] = Some ([], [])"
| "decide_picks pick (c # cs) =
     (case pick c of
        None \<Rightarrow> None
      | Some r \<Rightarrow>
          (case decide_picks pick cs of
             None \<Rightarrow> None
           | Some (served, evs) \<Rightarrow>
               (case r of None \<Rightarrow> Some (served, evs) | Some (a, e) \<Rightarrow> Some (a # served, e # evs))))"

text \<open>The loop over the placements; \<open>call\<close> counts the calls of \<open>selection_seed\<close>.\<close>

fun decide_loop ::
  "'r externals \<Rightarrow> project_snapshot \<Rightarrow> int \<Rightarrow> principal \<Rightarrow> string \<Rightarrow> decision_context option \<Rightarrow> block_set
    \<Rightarrow> int \<Rightarrow> bool \<Rightarrow> nat \<Rightarrow> decision_placement list
    \<Rightarrow> (string \<rightharpoonup> decision_ad list) \<Rightarrow> event list
    \<Rightarrow> (decide_error + (string \<rightharpoonup> decision_ad list) \<times> event list) option" where
  "decide_loop x project sv p pid context block now fa call [] m evs = Some (Inr (m, evs))"
| "decide_loop x project sv p pid context block now fa call (pl # pls) m evs =
     (case resolve_site project pl of
        None \<Rightarrow> decide_loop x project sv p pid context block now fa call pls (m(dp_id pl \<mapsto> [])) evs
      | Some resolved \<Rightarrow>
          if dp_ad_types pl = [] then Some (Inl AdTypesRequired)
          else (case decide_picks (decide_pick x project sv p pid pl resolved now context)
                       (select_picks x call project pl (placement_of pl resolved) block now fa) of
              None \<Rightarrow> None
            | Some (served, es) \<Rightarrow>
                decide_loop x project sv p pid context block now fa (Suc call) pls
                  (m(dp_id pl \<mapsto> served)) (evs @ es)))"

definition decide_pure ::
  "'r externals \<Rightarrow> project_snapshot \<Rightarrow> int \<Rightarrow> principal \<Rightarrow> string \<Rightarrow> decisions_request \<Rightarrow> int \<Rightarrow> bool
    \<Rightarrow> (decide_error + decide_outcome) option" where
  "decide_pure x project sv p pid req now force_active =
     (if rq_placements req = [] then Some (Inl PlacementsRequired)
      else if length (rq_placements req) > 32 then Some (Inl TooManyPlacements)
      else (case decide_loop x project sv p pid (rq_context req) (build_block (rq_block req)) now
                   force_active 0 (rq_placements req) Map.empty [] of
          None \<Rightarrow> None
        | Some (Inl e) \<Rightarrow> Some (Inl e)
        | Some (Inr (m, evs)) \<Rightarrow>
            Some (Inr \<lparr>oc_response = \<lparr>rs_snapshot_version = sv, rs_decisions = m\<rparr>, oc_events = evs\<rparr>)))"

subsection \<open>The handler\<close>

definition force_gate :: "principal \<Rightarrow> project_snapshot \<Rightarrow> bool \<Rightarrow> unit + unit" where
  "force_gate p project global_enabled =
     (if \<not> global_enabled then Inl ()
      else if \<not> ps_allow_force_decision project then Inl ()
      else if \<not> has_role_at_least p Admin then Inl ()
      else Inr ())"

definition audit_force_honored ::
  "'r externals \<Rightarrow> env \<Rightarrow> tx \<Rightarrow> principal \<Rightarrow> string \<Rightarrow> decisions_request
    \<Rightarrow> decisions_response api_resp + tx" where
  "audit_force_honored x e t p pid req =
     (case xt_body_hash x req of
        None \<Rightarrow> Inl (Unavailable (''internal_error'', ''could not hash audit payload''))
      | Some h \<Rightarrow>
          if fault e (Stmt ''insert audit_log'') then
            Inl (Unavailable (''db_error'', ''audit_log insert failed''))
          else Inr (t\<lparr>tx_db := (tx_db t)\<lparr>audit_log := audit_log (tx_db t) @
                 [\<lparr>au_ts = clock_ms e, au_org_id = org_id p, au_project_id = Some pid, au_actor = actor_id p,
                   au_operation = ''force.honored'', au_payload_hash = Some h,
                   au_reason = None, au_request_id = None\<rparr>]\<rparr>\<rparr>))"

text \<open>Whether every event was accepted, and the channel it leaves.\<close>

fun drain_to_sender :: "channel \<Rightarrow> event list \<Rightarrow> bool \<times> channel" where
  "drain_to_sender c [] = (True, c)"
| "drain_to_sender c (ev # evs) =
     (case try_send c ev of
        Inr c' \<Rightarrow> drain_to_sender c' evs
      | Inl ChannelSaturated \<Rightarrow> (False, c)
      | Inl FlusherDown \<Rightarrow> (False, c))"

text \<open>What of \<open>AppState\<close> the handlers use; the database is \<open>None\<close> when not configured.\<close>

record app_state =
  app_db :: "db option"
  app_snapshot :: snapshot_store
  app_events :: "channel option"
  app_force_overrides_enabled :: bool

definition force_requested :: "decisions_request \<Rightarrow> bool" where
  "force_requested req = list_ex (\<lambda>pl. dp_force pl \<noteq> None) (rq_placements req)"

text \<open>After the gate: audit and commit when the override is honoured, then the decision.\<close>

definition serve_decision ::
  "'r externals \<Rightarrow> env \<Rightarrow> app_state \<Rightarrow> principal \<Rightarrow> string \<Rightarrow> decisions_request
    \<Rightarrow> snapshot \<Rightarrow> project_snapshot \<Rightarrow> bool
    \<Rightarrow> (decisions_response api_resp \<times> app_state) option" where
  "serve_decision x e st p pid req snap project force_active =
     (case decide_pure x project (sn_config_version snap) p pid req (clock_ms e) force_active of
        None \<Rightarrow> None
      | Some (Inl er) \<Rightarrow> Some (BadRequest (decide_code er, decide_message er), st)
      | Some (Inr oc) \<Rightarrow>
          (case app_events st of
             None \<Rightarrow> Some (Ok200 (oc_response oc), st)
           | Some sender \<Rightarrow>
               (case drain_to_sender sender (oc_events oc) of
                  (False, c) \<Rightarrow>
                    Some (Unavailable (''event_channel_saturated'',
                            ''events flusher cannot keep up; retry with backoff''),
                          st\<lparr>app_events := Some c\<rparr>)
                | (True, c) \<Rightarrow> Some (Ok200 (oc_response oc), st\<lparr>app_events := Some c\<rparr>))))"

definition decisions ::
  "'r externals \<Rightarrow> env \<Rightarrow> app_state \<Rightarrow> principal \<Rightarrow> string \<Rightarrow> decisions_request
    \<Rightarrow> (decisions_response api_resp \<times> app_state) option" where
  "decisions x e st p pj req =
     (case app_db st of
        None \<Rightarrow> Some (Unavailable (''no_db'', ''no database configured''), st)
      | Some d \<Rightarrow>
     (case open_project_tx e d p pj Reader of
        Inl er \<Rightarrow> Some (forbid er, st)
      | Inr t \<Rightarrow>
          if rq_placements req = [] then
            Some (BadRequest (decide_code PlacementsRequired, decide_message PlacementsRequired), st)
          else if length (rq_placements req) > 32 then
            Some (BadRequest (decide_code TooManyPlacements, decide_message TooManyPlacements), st)
          else (let snap = store_read (app_snapshot st) in
            case sn_projects snap pj of
              None \<Rightarrow> Some (Unavailable (''snapshot_cold'',
                              ''snapshot has not loaded this project yet''), st)
            | Some project \<Rightarrow>
                if force_requested req then
                  (case force_gate p project (app_force_overrides_enabled st) of
                     Inl _ \<Rightarrow> Some (Forbidden (''force_disabled'',
                       ''force.* overrides not permitted for this principal/project''), st)
                   | Inr _ \<Rightarrow>
                       (case audit_force_honored x e t p pj req of
                          Inl resp \<Rightarrow> Some (resp, st)
                        | Inr t' \<Rightarrow>
                            (case commit e t' of
                               Inl _ \<Rightarrow> Some (Unavailable (''db_error'',
                                 ''could not commit audit row''), st)
                             | Inr d' \<Rightarrow>
                                 serve_decision x e (st\<lparr>app_db := Some d'\<rparr>) p pj req snap project True)))
                else serve_decision x e st p pj req snap project False)))"

subsection \<open>Helpers\<close>

lemma length_mint_nonce [simp]: "length (mint_nonce now i) = 8"
  by (simp add: mint_nonce_def)

lemma i64_from_mint_nonce: "i64_from_be (mint_nonce now i) = wrap_i64 (now * 2654435761 + i)"
  by (simp add: mint_nonce_def)

lemma mint_nonce_eq_iff:
  "mint_nonce now i = mint_nonce now' j \<longleftrightarrow>
     wrap_i64 (now * 2654435761 + i) = wrap_i64 (now' * 2654435761 + j)"
proof
  assume "mint_nonce now i = mint_nonce now' j"
  then have "i64_from_be (mint_nonce now i) = i64_from_be (mint_nonce now' j)" by simp
  then show "wrap_i64 (now * 2654435761 + i) = wrap_i64 (now' * 2654435761 + j)"
    by (simp only: i64_from_mint_nonce)
qed (simp add: mint_nonce_def)

lemma resolve_site_SomeD:
  "resolve_site project pl = Some i \<Longrightarrow> i \<in> ss_id ` set (ps_sites project)"
  by (auto simp: resolve_site_def find_Some_iff split: option.splits)

lemma forced_candidate_SomeD:
  "forced_candidate project i = Some c \<Longrightarrow>
     cand_ad c \<in> set (ps_ads project) \<and> cand_flight c \<in> set (ps_flights project)
     \<and> ad_id (cand_ad c) = i \<and> ad_flight_id (cand_ad c) = fl_id (cand_flight c)"
  by (auto simp: forced_candidate_def find_Some_iff split: option.splits)

lemma drain_to_sender_send_all:
  "drain_to_sender c evs = (case events.send_all c evs of (r, c') \<Rightarrow> (r = None, c'))"
  by (induction evs arbitrary: c) (auto split: sum.splits send_error.splits)

lemma drain_to_sender_items:
  assumes "drain_to_sender c evs = (ok, c')"
  shows "\<exists>n \<le> length evs. q_items c' = q_items c @ take n evs \<and> (ok \<longleftrightarrow> n = length evs)"
proof -
  obtain r where "events.send_all c evs = (r, c')" "ok \<longleftrightarrow> r = None"
    using assms by (auto simp: drain_to_sender_send_all split: prod.splits)
  with events.send_all_prefix [of c evs r c'] show ?thesis by auto
qed

lemma drain_to_sender_bounded:
  "drain_to_sender c evs = (ok, c') \<Longrightarrow> length (q_items c) \<le> q_capacity c \<Longrightarrow>
     length (q_items c') \<le> q_capacity c'"
  using events.send_all_bounded by (auto simp: drain_to_sender_send_all split: prod.splits)

subsection \<open>One pick\<close>

lemma decide_pick_None_iff:
  "decide_pick x project sv p pid pl resolved now cx c = None \<longleftrightarrow> 255 < length pid"
  by (auto simp: decide_pick_def sign_def pack_record_def decision_payload_def Let_def
           split: option.splits)

lemma decide_pick_SomeD:
  assumes "decide_pick x project sv p pid pl resolved now cx c = Some (Some (a, e))"
  shows "da_ad_id a = ad_id (cand_ad c) \<and> da_flight_id a = fl_id (cand_flight c)
    \<and> da_campaign_id a = fl_campaign_id (cand_flight c)
    \<and> da_advertiser_id a = fl_advertiser_id (cand_flight c)
    \<and> da_priority_id a = fl_priority_tier (cand_flight c) \<and> da_site_id a = resolved
    \<and> e = decision_event x p pid pl resolved c (mint_nonce now (ad_id (cand_ad c))) sv now cx
    \<and> (\<exists>s. sign (xt_crypto x) (decision_payload x pid pl c now) (ps_hmac_secret project) = Some s
          \<and> da_click_url a = ''/e/c/'' @ s \<and> da_impression_url a = ''/e/i/'' @ s)"
  using assms by (auto simp: decide_pick_def Let_def split: option.splits)

lemma decide_picks_eq:
  "decide_picks pick cs =
     (if list_ex (\<lambda>c. pick c = None) cs then None
      else let rs = List.map_filter (\<lambda>c. the (pick c)) cs in Some (map fst rs, map snd rs))"
  by (induction cs) (auto simp: Let_def List.map_filter_simps split: option.splits prod.splits)

lemma decide_picks_SomeD:
  assumes "decide_picks pick cs = Some (served, es)"
  shows "length served = length es" "length served \<le> length cs"
    "a \<in> set served \<Longrightarrow> \<exists>c e. c \<in> set cs \<and> e \<in> set es \<and> pick c = Some (Some (a, e))"
    "e \<in> set es \<Longrightarrow> \<exists>c a. c \<in> set cs \<and> a \<in> set served \<and> pick c = Some (Some (a, e))"
proof -
  let ?rs = "List.map_filter (\<lambda>c. the (pick c)) cs"
  from assms have ok: "\<forall>c \<in> set cs. pick c \<noteq> None"
    and eq: "served = map fst ?rs" "es = map snd ?rs"
    by (auto simp: decide_picks_eq Let_def list_ex_iff split: if_splits)
  have mem: "r \<in> set ?rs \<longleftrightarrow> (\<exists>c \<in> set cs. pick c = Some (Some r))" for r
    using ok by (force simp: List.map_filter_def)
  show "length served = length es" by (simp add: eq)
  show "length served \<le> length cs"
    by (simp add: eq List.map_filter_def)
  show "a \<in> set served \<Longrightarrow> \<exists>c e. c \<in> set cs \<and> e \<in> set es \<and> pick c = Some (Some (a, e))"
    using mem by (force simp: eq)
  show "e \<in> set es \<Longrightarrow> \<exists>c a. c \<in> set cs \<and> a \<in> set served \<and> pick c = Some (Some (a, e))"
    using mem by (force simp: eq)
qed

lemma decide_picks_map:
  assumes "decide_picks pick cs = Some (served, es)"
    and "\<forall>c \<in> set cs. \<forall>a e. pick c = Some (Some (a, e)) \<longrightarrow> f a = g e"
  shows "map f served = map g es"
  using assms by (induction cs arbitrary: served es) (auto split: option.splits)

lemma decide_picks_distinct:
  assumes "decide_picks pick cs = Some (served, es)" and "distinct (map k cs)"
    and "\<And>c a e. c \<in> set cs \<Longrightarrow> pick c = Some (Some (a, e)) \<Longrightarrow> f a = k c"
  shows "distinct (map f served)"
  using assms
proof (induction cs arbitrary: served es)
  case (Cons c cs)
  from Cons.prems(1) obtain r served' es' where r: "pick c = Some r"
    "decide_picks pick cs = Some (served', es')"
    "served = (case r of None \<Rightarrow> served' | Some (a, e) \<Rightarrow> a # served')"
    by (auto split: option.splits)
  have dist: "distinct (map f served')"
    using Cons.IH [OF r(2)] Cons.prems(2,3) by auto
  show ?case
  proof (cases r)
    case (Some ae)
    obtain a e where ae: "ae = (a, e)" by fastforce
    have "f a = k c" using Cons.prems(3) r(1) Some ae by auto
    moreover have "\<forall>b \<in> set served'. f b \<in> k ` set cs"
    proof
      fix b assume that: "b \<in> set served'"
      from decide_picks_SomeD(3) [OF r(2) that] obtain d e' where "d \<in> set cs" "pick d = Some (Some (b, e'))"
        by blast
      with Cons.prems(3) [of d b e'] show "f b \<in> k ` set cs" by (metis image_eqI list.set_intros(2))
    qed
    ultimately have "f a \<notin> f ` set served'" using Cons.prems(2) by auto
    with dist Some ae r(3) show ?thesis by simp
  qed (use dist r in simp)
qed simp

subsection \<open>The loop over the placements\<close>

text \<open>What the loop files under one placement, in the \<open>call\<close>-th run of the selection.\<close>

definition placement_result ::
  "'r externals \<Rightarrow> project_snapshot \<Rightarrow> int \<Rightarrow> principal \<Rightarrow> string \<Rightarrow> decision_context option \<Rightarrow> block_set
    \<Rightarrow> int \<Rightarrow> bool \<Rightarrow> nat \<Rightarrow> decision_placement \<Rightarrow> int \<Rightarrow> (decision_ad list \<times> event list) option" where
  "placement_result x project sv p pid cx block now fa call pl resolved =
     decide_picks (decide_pick x project sv p pid pl resolved now cx)
       (select_picks x call project pl (placement_of pl resolved) block now fa)"

lemma decide_loop_panic:
  "decide_loop x project sv p pid cx block now fa call pls m evs = None \<Longrightarrow> 255 < length pid"
  by (induction pls arbitrary: call m evs)
     (auto simp: decide_picks_eq list_ex_iff decide_pick_None_iff Let_def split: option.splits if_splits)

lemma decide_loop_answers:
  assumes "decide_loop x project sv p pid cx block now fa call pls m evs = Some (Inr (m', evs'))"
  shows "dom m' = dom m \<union> dp_id ` set pls"
    and "m' k = Some served \<Longrightarrow>
      m k = Some served \<or> (\<exists>pl \<in> set pls. dp_id pl = k
        \<and> (resolve_site project pl = None \<and> served = []
           \<or> (\<exists>call' resolved es. resolve_site project pl = Some resolved \<and> dp_ad_types pl \<noteq> []
                \<and> placement_result x project sv p pid cx block now fa call' pl resolved
                    = Some (served, es))))"
  using assms
proof (induction pls arbitrary: call m evs)
  case (Cons pl pls)
  {
    case 1
    then show ?case
      using Cons.IH(1) by (auto split: option.splits if_splits prod.splits)
  next
    case 2
    show ?case
    proof (cases "resolve_site project pl")
      case None
      with 2(2) have rest: "decide_loop x project sv p pid cx block now fa call pls
          (m(dp_id pl \<mapsto> [])) evs = Some (Inr (m', evs'))" by simp
      from Cons.IH(2) [OF 2(1) rest] None show ?thesis by (auto split: if_splits)
    next
      case (Some r)
      with 2(2) obtain ads es where pr:
        "placement_result x project sv p pid cx block now fa call pl r = Some (ads, es)"
        and rest: "decide_loop x project sv p pid cx block now fa (Suc call) pls
          (m(dp_id pl \<mapsto> ads)) (evs @ es) = Some (Inr (m', evs'))" and ne: "dp_ad_types pl \<noteq> []"
        by (auto simp: placement_result_def split: option.splits if_splits)
      from Cons.IH(2) [OF 2(1) rest] Some pr ne show ?thesis
        by (auto split: if_splits)
    qed
  }
qed auto

text \<open>Which ad each event is about; its placement; whose event it is.\<close>

definition ad_of_placement :: "string \<Rightarrow> decision_ad \<Rightarrow> string option \<times> int option" where
  "ad_of_placement k a = (Some k, Some (da_ad_id a))"

definition ad_of_event :: "event \<Rightarrow> string option \<times> int option" where
  "ad_of_event e = (ev_placement_id e, ev_ad_id e)"

lemma placement_result_events:
  assumes "placement_result x project sv p pid cx block now fa call pl r = Some (served, es)"
  shows "map ad_of_event es = map (ad_of_placement (dp_id pl)) served"
proof -
  have "map (ad_of_placement (dp_id pl)) served = map ad_of_event es"
    using assms unfolding placement_result_def
    by (rule decide_picks_map)
       (auto dest!: decide_pick_SomeD simp: ad_of_placement_def ad_of_event_def decision_event_def)
  then show ?thesis by simp
qed

lemma decide_loop_untouched:
  assumes "decide_loop x project sv p pid cx block now fa call pls m evs = Some (Inr (m', evs'))"
    and "k \<notin> dp_id ` set pls"
  shows "m' k = m k"
  using assms
  by (induction pls arbitrary: call m evs) (auto split: option.splits if_splits prod.splits)

text \<open>With distinct placement ids the events are the served ads, placement by placement.\<close>

lemma decide_loop_events:
  assumes "decide_loop x project sv p pid cx block now fa call pls m evs = Some (Inr (m', evs'))"
    and "distinct (map dp_id pls)"
  shows "map ad_of_event evs' = map ad_of_event evs
    @ concat (map (\<lambda>pl. map (ad_of_placement (dp_id pl)) (the (m' (dp_id pl)))) pls)"
  using assms
proof (induction pls arbitrary: call m evs)
  case (Cons pl pls)
  have fresh: "dp_id pl \<notin> dp_id ` set pls" using Cons.prems(2) by auto
  show ?case
  proof (cases "resolve_site project pl")
    case None
    with Cons.prems(1) have rest: "decide_loop x project sv p pid cx block now fa call pls
        (m(dp_id pl \<mapsto> [])) evs = Some (Inr (m', evs'))" by simp
    with Cons.IH [OF rest] Cons.prems(2) decide_loop_untouched [OF rest fresh] show ?thesis by simp
  next
    case (Some r)
    with Cons.prems(1) obtain ads es where pr:
      "placement_result x project sv p pid cx block now fa call pl r = Some (ads, es)"
      and rest: "decide_loop x project sv p pid cx block now fa (Suc call) pls
        (m(dp_id pl \<mapsto> ads)) (evs @ es) = Some (Inr (m', evs'))"
      by (auto simp: placement_result_def split: option.splits if_splits)
    with Cons.IH [OF rest] Cons.prems(2) decide_loop_untouched [OF rest fresh]
      placement_result_events [OF pr] show ?thesis by simp
  qed
qed simp

subsection \<open>What is selected\<close>

lemma set_eligible_tier:
  "c \<in> set (eligible_tier project pl block now) \<longleftrightarrow>
     c \<in> set (sel_filter (ps_flights project) (ps_ads project) pl block now)
     \<and> (\<forall>d \<in> set (sel_filter (ps_flights project) (ps_ads project) pl block now).
          cand_tier c \<le> cand_tier d)"
  by (auto simp: eligible_tier_def set_priority)

lemma distinct_eligible_tier:
  assumes "distinct (map fl_id (ps_flights project))" and "distinct (map ad_id (ps_ads project))"
  shows "distinct (map (\<lambda>c. ad_id (cand_ad c)) (eligible_tier project pl block now))"
  unfolding eligible_tier_def by (intro distinct_priority distinct_sel_filter_ads assms)

lemma pl_count_bounds: "1 \<le> pl_count (placement_of pl r) \<and> pl_count (placement_of pl r) \<le> 10"
  by (auto simp: placement_of_def max_def min_def)

lemma select_picks_unforced:
  "select_picks x call project pl q block now False =
     weighted_random (xt_rng x) (eligible_tier project q block now) (pl_count q)
       (xt_seed x call (dp_id pl) now)"
  by (simp add: select_picks_def Let_def)

lemma select_picks_forced:
  "Option.bind (dp_force pl) fo_ad_id = Some i \<Longrightarrow>
     select_picks x call project pl q block now True =
       (case forced_candidate project i of Some c \<Rightarrow> [c] | None \<Rightarrow> [])"
  by (simp add: select_picks_def Let_def)

subsection \<open>Properties\<close>

lemma decide_pure_InrD:
  assumes "decide_pure x project sv p pid req now fa = Some (Inr oc)"
  shows "rq_placements req \<noteq> [] \<and> length (rq_placements req) \<le> 32
    \<and> rs_snapshot_version (oc_response oc) = sv
    \<and> decide_loop x project sv p pid (rq_context req) (build_block (rq_block req)) now fa 0
        (rq_placements req) Map.empty [] = Some (Inr (rs_decisions (oc_response oc), oc_events oc))"
  using assms by (auto simp: decide_pure_def split: if_splits option.splits sum.splits)

lemma decide_pure_placementD:
  assumes "decide_pure x project sv p pid req now fa = Some (Inr oc)"
    and "rs_decisions (oc_response oc) k = Some served"
  obtains (unresolved) pl where "pl \<in> set (rq_placements req)" "dp_id pl = k"
      "resolve_site project pl = None" "served = []"
    | (served) pl call r es where "pl \<in> set (rq_placements req)" "dp_id pl = k"
      "resolve_site project pl = Some r" "dp_ad_types pl \<noteq> []"
      "placement_result x project sv p pid (rq_context req) (build_block (rq_block req)) now fa call pl r
        = Some (served, es)"
  using decide_loop_answers(2) [of x project sv p pid "rq_context req" "build_block (rq_block req)"
      now fa 0 "rq_placements req" Map.empty "[]" "rs_decisions (oc_response oc)" "oc_events oc" k served]
    decide_pure_InrD [OF assms(1)] assms(2) by auto

text \<open>A project with two competing flights, a request, and an outside world to evaluate on.\<close>

definition sample_world :: "int externals" where
  "sample_world =
     \<lparr>xt_crypto = sample_crypto, xt_rng = sample_rng, xt_seed = (\<lambda>call k now. call),
      xt_liquid = (\<lambda>src globals. if src = ''bad'' then None else Some src),
      xt_sha256 = (\<lambda>b. b), xt_body_hash = (\<lambda>req. Some ''hash'')\<rparr>"

definition sample_creative :: "int \<Rightarrow> string \<Rightarrow> snapshot_creative" where
  "sample_creative i u =
     \<lparr>sc_id = i, sc_kind = ''html'', sc_image_url = None, sc_width = None, sc_height = None,
      sc_alt = None, sc_body = Some ''<p/>'', sc_template_name = None, sc_template_source = None,
      sc_values = JObj [], sc_click_through_url = Some u\<rparr>"

definition sample_project :: project_snapshot where
  "sample_project = default_project_snapshot
     \<lparr>ps_project_id := ''pj'', ps_org_id_for_event := ''o'',
      ps_flights := [sample_flight 1 2, sample_flight 2 1],
      ps_ads := [sample_ad 7 1 3, sample_ad 8 2 4],
      ps_sites := [\<lparr>ss_id = 1, ss_url = ''u'', ss_aliases = []\<rparr>],
      ps_click_through_urls := [8 \<mapsto> ''https://t''],
      ps_creatives := [48 \<mapsto> sample_creative 48 ''https://t''],
      ps_hmac_secret := [1, 2, 3], ps_allow_force_decision := True\<rparr>"

definition sample_placement_req :: "string \<Rightarrow> int option \<Rightarrow> decision_placement" where
  "sample_placement_req k forced =
     \<lparr>dp_id = k, dp_site_id = Some 1, dp_site_url = None, dp_site_external_id = None,
      dp_zone_ids = None, dp_ad_types = [5], dp_count = Some 2,
      dp_force = map_option (\<lambda>i. \<lparr>fo_ad_id = Some i, fo_campaign_id = None, fo_flight_id = None,
        fo_creative_id = None\<rparr>) forced\<rparr>"

definition sample_request :: "int option \<Rightarrow> decisions_request" where
  "sample_request forced =
     \<lparr>rq_context = None, rq_placements = [sample_placement_req ''top'' forced], rq_block = None,
      rq_force_reason = None\<rparr>"

definition sample_principal :: "role \<Rightarrow> principal" where
  "sample_principal r =
     \<lparr>token_type = Opaque, scope = Org, org_id = ''o'', project_id = None, role = r,
      actor_id = ''tok''\<rparr>"

lemmas sample_decide = sample_world_def sample_project_def sample_request_def
  sample_placement_req_def sample_principal_def default_project_snapshot_def

definition sample_now :: int where "sample_now = 1700000000000"

lemmas sample_eval = sample_decide sample_now_def sample_selection sample_rng_def sample_creative_def
  decide_pure_def resolve_site_def placement_of_def select_picks_def eligible_tier_def build_block_def
  active_at_def targets_placement_def priority_def cand_tier_def weighted_random_def
  decide_pick_def decision_payload_def Let_def sign_def pack_record_def build_decision_creative_def

definition sample_decide_result :: "int option \<Rightarrow> bool \<Rightarrow> (decide_error + decide_outcome) option" where
  "sample_decide_result forced fa =
     decide_pure sample_world sample_project 3 (sample_principal Reader) ''pj''
       (sample_request forced) sample_now fa"

lemma sample_unforced:
  "\<exists>oc a. sample_decide_result None False = Some (Inr oc)
     \<and> rs_decisions (oc_response oc) ''top'' = Some [a] \<and> da_ad_id a = 8"
  by (simp add: sample_decide_result_def sample_eval)

lemma sample_forced:
  "\<exists>oc a. sample_decide_result (Some 7) True = Some (Inr oc)
     \<and> rs_decisions (oc_response oc) ''top'' = Some [a] \<and> da_ad_id a = 7"
  by (simp add: sample_decide_result_def sample_eval forced_candidate_def)

text \<open>What a served ad was chosen from, and that it was the best to choose.\<close>

definition fairly_chosen ::
  "project_snapshot \<Rightarrow> decisions_request \<Rightarrow> int \<Rightarrow> string \<Rightarrow> decision_ad \<Rightarrow> bool" where
  "fairly_chosen project req now k a \<longleftrightarrow>
     (\<exists>pl \<in> set (rq_placements req). dp_id pl = k \<and> resolve_site project pl = Some (da_site_id a)
        \<and> (let cands = sel_filter (ps_flights project) (ps_ads project)
                         (placement_of pl (da_site_id a)) (build_block (rq_block req)) now
           in \<exists>c \<in> set cands. ad_id (cand_ad c) = da_ad_id a \<and> fl_id (cand_flight c) = da_flight_id a
                \<and> 0 < ad_weight (cand_ad c) \<and> (\<forall>d \<in> set cands. cand_tier c \<le> cand_tier d)))"

text \<open>
  C1: with the override off, every ad a placement is answered with is an eligible candidate
  of positive weight in the best tier for that placement's resolved site, the answer has at
  most ten ads, none of them twice.
\<close>

theorem decide_serves_best_eligible:
  assumes "rng_ok (xt_rng x)" and "distinct (map fl_id (ps_flights project))"
    and "distinct (map ad_id (ps_ads project))"
    and "decide_pure x project sv p pid req now False = Some (Inr oc)"
    and "rs_decisions (oc_response oc) k = Some served"
  shows "(\<forall>a \<in> set served. fairly_chosen project req now k a)
    \<and> length served \<le> 10 \<and> distinct (map da_ad_id served)"
  using assms(4,5)
proof (cases rule: decide_pure_placementD)
  case (served pl call r es)
  let ?q = "placement_of pl r" and ?b = "build_block (rq_block req)"
  let ?top = "eligible_tier project ?q ?b now"
  let ?picks = "weighted_random (xt_rng x) ?top (pl_count ?q) (xt_seed x call (dp_id pl) now)"
  have picks: "decide_picks (decide_pick x project sv p pid pl r now (rq_context req)) ?picks
      = Some (served, es)"
    using served(5) by (simp add: placement_result_def select_picks_unforced)
  have "fairly_chosen project req now k a" if a: "a \<in> set served" for a
  proof -
    obtain c e where c: "c \<in> set ?picks"
      "decide_pick x project sv p pid pl r now (rq_context req) c = Some (Some (a, e))"
      using decide_picks_SomeD(3) [OF picks a] by blast
    with set_weighted_random [OF assms(1) c(1)] served show ?thesis
      by (auto dest!: decide_pick_SomeD simp: fairly_chosen_def Let_def set_eligible_tier drawable_def
               intro!: bexI [of _ pl])
  qed
  moreover have "length served \<le> 10"
    using decide_picks_SomeD(2) [OF picks] pl_count_bounds [of pl r]
      length_weighted_random_le [OF assms(1), of ?top "pl_count ?q"] by (meson order_trans)
  moreover have "distinct (map da_ad_id served)"
    using picks distinct_weighted_random [OF assms(1) distinct_eligible_tier [OF assms(2,3)]]
    by (rule decide_picks_distinct) (auto dest: decide_pick_SomeD)
  ultimately show ?thesis by blast
qed simp

theorem decide_serves_best_eligible_witness:
  "\<exists>oc a. sample_decide_result None False = Some (Inr oc) \<and> da_ad_id a = 8
     \<and> fairly_chosen sample_project (sample_request None) sample_now ''top'' a"
proof -
  obtain oc a where oc: "sample_decide_result None False = Some (Inr oc)"
    "rs_decisions (oc_response oc) ''top'' = Some [a]" "da_ad_id a = 8"
    using sample_unforced by blast
  have "fairly_chosen sample_project (sample_request None) sample_now ''top'' a"
    using decide_serves_best_eligible [of sample_world sample_project, OF _ _ _
        oc(1) [unfolded sample_decide_result_def] oc(2)]
    by (simp add: sample_world_def) (simp add: sample_project_def sample_flight_def sample_ad_def)
  with oc show ?thesis by blast
qed

text \<open>
  a decision answers every placement of the request and nothing else, never panics on a
  project id that fits its length byte, and queues exactly one decision event per served ad,
  in order, when the placement ids differ.
\<close>

theorem decide_events_match_ads:
  assumes "length pid \<le> 255" and "distinct (map dp_id (rq_placements req))"
    and "rq_placements req \<noteq> []" and "length (rq_placements req) \<le> 32"
    and "\<forall>pl \<in> set (rq_placements req). dp_ad_types pl \<noteq> []"
  shows "\<exists>oc. decide_pure x project sv p pid req now fa = Some (Inr oc)
    \<and> dom (rs_decisions (oc_response oc)) = dp_id ` set (rq_placements req)
    \<and> map (\<lambda>e. (ev_placement_id e, ev_ad_id e)) (oc_events oc) =
        concat (map (\<lambda>k. map (\<lambda>a. (Some k, Some (da_ad_id a)))
                           (the (rs_decisions (oc_response oc) k)))
                 (map dp_id (rq_placements req)))"
proof -
  have ok: "\<exists>m' evs'. decide_loop x project sv p pid cx block now fa call pls m evs = Some (Inr (m', evs'))"
    if "\<forall>pl \<in> set pls. dp_ad_types pl \<noteq> []" for cx block call pls m evs
    using that assms(1)
    by (induction pls arbitrary: call m evs)
       (auto simp: decide_picks_eq decide_pick_None_iff list_ex_iff Let_def split: option.splits)
  obtain m' evs' where loop: "decide_loop x project sv p pid (rq_context req) (build_block (rq_block req))
      now fa 0 (rq_placements req) Map.empty [] = Some (Inr (m', evs'))"
    using ok [OF assms(5)] by blast
  show ?thesis
    using loop assms(3,4) decide_loop_answers(1) [OF loop] decide_loop_events [OF loop assms(2)]
    by (simp add: decide_pure_def ad_of_event_def [abs_def] ad_of_placement_def [abs_def] comp_def)
qed

theorem decide_events_match_ads_witness:
  "\<exists>oc. sample_decide_result None False = Some (Inr oc)
     \<and> map (\<lambda>e. (ev_placement_id e, ev_ad_id e)) (oc_events oc) = [(Some ''top'', Some 8)]"
proof -
  obtain oc a where oc: "sample_decide_result None False = Some (Inr oc)"
    "rs_decisions (oc_response oc) ''top'' = Some [a]" "da_ad_id a = 8"
    using sample_unforced by blast
  with decide_events_match_ads [of "''pj''" "sample_request None" sample_world sample_project 3
      "sample_principal Reader" sample_now False] show ?thesis
    by (simp add: sample_decide_result_def) (simp add: sample_request_def sample_placement_req_def)
qed

text \<open>Dropping every \<open>force\<close> object from a request.\<close>

definition without_force :: "decisions_request \<Rightarrow> decisions_request" where
  "without_force req = req\<lparr>rq_placements := map (\<lambda>pl. pl\<lparr>dp_force := None\<rparr>) (rq_placements req)\<rparr>"

lemma decide_loop_without_force:
  "decide_loop x project sv p pid cx block now False call (map (\<lambda>pl. pl\<lparr>dp_force := None\<rparr>) pls) m evs
   = decide_loop x project sv p pid cx block now False call pls m evs"
proof (induction pls arbitrary: call m evs)
  case (Cons pl pls)
  let ?pl = "pl\<lparr>dp_force := None\<rparr>"
  have "resolve_site project ?pl = resolve_site project pl"
    "placement_of ?pl r = placement_of pl r"
    "select_picks x call project ?pl q block now False = select_picks x call project pl q block now False"
    "decide_pick x project sv p pid ?pl r now cx = decide_pick x project sv p pid pl r now cx"
    for r q call
    by (simp_all add: resolve_site_def placement_of_def select_picks_unforced fun_eq_iff
        decide_pick_def decision_event_def decision_payload_def Let_def cong: option.case_cong)
  with Cons.IH show ?case by (simp add: fun_upd_def split: option.splits prod.splits)
qed simp

text \<open>
  unless the gate let the override through, \<open>force\<close> objects change nothing of the
  decision, its signed URLs or its events.
\<close>

theorem force_inert_when_gated:
  "decide_pure x project sv p pid (without_force req) now False
   = decide_pure x project sv p pid req now False"
  by (simp add: decide_pure_def without_force_def decide_loop_without_force)

text \<open>
  with the override let through, a placement that forces an ad is answered with that ad
  alone or with nothing, whatever its flight's window, targeting or blocks say.
\<close>

theorem forced_ad_or_nothing:
  assumes "decide_pure x project sv p pid req now True = Some (Inr oc)"
    and "distinct (map dp_id (rq_placements req))"
    and "pl \<in> set (rq_placements req)" and "Option.bind (dp_force pl) fo_ad_id = Some i"
    and "rs_decisions (oc_response oc) (dp_id pl) = Some served"
  shows "map da_ad_id served = [i] \<and> i \<in> ad_id ` set (ps_ads project) \<or> served = []"
  using assms(1,5)
proof (cases rule: decide_pure_placementD)
  case (served pl' call r es)
  have "pl' = pl"
    using served(1,2) assms(2,3) by (metis distinct_map inj_onD)
  with served(5) assms(4) have picks: "decide_picks (decide_pick x project sv p pid pl r now (rq_context req))
      (case forced_candidate project i of Some c \<Rightarrow> [c] | None \<Rightarrow> []) = Some (served, es)"
    by (simp add: placement_result_def select_picks_forced)
  show ?thesis
  proof (cases "forced_candidate project i")
    case (Some c)
    with picks show ?thesis
      by (auto dest!: decide_pick_SomeD forced_candidate_SomeD split: option.splits)
  qed (use picks in simp)
qed simp

theorem forced_ad_or_nothing_witness:
  "\<exists>oc served. sample_decide_result (Some 7) True = Some (Inr oc)
     \<and> rs_decisions (oc_response oc) ''top'' = Some served \<and> map da_ad_id served = [7]"
proof -
  obtain oc a where oc: "sample_decide_result (Some 7) True = Some (Inr oc)"
    "rs_decisions (oc_response oc) ''top'' = Some [a]"
    using sample_forced by blast
  have "map da_ad_id [a] = [7] \<and> 7 \<in> ad_id ` set (ps_ads sample_project) \<or> [a] = []"
    using oc(2)
    by (intro forced_ad_or_nothing [OF oc(1) [unfolded sample_decide_result_def],
          of "sample_placement_req ''top'' (Some 7)"])
       (simp_all add: sample_request_def sample_placement_req_def)
  with oc show ?thesis by auto
qed

definition force_audit_row :: "env \<Rightarrow> principal \<Rightarrow> string \<Rightarrow> string \<Rightarrow> audit_row" where
  "force_audit_row e p pj h =
     \<lparr>au_ts = clock_ms e, au_org_id = org_id p, au_project_id = Some pj, au_actor = actor_id p,
      au_operation = ''force.honored'', au_payload_hash = Some h, au_reason = None,
      au_request_id = None\<rparr>"

lemma serve_decision_db:
  "serve_decision x e st p pid req snap project fa = Some (r, st') \<Longrightarrow>
     app_db st' = app_db st \<and> app_snapshot st' = app_snapshot st"
  by (auto simp: serve_decision_def split: option.splits sum.splits prod.splits bool.splits)

lemma audit_force_honored_InrD:
  "audit_force_honored x e t p pj req = Inr t' \<Longrightarrow>
     \<exists>h. xt_body_hash x req = Some h
       \<and> tx_db t' = (tx_db t)\<lparr>audit_log := audit_log (tx_db t) @ [force_audit_row e p pj h]\<rparr>"
  by (auto simp: audit_force_honored_def force_audit_row_def split: option.splits if_splits)

text \<open>
  C5: a decision is answered only to a principal of the project's org whose token may
  address the project. When the request asks for an override it is answered only with the
  kill switch open, the project's flag set and an admin role, and after exactly one
  committed audit row with the hash of the request; otherwise the database is unchanged.
\<close>

theorem decisions_authorised_and_audited:
  assumes "decisions x e st p pj req = Some (Ok200 resp, st')"
  shows "\<exists>d project. app_db st = Some d \<and> sn_projects (inner (app_snapshot st)) pj = Some project
    \<and> in_org d (org_id p) pj \<and> addresses p pj
    \<and> (if force_requested req then
         app_force_overrides_enabled st \<and> ps_allow_force_decision project \<and> Admin \<le> role p
         \<and> (\<exists>h. xt_body_hash x req = Some h
              \<and> app_db st' = Some (d\<lparr>audit_log := audit_log d @ [force_audit_row e p pj h]\<rparr>))
       else app_db st' = Some d)"
proof -
  from assms obtain d t project where d: "app_db st = Some d"
    and t: "open_project_tx e d p pj Reader = Inr t"
    and pr: "sn_projects (inner (app_snapshot st)) pj = Some project"
    by (auto simp: decisions_def forbid_def Let_def store_read_def
             split: option.splits sum.splits if_splits)
  note tx = open_project_tx_InrD [OF t]
  show ?thesis
  proof (cases "force_requested req")
    case False
    with assms d t pr have "app_db st' = app_db st"
      by (auto simp: decisions_def Let_def store_read_def dest: serve_decision_db split: if_splits)
    with False d pr tx show ?thesis by auto
  next
    case True
    with assms d t pr obtain t' d' where
      gate: "force_gate p project (app_force_overrides_enabled st) = Inr ()"
      and aud: "audit_force_honored x e t p pj req = Inr t'"
      and com: "commit e t' = Inr d'" and db: "app_db st' = Some d'"
      by (auto simp: decisions_def Let_def store_read_def dest!: serve_decision_db
               split: if_splits sum.splits option.splits) (auto simp: audit_force_honored_def split: option.splits if_splits)
    show ?thesis
      using True d pr tx gate audit_force_honored_InrD [OF aud] commit_InrD [OF com] db
      by (auto simp: force_gate_def has_role_at_least_def bound_tx_def split: if_splits)
  qed
qed

definition sample_state :: app_state where
  "sample_state =
     \<lparr>app_db = Some tenant_db,
      app_snapshot = \<lparr>inner = \<lparr>sn_config_version = 3, sn_projects = [''pj'' \<mapsto> sample_project]\<rparr>,
                      bumped = 1\<rparr>,
      app_events = None, app_force_overrides_enabled = True\<rparr>"

theorem decisions_authorised_and_audited_witness:
  "\<exists>resp st'. decisions sample_world (calm_env sample_now) sample_state (sample_principal OrgAdmin)
       ''pj'' (sample_request (Some 7)) = Some (Ok200 resp, st')
     \<and> app_db st' = Some (tenant_db\<lparr>audit_log :=
         [force_audit_row (calm_env sample_now) (sample_principal OrgAdmin) ''pj'' ''hash'']\<rparr>)"
proof -
  obtain resp st' where ok: "decisions sample_world (calm_env sample_now) sample_state
      (sample_principal OrgAdmin) ''pj'' (sample_request (Some 7)) = Some (Ok200 resp, st')"
    by (simp add: decisions_def sample_state_def open_project_tx_no_fault has_role_at_least_def
        less_eq_role_def addresses_def in_org_def tenant_db_def sample_project_row_def
        force_requested_def store_read_def force_gate_def audit_force_honored_def commit_def
        bound_tx_def serve_decision_def sample_eval forced_candidate_def)
  from decisions_authorised_and_audited [OF this]
  show ?thesis using ok
    by (auto simp: sample_state_def sample_request_def sample_placement_req_def force_requested_def
        sample_world_def tenant_db_def empty_db_def)
qed

end
