(* ===== verification/Decision_Explain.thy ===== *)
theory Decision_Explain
  imports Decision_Api
begin

section \<open>The decision explainer\<close>

text \<open>
  The second half of \<open>src/src/decisions.rs\<close>: \<open>POST \<dots>/decisions:explain\<close>, which lists for
  every ad of the project the rules it passes and repeats the selection without signing,
  rendering, events or audit. Prefixes: \<open>xe_\<close> for \<open>ExplainEvaluation\<close>, \<open>xc_\<close> for
  \<open>ExplainCandidate\<close>, \<open>xp_\<close> for \<open>ExplainPlacement\<close>.
\<close>

record explain_evaluation =
  xe_rule :: string
  xe_result :: string
  xe_detail :: "string option"

record explain_candidate =
  xc_ad_id :: int
  xc_creative_id :: int
  xc_flight_id :: int
  xc_campaign_id :: int
  xc_advertiser_id :: int
  xc_weight :: int
  xc_evaluation :: "explain_evaluation list"

record explain_placement =
  xp_priority_tier :: "int option"
  xp_selected_ad_id :: "int option"
  xp_candidates :: "explain_candidate list"

record explain_response =
  xr_snapshot_version :: int
  xr_decisions :: "string \<rightharpoonup> decision_ad list"
  xr_explanation :: "string \<rightharpoonup> explain_placement"

definition rule_row :: "string \<Rightarrow> bool \<Rightarrow> string \<Rightarrow> explain_evaluation" where
  "rule_row rule pass detail =
     \<lparr>xe_rule = rule, xe_result = (if pass then ''pass'' else ''fail''),
      xe_detail = (if pass then None else Some detail)\<rparr>"

text \<open>The rules of one ad, in the order the code pushes them.\<close>

definition evaluate_rules ::
  "decision_placement \<Rightarrow> block_set \<Rightarrow> int option \<Rightarrow> ad \<Rightarrow> flight \<Rightarrow> explain_evaluation list" where
  "evaluate_rules pl block resolved a f =
     [rule_row ''flight_active'' (fl_is_active f) ''flight.is_active = false'',
      rule_row ''ad_active'' (ad_is_active a) ''ad.is_active = false'',
      (case resolved of
         Some s \<Rightarrow> rule_row ''site_match'' (fl_site_ids f = [] \<or> s \<in> set (fl_site_ids f))
                     (''site_id '' @ show_int s @ '' not in flight.site_ids '' @ debug_ints (fl_site_ids f))
       | None \<Rightarrow> rule_row ''site_match'' False ''placement site did not resolve''),
      rule_row ''ad_type_match''
        (fl_ad_types f = [] \<or> list_ex (\<lambda>t. t \<in> set (fl_ad_types f)) (dp_ad_types pl))
        (''no overlap with flight.ad_types '' @ debug_ints (fl_ad_types f)),
      rule_row ''block_advertiser_or_campaign''
        (\<not> (fl_advertiser_id f \<in> set (bl_advertiser_ids block)
            \<or> fl_campaign_id f \<in> set (bl_campaign_ids block)))
        ''excluded by block.*'']"

fun explain_candidates ::
  "project_snapshot \<Rightarrow> decision_placement \<Rightarrow> block_set \<Rightarrow> int option \<Rightarrow> ad list
    \<Rightarrow> explain_candidate list" where
  "explain_candidates project pl block resolved [] = []"
| "explain_candidates project pl block resolved (a # as) =
     (case find (\<lambda>f. fl_id f = ad_flight_id a) (ps_flights project) of
        None \<Rightarrow> explain_candidates project pl block resolved as
      | Some f \<Rightarrow>
          \<lparr>xc_ad_id = ad_id a,
           xc_creative_id = (case ad_creative_id a of Some i \<Rightarrow> i | None \<Rightarrow> 0),
           xc_flight_id = fl_id f, xc_campaign_id = fl_campaign_id f,
           xc_advertiser_id = fl_advertiser_id f, xc_weight = ad_weight a,
           xc_evaluation = evaluate_rules pl block resolved a f\<rparr>
          # explain_candidates project pl block resolved as)"

text \<open>\<open>weighted_random / selected\<close> is pushed onto every entry with the selected ad's id.\<close>

definition mark_selected :: "int option \<Rightarrow> explain_candidate list \<Rightarrow> explain_candidate list" where
  "mark_selected sel cs =
     (case sel of
        None \<Rightarrow> cs
      | Some i \<Rightarrow>
          map (\<lambda>c. if xc_ad_id c = i
                   then c\<lparr>xc_evaluation := xc_evaluation c @
                            [\<lparr>xe_rule = ''weighted_random'', xe_result = ''selected'', xe_detail = None\<rparr>]\<rparr>
                   else c) cs)"

definition explain_ad :: "int \<Rightarrow> candidate \<Rightarrow> decision_ad" where
  "explain_ad s c =
     \<lparr>da_ad_id = ad_id (cand_ad c),
      da_creative_id = (case ad_creative_id (cand_ad c) of Some i \<Rightarrow> i | None \<Rightarrow> 0),
      da_flight_id = fl_id (cand_flight c), da_campaign_id = fl_campaign_id (cand_flight c),
      da_advertiser_id = fl_advertiser_id (cand_flight c),
      da_priority_id = fl_priority_tier (cand_flight c), da_site_id = s,
      da_click_url = ''/e/c/__explain_dummy__'', da_impression_url = ''/e/i/__explain_dummy__'',
      da_creative = None\<rparr>"

fun explain_loop ::
  "'r externals \<Rightarrow> project_snapshot \<Rightarrow> block_set \<Rightarrow> int \<Rightarrow> bool \<Rightarrow> nat \<Rightarrow> decision_placement list
    \<Rightarrow> (string \<rightharpoonup> decision_ad list) \<Rightarrow> (string \<rightharpoonup> explain_placement)
    \<Rightarrow> (string \<rightharpoonup> decision_ad list) \<times> (string \<rightharpoonup> explain_placement)" where
  "explain_loop x project block now fa call [] m xs = (m, xs)"
| "explain_loop x project block now fa call (pl # pls) m xs =
     (let resolved = resolve_site project pl;
          cs = explain_candidates project pl block resolved (ps_ads project)
      in case resolved of
           Some s \<Rightarrow>
             if dp_ad_types pl \<noteq> [] then
               (let p = placement_of pl s;
                    top = eligible_tier project p block now;
                    picks = select_picks x call project pl p block now fa;
                    selected = (case picks of [] \<Rightarrow> None | c # _ \<Rightarrow> Some (ad_id (cand_ad c)));
                    tier = (case top of [] \<Rightarrow> None | c # _ \<Rightarrow> Some (cand_tier c))
                in explain_loop x project block now fa (Suc call) pls
                     (m(dp_id pl \<mapsto> map (explain_ad s) picks))
                     (xs(dp_id pl \<mapsto> \<lparr>xp_priority_tier = tier, xp_selected_ad_id = selected,
                                      xp_candidates = mark_selected selected cs\<rparr>)))
             else
               explain_loop x project block now fa call pls (m(dp_id pl \<mapsto> []))
                 (xs(dp_id pl \<mapsto> \<lparr>xp_priority_tier = None, xp_selected_ad_id = None,
                                  xp_candidates = cs\<rparr>))
         | None \<Rightarrow>
             explain_loop x project block now fa call pls (m(dp_id pl \<mapsto> []))
               (xs(dp_id pl \<mapsto> \<lparr>xp_priority_tier = None, xp_selected_ad_id = None,
                                xp_candidates = cs\<rparr>)))"

text \<open>The handler reads the database and the snapshot and changes neither.\<close>

definition explain ::
  "'r externals \<Rightarrow> env \<Rightarrow> app_state \<Rightarrow> principal \<Rightarrow> string \<Rightarrow> decisions_request
    \<Rightarrow> explain_response api_resp" where
  "explain x e st p pj req =
     (case app_db st of
        None \<Rightarrow> Unavailable (''no_db'', ''no database configured'')
      | Some d \<Rightarrow>
     (case open_project_tx e d p pj Reader of
        Inl er \<Rightarrow> Forbidden (authz_envelope er)
      | Inr _ \<Rightarrow>
          (let snap = store_read (app_snapshot st) in
           case sn_projects snap pj of
             None \<Rightarrow> Unavailable (''snapshot_cold'', ''snapshot has not loaded this project yet'')
           | Some project \<Rightarrow>
               if rq_placements req = [] then
                 BadRequest (''placements_required'', ''placements must be a non-empty array'')
               else if length (rq_placements req) > 32 then
                 BadRequest (''too_many_placements'', ''max 32 placements per request'')
               else (case (if force_requested req
                           then map_sum (\<lambda>_. ()) (\<lambda>_. True)
                                  (force_gate p project (app_force_overrides_enabled st))
                           else Inr False) of
                   Inl _ \<Rightarrow> Forbidden (''force_disabled'',
                     ''force.* overrides not permitted for this principal/project'')
                 | Inr fa \<Rightarrow>
                     (case explain_loop x project (build_block (rq_block req)) (clock_ms e) fa 0
                             (rq_placements req) Map.empty Map.empty of
                        (m, xs) \<Rightarrow>
                          Ok200 \<lparr>xr_snapshot_version = sn_config_version snap,
                                 xr_decisions = m, xr_explanation = xs\<rparr>)))))"

subsection \<open>The explainer repeats the decision\<close>

text \<open>What a decision and its explanation have in common: all but URLs and creative.\<close>

definition ad_key :: "decision_ad \<Rightarrow> int \<times> int \<times> int \<times> int \<times> int \<times> int \<times> int" where
  "ad_key a = (da_ad_id a, da_creative_id a, da_flight_id a, da_campaign_id a, da_advertiser_id a,
     da_priority_id a, da_site_id a)"

definition keyed :: "(string \<rightharpoonup> decision_ad list) \<Rightarrow> string \<rightharpoonup> (int \<times> int \<times> int \<times> int \<times> int \<times> int \<times> int) list" where
  "keyed m k = map_option (map ad_key) (m k)"

text \<open>Every creative the project has renders, whatever context it is given.\<close>

definition renders :: "'r externals \<Rightarrow> project_snapshot \<Rightarrow> bool" where
  "renders x project \<longleftrightarrow>
     (\<forall>i c ctx. ps_creatives project i = Some c \<longrightarrow> build_decision_creative x c ctx \<noteq> None)"

lemma decide_pick_renders:
  assumes "renders x project" and "length pid \<le> 255"
  shows "\<exists>a e. decide_pick x project sv p pid pl s now cx c = Some (Some (a, e))
    \<and> ad_key a = ad_key (explain_ad s c)"
proof -
  obtain blob where blob: "sign (xt_crypto x) (decision_payload x pid pl c now) (ps_hmac_secret project) = Some blob"
    using sign_Some_iff [of "xt_crypto x" "decision_payload x pid pl c now" "ps_hmac_secret project"] assms(2)
    by (auto simp: decision_payload_def)
  show ?thesis
  proof (cases "Option.bind (ad_creative_id (cand_ad c)) (ps_creatives project)")
    case None
    with blob show ?thesis by (simp add: decide_pick_def Let_def ad_key_def explain_ad_def)
  next
    case (Some sc)
    then obtain i where "ps_creatives project i = Some sc" by (auto simp: bind_eq_Some_conv)
    with assms(1) have ne: "build_decision_creative x sc ctx \<noteq> None" for ctx
      unfolding renders_def by blast
    define f where "f = (\<lambda>ctx. the (build_decision_creative x sc ctx))"
    have "build_decision_creative x sc ctx = Some (f ctx)" for ctx
      using ne [of ctx] by (simp add: f_def)
    with blob Some show ?thesis by (simp add: decide_pick_def Let_def ad_key_def explain_ad_def)
  qed
qed

lemma decide_picks_explained:
  assumes "\<forall>c \<in> set cs. \<exists>a e. pick c = Some (Some (a, e)) \<and> ad_key a = k c"
  shows "\<exists>served es. decide_picks pick cs = Some (served, es) \<and> map ad_key served = map k cs"
  using assms by (induction cs) fastforce+

lemma keyed_upd: "keyed m = keyed m' \<Longrightarrow> map ad_key as = map ad_key bs \<Longrightarrow>
    keyed (m(k \<mapsto> as)) = keyed (m'(k \<mapsto> bs))"
  by (auto simp: keyed_def fun_eq_iff)

lemma decide_loop_explained:
  assumes "renders x project" and "length pid \<le> 255"
    and "\<forall>pl \<in> set pls. dp_ad_types pl \<noteq> []" and "keyed m = keyed m'"
  shows "\<exists>mm evs'. decide_loop x project sv p pid cx block now fa call pls m evs = Some (Inr (mm, evs'))
    \<and> keyed mm = keyed (fst (explain_loop x project block now fa call pls m' xs))"
  using assms(3,4)
proof (induction pls arbitrary: call m m' evs xs)
  case (Cons pl pls)
  have rest: "\<forall>pl \<in> set pls. dp_ad_types pl \<noteq> []" "dp_ad_types pl \<noteq> []" using Cons.prems(1) by simp_all
  show ?case
  proof (cases "resolve_site project pl")
    case None
    with Cons.IH [OF rest(1) keyed_upd [OF Cons.prems(2), of "[]" "[]" "dp_id pl"]] show ?thesis
      by (simp add: Let_def fun_upd_def)
  next
    case (Some s)
    let ?picks = "select_picks x call project pl (placement_of pl s) block now fa"
    have "\<forall>c \<in> set ?picks. \<exists>a e. decide_pick x project sv p pid pl s now cx c = Some (Some (a, e))
        \<and> ad_key a = ad_key (explain_ad s c)"
      using decide_pick_renders [OF assms(1,2)] by blast
    from decide_picks_explained [OF this] obtain served es where
      "decide_picks (decide_pick x project sv p pid pl s now cx) ?picks = Some (served, es)"
      and eq: "map ad_key served = map (\<lambda>c. ad_key (explain_ad s c)) ?picks"
      by blast
    moreover have "map ad_key served = map ad_key (map (explain_ad s) ?picks)"
      by (simp add: eq)
    ultimately show ?thesis
      using Some rest(2) Cons.IH [OF rest(1) keyed_upd [OF Cons.prems(2)]]
      by (simp add: Let_def fun_upd_def)
  qed
qed simp

subsection \<open>Properties\<close>


lemma sample_renders: "renders sample_world sample_project"
  by (auto simp: renders_def sample_project_def sample_creative_def build_decision_creative_def
      default_project_snapshot_def split: if_splits)


definition all_pass :: "explain_candidate \<Rightarrow> bool" where
  "all_pass c \<longleftrightarrow> list_all (\<lambda>r. xe_result r = ''pass'') (xc_evaluation c)"

lemma rule_row_pass [simp]: "xe_result (rule_row r pass d) = ''pass'' \<longleftrightarrow> pass"
  by (simp add: rule_row_def)

text \<open>
  the rules the explainer lists for a candidate are necessary for the ad to be served
  there, but not sufficient: a candidate may pass all of them while the flight's window or
  its zones exclude it.
\<close>

theorem explained_rules_necessary_not_sufficient:
  "(cand \<in> set (sel_filter (ps_flights project) (ps_ads project) (placement_of pl s) block now) \<longrightarrow>
      list_all (\<lambda>r. xe_result r = ''pass'')
        (evaluate_rules pl block (Some s) (cand_ad cand) (cand_flight cand)))
   \<and> (let late = (sample_flight 1 2)\<lparr>fl_start_ms := Some (sample_now + 1)\<rparr>;
          proj = sample_project\<lparr>ps_flights := [late], ps_ads := [sample_ad 7 1 3]\<rparr>;
          plc = sample_placement_req ''top'' None
      in (\<exists>c. explain_candidates proj plc no_block (resolve_site proj plc) (ps_ads proj) = [c] \<and> all_pass c)
         \<and> sel_filter (ps_flights proj) (ps_ads proj) (placement_of plc 1) no_block sample_now = [])"
proof (rule conjI, goal_cases)
  case 1
  have "placement_of pl s = \<lparr>pl_site_id = s, pl_zone_ids = pl_zone_ids (placement_of pl s),
      pl_ad_types = dp_ad_types pl, pl_count = pl_count (placement_of pl s)\<rparr>"
    by (simp add: placement_of_def)
  then have "pl_site_id (placement_of pl s) = s" "pl_ad_types (placement_of pl s) = dp_ad_types pl"
    by (metis placement.select_convs)+
  then show ?case
    by (auto simp: set_sel_filter evaluate_rules_def flight_eligible_def list_ex_iff)
next
  case 2
  show ?case
    by (simp add: sample_eval no_block_def all_pass_def evaluate_rules_def)
qed

theorem explained_rules_necessary_not_sufficient_witness:
  "list_all (\<lambda>r. xe_result r = ''pass'')
     (evaluate_rules (sample_placement_req ''top'' None) no_block (Some 1)
        (sample_ad 8 2 4) (sample_flight 2 1))"
proof -
  let ?c = "\<lparr>cand_ad = sample_ad 8 2 4, cand_flight = sample_flight 2 1\<rparr>"
  have "?c \<in> set (sel_filter (ps_flights sample_project) (ps_ads sample_project)
      (placement_of (sample_placement_req ''top'' None) 1) no_block sample_now)"
    by (simp add: set_sel_filter flight_eligible_def sample_eval)
  from explained_rules_necessary_not_sufficient [THEN conjunct1, rule_format, OF this]
  show ?thesis by simp
qed

end
