(* ===== verification/Event_Pings.thy ===== *)
theory Event_Pings
  imports Decision_Api
begin

section \<open>Impression and click pings\<close>

text \<open>
  \<open>src/src/event_endpoints.rs\<close>: the unauthenticated \<open>GET /e/i/{signed}\<close> and
  \<open>GET /e/c/{signed}\<close>. The two readings of the clock (seconds for the lifetime check,
  milliseconds for the event) are separate arguments, as they are separate calls.
\<close>

definition TRANSPARENT_GIF :: bytes where
  "TRANSPARENT_GIF =
     [0x47, 0x49, 0x46, 0x38, 0x39, 0x61, 0x01, 0x00, 0x01, 0x00, 0x80, 0x00, 0x00, 0x00, 0x00, 0x00,
      0xFF, 0xFF, 0xFF, 0x21, 0xF9, 0x04, 0x01, 0x00, 0x00, 0x00, 0x00, 0x2C, 0x00, 0x00, 0x00, 0x00,
      0x01, 0x00, 0x01, 0x00, 0x00, 0x02, 0x02, 0x44, 0x01, 0x00, 0x3B]"

datatype ping_response =
    NoContent204
  | Gif200 bytes
  | Found302 string
  | BadRequest400 string

definition peek_project_id :: "crypto \<Rightarrow> string \<Rightarrow> string option" where
  "peek_project_id cr signed_url =
     (case split_once ''.'' signed_url of
        None \<Rightarrow> None
      | Some (r_b64, _) \<Rightarrow>
     (case b64_decode cr r_b64 of
        None \<Rightarrow> None
      | Some rec \<Rightarrow>
          if rec = [] then None
          else let pid_len = unat (hd rec)
            in if length rec < 1 + pid_len then None
               else from_utf8 (slice rec 1 pid_len)))"

definition verify_against_snapshot ::
  "crypto \<Rightarrow> snapshot \<Rightarrow> string \<Rightarrow> nat \<Rightarrow> verify_error + signature_payload \<times> string \<times> string" where
  "verify_against_snapshot cr snap signed_url now_secs =
     (case peek_project_id cr signed_url of
        None \<Rightarrow> Inl Malformed
      | Some pid \<Rightarrow>
     (case sn_projects snap pid of
        None \<Rightarrow> Inl BadSignature
      | Some project \<Rightarrow>
     (case verify cr signed_url (ps_hmac_secret project) (ps_hmac_secret_previous project)
             now_secs DEFAULT_TTL_SECS of
        Inl e \<Rightarrow> Inl e
      | Inr payload \<Rightarrow> Inr (payload, pid, ps_org_id_for_event project))))"

definition resolve_redirect :: "snapshot \<Rightarrow> string \<Rightarrow> int \<Rightarrow> string option \<Rightarrow> string" where
  "resolve_redirect snap pid ad signed_override =
     (case Option.bind (sn_projects snap pid) (\<lambda>p. ps_click_through_urls p ad) of
        Some url \<Rightarrow> url
      | None \<Rightarrow> ''/'')"

definition ping_event ::
  "crypto \<Rightarrow> event_kind \<Rightarrow> url_kind \<Rightarrow> string \<Rightarrow> string \<Rightarrow> signature_payload \<Rightarrow> int \<Rightarrow> int \<Rightarrow> event" where
  "ping_event cr kind dedup_kind oid pid payload sv now =
     \<lparr>ev_ts_ms = now, ev_org_id = oid, ev_project_id = pid, ev_kind = kind,
      ev_placement_id = None, ev_site_id = None, ev_zone_id = None,
      ev_ad_id = Some (sp_ad_id payload),
      ev_creative_id = (if sp_creative_id payload = 0 then None else Some (sp_creative_id payload)),
      ev_flight_id = None, ev_campaign_id = None, ev_advertiser_id = None, ev_url = None,
      ev_referrer_host = None, ev_user_agent_hash = None,
      ev_signature_nonce = Some (sp_nonce payload),
      ev_dedup_key = Some (dedup_key cr pid dedup_kind (sp_nonce payload)),
      ev_snapshot_version = Some sv\<rparr>"

definition emit_event ::
  "crypto \<Rightarrow> channel option \<Rightarrow> event_kind \<Rightarrow> string \<Rightarrow> string \<Rightarrow> signature_payload \<Rightarrow> int \<Rightarrow> int
    \<Rightarrow> channel option" where
  "emit_event cr chan kind oid pid payload sv now =
     (case chan of
        None \<Rightarrow> None
      | Some sender \<Rightarrow>
          (case (case kind of Impression \<Rightarrow> Some UrlImpression | Click \<Rightarrow> Some UrlClick
                            | Decision \<Rightarrow> None) of
             None \<Rightarrow> Some sender
           | Some dedup_kind \<Rightarrow>
               (case try_send sender (ping_event cr kind dedup_kind oid pid payload sv now) of
                  Inr sender' \<Rightarrow> Some sender'
                | Inl _ \<Rightarrow> Some sender)))"

definition impression ::
  "crypto \<Rightarrow> snapshot_store \<Rightarrow> channel option \<Rightarrow> nat \<Rightarrow> int \<Rightarrow> string \<Rightarrow> string option
    \<Rightarrow> ping_response \<times> channel option" where
  "impression cr store chan now_secs now signed_url fmt =
     (let want_gif = (fmt = Some ''gif'');
          snap = store_read store;
          chan' = (case verify_against_snapshot cr snap signed_url now_secs of
                     Inr (payload, pid, oid) \<Rightarrow>
                       emit_event cr chan Impression oid pid payload (sn_config_version snap) now
                   | Inl _ \<Rightarrow> chan)
      in (if want_gif then Gif200 TRANSPARENT_GIF else NoContent204, chan'))"

definition click ::
  "crypto \<Rightarrow> snapshot_store \<Rightarrow> channel option \<Rightarrow> nat \<Rightarrow> int \<Rightarrow> string \<Rightarrow> string option
    \<Rightarrow> ping_response \<times> channel option" where
  "click cr store chan now_secs now signed_url u =
     (let snap = store_read store in
      case verify_against_snapshot cr snap signed_url now_secs of
        Inl _ \<Rightarrow> (BadRequest400 ''bad_signature'', chan)
      | Inr (payload, pid, oid) \<Rightarrow>
          (Found302 (resolve_redirect snap pid (sp_ad_id payload) u),
           emit_event cr chan Click oid pid payload (sn_config_version snap) now))"

subsection \<open>Peeking and verifying\<close>

lemma unpack_record_pid:
  assumes "unpack_record rec = Some payload"
  shows "rec \<noteq> [] \<and> \<not> length rec < 1 + unat (hd rec)
    \<and> from_utf8 (slice rec 1 (unat (hd rec))) = Some (sp_project_id payload)"
  using assms by (auto simp: unpack_record_def Let_def split: if_splits option.splits)

text \<open>The peeked project id is the one the signature covers.\<close>

lemma verify_against_snapshot_InrD:
  assumes "verify_against_snapshot cr snap s now = Inr (payload, pid, oid)"
  shows "pid = sp_project_id payload
    \<and> (\<exists>project. sn_projects snap pid = Some project \<and> oid = ps_org_id_for_event project
        \<and> verify cr s (ps_hmac_secret project) (ps_hmac_secret_previous project) now DEFAULT_TTL_SECS
            = Inr payload)"
proof -
  from assms obtain project where peek: "peek_project_id cr s = Some pid"
    and pr: "sn_projects snap pid = Some project" "oid = ps_org_id_for_event project"
    and ver: "verify cr s (ps_hmac_secret project) (ps_hmac_secret_previous project) now DEFAULT_TTL_SECS
      = Inr payload"
    by (auto simp: verify_against_snapshot_def split: option.splits sum.splits)
  from ver obtain r m rec where rec: "split_once ''.'' s = Some (r, m)" "b64_decode cr r = Some rec"
    "unpack_record rec = Some payload"
    unfolding verify_eq by blast
  have "peek_project_id cr s = Some (sp_project_id payload)"
    using rec(1,2) unpack_record_pid [OF rec(3)] by (simp add: peek_project_id_def Let_def)
  with peek pr ver show ?thesis by auto
qed

lemma verify_against_snapshot_eq:
  assumes "sn_projects snap (sp_project_id payload) = Some project"
    and "verify cr s (ps_hmac_secret project) (ps_hmac_secret_previous project) now DEFAULT_TTL_SECS
      = Inr payload"
  shows "verify_against_snapshot cr snap s now
      = Inr (payload, sp_project_id payload, ps_org_id_for_event project)"
proof -
  from assms(2) obtain r m rec where rec: "split_once ''.'' s = Some (r, m)" "b64_decode cr r = Some rec"
    "unpack_record rec = Some payload"
    unfolding verify_eq by blast
  have "peek_project_id cr s = Some (sp_project_id payload)"
    using rec(1,2) unpack_record_pid [OF rec(3)] by (simp add: peek_project_id_def Let_def)
  with assms show ?thesis by (simp add: verify_against_snapshot_def)
qed

subsection \<open>From a decision to its pings\<close>

text \<open>What the Rust types and the clock guarantee of the numbers a decision signs.\<close>

definition signable :: "string \<Rightarrow> decision_ad \<Rightarrow> int \<Rightarrow> bool" where
  "signable pid a now \<longleftrightarrow>
     is_rust_string pid \<and> length pid \<le> 255 \<and> in_i64 (da_ad_id a) \<and> in_i64 (da_creative_id a)
     \<and> 0 \<le> now \<and> in_i64 now"

text \<open>The payload behind a served ad's URLs.\<close>

definition served_payload :: "crypto \<Rightarrow> string \<Rightarrow> string \<Rightarrow> decision_ad \<Rightarrow> int \<Rightarrow> signature_payload" where
  "served_payload cr pid k a now =
     \<lparr>sp_project_id = pid, sp_ad_id = da_ad_id a, sp_creative_id = da_creative_id a,
      sp_placement_id_hash = placement_id_hash cr pid k, sp_issued_at_secs = nat (now div 1000),
      sp_nonce = mint_nonce now (da_ad_id a)\<rparr>"

lemma secs_bound:
  assumes "0 \<le> now" and "in_i64 now"
  shows "nat (now div 1000) < 2 ^ 64"
proof -
  have "now div 1000 \<le> now" using assms(1) by linarith
  with assms show ?thesis by (simp add: in_i64_def)
qed

lemma as_u64_secs:
  assumes "0 \<le> now" and "in_i64 now"
  shows "as_u64 (tdiv now 1000) = nat (now div 1000)"
proof -
  have "now div 1000 \<le> now" using assms(1) by linarith
  with assms show ?thesis by (simp add: as_u64_nonneg in_i64_def)
qed

lemma wf_served_payload:
  assumes "signable pid a now" and "hmac_ok cr"
  shows "wf_payload (served_payload cr pid k a now)"
proof -
  from assms(1) have "nat (now div 1000) < 2 ^ 64"
    by (auto simp: signable_def dest: secs_bound)
  with assms show ?thesis
    by (simp add: wf_payload_def served_payload_def signable_def)
qed

lemma decide_signs_served:
  assumes "decide_pure x project sv p pid req now fa = Some (Inr oc)"
    and "rs_decisions (oc_response oc) k = Some served" and "a \<in> set served"
    and "0 \<le> now" and "in_i64 now"
  shows "\<exists>s. sign (xt_crypto x) (served_payload (xt_crypto x) pid k a now) (ps_hmac_secret project) = Some s
    \<and> da_click_url a = ''/e/c/'' @ s \<and> da_impression_url a = ''/e/i/'' @ s"
  using assms(1,2)
proof (cases rule: decide_pure_placementD)
  case (served pl call r es)
  then have picks: "decide_picks (decide_pick x project sv p pid pl r now (rq_context req))
      (select_picks x call project pl (placement_of pl r) (build_block (rq_block req)) now fa)
      = Some (served, es)" by (simp add: placement_result_def)
  obtain c e where c: "decide_pick x project sv p pid pl r now (rq_context req) c = Some (Some (a, e))"
    using decide_picks_SomeD(3) [OF picks assms(3)] by blast
  have "da_creative_id a = (case ad_creative_id (cand_ad c) of Some i \<Rightarrow> i | None \<Rightarrow> 0)"
    using c by (auto simp: decide_pick_def Let_def split: option.splits)
  then have "decision_payload x pid pl c now = served_payload (xt_crypto x) pid k a now"
    using decide_pick_SomeD [OF c] served(2) as_u64_secs [OF assms(4,5)]
    by (simp add: decision_payload_def served_payload_def)
  with decide_pick_SomeD [OF c] show ?thesis by auto
qed (use assms(3) in simp)

subsection \<open>Properties\<close>

text \<open>
  C27: a click redirects only to a target its project's snapshot holds for the signed ad (or
  to \<open>/\<close>), never to the caller's \<open>u\<close>; it does so only for a URL whose record is tagged under
  a secret of the project the record names, and any other click is a 400 that queues nothing.
\<close>

theorem click_redirect_is_configured:
  assumes "click cr store chan secs now s u = (resp, chan')"
  shows "(resp = BadRequest400 ''bad_signature'' \<and> chan' = chan)
    \<or> (\<exists>payload project target. resp = Found302 target
        \<and> sn_projects (inner store) (sp_project_id payload) = Some project
        \<and> verify cr s (ps_hmac_secret project) (ps_hmac_secret_previous project) secs DEFAULT_TTL_SECS
            = Inr payload
        \<and> (ps_click_through_urls project (sp_ad_id payload) = Some target
           \<or> ps_click_through_urls project (sp_ad_id payload) = None \<and> target = ''/''))"
proof (cases "verify_against_snapshot cr (inner store) s secs")
  case (Inl e)
  with assms show ?thesis by (simp add: click_def store_read_def)
next
  case (Inr t)
  obtain payload pid oid where t: "t = (payload, pid, oid)" by (cases t)
  from Inr t obtain project where "pid = sp_project_id payload" "sn_projects (inner store) pid = Some project"
    "verify cr s (ps_hmac_secret project) (ps_hmac_secret_previous project) secs DEFAULT_TTL_SECS = Inr payload"
    using verify_against_snapshot_InrD [of cr "inner store" s secs payload pid oid] by auto
  with assms Inr t show ?thesis
    by (intro disjI2 exI [of _ payload] exI [of _ project])
       (auto simp: click_def store_read_def resolve_redirect_def split: option.splits)
qed

definition sample_store :: snapshot_store where
  "sample_store =
     \<lparr>inner = \<lparr>sn_config_version = 3, sn_projects = [''pj'' \<mapsto> sample_project]\<rparr>, bumped = 1\<rparr>"

definition sample_click :: "string \<Rightarrow> ping_response \<times> channel option" where
  "sample_click s = click sample_crypto sample_store None 1700000005 1700000005000 s (Some ''https://evil'')"

lemma sample_payload_sign:
  obtains s where "sign sample_crypto (sample_payload\<lparr>sp_ad_id := 8\<rparr>) [1, 2, 3] = Some s"
  by (simp add: sign_def pack_record_def sample_payload_def)

lemma sample_payload_verifies:
  assumes "sign sample_crypto (sample_payload\<lparr>sp_ad_id := 8\<rparr>) [1, 2, 3] = Some s"
  shows "verify_against_snapshot sample_crypto (inner sample_store) s 1700000005
      = Inr (sample_payload\<lparr>sp_ad_id := 8\<rparr>, ''pj'', ''o'')"
proof -
  let ?p = "sample_payload\<lparr>sp_ad_id := 8\<rparr>"
  have wf: "wf_payload ?p"
    using sample_payload_wf by (simp add: wf_payload_def in_i64_def)
  have "verify sample_crypto s [1, 2, 3] None 1700000005 DEFAULT_TTL_SECS = Inr ?p"
    by (rule verify_sign [OF sample_crypto_ok(1) wf assms])
       (simp_all add: accepted_secrets_def DEFAULT_TTL_SECS_def sample_payload_def)
  moreover have "sp_project_id ?p = ''pj''" by (simp add: sample_payload_def)
  moreover have "sn_projects (inner sample_store) ''pj'' = Some sample_project"
    by (simp add: sample_store_def)
  ultimately show ?thesis
    using verify_against_snapshot_eq [of "inner sample_store" ?p sample_project]
    by (simp add: sample_project_def default_project_snapshot_def)
qed

theorem click_redirect_is_configured_witness:
  "\<exists>s. fst (sample_click s) = Found302 ''https://t''"
proof -
  obtain s where s: "sign sample_crypto (sample_payload\<lparr>sp_ad_id := 8\<rparr>) [1, 2, 3] = Some s"
    by (rule sample_payload_sign)
  obtain resp chan' where c: "sample_click s = (resp, chan')" by fastforce
  have "resp \<noteq> BadRequest400 ''bad_signature''"
    using c sample_payload_verifies [OF s] by (auto simp: sample_click_def click_def store_read_def Let_def)
  with click_redirect_is_configured [OF c [unfolded sample_click_def]] sample_payload_verifies [OF s]
  have "resp = Found302 ''https://t''"
    by (auto simp: verify_against_snapshot_def sample_store_def sample_project_def
        default_project_snapshot_def split: option.splits sum.splits if_splits)
  with c show ?thesis by (intro exI [of _ s]) simp
qed

text \<open>
  an impression answers the same whatever its URL, the snapshot or the channel are; it
  queues at most its one event, and exactly that event when the URL verifies and the channel
  has room.
\<close>

theorem impression_silent:
  "fst (impression cr store chan secs now s fmt)
     = (if fmt = Some ''gif'' then Gif200 TRANSPARENT_GIF else NoContent204)
   \<and> snd (impression cr store chan secs now s fmt) =
     (case (chan, verify_against_snapshot cr (inner store) s secs) of
        (Some c, Inr (payload, pid, oid)) \<Rightarrow>
          (if q_receiver_alive c \<and> length (q_items c) < q_capacity c then
             Some (c\<lparr>q_items := q_items c @ [ping_event cr Impression UrlImpression oid pid payload
                                              (sn_config_version (inner store)) now]\<rparr>)
           else Some c)
      | _ \<Rightarrow> chan)"
  by (auto simp: impression_def Let_def emit_event_def store_read_def try_send_def
           split: option.splits sum.splits prod.splits)

end
