(* ===== verification/If_Match.thy ===== *)
theory If_Match
  imports Rust_Text
begin

section \<open>The If-Match precondition\<close>

text \<open>
  \<open>src/src/etag.rs\<close>. A header value that is not visible ASCII (\<open>to_str\<close> fails) is
  \<open>Some None\<close>. No handler calls this helper yet.
\<close>

datatype if_match_error = Mismatch

fun tag_matches :: "string list \<Rightarrow> string \<Rightarrow> bool" where
  "tag_matches [] current_etag = False"
| "tag_matches (tag # tags) current_etag =
     (if trim_matches (\<lambda>c. of_char c = (34 :: nat)) (trim tag) = current_etag then True
      else tag_matches tags current_etag)"

definition check_if_match_value :: "string option \<Rightarrow> string \<Rightarrow> if_match_error + unit" where
  "check_if_match_value v current_etag =
     (case v of
        None \<Rightarrow> Inr ()
      | Some s \<Rightarrow>
          (let trimmed = trim s in
           if trimmed = [] then Inr ()
           else if trimmed = ''*'' then Inr ()
           else if tag_matches (split_chars {CHR '',''} trimmed) current_etag then Inr ()
           else Inl Mismatch))"

definition check_if_match :: "string option option \<Rightarrow> string \<Rightarrow> if_match_error + unit" where
  "check_if_match header current_etag =
     (case header of
        None \<Rightarrow> Inr ()
      | Some None \<Rightarrow> Inl Mismatch
      | Some (Some s) \<Rightarrow> check_if_match_value (Some s) current_etag)"

lemma tag_matches_iff:
  "tag_matches tags e \<longleftrightarrow>
     (\<exists>t \<in> set tags. trim_matches (\<lambda>c. of_char c = (34 :: nat)) (trim t) = e)"
  by (induction tags) auto

text \<open>Joining the pieces with the separator gives the text back.\<close>

fun join_with :: "char \<Rightarrow> string list \<Rightarrow> string" where
  "join_with c [] = []"
| "join_with c [w] = w"
| "join_with c (w # v # ws) = w @ c # join_with c (v # ws)"

lemma split_chars_append_sep:
  "c \<notin> set w \<Longrightarrow> split_chars {c} (w @ c # s) = w # split_chars {c} s"
  by (induction w) auto

lemma split_chars_no_sep: "c \<notin> set w \<Longrightarrow> split_chars {c} w = [w]"
  by (induction w) auto

lemma split_join:
  "ws \<noteq> [] \<Longrightarrow> \<forall>w \<in> set ws. c \<notin> set w \<Longrightarrow> split_chars {c} (join_with c ws) = ws"
  by (induction c ws rule: join_with.induct)
     (simp_all add: split_chars_no_sep split_chars_append_sep)

text \<open>A tag as the database writes it: hexadecimal digits, quoted or not, on the wire.\<close>

definition plain_tag :: "string \<Rightarrow> bool" where
  "plain_tag t \<longleftrightarrow> t \<noteq> [] \<and> (\<forall>c \<in> set t. is_ascii_digit c \<or> c \<in> set ''abcdef'')"

definition quoted :: "string \<Rightarrow> string" where
  "quoted t = char_of (34 :: nat) # t @ [char_of (34 :: nat)]"

lemma is_ascii_digit_range: "is_ascii_digit c \<longleftrightarrow> 48 \<le> (of_char c :: nat) \<and> (of_char c :: nat) \<le> 57"
  by (simp add: is_ascii_digit_def digit_value_def Let_def)

lemma plain_tag_chars:
  assumes "plain_tag t" and "c \<in> set t"
  shows "48 \<le> (of_char c :: nat)"
  using assms by (auto simp: plain_tag_def is_ascii_digit_range)

lemma plain_char:
  assumes "plain_tag t" and "c \<in> set t"
  shows "\<not> is_space c" "of_char c \<noteq> (34 :: nat)" "c \<noteq> CHR '',''" "c \<noteq> CHR ''*''"
proof -
  have c: "48 \<le> (of_char c :: nat)" using assms by (rule plain_tag_chars)
  then show "of_char c \<noteq> (34 :: nat)" by linarith
  show "\<not> is_space c" unfolding is_space_def using c by force
  show "c \<noteq> CHR '',''" "c \<noteq> CHR ''*''" using c by auto
qed

lemma plain_tag_clean:
  assumes "plain_tag t"
  shows "\<forall>c \<in> set t. \<not> is_space c" "\<forall>c \<in> set t. of_char c \<noteq> (34 :: nat)"
  using plain_char [OF assms] by blast+

lemma quote_facts: "\<not> is_space (char_of (34 :: nat))" "char_of (34 :: nat) \<noteq> CHR '',''"
  "char_of (34 :: nat) \<noteq> CHR ''*''"
  by (auto simp: is_space_def dest: arg_cong [of _ _ "of_char :: char \<Rightarrow> nat"])

lemma trim_plain: "plain_tag t \<Longrightarrow> trim t = t"
  by (simp add: trim_def trim_matches_nothing plain_tag_clean(1))

lemma trim_quoted: "plain_tag t \<Longrightarrow> trim (quoted t) = quoted t"
  unfolding trim_def quoted_def
  by (rule trim_matches_nothing) (use plain_tag_clean(1) [of t] quote_facts(1) in auto)

lemma dropWhile_head: "\<not> P (hd t) \<Longrightarrow> dropWhile P t = t"
  by (cases t) auto

lemma unquote:
  assumes "plain_tag t"
  shows "trim_matches (\<lambda>c. of_char c = (34 :: nat)) (quoted t) = t"
    "trim_matches (\<lambda>c. of_char c = (34 :: nat)) t = t"
proof -
  let ?P = "\<lambda>c. of_char c = (34 :: nat)"
  have ne: "t \<noteq> []" using assms by (simp add: plain_tag_def)
  have "\<not> ?P (hd t)" "\<not> ?P (hd (rev t))"
    using plain_tag_clean(2) [OF assms] ne by (auto simp: hd_rev)
  then have "dropWhile ?P (t @ [char_of (34 :: nat)]) = t @ [char_of (34 :: nat)]"
    "dropWhile ?P (rev t) = rev t"
    using ne by (simp_all add: dropWhile_head hd_append)
  then show "trim_matches ?P (quoted t) = t"
    by (simp add: trim_matches_def quoted_def)
  show "trim_matches ?P t = t"
    using plain_tag_clean(2) [OF assms] by (rule trim_matches_nothing)
qed

definition clean_piece :: "string \<Rightarrow> bool" where
  "clean_piece w \<longleftrightarrow> (\<forall>c \<in> set w. \<not> is_space c \<and> c \<noteq> CHR '','') \<and> w \<noteq> [] \<and> w \<noteq> ''*''"

lemma clean_plain: "plain_tag t \<Longrightarrow> clean_piece t"
  unfolding clean_piece_def using plain_char [of t] by (metis list.set_intros(1) plain_tag_def)

lemma clean_quoted: "plain_tag t \<Longrightarrow> clean_piece (quoted t)"
  unfolding clean_piece_def quoted_def using plain_char [of t] quote_facts by auto

lemma clean_join:
  "\<not> is_space c \<Longrightarrow> \<forall>w \<in> set ws. \<forall>d \<in> set w. \<not> is_space d \<Longrightarrow> \<forall>d \<in> set (join_with c ws). \<not> is_space d"
  by (induction c ws rule: join_with.induct) auto

subsection \<open>Properties\<close>

text \<open>
  a list of etags, each quoted or not, passes exactly when the current etag is on it; an
  absent or empty header and the wildcard always pass.
\<close>

theorem if_match_list:
  assumes "tags \<noteq> []" and "\<forall>t \<in> set tags. plain_tag t" and "plain_tag current"
  shows "(check_if_match_value (Some (join_with (CHR '','') tags)) current = Inr ()
      \<longleftrightarrow> current \<in> set tags)
    \<and> (check_if_match_value (Some (join_with (CHR '','') (map quoted tags))) current = Inr ()
      \<longleftrightarrow> current \<in> set tags)
    \<and> check_if_match None current = Inr () \<and> check_if_match (Some (Some '''')) current = Inr ()
    \<and> check_if_match (Some (Some ''*'')) current = Inr ()"
proof -
  let ?J = "join_with (CHR '','')"
  have gen: "check_if_match_value (Some (?J ws)) current = Inr () \<longleftrightarrow> current \<in> set tags"
    if ws: "ws = tags \<or> ws = map quoted tags" for ws
  proof -
    have ne: "ws \<noteq> []" using assms(1) ws by auto
    have clean: "\<forall>w \<in> set ws. clean_piece w"
      using ws assms(2) clean_plain clean_quoted by auto
    have nosp: "\<forall>c \<in> set (?J ws). \<not> is_space c"
      using clean by (intro clean_join) (auto simp: clean_piece_def is_space_def)
    have t: "trim (?J ws) = ?J ws"
      unfolding trim_def using nosp by (rule trim_matches_nothing)
    have split: "split_chars {CHR '',''} (?J ws) = ws"
      using ne clean by (intro split_join) (auto simp: clean_piece_def)
    have "\<not> clean_piece []" "\<not> clean_piece ''*''" by (simp_all add: clean_piece_def)
    then have "?J ws \<noteq> []" "?J ws \<noteq> ''*''"
      using split clean by (auto simp: split_chars_no_sep)
    moreover have "tag_matches ws current \<longleftrightarrow> current \<in> set tags"
      using ws assms(2) by (auto simp: tag_matches_iff trim_plain trim_quoted unquote)
    ultimately show ?thesis
      by (simp add: check_if_match_value_def Let_def t split)
  qed
  have "trim '''' = ''''" "trim ''*'' = ''*''"
    by (simp_all add: trim_def trim_matches_def is_space_def)
  with gen show ?thesis
    by (simp add: check_if_match_def) (simp add: check_if_match_value_def)
qed

theorem if_match_list_witness:
  "check_if_match_value (Some (join_with (CHR '','') (map quoted [''01d'', ''abc123'']))) ''abc123'' = Inr ()
   \<and> check_if_match_value (Some (join_with (CHR '','') [''01d''])) ''abc123'' \<noteq> Inr ()"
  using if_match_list [of "[''01d'', ''abc123'']" "''abc123''"] if_match_list [of "[''01d'']" "''abc123''"]
  by (simp add: plain_tag_def is_ascii_digit_range)

end
