(* ===== verification/Config_Interpolation.thy ===== *)
theory Config_Interpolation
  imports Rust_Text
begin

section \<open>Interpolation of the configuration file\<close>

text \<open>
  \<open>interpolate_env\<close> of \<open>src/src/config.rs\<close>: every leftmost match of the expression
  \<open>\$\{([A-Z_][A-Z0-9_]*)(?::([^}]*))?\}\<close> is replaced by the environment variable it names, else
  by its default; the names that have neither are reported together. The process environment
  is a map, in which a variable that is not Unicode is absent, as \<open>std::env::var\<close> reports it.
\<close>

subsection \<open>One match\<close>

text \<open>The classes \<open>[A-Z_]\<close> and \<open>[A-Z0-9_]\<close>.\<close>

definition is_upper_letter :: "char \<Rightarrow> bool" where
  "is_upper_letter c \<longleftrightarrow> (let n = of_char c :: nat in 65 \<le> n \<and> n \<le> 90)"

definition name_start :: "char \<Rightarrow> bool" where
  "name_start c \<longleftrightarrow> is_upper_letter c \<or> c = CHR ''_''"

definition name_char :: "char \<Rightarrow> bool" where
  "name_char c \<longleftrightarrow> is_upper_letter c \<or> is_ascii_digit c \<or> c = CHR ''_''"

text \<open>
  An anchored match: the two capture groups and what follows. Neither \<open>:\<close> nor \<open>}\<close> is a
  name character and \<open>}\<close> is no default character, so the greedy choice never backtracks.
\<close>

definition match_default :: "string \<Rightarrow> (string option \<times> string) option" where
  "match_default s =
     (case s of
        [] \<Rightarrow> None
      | c # cs \<Rightarrow>
          if c = CHR ''}'' then Some (None, cs)
          else if c = CHR '':'' then
            (case dropWhile (\<lambda>x. x \<noteq> CHR ''}'') cs of
               [] \<Rightarrow> None
             | _ # rest \<Rightarrow> Some (Some (takeWhile (\<lambda>x. x \<noteq> CHR ''}'') cs), rest))
          else None)"

definition match_ref :: "string \<Rightarrow> (string \<times> string option \<times> string) option" where
  "match_ref s =
     (case strip_prefix ''${'' s of
        None \<Rightarrow> None
      | Some t \<Rightarrow>
          if t = [] \<or> \<not> name_start (hd t) then None
          else map_option (\<lambda>(d, rest). (takeWhile name_char t, d, rest))
                 (match_default (dropWhile name_char t)))"

text \<open>The text of a reference, and the references the expression accepts.\<close>

definition ref_text :: "string \<Rightarrow> string option \<Rightarrow> string" where
  "ref_text v d = ''${'' @ v @ (case d of None \<Rightarrow> [] | Some x \<Rightarrow> CHR '':'' # x) @ ''}''"

definition valid_ref :: "string \<Rightarrow> string option \<Rightarrow> bool" where
  "valid_ref v d \<longleftrightarrow>
     v \<noteq> [] \<and> name_start (hd v) \<and> list_all name_char v
     \<and> (case d of None \<Rightarrow> True | Some x \<Rightarrow> CHR ''}'' \<notin> set x)"

lemma name_start_name_char [simp]: "name_start c \<Longrightarrow> name_char c"
  by (auto simp: name_start_def name_char_def)

lemma not_name_char [simp]:
  "\<not> name_char (CHR '':'')" "\<not> name_char (CHR ''}'')" "\<not> name_start (CHR ''$'')"
  by (simp_all add: name_char_def name_start_def is_upper_letter_def is_ascii_digit_def
      digit_value_def)

lemma takeWhile_stop: "list_all P xs \<Longrightarrow> \<not> P y \<Longrightarrow> takeWhile P (xs @ y # ys) = xs"
  by (induction xs) auto

lemma dropWhile_stop: "list_all P xs \<Longrightarrow> \<not> P y \<Longrightarrow> dropWhile P (xs @ y # ys) = y # ys"
  by (induction xs) auto

lemma split_at_char:
  "c \<notin> set xs \<Longrightarrow> takeWhile (\<lambda>x. x \<noteq> c) (xs @ c # ys) = xs"
  "c \<notin> set xs \<Longrightarrow> dropWhile (\<lambda>x. x \<noteq> c) (xs @ c # ys) = c # ys"
  by (induction xs) auto

lemma match_default_text:
  "(case d of None \<Rightarrow> True | Some x \<Rightarrow> CHR ''}'' \<notin> set x)
   \<Longrightarrow> match_default ((case d of None \<Rightarrow> [] | Some x \<Rightarrow> CHR '':'' # x) @ CHR ''}'' # rest)
       = Some (d, rest)"
  by (cases d) (auto simp: match_default_def split_at_char)

lemma match_default_SomeD:
  assumes "match_default s = Some (d, rest)"
  shows "s = (case d of None \<Rightarrow> [] | Some x \<Rightarrow> CHR '':'' # x) @ CHR ''}'' # rest
         \<and> (case d of None \<Rightarrow> True | Some x \<Rightarrow> CHR ''}'' \<notin> set x)"
proof (cases s)
  case Nil
  with assms show ?thesis by (simp add: match_default_def)
next
  case (Cons c cs)
  show ?thesis
  proof (cases "c = CHR ''}''")
    case True
    with assms Cons show ?thesis by (auto simp: match_default_def)
  next
    case False
    with assms Cons obtain y where
      c: "c = CHR '':''" and dw: "dropWhile (\<lambda>x. x \<noteq> CHR ''}'') cs = y # rest"
      and d: "d = Some (takeWhile (\<lambda>x. x \<noteq> CHR ''}'') cs)"
      by (auto simp: match_default_def split: if_splits list.splits)
    from dw have "y = CHR ''}''"
      using hd_dropWhile [of "\<lambda>x. x \<noteq> CHR ''}''" cs] by auto
    moreover have "cs = takeWhile (\<lambda>x. x \<noteq> CHR ''}'') cs @ y # rest"
      using takeWhile_dropWhile_id [of "\<lambda>x. x \<noteq> CHR ''}''" cs] dw by simp
    moreover have "CHR ''}'' \<notin> set (takeWhile (\<lambda>x. x \<noteq> CHR ''}'') cs)"
      by (auto dest: set_takeWhileD)
    ultimately show ?thesis using Cons c d by simp
  qed
qed

text \<open>The matcher finds a reference exactly where the text has one.\<close>

lemma match_ref_iff:
  "match_ref s = Some (v, d, rest) \<longleftrightarrow> s = ref_text v d @ rest \<and> valid_ref v d"
proof
  assume "match_ref s = Some (v, d, rest)"
  then obtain t where t: "strip_prefix ''${'' s = Some t" "t \<noteq> []" "name_start (hd t)"
    and v: "v = takeWhile name_char t" and md: "match_default (dropWhile name_char t) = Some (d, rest)"
    by (auto simp: match_ref_def split: option.splits if_splits)
  from match_default_SomeD [OF md] v
  have split: "t = v @ (case d of None \<Rightarrow> [] | Some x \<Rightarrow> CHR '':'' # x) @ CHR ''}'' # rest"
    and d: "case d of None \<Rightarrow> True | Some x \<Rightarrow> CHR ''}'' \<notin> set x"
    by (metis takeWhile_dropWhile_id, simp)
  have "v \<noteq> []" "hd v = hd t"
    using t v by (cases t; simp)+
  moreover have "list_all name_char v"
    unfolding v list_all_iff by (auto dest: set_takeWhileD)
  ultimately show "s = ref_text v d @ rest \<and> valid_ref v d"
    using strip_prefix_SomeD [OF t(1)] split t d by (simp add: ref_text_def valid_ref_def)
next
  assume *: "s = ref_text v d @ rest \<and> valid_ref v d"
  let ?d = "case d of None \<Rightarrow> [] | Some x \<Rightarrow> CHR '':'' # x"
  have t: "strip_prefix ''${'' s = Some (v @ ?d @ CHR ''}'' # rest)"
    using * by (simp add: ref_text_def strip_prefix_def starts_with_def)
  obtain y ys where y: "?d @ CHR ''}'' # rest = y # ys" "\<not> name_char y"
    by (cases d) auto
  have "takeWhile name_char (v @ ?d @ CHR ''}'' # rest) = v"
       "dropWhile name_char (v @ ?d @ CHR ''}'' # rest) = ?d @ CHR ''}'' # rest"
    using * y by (simp_all add: valid_ref_def takeWhile_stop dropWhile_stop)
  with * t match_default_text [of d rest] show "match_ref s = Some (v, d, rest)"
    by (simp add: match_ref_def valid_ref_def hd_append)
qed

subsection \<open>All matches, and the loop over them\<close>

text \<open>
  \<open>captures_iter\<close> yields the leftmost matches from left to right, the next search starting where
  the last match ended. The input is kept whole: text between two matches is a \<open>Lit\<close>, one
  character at a time.
\<close>

datatype piece = Lit char | Ref string "string option"

function captures :: "string \<Rightarrow> piece list" where
  "captures [] = []"
| "captures (c # cs) =
     (case match_ref (c # cs) of
        Some (v, d, rest) \<Rightarrow> Ref v d # captures rest
      | None \<Rightarrow> Lit c # captures cs)"
  by pat_completeness auto

lemma match_ref_shorter: "match_ref s = Some (v, d, rest) \<Longrightarrow> length rest < length s"
  by (simp add: match_ref_iff ref_text_def)

termination captures
  by (relation "measure length") (auto dest: match_ref_shorter)

fun piece_text :: "piece \<Rightarrow> string" where
  "piece_text (Lit c) = [c]"
| "piece_text (Ref v d) = ref_text v d"

text \<open>The body of the \<open>for\<close> loop: what it appends to \<open>out\<close> and to \<open>errors\<close>.\<close>

type_synonym environment = "string \<rightharpoonup> string"

fun visit :: "environment \<Rightarrow> piece \<Rightarrow> string \<times> string list \<Rightarrow> string \<times> string list" where
  "visit e (Lit c) (out, errors) = (out @ [c], errors)"
| "visit e (Ref v d) (out, errors) =
     (case e v of
        Some x \<Rightarrow> (out @ x, errors)
      | None \<Rightarrow> (case d of Some x \<Rightarrow> (out @ x, errors) | None \<Rightarrow> (out, errors @ [v])))"

definition interpolation_error :: "string list \<Rightarrow> string" where
  "interpolation_error errors =
     ''config interpolation: '' @ show_nat (length errors)
     @ '' unresolved variable(s) without default: '' @ intersperse '', '' errors"

definition interpolate_env :: "environment \<Rightarrow> string \<Rightarrow> string + string" where
  "interpolate_env e input =
     (let (out, errors) = fold (visit e) (captures input) ([], [])
      in if errors \<noteq> [] then Inl (interpolation_error errors) else Inr out)"

subsection \<open>What the loop computes\<close>

text \<open>A piece's value, and the name it reports when it has none.\<close>

fun piece_value :: "environment \<Rightarrow> piece \<Rightarrow> string option" where
  "piece_value e (Lit c) = Some [c]"
| "piece_value e (Ref v d) = (case e v of Some x \<Rightarrow> Some x | None \<Rightarrow> d)"

fun unresolved :: "environment \<Rightarrow> piece \<Rightarrow> string list" where
  "unresolved e (Lit c) = []"
| "unresolved e (Ref v d) = (if e v = None \<and> d = None then [v] else [])"

lemma visit_eq:
  "visit e p (out, errors)
   = (out @ (case piece_value e p of Some x \<Rightarrow> x | None \<Rightarrow> []), errors @ unresolved e p)"
  by (cases p) (auto split: option.splits)

lemma fold_visit:
  "fold (visit e) ps (out, errors)
   = (out @ concat (map (\<lambda>p. case piece_value e p of Some x \<Rightarrow> x | None \<Rightarrow> []) ps),
      errors @ concat (map (unresolved e) ps))"
  by (induction ps arbitrary: out errors) (simp_all add: visit_eq)

lemma interpolate_env_eq:
  "interpolate_env e s =
     (let missing = concat (map (unresolved e) (captures s))
      in if missing \<noteq> [] then Inl (interpolation_error missing)
         else Inr (concat (map (\<lambda>p. the (piece_value e p)) (captures s))))"
proof -
  have *: "(case piece_value e p of Some x \<Rightarrow> x | None \<Rightarrow> []) = the (piece_value e p)"
    if "unresolved e p = []" for p
    using that by (cases p) (auto split: if_splits option.splits)
  show ?thesis
    by (auto simp: interpolate_env_def fold_visit Let_def * intro!: arg_cong [of _ _ concat])
qed

text \<open>Splitting loses nothing, and every reference it reports is one the expression accepts.\<close>

lemma captures_text: "concat (map piece_text (captures s)) = s"
  by (induction s rule: captures.induct) (auto simp: match_ref_iff split: option.split)

lemma captures_valid: "Ref v d \<in> set (captures s) \<Longrightarrow> valid_ref v d"
  by (induction s rule: captures.induct) (auto simp: match_ref_iff split: option.splits)

lemma captures_lit: "c \<noteq> CHR ''$'' \<or> \<not> starts_with ''{'' cs \<Longrightarrow> captures (c # cs) = Lit c # captures cs"
  by (cases cs) (auto simp: match_ref_def strip_prefix_def starts_with_def split: option.splits)

lemma captures_ref:
  assumes "valid_ref v d"
  shows "captures (ref_text v d @ s) = Ref v d # captures s"
proof -
  have "match_ref (ref_text v d @ s) = Some (v, d, s)"
    using assms by (simp add: match_ref_iff)
  moreover obtain c cs where "ref_text v d @ s = c # cs" by (cases "ref_text v d @ s") (auto simp: ref_text_def)
  ultimately show ?thesis by simp
qed

text \<open>
  A configuration text: accepted references and characters between them, where no dollar sign
  is followed by a brace.
\<close>

fun well_cut :: "piece list \<Rightarrow> bool" where
  "well_cut [] \<longleftrightarrow> True"
| "well_cut (Ref v d # ps) \<longleftrightarrow> valid_ref v d \<and> well_cut ps"
| "well_cut (Lit c # ps) \<longleftrightarrow>
     (c = CHR ''$'' \<longrightarrow> ps = [] \<or> hd ps \<noteq> Lit CHR ''{'') \<and> well_cut ps"

lemma starts_with_pieces:
  "starts_with ''{'' (concat (map piece_text ps)) \<longleftrightarrow> ps \<noteq> [] \<and> hd ps = Lit CHR ''{''"
proof (cases ps)
  case (Cons p qs)
  then show ?thesis by (cases p) (auto simp: ref_text_def starts_with_def)
qed (simp add: starts_with_def)

lemma captures_pieces: "well_cut ps \<Longrightarrow> captures (concat (map piece_text ps)) = ps"
  by (induction ps rule: well_cut.induct)
     (auto simp: captures_lit captures_ref starts_with_pieces simp del: captures.simps(2))

text \<open>
  C31: A configuration text of literal characters and references becomes the text in which every
  reference is replaced by its variable's value, or else by its default: once, from left to
  right, without a second look at what was put in, whatever it contains. When some references
  have neither, all their names are reported in one error, in the order of the text and with
  their number.
\<close>

theorem interpolation_exact:
  assumes "well_cut ps"
  shows "interpolate_env e (concat (map piece_text ps)) =
    (let missing = [v. Ref v None \<leftarrow> ps, e v = None]
     in if missing = [] then Inr (concat (map (\<lambda>p. the (piece_value e p)) ps))
        else Inl (''config interpolation: '' @ show_nat (length missing)
                  @ '' unresolved variable(s) without default: '' @ intersperse '', '' missing))"
proof -
  have "concat (map (unresolved e) ps) = [v. Ref v None \<leftarrow> ps, e v = None]"
    by (rule arg_cong [of _ _ concat], rule map_cong [OF refl])
       (auto split: piece.split option.split elim!: unresolved.elims)
  then show ?thesis
    unfolding interpolate_env_eq captures_pieces [OF assms] interpolation_error_def
    by (simp add: Let_def)
qed

text \<open>\<open>url: ${DB_URL:none} ${WHO}\<close> with a value that itself looks like a reference.\<close>

definition sample_pieces :: "piece list" where
  "sample_pieces = map Lit ''url: '' @ [Ref ''DB_URL'' (Some ''none''), Lit CHR '' '', Ref ''WHO'' None]"

theorem interpolation_exact_witness:
  "interpolate_env [''WHO'' \<mapsto> ''${DB_URL}''] (concat (map piece_text sample_pieces))
     = Inr ''url: none ${DB_URL}''
   \<and> interpolate_env Map.empty (concat (map piece_text sample_pieces))
     = Inl ''config interpolation: 1 unresolved variable(s) without default: WHO''"
proof -
  have "well_cut sample_pieces"
    by (simp add: sample_pieces_def valid_ref_def name_start_def name_char_def
        is_upper_letter_def)
  note * = interpolation_exact [OF this]
  have one: "show_nat (Suc 0) = ''1''" by code_simp
  show ?thesis
    unfolding * using one by (simp add: sample_pieces_def)
qed

text \<open>
  Comments are text like any other: lines 8 and 9 of \<open>src/config.example.yaml\<close>, which explain
  the placeholders, are expanded too.
\<close>

definition example_comment :: "piece list" where
  "example_comment = map Lit ''# `'' @ [Ref ''VAR'' None] @ map Lit ''` and `''
     @ [Ref ''VAR'' (Some ''default'')] @ map Lit ''` placeholders are expanded from the process''"

lemma example_comment_text:
  "concat (map piece_text example_comment)
   = ''# `${VAR}` and `${VAR:default}` placeholders are expanded from the process''"
  by (simp add: example_comment_def ref_text_def)

theorem example_config_needs_VAR:
  "interpolate_env Map.empty (concat (map piece_text example_comment))
   = Inl ''config interpolation: 1 unresolved variable(s) without default: VAR''"
proof -
  have cut: "well_cut example_comment"
    by (simp add: example_comment_def valid_ref_def name_start_def name_char_def is_upper_letter_def)
  have one: "show_nat (Suc 0) = ''1''" by code_simp
  have "concat (map (unresolved Map.empty) example_comment) = [''VAR'']"
    by (simp add: example_comment_def)
  then show ?thesis
    unfolding interpolate_env_eq captures_pieces [OF cut] interpolation_error_def
    using one by simp
qed

end
