(* ===== verification/Jwt_Auth.thy ===== *)
theory Jwt_Auth
  imports Roles Json_Values Url_Signing
begin

section \<open>JWT bearers\<close>

text \<open>
  \<open>src/src/auth/jwt.rs\<close>: the pure \<open>validate\<close>, the JWKS cache, and \<open>JwtVerifier::verify\<close>, the
  path the bearer scheme takes. Base64 is \<open>b64_decode\<close>, \<open>serde_json\<close>'s parser the parameter
  \<open>parse_json\<close>, an HTTP request the function \<open>http\<close> (\<open>None\<close>: no answer, an error status or no
  JSON); what the code takes from the crate \<open>jsonwebtoken\<close> is the record \<open>jwt_crate\<close>.
\<close>

datatype jwt_error =
    JwtMalformed | AlgorithmRejected | MissingKid | JwtSignature | JwtIssuer | JwtAudience
  | JwtExpired | ClaimMissing | ClaimMalformed

record claim_principal =
  cn_scope :: string
  cn_org_id :: string
  cn_project_id :: "string option"
  cn_role :: string

record claim_mapping_rule =
  mr_match_claims :: "(string \<times> string) list"
  mr_principal :: claim_principal

record issuer_policy =
  ip_issuer :: string
  ip_audience :: string
  ip_algorithms :: "string list"
  ip_claim :: string
  ip_rules :: "claim_mapping_rule list"

text \<open>The configured form; an empty \<open>jwks_url\<close> means discovery.\<close>

record jwt_issuer_config = issuer_policy +
  ic_jwks_url :: string

record jwt_header =
  jh_alg :: string
  jh_kid :: "string option"
  jh_typ :: "string option"

record standard_claims =
  cl_iss :: string
  cl_aud :: json
  cl_exp :: "int option"
  cl_nbf :: "int option"
  cl_iat :: "int option"
  cl_sub :: "string option"

record json_web_key =
  jk_kid :: string
  jk_kty :: string
  jk_alg :: "string option"
  jk_n :: "string option"
  jk_e :: "string option"

subsection \<open>Deserialising\<close>

text \<open>
  A derived \<open>Deserialize\<close> reads a structure from an object, or from an array with one element
  per field. (A text that repeats a member is outside the model.)
\<close>

definition de_struct :: "string list \<Rightarrow> json \<Rightarrow> json option" where
  "de_struct names j =
     (case j of
        JObj kvs \<Rightarrow> Some (JObj kvs)
      | JArr xs \<Rightarrow> if length xs = length names then Some (JObj (zip names xs)) else None
      | _ \<Rightarrow> None)"

definition de_header :: "json \<Rightarrow> jwt_header option" where
  "de_header v =
     Option.bind (de_struct [''alg'', ''kid'', ''typ''] v) (\<lambda>j.
     Option.bind (de_string j ''alg'') (\<lambda>alg.
     Option.bind (de_opt_string j ''kid'') (\<lambda>kid.
     Option.bind (de_opt_string j ''typ'') (\<lambda>typ.
       Some \<lparr>jh_alg = alg, jh_kid = kid, jh_typ = typ\<rparr>))))"

definition de_standard :: "json \<Rightarrow> standard_claims option" where
  "de_standard v =
     Option.bind (de_struct [''iss'', ''aud'', ''exp'', ''nbf'', ''iat'', ''sub''] v) (\<lambda>j.
     Option.bind (de_string j ''iss'') (\<lambda>iss.
     Option.bind (json_get j ''aud'') (\<lambda>aud.
     Option.bind (de_opt_i64 j ''exp'') (\<lambda>x.
     Option.bind (de_opt_i64 j ''nbf'') (\<lambda>n.
     Option.bind (de_opt_i64 j ''iat'') (\<lambda>i.
     Option.bind (de_opt_string j ''sub'') (\<lambda>sub.
       Some \<lparr>cl_iss = iss, cl_aud = aud, cl_exp = x, cl_nbf = n, cl_iat = i, cl_sub = sub\<rparr>)))))))"

definition de_knievel_claim :: "json \<Rightarrow> claim_principal option" where
  "de_knievel_claim v =
     Option.bind (de_struct [''scope'', ''org_id'', ''project_id'', ''role''] v) (\<lambda>j.
     Option.bind (de_string j ''scope'') (\<lambda>sc.
     Option.bind (de_string j ''org_id'') (\<lambda>oid.
     Option.bind (de_opt_string j ''project_id'') (\<lambda>pid.
     Option.bind (de_string j ''role'') (\<lambda>ro.
       Some \<lparr>cn_scope = sc, cn_org_id = oid, cn_project_id = pid, cn_role = ro\<rparr>)))))"

definition de_jwk :: "json \<Rightarrow> json_web_key option" where
  "de_jwk v =
     Option.bind (de_struct [''kid'', ''kty'', ''alg'', ''n'', ''e''] v) (\<lambda>j.
     Option.bind (de_string j ''kid'') (\<lambda>kid.
     Option.bind (de_string j ''kty'') (\<lambda>kty.
     Option.bind (de_opt_string j ''alg'') (\<lambda>alg.
     Option.bind (de_opt_string j ''n'') (\<lambda>n.
     Option.bind (de_opt_string j ''e'') (\<lambda>e.
       Some \<lparr>jk_kid = kid, jk_kty = kty, jk_alg = alg, jk_n = n, jk_e = e\<rparr>))))))"

fun de_all :: "('a \<Rightarrow> 'b option) \<Rightarrow> 'a list \<Rightarrow> 'b list option" where
  "de_all f [] = Some []"
| "de_all f (x # xs) =
     (case f x of None \<Rightarrow> None | Some y \<Rightarrow> map_option (Cons y) (de_all f xs))"

definition de_keys :: "json \<Rightarrow> json_web_key list option" where
  "de_keys v = (case v of JArr xs \<Rightarrow> de_all de_jwk xs | _ \<Rightarrow> None)"

subsection \<open>The principal\<close>

definition jwt_principal :: "claim_principal \<Rightarrow> string option \<Rightarrow> jwt_error + principal" where
  "jwt_principal c sub =
     (if cn_scope c \<noteq> ''org'' \<and> cn_scope c \<noteq> ''project'' then Inl ClaimMalformed
      else (case role_from_str (cn_role c) of
          None \<Rightarrow> Inl ClaimMalformed
        | Some r \<Rightarrow>
            Inr \<lparr>token_type = Jwt, scope = (if cn_scope c = ''org'' then Org else Project),
                 org_id = cn_org_id c, project_id = cn_project_id c, role = r,
                 actor_id = ''jwt:'' @ (case sub of Some s \<Rightarrow> s | None \<Rightarrow> '''')\<rparr>))"

definition rule_matches :: "json \<Rightarrow> claim_mapping_rule \<Rightarrow> bool" where
  "rule_matches claims r \<longleftrightarrow>
     list_all (\<lambda>(k, v). Option.bind (json_get claims k) json_as_str = Some v) (mr_match_claims r)"

definition principal_from_claim_mapping ::
  "json \<Rightarrow> claim_mapping_rule list \<Rightarrow> string option \<Rightarrow> jwt_error + principal" where
  "principal_from_claim_mapping claims rules sub =
     (case find (rule_matches claims) rules of
        None \<Rightarrow> Inl ClaimMissing
      | Some r \<Rightarrow> jwt_principal (mr_principal r) sub)"

text \<open>The tail both paths share: the verbatim claim, else the mapping rules, if there are any.\<close>

definition extract_principal ::
  "json \<Rightarrow> string \<Rightarrow> claim_mapping_rule list \<Rightarrow> string option \<Rightarrow> jwt_error + principal" where
  "extract_principal claims claim rules sub =
     (case json_get claims claim of
        Some raw_claim \<Rightarrow>
          (case de_knievel_claim raw_claim of
             None \<Rightarrow> Inl ClaimMalformed
           | Some c \<Rightarrow> jwt_principal c sub)
      | None \<Rightarrow>
          if rules \<noteq> [] then principal_from_claim_mapping claims rules sub else Inl ClaimMissing)"

definition audience_contains :: "json \<Rightarrow> string \<Rightarrow> bool" where
  "audience_contains aud want =
     (case aud of
        JStr s \<Rightarrow> s = want
      | JArr items \<Rightarrow> list_ex (\<lambda>v. json_as_str v = Some want) items
      | _ \<Rightarrow> False)"

subsection \<open>validate\<close>

definition to_ascii_lowercase :: "string \<Rightarrow> string" where
  "to_ascii_lowercase s =
     map (\<lambda>c. if 65 \<le> (of_char c :: nat) \<and> (of_char c :: nat) \<le> 90 then char_of ((of_char c :: nat) + 32) else c) s"

definition SKEW :: int where
  "SKEW = 30"

definition validate ::
  "crypto \<Rightarrow> (bytes \<Rightarrow> json option) \<Rightarrow> string \<Rightarrow> 'z issuer_policy_scheme list \<Rightarrow> int
    \<Rightarrow> jwt_error + principal" where
  "validate cr parse_json token policies now =
     (let parts = splitn 3 (CHR ''.'') token in
      if length parts \<noteq> 3 then Inl JwtMalformed
      else (case b64_decode cr (parts ! 0) of None \<Rightarrow> Inl JwtMalformed | Some header_bytes \<Rightarrow>
     (case b64_decode cr (parts ! 1) of None \<Rightarrow> Inl JwtMalformed | Some payload_bytes \<Rightarrow>
     (case Option.bind (parse_json header_bytes) de_header of None \<Rightarrow> Inl JwtMalformed | Some header \<Rightarrow>
     (let alg_lower = to_ascii_lowercase (jh_alg header) in
      if alg_lower = ''none'' then Inl AlgorithmRejected
      else if starts_with ''hs'' alg_lower then Inl AlgorithmRejected
      else if jh_kid header = None then Inl MissingKid
      else (case Option.bind (parse_json payload_bytes) de_standard of None \<Rightarrow> Inl JwtMalformed | Some std \<Rightarrow>
     (case find (\<lambda>p. ip_issuer p = cl_iss std) policies of None \<Rightarrow> Inl JwtIssuer | Some policy \<Rightarrow>
      if jh_alg header \<notin> set (ip_algorithms policy) then Inl AlgorithmRejected
      else if \<not> audience_contains (cl_aud std) (ip_audience policy) then Inl JwtAudience
      else if (case cl_exp std of Some x \<Rightarrow> now - SKEW > x | None \<Rightarrow> False) then Inl JwtExpired
      else if (case cl_nbf std of Some n \<Rightarrow> now + SKEW < n | None \<Rightarrow> False) then Inl JwtExpired
      else if (case cl_iat std of Some i \<Rightarrow> now + SKEW < i | None \<Rightarrow> False) then Inl JwtExpired
      else (case parse_json payload_bytes of None \<Rightarrow> Inl JwtMalformed | Some payload \<Rightarrow>
              extract_principal payload (ip_claim policy) (ip_rules policy) (cl_sub std)))))))))"

subsection \<open>The key cache\<close>

definition TTL_SECS :: nat where
  "TTL_SECS = 60 * 60"

record cached_jwks =
  cj_fetched_at_secs :: nat
  cj_keys :: "json_web_key list"

type_synonym jwks_cache = "string \<rightharpoonup> cached_jwks"

definition cache_get :: "nat \<Rightarrow> jwks_cache \<Rightarrow> string \<Rightarrow> json_web_key list option" where
  "cache_get now c issuer =
     (case c issuer of
        None \<Rightarrow> None
      | Some entry \<Rightarrow> if now - cj_fetched_at_secs entry > TTL_SECS then None else Some (cj_keys entry))"

definition cache_insert :: "nat \<Rightarrow> jwks_cache \<Rightarrow> string \<Rightarrow> json_web_key list \<Rightarrow> jwks_cache" where
  "cache_insert now c issuer ks = c(issuer \<mapsto> \<lparr>cj_fetched_at_secs = now, cj_keys = ks\<rparr>)"

datatype jwks_error = DiscoveryFailed | FetchFailed | ParseFailed | KeyNotFound

definition trim_end_slash :: "string \<Rightarrow> string" where
  "trim_end_slash s = rev (dropWhile (\<lambda>c. c = CHR ''/'') (rev s))"

definition fetch_jwks ::
  "(string \<Rightarrow> json option) \<Rightarrow> string \<Rightarrow> string \<Rightarrow> jwks_error + json_web_key list" where
  "fetch_jwks http issuer configured =
     (case (if configured \<noteq> [] then Some configured
            else Option.bind (http (trim_end_slash issuer @ ''/.well-known/openid-configuration''))
                   (\<lambda>cfg. Option.bind (json_get cfg ''jwks_uri'') json_as_str)) of
        None \<Rightarrow> Inl DiscoveryFailed
      | Some jwks_url \<Rightarrow>
     (case http jwks_url of
        None \<Rightarrow> Inl FetchFailed
      | Some body \<Rightarrow>
     (case Option.bind (json_get body ''keys'') de_keys of
        None \<Rightarrow> Inl ParseFailed
      | Some ks \<Rightarrow> Inr ks)))"

definition lookup_jwk ::
  "(string \<Rightarrow> json option) \<Rightarrow> nat \<Rightarrow> jwks_cache \<Rightarrow> string \<Rightarrow> string \<Rightarrow> string
    \<Rightarrow> (jwks_error + json_web_key) \<times> jwks_cache" where
  "lookup_jwk http now c issuer configured kid =
     (case Option.bind (cache_get now c issuer) (find (\<lambda>k. jk_kid k = kid)) of
        Some k \<Rightarrow> (Inr k, c)
      | None \<Rightarrow>
     (case fetch_jwks http issuer configured of
        Inl er \<Rightarrow> (Inl er, c)
      | Inr ks \<Rightarrow>
     (case find (\<lambda>k. jk_kid k = kid) ks of
        None \<Rightarrow> (Inl KeyNotFound, c)
      | Some k \<Rightarrow> (Inr k, cache_insert now c issuer ks))))"

subsection \<open>The runtime path\<close>

datatype algorithm =
    HS256 | HS384 | HS512 | ES256 | ES384 | RS256 | RS384 | RS512 | PS256 | PS384 | PS512 | EdDSA

text \<open>\<open>format!("{:?}", alg)\<close>\<close>

fun alg_debug :: "algorithm \<Rightarrow> string" where
  "alg_debug HS256 = ''HS256''" | "alg_debug HS384 = ''HS384''" | "alg_debug HS512 = ''HS512''"
| "alg_debug ES256 = ''ES256''" | "alg_debug ES384 = ''ES384''" | "alg_debug RS256 = ''RS256''"
| "alg_debug RS384 = ''RS384''" | "alg_debug RS512 = ''RS512''" | "alg_debug PS256 = ''PS256''"
| "alg_debug PS384 = ''PS384''" | "alg_debug PS512 = ''PS512''" | "alg_debug EdDSA = ''EdDSA''"

record validation =
  va_algorithm :: algorithm
  va_issuer :: string
  va_audience :: string
  va_leeway :: nat

datatype decode_error =
    InvalidAudience | InvalidIssuer | ExpiredSignature | ImmatureSignature | InvalidSignature
  | RsaFailedSigning | InvalidAlgorithm | OtherDecodeError

text \<open>
  \<open>jc_decode_header\<close> is \<open>decode_header\<close> (algorithm and key id), \<open>jc_rsa\<close> is
  \<open>DecodingKey::from_rsa_components\<close>, \<open>jc_decode\<close> is \<open>decode\<close> at a time.
\<close>

record 'k jwt_crate =
  jc_decode_header :: "string \<Rightarrow> (algorithm \<times> string option) option"
  jc_rsa :: "string \<Rightarrow> string \<Rightarrow> 'k option"
  jc_decode :: "nat \<Rightarrow> string \<Rightarrow> 'k \<Rightarrow> validation \<Rightarrow> decode_error + json"

definition build_decoding_key :: "'k jwt_crate \<Rightarrow> json_web_key \<Rightarrow> 'k option" where
  "build_decoding_key jc k =
     (if jk_kty k = ''RSA'' then
        Option.bind (jk_n k) (\<lambda>n. Option.bind (jk_e k) (\<lambda>e. jc_rsa jc n e))
      else None)"

fun of_decode_error :: "decode_error \<Rightarrow> jwt_error" where
  "of_decode_error InvalidAudience = JwtAudience"
| "of_decode_error InvalidIssuer = JwtIssuer"
| "of_decode_error ExpiredSignature = JwtExpired"
| "of_decode_error ImmatureSignature = JwtExpired"
| "of_decode_error _ = JwtSignature"

definition jwt_verify ::
  "'k jwt_crate \<Rightarrow> crypto \<Rightarrow> (bytes \<Rightarrow> json option) \<Rightarrow> jwt_issuer_config list \<Rightarrow> (string \<Rightarrow> json option)
    \<Rightarrow> nat \<Rightarrow> jwks_cache \<Rightarrow> string \<Rightarrow> (jwt_error + principal) \<times> jwks_cache" where
  "jwt_verify jc cr parse_json policies http now c token =
     (case jc_decode_header jc token of None \<Rightarrow> (Inl JwtMalformed, c) | Some (alg, kid_opt) \<Rightarrow>
      if alg \<in> {HS256, HS384, HS512} then (Inl AlgorithmRejected, c)
      else (case kid_opt of None \<Rightarrow> (Inl MissingKid, c) | Some kid \<Rightarrow>
     (let parts = splitn 3 (CHR ''.'') token in
      if length parts \<noteq> 3 then (Inl JwtMalformed, c)
      else (case Option.bind (Option.bind (b64_decode cr (parts ! 1)) parse_json) de_standard of
        None \<Rightarrow> (Inl JwtMalformed, c)
      | Some std \<Rightarrow>
     (case find (\<lambda>p. ip_issuer p = cl_iss std) policies of None \<Rightarrow> (Inl JwtIssuer, c) | Some policy \<Rightarrow>
      if \<not> list_ex (\<lambda>a. a = alg_debug alg) (ip_algorithms policy) then (Inl AlgorithmRejected, c)
      else (case lookup_jwk http now c (ip_issuer policy) (ic_jwks_url policy) kid of
        (Inl _, c') \<Rightarrow> (Inl JwtSignature, c')
      | (Inr jwk, c') \<Rightarrow>
     (case build_decoding_key jc jwk of None \<Rightarrow> (Inl JwtSignature, c') | Some key \<Rightarrow>
     (case jc_decode jc now token key
              \<lparr>va_algorithm = alg, va_issuer = ip_issuer policy, va_audience = ip_audience policy, va_leeway = 30\<rparr> of
        Inl er \<Rightarrow> (Inl (of_decode_error er), c')
      | Inr claims \<Rightarrow>
          (extract_principal claims (ip_claim policy) (ip_rules policy) (cl_sub std), c')))))))))"

text \<open>What the bearer scheme sees of it.\<close>

definition jwt_bearer ::
  "'k jwt_crate \<Rightarrow> crypto \<Rightarrow> (bytes \<Rightarrow> json option) \<Rightarrow> jwt_issuer_config list \<Rightarrow> (string \<Rightarrow> json option)
    \<Rightarrow> nat \<Rightarrow> jwks_cache \<Rightarrow> (string \<Rightarrow> principal option) option" where
  "jwt_bearer jc cr parse_json policies http now c =
     (if policies = [] then None
      else Some (\<lambda>token. case fst (jwt_verify jc cr parse_json policies http now c token) of
                           Inr p \<Rightarrow> Some p | Inl _ \<Rightarrow> None))"

subsection \<open>Inside the two paths\<close>

definition symmetric_alg :: "string \<Rightarrow> bool" where
  "symmetric_alg a \<longleftrightarrow> to_ascii_lowercase a = ''none'' \<or> starts_with ''hs'' (to_ascii_lowercase a)"

lemma splitn_3_iff:
  "length (splitn 3 d s) = 3 \<longleftrightarrow> (\<exists>a b c. s = a @ d # b @ d # c \<and> d \<notin> set a \<and> d \<notin> set b)"
  "d \<notin> set a \<Longrightarrow> d \<notin> set b \<Longrightarrow> splitn 3 d (a @ d # b @ d # c) = [a, b, c]"
proof -
  show join: "d \<notin> set a \<Longrightarrow> d \<notin> set b \<Longrightarrow> splitn 3 d (a @ d # b @ d # c) = [a, b, c]" for a b c
    by (simp add: numeral_eq_Suc)
  have "length (splitn 3 d s) = 3 \<Longrightarrow> \<exists>a b c. s = a @ d # b @ d # c \<and> d \<notin> set a \<and> d \<notin> set b"
    by (auto simp: numeral_eq_Suc split: option.splits dest!: split_once_char_SomeD)
      (metis)
  with join show "length (splitn 3 d s) = 3 \<longleftrightarrow> (\<exists>a b c. s = a @ d # b @ d # c \<and> d \<notin> set a \<and> d \<notin> set b)"
    by fastforce
qed

lemma alg_debug_symmetric: "symmetric_alg (alg_debug alg) \<longleftrightarrow> alg \<in> {HS256, HS384, HS512}"
  by (cases alg; hypsubst; code_simp)

lemma jwt_principal_InrD:
  "jwt_principal c sub = Inr p \<Longrightarrow> token_type p = Jwt \<and> org_id p = cn_org_id c \<and> project_id p = cn_project_id c
     \<and> cn_role c = as_str (role p)"
  by (auto simp: jwt_principal_def role_from_str_SomeD split: if_splits option.splits)

lemma lookup_jwk_InrD:
  assumes "lookup_jwk http now c issuer url kid = (Inr k, c')"
  shows "jk_kid k = kid \<and>
    ((\<exists>entry. c issuer = Some entry \<and> now - cj_fetched_at_secs entry \<le> TTL_SECS \<and> k \<in> set (cj_keys entry)) \<and> c' = c
     \<or> (\<exists>ks. fetch_jwks http issuer url = Inr ks \<and> k \<in> set ks \<and> c' = cache_insert now c issuer ks))"
  using assms
  by (auto simp: lookup_jwk_def cache_get_def find_Some_iff bind_eq_Some_conv split: option.splits sum.splits if_splits
      intro: nth_mem)

lemma lookup_jwk_cache:
  "lookup_jwk http now c issuer url kid = (res, c') \<Longrightarrow>
     c' = c \<or> (\<exists>ks. fetch_jwks http issuer url = Inr ks \<and> c' = cache_insert now c issuer ks)"
  by (auto simp: lookup_jwk_def split: option.splits sum.splits)

text \<open>What an accepted token went through.\<close>

lemma jwt_verify_InrD:
  assumes "jwt_verify jc cr pj policies http now c token = (Inr p, c')"
  obtains alg kid a b s bb payload std policy jwk key claims where
    "jc_decode_header jc token = Some (alg, Some kid)" "alg \<notin> {HS256, HS384, HS512}"
    "token = a @ CHR ''.'' # b @ CHR ''.'' # s" "CHR ''.'' \<notin> set a" "CHR ''.'' \<notin> set b"
    "b64_decode cr b = Some bb" "pj bb = Some payload" "de_standard payload = Some std"
    "find (\<lambda>p. ip_issuer p = cl_iss std) policies = Some policy" "alg_debug alg \<in> set (ip_algorithms policy)"
    "lookup_jwk http now c (ip_issuer policy) (ic_jwks_url policy) kid = (Inr jwk, c')"
    "build_decoding_key jc jwk = Some key"
    "jc_decode jc now token key \<lparr>va_algorithm = alg, va_issuer = ip_issuer policy,
        va_audience = ip_audience policy, va_leeway = 30\<rparr> = Inr claims"
    "extract_principal claims (ip_claim policy) (ip_rules policy) (cl_sub std) = Inr p"
proof -
  from assms have "length (splitn 3 (CHR ''.'') token) = 3"
    by (auto simp: jwt_verify_def Let_def split: option.splits prod.splits if_splits)
  then obtain a b s where tok: "token = a @ CHR ''.'' # b @ CHR ''.'' # s" "CHR ''.'' \<notin> set a" "CHR ''.'' \<notin> set b"
    unfolding splitn_3_iff by blast
  then have parts: "splitn 3 (CHR ''.'') token = [a, b, s]" using splitn_3_iff(2) by blast
  show thesis
    using assms
    by (auto simp: jwt_verify_def Let_def parts list_ex_iff bind_eq_Some_conv split: option.splits prod.splits if_splits sum.splits
        intro: that [OF _ _ tok])
qed

subsection \<open>The cache over time\<close>

text \<open>The cache after a sequence of verifications, each with its time, network and token.\<close>

definition jwks_after ::
  "'k jwt_crate \<Rightarrow> crypto \<Rightarrow> (bytes \<Rightarrow> json option) \<Rightarrow> jwt_issuer_config list
    \<Rightarrow> (nat \<times> (string \<Rightarrow> json option) \<times> string) list \<Rightarrow> jwks_cache" where
  "jwks_after jc cr pj policies evs =
     foldl (\<lambda>c (now, http, token). snd (jwt_verify jc cr pj policies http now c token)) Map.empty evs"

text \<open>A key set was served: by the JWKS of the policy's issuer, at that time.\<close>

definition served_at ::
  "jwt_issuer_config \<Rightarrow> (nat \<times> (string \<Rightarrow> json option) \<times> string) list \<Rightarrow> nat \<Rightarrow> json_web_key list \<Rightarrow> bool" where
  "served_at policy evs t ks \<longleftrightarrow>
     (\<exists>http token. (t, http, token) \<in> set evs \<and> fetch_jwks http (ip_issuer policy) (ic_jwks_url policy) = Inr ks)"

definition cache_inv ::
  "jwt_issuer_config list \<Rightarrow> (nat \<times> (string \<Rightarrow> json option) \<times> string) list \<Rightarrow> jwks_cache \<Rightarrow> bool" where
  "cache_inv policies evs c \<longleftrightarrow>
     (\<forall>i entry. c i = Some entry \<longrightarrow>
        (\<exists>policy. find (\<lambda>p. ip_issuer p = i) policies = Some policy
            \<and> served_at policy evs (cj_fetched_at_secs entry) (cj_keys entry)))"

lemma jwt_verify_cache:
  assumes "jwt_verify jc cr pj policies http now c token = (res, c')"
  shows "c' = c \<or> (\<exists>policy i ks. find (\<lambda>p. ip_issuer p = i) policies = Some policy \<and> ip_issuer policy = i
      \<and> fetch_jwks http i (ic_jwks_url policy) = Inr ks \<and> c' = cache_insert now c i ks)"
proof -
  have "c' = c \<or> (\<exists>policy i kid res. find (\<lambda>p. ip_issuer p = i) policies = Some policy
      \<and> lookup_jwk http now c (ip_issuer policy) (ic_jwks_url policy) kid = (res, c'))"
    using assms
    by (auto simp: jwt_verify_def Let_def split: option.splits prod.splits if_splits sum.splits)
  then show ?thesis
  proof
    assume "\<exists>policy i kid res. find (\<lambda>p. ip_issuer p = i) policies = Some policy
      \<and> lookup_jwk http now c (ip_issuer policy) (ic_jwks_url policy) kid = (res, c')"
    then obtain policy i kid res where f: "find (\<lambda>p. ip_issuer p = i) policies = Some policy"
      and l: "lookup_jwk http now c (ip_issuer policy) (ic_jwks_url policy) kid = (res, c')" by blast
    moreover from f have "ip_issuer policy = i" by (auto simp: find_Some_iff)
    ultimately show ?thesis using lookup_jwk_cache [OF l] by auto
  qed simp
qed

lemma served_at_mono: "served_at policy evs t ks \<Longrightarrow> served_at policy (evs @ evs') t ks"
  by (auto simp: served_at_def)

lemma cache_inv_step:
  assumes "cache_inv policies evs c" and "jwt_verify jc cr pj policies http now c token = (res, c')"
  shows "cache_inv policies (evs @ [(now, http, token)]) c'"
proof -
  let ?evs = "evs @ [(now, http, token)]"
  have old: "\<exists>policy. find (\<lambda>p. ip_issuer p = i) policies = Some policy
      \<and> served_at policy ?evs (cj_fetched_at_secs entry) (cj_keys entry)" if "c i = Some entry" for i entry
    using assms(1) that served_at_mono unfolding cache_inv_def by blast
  from jwt_verify_cache [OF assms(2)] show ?thesis
  proof (elim disjE exE conjE, goal_cases)
    case 1
    with old show ?case by (simp add: cache_inv_def)
  next
    case (2 policy i ks)
    then have "served_at policy ?evs now ks" by (auto simp: served_at_def)
    with 2 old show ?case by (simp add: cache_inv_def cache_insert_def)
  qed
qed

lemma cache_inv_after: "cache_inv policies evs (jwks_after jc cr pj policies evs)"
proof (induction evs rule: rev_induct)
  case Nil
  show ?case by (simp add: cache_inv_def jwks_after_def)
next
  case (snoc ev evs)
  obtain now http token where ev: "ev = (now, http, token)" by (cases ev) auto
  let ?c = "jwks_after jc cr pj policies evs"
  have "jwks_after jc cr pj policies (evs @ [ev]) = snd (jwt_verify jc cr pj policies http now ?c token)"
    by (simp add: jwks_after_def ev)
  with cache_inv_step [OF snoc, of jc cr pj http now token] show ?case
    by (metis ev prod.collapse)
qed

lemma lookup_is_fresh:
  assumes "cache_inv policies evs c" and "find (\<lambda>p. ip_issuer p = i) policies = Some policy"
    and "lookup_jwk http now c (ip_issuer policy) (ic_jwks_url policy) kid = (Inr k, c')"
  shows "jk_kid k = kid \<and> (\<exists>t ks. served_at policy (evs @ [(now, http, token)]) t ks \<and> k \<in> set ks \<and> now \<le> t + TTL_SECS)"
proof -
  from assms(2) have i: "ip_issuer policy = i" by (auto simp: find_Some_iff)
  from lookup_jwk_InrD [OF assms(3)] show ?thesis
  proof (elim conjE disjE exE, goal_cases)
    case (1 entry)
    with assms(1,2) i have "served_at policy evs (cj_fetched_at_secs entry) (cj_keys entry)"
      by (fastforce simp: cache_inv_def)
    then have "served_at policy (evs @ [(now, http, token)]) (cj_fetched_at_secs entry) (cj_keys entry)"
      by (rule served_at_mono)
    moreover have "now \<le> cj_fetched_at_secs entry + TTL_SECS" using 1 by linarith
    ultimately show ?case using 1 by blast
  next
    case (2 ks)
    then have "served_at policy (evs @ [(now, http, token)]) now ks" by (auto simp: served_at_def)
    with 2 show ?case using le_add1 by blast
  qed
qed

subsection \<open>The crate\<close>

text \<open>
  The documented behaviour of \<open>jsonwebtoken\<close> the code relies on: the header is the first
  segment's; decoded claims are the second segment's, name the audience, and have not expired
  beyond the leeway. Its default validation looks at neither \<open>nbf\<close> nor \<open>iat\<close>.
\<close>

definition jwt_crate_ok :: "crypto \<Rightarrow> (bytes \<Rightarrow> json option) \<Rightarrow> 'k jwt_crate \<Rightarrow> bool" where
  "jwt_crate_ok cr parse_json jc \<longleftrightarrow>
     (\<forall>token alg kid. jc_decode_header jc token = Some (alg, kid) \<longrightarrow>
        (\<exists>hb j typ. b64_decode cr (hd (splitn 3 (CHR ''.'') token)) = Some hb \<and> parse_json hb = Some j
           \<and> de_header j = Some \<lparr>jh_alg = alg_debug alg, jh_kid = kid, jh_typ = typ\<rparr>))
     \<and> (\<forall>now token key va claims. jc_decode jc now token key va = Inr claims \<longrightarrow>
        (\<exists>pb. b64_decode cr (splitn 3 (CHR ''.'') token ! 1) = Some pb \<and> parse_json pb = Some claims)
        \<and> (\<forall>std. de_standard claims = Some std \<longrightarrow> audience_contains (cl_aud std) (va_audience va)
             \<and> (\<forall>x. cl_exp std = Some x \<longrightarrow> int now \<le> x + int (va_leeway va))))"

subsection \<open>A concrete issuer\<close>

definition jwt_crypto :: crypto where
  "jwt_crypto = sample_crypto\<lparr>b64_decode := (\<lambda>s. Some (bytes_of s))\<rparr>"

definition jwt_payload :: "int \<Rightarrow> json" where
  "jwt_payload nbf =
     JObj [(''iss'', JStr ''i''), (''aud'', JStr ''a''), (''exp'', JInt 100), (''nbf'', JInt nbf),
           (''sub'', JStr ''s''),
           (''knievel'', JObj [(''scope'', JStr ''org''), (''org_id'', JStr ''o''), (''role'', JStr ''editor'')])]"

definition jwt_json :: "int \<Rightarrow> bytes \<Rightarrow> json option" where
  "jwt_json nbf b =
     (if b = bytes_of ''h'' then Some (JObj [(''alg'', JStr ''RS256''), (''kid'', JStr ''k'')])
      else if b = bytes_of ''p'' then Some (jwt_payload nbf) else None)"

definition sample_issuer :: jwt_issuer_config where
  "sample_issuer =
     \<lparr>ip_issuer = ''i'', ip_audience = ''a'', ip_algorithms = [''RS256''], ip_claim = ''knievel'',
      ip_rules = [], ic_jwks_url = ''u''\<rparr>"

definition sample_http :: "string \<Rightarrow> json option" where
  "sample_http url =
     (if url = ''u'' then Some (JObj [(''keys'', JArr [JObj [(''kid'', JStr ''k''), (''kty'', JStr ''RSA''),
        (''n'', JStr ''n''), (''e'', JStr ''e'')]])]) else None)"

definition sample_jwt_crate :: "int \<Rightarrow> unit jwt_crate" where
  "sample_jwt_crate nbf =
     \<lparr>jc_decode_header = (\<lambda>t. if t = ''h.p.s'' then Some (RS256, Some ''k'') else None),
      jc_rsa = (\<lambda>n e. Some ()),
      jc_decode = (\<lambda>now t key va. if t = ''h.p.s'' \<and> now \<le> 100 \<and> va_audience va = ''a''
                     then Inr (jwt_payload nbf) else Inl InvalidSignature)\<rparr>"

definition sample_editor :: principal where
  "sample_editor = \<lparr>token_type = Jwt, scope = Org, org_id = ''o'', project_id = None, role = Editor,
     actor_id = ''jwt:s''\<rparr>"

lemma jwt_splitn: "splitn 3 (CHR ''.'') ''h.p.s'' = [''h'', ''p'', ''s'']"
  by code_simp

lemma bytes_of_hp: "bytes_of ''h'' \<noteq> bytes_of ''p''"
  by code_simp

lemma de_jwt_payload: "in_i64 nbf \<Longrightarrow> de_standard (jwt_payload nbf) = Some
    \<lparr>cl_iss = ''i'', cl_aud = JStr ''a'', cl_exp = Some 100, cl_nbf = Some nbf, cl_iat = None, cl_sub = Some ''s''\<rparr>"
  by (simp add: de_standard_def jwt_payload_def de_struct_def de_string_def de_opt_i64_def de_opt_string_def
      in_i64_def)

lemma jwt_header_json:
  "de_header (JObj [(''alg'', JStr ''RS256''), (''kid'', JStr ''k'')]) =
     Some \<lparr>jh_alg = ''RS256'', jh_kid = Some ''k'', jh_typ = None\<rparr>"
  by (simp add: de_header_def de_struct_def de_string_def de_opt_string_def)

lemma jwt_extract:
  "extract_principal (jwt_payload nbf) ''knievel'' [] (Some ''s'') = Inr sample_editor"
  by (simp add: extract_principal_def jwt_payload_def de_knievel_claim_def de_struct_def de_string_def
      de_opt_string_def jwt_principal_def role_from_str_def sample_editor_def)

lemma sample_crate_ok: "in_i64 nbf \<Longrightarrow> jwt_crate_ok jwt_crypto (jwt_json nbf) (sample_jwt_crate nbf)"
  by (auto simp: jwt_crate_ok_def sample_jwt_crate_def jwt_splitn jwt_crypto_def jwt_json_def bytes_of_hp [symmetric]
      jwt_header_json de_jwt_payload audience_contains_def split: if_splits)

lemma sample_jwt_run:
  assumes "in_i64 nbf" and "now \<le> 100" and "c0 = Map.empty"
  shows "fst (jwt_verify (sample_jwt_crate nbf) jwt_crypto (jwt_json nbf) [sample_issuer] sample_http now c0 ''h.p.s'') =
    Inr sample_editor"
  using assms
  by (simp add: jwt_verify_def sample_jwt_crate_def jwt_splitn jwt_crypto_def jwt_json_def bytes_of_hp [symmetric]
      de_jwt_payload sample_issuer_def lookup_jwk_def cache_get_def fetch_jwks_def sample_http_def de_keys_def
      de_jwk_def de_struct_def de_string_def de_opt_string_def build_decoding_key_def jwt_extract)

subsection \<open>Properties\<close>

text \<open>
  C12: \<open>validate\<close> accepts exactly a token whose header names a key and an asymmetric algorithm on
  the list of the policy of its issuer, whose audience is that policy's, and whose times admit
  the clock within 30 seconds; the principal is the one of its claim or of the first mapping
  rule that matches.
\<close>

theorem validate_accepts_exactly:
  "validate cr pj token policies now = Inr p \<longleftrightarrow>
    (\<exists>a b s hb bb header hj payload std policy.
      token = a @ CHR ''.'' # b @ CHR ''.'' # s \<and> CHR ''.'' \<notin> set a \<and> CHR ''.'' \<notin> set b
      \<and> b64_decode cr a = Some hb \<and> pj hb = Some hj \<and> de_header hj = Some header
      \<and> b64_decode cr b = Some bb \<and> pj bb = Some payload \<and> de_standard payload = Some std
      \<and> \<not> symmetric_alg (jh_alg header) \<and> jh_kid header \<noteq> None
      \<and> find (\<lambda>q. ip_issuer q = cl_iss std) policies = Some policy
      \<and> jh_alg header \<in> set (ip_algorithms policy) \<and> audience_contains (cl_aud std) (ip_audience policy)
      \<and> (\<forall>x. cl_exp std = Some x \<longrightarrow> now \<le> x + 30)
      \<and> (\<forall>n. cl_nbf std = Some n \<longrightarrow> n \<le> now + 30) \<and> (\<forall>i. cl_iat std = Some i \<longrightarrow> i \<le> now + 30)
      \<and> extract_principal payload (ip_claim policy) (ip_rules policy) (cl_sub std) = Inr p)" (is "_ \<longleftrightarrow> ?rhs")
proof (cases "length (splitn 3 (CHR ''.'') token) = 3")
  case True
  then obtain a b s where tok: "token = a @ CHR ''.'' # b @ CHR ''.'' # s" "CHR ''.'' \<notin> set a" "CHR ''.'' \<notin> set b"
    unfolding splitn_3_iff by blast
  then have parts: "splitn 3 (CHR ''.'') token = [a, b, s]" using splitn_3_iff(2) by blast
  have uniq: "a' = a \<and> b' = b"
    if "token = a' @ CHR ''.'' # b' @ CHR ''.'' # s'" "CHR ''.'' \<notin> set a'" "CHR ''.'' \<notin> set b'" for a' b' s'
  proof -
    from splitn_3_iff(2) [OF that(2,3), of s'] have "splitn 3 (CHR ''.'') token = [a', b', s']"
      by (simp only: that(1))
    with parts show ?thesis by simp
  qed
  note v = validate_def [of cr pj token policies now, unfolded parts Let_def, simplified]
  show ?thesis
  proof
    assume acc: "validate cr pj token policies now = Inr p"
    then obtain hb bb where b64: "b64_decode cr a = Some hb" "b64_decode cr b = Some bb"
      unfolding v by (cases "b64_decode cr a"; cases "b64_decode cr b") simp_all
    have "Option.bind (pj hb) de_header \<noteq> None" using acc b64 by (intro notI) (simp add: v)
    then obtain header where h: "Option.bind (pj hb) de_header = Some header" by blast
    have alg: "\<not> symmetric_alg (jh_alg header)" "jh_kid header \<noteq> None"
      using acc b64 h by (auto simp: v symmetric_alg_def split: if_splits)
    have "Option.bind (pj bb) de_standard \<noteq> None"
      using acc b64 h by (intro notI) (simp add: v split: if_splits)
    then obtain std payload where payload: "pj bb = Some payload" "de_standard payload = Some std"
      by (auto simp: bind_eq_Some_conv)
    obtain hj where hj: "pj hb = Some hj" "de_header hj = Some header" using h by (auto simp: bind_eq_Some_conv)
    have "find (\<lambda>q. ip_issuer q = cl_iss std) policies \<noteq> None"
      using acc b64 h payload by (intro notI) (simp add: v split: if_splits)
    then obtain policy where policy: "find (\<lambda>q. ip_issuer q = cl_iss std) policies = Some policy" by blast
    have rest: "jh_alg header \<in> set (ip_algorithms policy)" "audience_contains (cl_aud std) (ip_audience policy)"
      "\<not> (case cl_exp std of Some x \<Rightarrow> now - SKEW > x | None \<Rightarrow> False)"
      "\<not> (case cl_nbf std of Some n \<Rightarrow> now + SKEW < n | None \<Rightarrow> False)"
      "\<not> (case cl_iat std of Some i \<Rightarrow> now + SKEW < i | None \<Rightarrow> False)"
      "extract_principal payload (ip_claim policy) (ip_rules policy) (cl_sub std) = Inr p"
      using acc b64 h payload policy by (simp_all add: v split: if_splits)
    then have times: "\<forall>x. cl_exp std = Some x \<longrightarrow> now \<le> x + 30" "\<forall>n. cl_nbf std = Some n \<longrightarrow> n \<le> now + 30"
      "\<forall>i. cl_iat std = Some i \<longrightarrow> i \<le> now + 30"
      by (auto simp: SKEW_def)
    show "?rhs" using tok b64 hj payload alg policy rest(1,2,6) times by blast
  next
    assume ?rhs
    then obtain hb bb header hj payload std policy where
      "b64_decode cr a = Some hb" "pj hb = Some hj" "de_header hj = Some header"
      "b64_decode cr b = Some bb" "pj bb = Some payload" "de_standard payload = Some std"
      "\<not> symmetric_alg (jh_alg header)" "jh_kid header \<noteq> None"
      "find (\<lambda>q. ip_issuer q = cl_iss std) policies = Some policy"
      "jh_alg header \<in> set (ip_algorithms policy)" "audience_contains (cl_aud std) (ip_audience policy)"
      "\<forall>x. cl_exp std = Some x \<longrightarrow> now \<le> x + 30" "\<forall>n. cl_nbf std = Some n \<longrightarrow> n \<le> now + 30"
      "\<forall>i. cl_iat std = Some i \<longrightarrow> i \<le> now + 30"
      "extract_principal payload (ip_claim policy) (ip_rules policy) (cl_sub std) = Inr p"
      using uniq by metis
    then show "validate cr pj token policies now = Inr p"
      unfolding v by (auto simp: symmetric_alg_def SKEW_def split: option.split)
  qed
next
  case False
  then show ?thesis
    by (auto simp: validate_def Let_def splitn_3_iff)
qed

theorem validate_accepts_exactly_witness:
  "validate jwt_crypto (jwt_json 0) ''h.p.s'' [sample_issuer] 130 = Inr sample_editor"
  by (rule validate_accepts_exactly [THEN iffD2], intro exI [of _ "''h''"] exI [of _ "''p''"] exI [of _ "''s''"]
        exI [of _ "bytes_of ''h''"] exI [of _ "bytes_of ''p''"]
        exI [of _ "\<lparr>jh_alg = ''RS256'', jh_kid = Some ''k'', jh_typ = None\<rparr>"]
        exI [of _ "JObj [(''alg'', JStr ''RS256''), (''kid'', JStr ''k'')]"] exI [of _ "jwt_payload 0"]
        exI [of _ "\<lparr>cl_iss = ''i'', cl_aud = JStr ''a'', cl_exp = Some 100, cl_nbf = Some 0, cl_iat = None, cl_sub = Some ''s''\<rparr>"]
        exI [of _ sample_issuer])
      (simp add: jwt_crypto_def jwt_json_def bytes_of_hp [symmetric] jwt_header_json de_jwt_payload in_i64_def
        sample_issuer_def audience_contains_def jwt_extract alg_debug_symmetric [of RS256, simplified])

text \<open>
  C11: over any history of verifications, an accepted token names an asymmetric algorithm on the
  list of its issuer's policy and was checked, for that issuer and audience, under a key with
  the token's key id that this issuer's own JWKS served at most one hour before.
\<close>

theorem accepted_under_fresh_issuer_key:
  assumes "fst (jwt_verify jc cr pj policies http now (jwks_after jc cr pj policies evs) token) = Inr p"
  shows "\<exists>policy alg kid jwk key claims t ks sub.
    policy \<in> set policies \<and> jc_decode_header jc token = Some (alg, Some kid)
    \<and> \<not> symmetric_alg (alg_debug alg) \<and> alg_debug alg \<in> set (ip_algorithms policy)
    \<and> served_at policy (evs @ [(now, http, token)]) t ks \<and> now \<le> t + 3600
    \<and> jwk \<in> set ks \<and> jk_kid jwk = kid \<and> build_decoding_key jc jwk = Some key
    \<and> jc_decode jc now token key \<lparr>va_algorithm = alg, va_issuer = ip_issuer policy,
        va_audience = ip_audience policy, va_leeway = 30\<rparr> = Inr claims
    \<and> extract_principal claims (ip_claim policy) (ip_rules policy) sub = Inr p"
proof -
  let ?c = "jwks_after jc cr pj policies evs"
  from assms obtain c' where run: "jwt_verify jc cr pj policies http now ?c token = (Inr p, c')"
    by (metis prod.collapse)
  obtain alg kid a b s bb payload std policy jwk key claims where v:
    "jc_decode_header jc token = Some (alg, Some kid)" "alg \<notin> {HS256, HS384, HS512}"
    "token = a @ CHR ''.'' # b @ CHR ''.'' # s" "CHR ''.'' \<notin> set a" "CHR ''.'' \<notin> set b"
    "b64_decode cr b = Some bb" "pj bb = Some payload" "de_standard payload = Some std"
    "find (\<lambda>p. ip_issuer p = cl_iss std) policies = Some policy" "alg_debug alg \<in> set (ip_algorithms policy)"
    "lookup_jwk http now ?c (ip_issuer policy) (ic_jwks_url policy) kid = (Inr jwk, c')"
    "build_decoding_key jc jwk = Some key"
    "jc_decode jc now token key \<lparr>va_algorithm = alg, va_issuer = ip_issuer policy,
        va_audience = ip_audience policy, va_leeway = 30\<rparr> = Inr claims"
    "extract_principal claims (ip_claim policy) (ip_rules policy) (cl_sub std) = Inr p"
    by (rule jwt_verify_InrD [OF run])
  from v(9) have "policy \<in> set policies" by (auto simp: find_Some_iff)
  moreover have "\<not> symmetric_alg (alg_debug alg)" using v(2) by (simp add: alg_debug_symmetric)
  moreover from lookup_is_fresh [OF cache_inv_after v(9,11), of token] obtain t ks where
    "jk_kid jwk = kid" "served_at policy (evs @ [(now, http, token)]) t ks" "jwk \<in> set ks" "now \<le> t + 3600"
    by (auto simp: TTL_SECS_def)
  ultimately show ?thesis using v(1,10,12-14) by blast
qed

theorem accepted_under_fresh_issuer_key_witness:
  "\<exists>t ks. served_at sample_issuer [(50, sample_http, ''h.p.s'')] t ks \<and> (50 :: nat) \<le> t + 3600 \<and> ks \<noteq> []"
proof -
  have "fst (jwt_verify (sample_jwt_crate 0) jwt_crypto (jwt_json 0) [sample_issuer] sample_http 50
      (jwks_after (sample_jwt_crate 0) jwt_crypto (jwt_json 0) [sample_issuer] []) ''h.p.s'') = Inr sample_editor"
    by (rule sample_jwt_run) (simp_all add: in_i64_def jwks_after_def)
  from accepted_under_fresh_issuer_key [OF this] obtain t ks jwk where
    "served_at sample_issuer [(50, sample_http, ''h.p.s'')] t ks" "50 \<le> t + 3600" "jwk \<in> set ks" by auto
  then show ?thesis by (metis empty_iff empty_set)
qed

text \<open>
  C13: with a crate that behaves as documented, the runtime path accepts a token only as
  \<open>validate\<close> would, with the same principal, except that it looks at neither \<open>nbf\<close> nor \<open>iat\<close>:
  where one of them lies more than 30 seconds ahead, \<open>validate\<close> refuses the token as expired.
\<close>

theorem runtime_agrees_with_validate:
  assumes "jwt_crate_ok cr pj jc" and "jwt_verify jc cr pj policies http now c token = (Inr p, c')"
  shows "\<exists>std bb payload. b64_decode cr (splitn 3 (CHR ''.'') token ! 1) = Some bb \<and> pj bb = Some payload
    \<and> de_standard payload = Some std
    \<and> validate cr pj token policies (int now) =
        (if (\<exists>n. cl_nbf std = Some n \<and> int now + 30 < n) \<or> (\<exists>i. cl_iat std = Some i \<and> int now + 30 < i)
         then Inl JwtExpired else Inr p)"
proof -
  obtain alg kid a b s bb payload std policy jwk key claims where v:
    "jc_decode_header jc token = Some (alg, Some kid)" "alg \<notin> {HS256, HS384, HS512}"
    "token = a @ CHR ''.'' # b @ CHR ''.'' # s" "CHR ''.'' \<notin> set a" "CHR ''.'' \<notin> set b"
    "b64_decode cr b = Some bb" "pj bb = Some payload" "de_standard payload = Some std"
    "find (\<lambda>p. ip_issuer p = cl_iss std) policies = Some policy" "alg_debug alg \<in> set (ip_algorithms policy)"
    "lookup_jwk http now c (ip_issuer policy) (ic_jwks_url policy) kid = (Inr jwk, c')"
    "build_decoding_key jc jwk = Some key"
    "jc_decode jc now token key \<lparr>va_algorithm = alg, va_issuer = ip_issuer policy,
        va_audience = ip_audience policy, va_leeway = 30\<rparr> = Inr claims"
    "extract_principal claims (ip_claim policy) (ip_rules policy) (cl_sub std) = Inr p"
    by (rule jwt_verify_InrD [OF assms(2)])
  have parts: "splitn 3 (CHR ''.'') token = [a, b, s]" using splitn_3_iff(2) [OF v(4,5)] by (simp only: v(3))
  from assms(1) v(1) obtain hb hj ty where h: "b64_decode cr a = Some hb" "pj hb = Some hj"
    "de_header hj = Some \<lparr>jh_alg = alg_debug alg, jh_kid = Some kid, jh_typ = ty\<rparr>"
    unfolding jwt_crate_ok_def by (metis list.sel(1) parts)
  from assms(1) [unfolded jwt_crate_ok_def, THEN conjunct2, rule_format, OF v(13)]
  have pb: "\<exists>pb. b64_decode cr (splitn 3 (CHR ''.'') token ! 1) = Some pb \<and> pj pb = Some claims"
    and law: "\<forall>std. de_standard claims = Some std \<longrightarrow> audience_contains (cl_aud std) (ip_audience policy)
             \<and> (\<forall>x. cl_exp std = Some x \<longrightarrow> int now \<le> x + 30)"
    by simp_all
  from pb v(6,7) have claims: "claims = payload" by (simp add: parts)
  with law v(8) have "audience_contains (cl_aud std) (ip_audience policy)" "\<forall>x. cl_exp std = Some x \<longrightarrow> int now - 30 \<le> x"
    by auto
  then have "validate cr pj token policies (int now) =
      (if (\<exists>n. cl_nbf std = Some n \<and> int now + 30 < n) \<or> (\<exists>i. cl_iat std = Some i \<and> int now + 30 < i)
       then Inl JwtExpired else Inr p)"
    using v(2,6-10,14) h claims alg_debug_symmetric [of alg]
    by (simp add: validate_def parts Let_def symmetric_alg_def SKEW_def not_less split: option.split)
  with v(6-8) show ?thesis by (simp add: parts)
qed

theorem runtime_agrees_with_validate_witness:
  "fst (jwt_verify (sample_jwt_crate 90) jwt_crypto (jwt_json 90) [sample_issuer] sample_http 50 Map.empty ''h.p.s'')
     = Inr sample_editor
   \<and> validate jwt_crypto (jwt_json 90) ''h.p.s'' [sample_issuer] 50 = Inl JwtExpired"
proof -
  let ?r = "jwt_verify (sample_jwt_crate 90) jwt_crypto (jwt_json 90) [sample_issuer] sample_http 50 Map.empty ''h.p.s''"
  have run: "fst ?r = Inr sample_editor" by (rule sample_jwt_run) (simp_all add: in_i64_def)
  then have "?r = (Inr sample_editor, snd ?r)" by (metis prod.collapse)
  from runtime_agrees_with_validate [OF sample_crate_ok this] run show ?thesis
    by (auto simp: jwt_splitn jwt_crypto_def jwt_json_def bytes_of_hp [symmetric] de_jwt_payload in_i64_def split: if_splits)
qed

end
