(* ===== verification/Server_Config.thy ===== *)
theory Server_Config
  imports Config_Interpolation Jwt_Auth Partition_Manager
begin

section \<open>The configuration\<close>

text \<open>
  \<open>src/src/config.rs\<close>: the sections with their defaults, and \<open>load\<close>. The crate \<open>figment\<close> reads
  the YAML text, merges the variables prefixed \<open>KNIEVEL_\<close> over it and hands the document to
  the derived \<open>Deserialize\<close>; it is the parameter \<open>figment\<close>, with \<open>None\<close> for a document it
  cannot read. The sections of a document are dictionaries, as YAML mappings and the nested
  variables give them.
\<close>

subsection \<open>Sections\<close>

record api_config =
  ac_bind_addr :: string
  ac_public_base_url :: string
  ac_shutdown_drain_timeout_secs :: nat
  ac_shutdown_total_timeout_secs :: nat
  ac_allowed_origins :: "string list"

record connect_retry_config =
  cr_attempts :: nat
  cr_initial_backoff_ms :: nat
  cr_max_backoff_ms :: nat

record database_config =
  dc_url :: "string option"
  dc_schema :: string
  dc_max_connections :: nat
  dc_auto_migrate :: bool
  dc_required :: bool
  dc_connect_retry :: connect_retry_config

record logging_config =
  lc_level :: string
  lc_format :: string
  lc_request_log_enabled :: bool
  lc_request_log_skip_paths :: "string list"
  lc_request_log_slow_ms :: nat

record otel_config =
  ot_enabled :: bool
  ot_endpoint :: "string option"
  ot_service_name :: "string option"

record sentry_config =
  se_enabled :: bool
  se_dsn :: "string option"
  se_environment :: "string option"

record admin_ui_oidc_config =
  ao_issuer :: "string option"
  ao_client_id :: "string option"
  ao_scopes :: "string list"
  ao_require_oidc :: bool

record admin_ui_config =
  au_static_dir :: "string option"
  au_oidc :: admin_ui_oidc_config

record config =
  cf_api :: api_config
  cf_database :: database_config
  cf_logging :: logging_config
  cf_otel :: otel_config
  cf_sentry :: sentry_config
  cf_channel_capacity :: nat
  cf_force_overrides_enabled :: bool
  cf_retention_days :: int
  cf_admin_ui :: admin_ui_config
  cf_issuers :: "jwt_issuer_config list"

text \<open>The \<open>Default\<close> implementations, used for a section that is missing altogether.\<close>

definition default_api :: api_config where
  "default_api = \<lparr>ac_bind_addr = ''0.0.0.0:8080'', ac_public_base_url = ''http://localhost:8080'',
     ac_shutdown_drain_timeout_secs = 30, ac_shutdown_total_timeout_secs = 60,
     ac_allowed_origins = []\<rparr>"

definition default_connect_retry :: connect_retry_config where
  "default_connect_retry =
     \<lparr>cr_attempts = 5, cr_initial_backoff_ms = 1000, cr_max_backoff_ms = 16000\<rparr>"

definition default_database :: database_config where
  "default_database = \<lparr>dc_url = None, dc_schema = ''knievel'', dc_max_connections = 8,
     dc_auto_migrate = False, dc_required = False, dc_connect_retry = default_connect_retry\<rparr>"

definition default_logging :: logging_config where
  "default_logging = \<lparr>lc_level = ''info'', lc_format = ''json'', lc_request_log_enabled = True,
     lc_request_log_skip_paths = [''/healthz'', ''/readyz''], lc_request_log_slow_ms = 1000\<rparr>"

definition default_otel :: otel_config where
  "default_otel = \<lparr>ot_enabled = False, ot_endpoint = None, ot_service_name = None\<rparr>"

definition default_sentry :: sentry_config where
  "default_sentry = \<lparr>se_enabled = False, se_dsn = None, se_environment = None\<rparr>"

definition default_oidc :: admin_ui_oidc_config where
  "default_oidc = \<lparr>ao_issuer = None, ao_client_id = None,
     ao_scopes = [''openid'', ''profile'', ''knievel''], ao_require_oidc = False\<rparr>"

definition default_admin_ui :: admin_ui_config where
  "default_admin_ui = \<lparr>au_static_dir = None, au_oidc = default_oidc\<rparr>"

definition default_config :: config where
  "default_config =
     \<lparr>cf_api = default_api, cf_database = default_database, cf_logging = default_logging,
      cf_otel = default_otel, cf_sentry = default_sentry, cf_channel_capacity = DEFAULT_CAPACITY,
      cf_force_overrides_enabled = True, cf_retention_days = RETENTION_DAYS_DEFAULT,
      cf_admin_ui = default_admin_ui, cf_issuers = []\<rparr>"

subsection \<open>Deserialising\<close>

text \<open>Values by type. A field with a serde default takes it only when the key is absent.\<close>

fun json_as_bool :: "json \<Rightarrow> bool option" where
  "json_as_bool (JBool b) = Some b"
| "json_as_bool _ = None"

definition json_as_unsigned :: "nat \<Rightarrow> json \<Rightarrow> nat option" where
  "json_as_unsigned w j =
     (case j of JInt n \<Rightarrow> if 0 \<le> n \<and> n < 2 ^ w then Some (nat n) else None | _ \<Rightarrow> None)"

definition json_as_i64 :: "json \<Rightarrow> int option" where
  "json_as_i64 j = (case j of JInt n \<Rightarrow> if in_i64 n then Some n else None | _ \<Rightarrow> None)"

definition json_as_list :: "(json \<Rightarrow> 'a option) \<Rightarrow> json \<Rightarrow> 'a list option" where
  "json_as_list f j = (case j of JArr xs \<Rightarrow> those (map f xs) | _ \<Rightarrow> None)"

definition de_default :: "'a \<Rightarrow> (json \<Rightarrow> 'a option) \<Rightarrow> json \<Rightarrow> string \<Rightarrow> 'a option" where
  "de_default x f j k = (case json_get j k of None \<Rightarrow> Some x | Some v \<Rightarrow> f v)"

fun is_dict :: "json \<Rightarrow> bool" where
  "is_dict (JObj _) = True"
| "is_dict _ = False"

definition de_dict :: "(json \<Rightarrow> 'a option) \<Rightarrow> json \<Rightarrow> 'a option" where
  "de_dict f j = (if is_dict j then f j else None)"

definition de_api :: "json \<Rightarrow> api_config option" where
  "de_api = de_dict (\<lambda>j.
     Option.bind (de_string j ''bind_addr'') (\<lambda>addr.
     Option.bind (de_string j ''public_base_url'') (\<lambda>url.
     Option.bind (de_default 30 (json_as_unsigned 64) j ''shutdown_drain_timeout_secs'') (\<lambda>drain.
     Option.bind (de_default 60 (json_as_unsigned 64) j ''shutdown_total_timeout_secs'') (\<lambda>total.
     Option.bind (de_default [] (json_as_list json_as_str) j ''allowed_origins'') (\<lambda>origins.
       Some \<lparr>ac_bind_addr = addr, ac_public_base_url = url, ac_shutdown_drain_timeout_secs = drain,
             ac_shutdown_total_timeout_secs = total, ac_allowed_origins = origins\<rparr>))))))"

definition de_connect_retry :: "json \<Rightarrow> connect_retry_config option" where
  "de_connect_retry = de_dict (\<lambda>j.
     Option.bind (de_default 5 (json_as_unsigned 32) j ''attempts'') (\<lambda>n.
     Option.bind (de_default 1000 (json_as_unsigned 64) j ''initial_backoff_ms'') (\<lambda>i.
     Option.bind (de_default 16000 (json_as_unsigned 64) j ''max_backoff_ms'') (\<lambda>m.
       Some \<lparr>cr_attempts = n, cr_initial_backoff_ms = i, cr_max_backoff_ms = m\<rparr>))))"

definition de_database :: "json \<Rightarrow> database_config option" where
  "de_database = de_dict (\<lambda>j.
     Option.bind (de_opt_string j ''url'') (\<lambda>url.
     Option.bind (de_default ''knievel'' json_as_str j ''schema'') (\<lambda>schema.
     Option.bind (de_default 8 (json_as_unsigned 32) j ''max_connections'') (\<lambda>conns.
     Option.bind (de_default False json_as_bool j ''auto_migrate'') (\<lambda>migrate.
     Option.bind (de_default True json_as_bool j ''required'') (\<lambda>required.
     Option.bind (de_default default_connect_retry de_connect_retry j ''connect_retry'') (\<lambda>retry.
       Some \<lparr>dc_url = url, dc_schema = schema, dc_max_connections = conns,
             dc_auto_migrate = migrate, dc_required = required, dc_connect_retry = retry\<rparr>)))))))"

definition de_logging :: "json \<Rightarrow> logging_config option" where
  "de_logging = de_dict (\<lambda>j.
     Option.bind (de_default ''info'' json_as_str j ''level'') (\<lambda>level.
     Option.bind (de_default ''json'' json_as_str j ''format'') (\<lambda>fmt.
     Option.bind (de_default True json_as_bool j ''request_log_enabled'') (\<lambda>enabled.
     Option.bind (de_default [''/healthz'', ''/readyz''] (json_as_list json_as_str) j
                    ''request_log_skip_paths'') (\<lambda>skip.
     Option.bind (de_default 1000 (json_as_unsigned 64) j ''request_log_slow_ms'') (\<lambda>slow.
       Some \<lparr>lc_level = level, lc_format = fmt, lc_request_log_enabled = enabled,
             lc_request_log_skip_paths = skip, lc_request_log_slow_ms = slow\<rparr>))))))"

definition de_otel :: "json \<Rightarrow> otel_config option" where
  "de_otel = de_dict (\<lambda>j.
     Option.bind (de_default False json_as_bool j ''enabled'') (\<lambda>enabled.
     Option.bind (de_opt_string j ''endpoint'') (\<lambda>endpoint.
     Option.bind (de_opt_string j ''service_name'') (\<lambda>service.
       Some \<lparr>ot_enabled = enabled, ot_endpoint = endpoint, ot_service_name = service\<rparr>))))"

definition de_tracing :: "json \<Rightarrow> otel_config option" where
  "de_tracing = de_dict (\<lambda>j. de_default default_otel de_otel j ''otel'')"

definition de_sentry :: "json \<Rightarrow> sentry_config option" where
  "de_sentry = de_dict (\<lambda>j.
     Option.bind (de_default False json_as_bool j ''enabled'') (\<lambda>enabled.
     Option.bind (de_opt_string j ''dsn'') (\<lambda>dsn.
     Option.bind (de_opt_string j ''environment'') (\<lambda>env.
       Some \<lparr>se_enabled = enabled, se_dsn = dsn, se_environment = env\<rparr>))))"

definition de_errors :: "json \<Rightarrow> sentry_config option" where
  "de_errors = de_dict (\<lambda>j. de_default default_sentry de_sentry j ''sentry'')"

definition de_events :: "json \<Rightarrow> nat option" where
  "de_events = de_dict (\<lambda>j. de_default DEFAULT_CAPACITY (json_as_unsigned 64) j ''channel_capacity'')"

definition de_decisions :: "json \<Rightarrow> bool option" where
  "de_decisions = de_dict (\<lambda>j. de_default True json_as_bool j ''force_overrides_enabled'')"

definition de_partitions :: "json \<Rightarrow> int option" where
  "de_partitions = de_dict (\<lambda>j. de_default RETENTION_DAYS_DEFAULT json_as_i64 j ''retention_days'')"

definition de_oidc :: "json \<Rightarrow> admin_ui_oidc_config option" where
  "de_oidc = de_dict (\<lambda>j.
     Option.bind (de_opt_string j ''issuer'') (\<lambda>issuer.
     Option.bind (de_opt_string j ''client_id'') (\<lambda>client.
     Option.bind (de_default [''openid'', ''profile'', ''knievel''] (json_as_list json_as_str) j
                    ''scopes'') (\<lambda>scopes.
     Option.bind (de_default False json_as_bool j ''require_oidc'') (\<lambda>required.
       Some \<lparr>ao_issuer = issuer, ao_client_id = client, ao_scopes = scopes,
             ao_require_oidc = required\<rparr>)))))"

definition de_admin_ui :: "json \<Rightarrow> admin_ui_config option" where
  "de_admin_ui = de_dict (\<lambda>j.
     Option.bind (de_opt_string j ''static_dir'') (\<lambda>dir.
     Option.bind (de_default default_oidc de_oidc j ''oidc'') (\<lambda>oidc.
       Some \<lparr>au_static_dir = dir, au_oidc = oidc\<rparr>)))"

definition de_claim_principal :: "json \<Rightarrow> claim_principal option" where
  "de_claim_principal = de_dict (\<lambda>j.
     Option.bind (de_string j ''scope'') (\<lambda>sc.
     Option.bind (de_string j ''org_id'') (\<lambda>oid.
     Option.bind (de_opt_string j ''project_id'') (\<lambda>pid.
     Option.bind (de_string j ''role'') (\<lambda>ro.
       Some \<lparr>cn_scope = sc, cn_org_id = oid, cn_project_id = pid, cn_role = ro\<rparr>)))))"

text \<open>A \<open>BTreeMap<String, String>\<close>; figment's dictionaries are sorted maps already.\<close>

definition json_as_string_map :: "json \<Rightarrow> (string \<times> string) list option" where
  "json_as_string_map j =
     (case j of
        JObj kvs \<Rightarrow> those (map (\<lambda>(k, v). map_option (Pair k) (json_as_str v)) kvs)
      | _ \<Rightarrow> None)"

definition de_mapping_rule :: "json \<Rightarrow> claim_mapping_rule option" where
  "de_mapping_rule = de_dict (\<lambda>j.
     Option.bind (Option.bind (json_get j ''match'') json_as_string_map) (\<lambda>m.
     Option.bind (Option.bind (json_get j ''principal'') de_claim_principal) (\<lambda>p.
       Some \<lparr>mr_match_claims = m, mr_principal = p\<rparr>)))"

definition de_claim_mapping :: "json \<Rightarrow> claim_mapping_rule list option" where
  "de_claim_mapping = de_dict (\<lambda>j. de_default [] (json_as_list de_mapping_rule) j ''rules'')"

definition de_issuer :: "json \<Rightarrow> jwt_issuer_config option" where
  "de_issuer = de_dict (\<lambda>j.
     Option.bind (de_string j ''issuer'') (\<lambda>issuer.
     Option.bind (de_string j ''audience'') (\<lambda>audience.
     Option.bind (de_default [''RS256'', ''ES256''] (json_as_list json_as_str) j ''algorithms'') (\<lambda>algs.
     Option.bind (de_default '''' json_as_str j ''jwks_url'') (\<lambda>url.
     Option.bind (de_default ''knievel'' json_as_str j ''claim'') (\<lambda>claim.
     Option.bind (de_default [] de_claim_mapping j ''claim_mapping'') (\<lambda>rules.
       Some \<lparr>ip_issuer = issuer, ip_audience = audience, ip_algorithms = algs, ip_claim = claim,
             ip_rules = rules, ic_jwks_url = url\<rparr>)))))))"

definition de_jwt :: "json \<Rightarrow> jwt_issuer_config list option" where
  "de_jwt = de_dict (\<lambda>j. de_default [] (json_as_list de_issuer) j ''issuers'')"

definition de_auth :: "json \<Rightarrow> jwt_issuer_config list option" where
  "de_auth = de_dict (\<lambda>j. de_default [] de_jwt j ''jwt'')"

definition de_config :: "json \<Rightarrow> config option" where
  "de_config = de_dict (\<lambda>j.
     Option.bind (de_default default_api de_api j ''api'') (\<lambda>api.
     Option.bind (de_default default_database de_database j ''database'') (\<lambda>database.
     Option.bind (de_default default_logging de_logging j ''logging'') (\<lambda>logging.
     Option.bind (de_default default_otel de_tracing j ''tracing'') (\<lambda>otel.
     Option.bind (de_default default_sentry de_errors j ''errors'') (\<lambda>sentry.
     Option.bind (de_default DEFAULT_CAPACITY de_events j ''events'') (\<lambda>capacity.
     Option.bind (de_default True de_decisions j ''decisions'') (\<lambda>overrides.
     Option.bind (de_default RETENTION_DAYS_DEFAULT de_partitions j ''partitions'') (\<lambda>days.
     Option.bind (de_default default_admin_ui de_admin_ui j ''admin_ui'') (\<lambda>ui.
     Option.bind (de_default [] de_auth j ''auth'') (\<lambda>issuers.
       Some \<lparr>cf_api = api, cf_database = database, cf_logging = logging, cf_otel = otel,
             cf_sentry = sentry, cf_channel_capacity = capacity,
             cf_force_overrides_enabled = overrides, cf_retention_days = days,
             cf_admin_ui = ui, cf_issuers = issuers\<rparr>)))))))))))"

subsection \<open>\<open>load\<close>\<close>

text \<open>
  \<open>files\<close> is the file system: \<open>None\<close> when the path does not exist, \<open>Some None\<close> when reading it
  fails. Errors are \<open>anyhow\<close> chains, outermost context first; what figment itself reports is
  not spelled out.
\<close>

type_synonym error_chain = "string list"

definition config_path :: "environment \<Rightarrow> string" where
  "config_path e =
     (case e ''KNIEVEL_CONFIG'' of Some p \<Rightarrow> p | None \<Rightarrow> ''/etc/knievel/config.yaml'')"

definition extract_config :: "json option \<Rightarrow> error_chain + config" where
  "extract_config doc =
     (case Option.bind doc de_config of
        None \<Rightarrow> Inl [''loading knievel config'']
      | Some c \<Rightarrow> Inr c)"

definition load ::
  "(string option \<Rightarrow> environment \<Rightarrow> json option) \<Rightarrow> (string \<Rightarrow> string option option) \<Rightarrow> environment
    \<Rightarrow> error_chain + config" where
  "load figment files e =
     (let path = config_path e in
      case files path of
        None \<Rightarrow> extract_config (figment None e)
      | Some None \<Rightarrow> Inl [''reading '' @ path]
      | Some (Some raw) \<Rightarrow>
          (case interpolate_env e raw of
             Inl m \<Rightarrow> Inl [m]
           | Inr resolved \<Rightarrow> extract_config (figment (Some resolved) e)))"

subsection \<open>Which defaults apply\<close>

lemma de_default_absent [simp]: "json_get j k = None \<Longrightarrow> de_default x f j k = Some x"
  by (simp add: de_default_def)

lemma de_default_present: "json_get j k = Some v \<Longrightarrow> de_default x f j k = f v"
  by (simp add: de_default_def)

text \<open>An empty document is the built-in configuration.\<close>

lemma de_config_empty [simp]: "de_config (JObj []) = Some default_config"
  by (simp add: de_config_def de_dict_def default_config_def)

text \<open>A section of its own, empty: every field has its default, but \<open>required\<close> has another one.\<close>

lemma de_database_empty: "de_database (JObj []) = Some (default_database\<lparr>dc_required := True\<rparr>)"
  by (simp add: de_database_def de_dict_def default_database_def de_opt_string_def)

lemma de_logging_empty: "de_logging (JObj []) = Some default_logging"
  by (simp add: de_logging_def de_dict_def default_logging_def)

lemma de_config_sections:
  assumes "de_config j = Some c"
  shows "de_default default_api de_api j ''api'' = Some (cf_api c)
    \<and> de_default default_database de_database j ''database'' = Some (cf_database c)
    \<and> de_default default_logging de_logging j ''logging'' = Some (cf_logging c)"
  using assms unfolding de_config_def de_dict_def
  by (auto simp: bind_eq_Some_conv split: if_splits)

subsection \<open>Well-typed configurations\<close>

text \<open>The Rust types of the numbers: \<open>u32\<close>, \<open>u64\<close>, \<open>usize\<close> on a 64-bit target, \<open>i64\<close>.\<close>

definition well_typed :: "config \<Rightarrow> bool" where
  "well_typed c \<longleftrightarrow>
     ac_shutdown_drain_timeout_secs (cf_api c) < 2 ^ 64
     \<and> ac_shutdown_total_timeout_secs (cf_api c) < 2 ^ 64
     \<and> dc_max_connections (cf_database c) < 2 ^ 32
     \<and> cr_attempts (dc_connect_retry (cf_database c)) < 2 ^ 32
     \<and> cr_initial_backoff_ms (dc_connect_retry (cf_database c)) < 2 ^ 64
     \<and> cr_max_backoff_ms (dc_connect_retry (cf_database c)) < 2 ^ 64
     \<and> lc_request_log_slow_ms (cf_logging c) < 2 ^ 64
     \<and> cf_channel_capacity c < 2 ^ 64
     \<and> in_i64 (cf_retention_days c)"

lemma json_as_unsigned_SomeD: "json_as_unsigned w j = Some n \<Longrightarrow> n < 2 ^ w"
  by (auto simp: json_as_unsigned_def split: json.splits if_splits)

lemma json_as_str_SomeD: "json_as_str v = Some x \<longleftrightarrow> v = JStr x"
  by (cases v) auto

lemma de_default_SomeD:
  assumes "de_default x f j k = Some y" "P x" "\<And>v y. f v = Some y \<Longrightarrow> P y"
  shows "P y"
  using assms by (auto simp: de_default_def split: option.splits)

lemma de_unsigned_SomeD:
  "de_default x (json_as_unsigned w) j k = Some n \<Longrightarrow> x < 2 ^ w \<Longrightarrow> n < 2 ^ w"
  by (erule de_default_SomeD) (auto dest: json_as_unsigned_SomeD)

lemma de_api_typed:
  assumes "de_api j = Some a"
  shows "ac_shutdown_drain_timeout_secs a < 2 ^ 64 \<and> ac_shutdown_total_timeout_secs a < 2 ^ 64"
  using assms unfolding de_api_def de_dict_def
  by (auto simp: bind_eq_Some_conv split: if_splits dest!: de_unsigned_SomeD)

lemma de_api_strings:
  assumes "de_api v = Some a"
  shows "json_get v ''bind_addr'' = Some (JStr (ac_bind_addr a))
    \<and> json_get v ''public_base_url'' = Some (JStr (ac_public_base_url a))"
  using assms
  by (auto simp: de_api_def de_dict_def de_string_def bind_eq_Some_conv json_as_str_SomeD split: if_splits)

lemma de_connect_retry_typed:
  assumes "de_connect_retry j = Some r"
  shows "cr_attempts r < 2 ^ 32 \<and> cr_initial_backoff_ms r < 2 ^ 64 \<and> cr_max_backoff_ms r < 2 ^ 64"
  using assms unfolding de_connect_retry_def de_dict_def
  by (auto simp: bind_eq_Some_conv split: if_splits dest!: de_unsigned_SomeD)

lemma de_database_typed:
  assumes "de_database j = Some d"
  shows "dc_max_connections d < 2 ^ 32 \<and> cr_attempts (dc_connect_retry d) < 2 ^ 32
    \<and> cr_initial_backoff_ms (dc_connect_retry d) < 2 ^ 64 \<and> cr_max_backoff_ms (dc_connect_retry d) < 2 ^ 64"
proof -
  obtain n r where n: "de_default 8 (json_as_unsigned 32) j ''max_connections'' = Some n"
    and r: "de_default default_connect_retry de_connect_retry j ''connect_retry'' = Some r"
    and d: "dc_max_connections d = n" "dc_connect_retry d = r"
    using assms unfolding de_database_def de_dict_def by (auto simp: bind_eq_Some_conv split: if_splits)
  have "cr_attempts r < 2 ^ 32 \<and> cr_initial_backoff_ms r < 2 ^ 64 \<and> cr_max_backoff_ms r < 2 ^ 64"
    by (rule de_default_SomeD [OF r]) (simp add: default_connect_retry_def, rule de_connect_retry_typed)
  with de_unsigned_SomeD [OF n] d show ?thesis by simp
qed

lemma de_logging_typed: "de_logging j = Some l \<Longrightarrow> lc_request_log_slow_ms l < 2 ^ 64"
  unfolding de_logging_def de_dict_def
  by (auto simp: bind_eq_Some_conv split: if_splits dest!: de_unsigned_SomeD)

lemma de_events_typed: "de_events j = Some n \<Longrightarrow> n < 2 ^ 64"
  unfolding de_events_def de_dict_def
  by (auto simp: DEFAULT_CAPACITY_def split: if_splits dest!: de_unsigned_SomeD)

lemma de_partitions_typed: "de_partitions j = Some d \<Longrightarrow> in_i64 d"
  unfolding de_partitions_def de_dict_def
  by (auto simp: json_as_i64_def RETENTION_DAYS_DEFAULT_def in_i64_def de_default_def
      split: if_splits option.splits json.splits)



text \<open>
  The built-in configuration is no layer below the document: a server configured by
  \<open>KNIEVEL_API__BIND_ADDR\<close> alone, without a file, does not load.
\<close>

theorem bind_addr_alone_does_not_load:
  "load (\<lambda>yaml e. Some (JObj [(''api'', JObj [(''bind_addr'', JStr addr)])])) (\<lambda>path. None)
     [''KNIEVEL_API__BIND_ADDR'' \<mapsto> addr] = Inl [''loading knievel config'']"
  by (simp add: load_def config_path_def extract_config_def de_config_def de_dict_def
      de_default_present de_api_def de_string_def)

end
