(* ===== verification/Server_Boot.thy ===== *)
theory Server_Boot
  imports Server_Config Decision_Api Image_Upload
begin

section \<open>Boot\<close>

text \<open>
  \<open>src/src/server.rs\<close>, \<open>state.rs\<close> and \<open>main.rs\<close>: from the configuration to the shared state.
  \<open>connect\<close> is the driver's answer to the n-th connection attempt (the text of its error, or a
  pool), \<open>migrate\<close> the outcome of \<open>migrate::run\<close> on the pool. What boot does beside computing
  its result is a list of \<open>boot_event\<close>s. The result is an error chain or the state; \<open>None\<close> is
  a panic.
\<close>

subsection \<open>Errors for the operator\<close>

definition format_error_chain :: "error_chain \<Rightarrow> string" where
  "format_error_chain e = intersperse '': '' e"

text \<open>ASCII texts: \<open>to_lowercase\<close>, \<open>to_uppercase\<close> and \<open>is_alphanumeric\<close>.\<close>

definition to_lower :: "string \<Rightarrow> string" where
  "to_lower s = map (\<lambda>c. if is_upper_letter c then char_of (of_char c + 32 :: nat) else c) s"

definition is_lower_letter :: "char \<Rightarrow> bool" where
  "is_lower_letter c \<longleftrightarrow> (let n = of_char c :: nat in 97 \<le> n \<and> n \<le> 122)"

definition to_upper :: "string \<Rightarrow> string" where
  "to_upper s = map (\<lambda>c. if is_lower_letter c then char_of (of_char c - 32 :: nat) else c) s"

definition is_alphanumeric :: "char \<Rightarrow> bool" where
  "is_alphanumeric c \<longleftrightarrow> is_upper_letter c \<or> is_lower_letter c \<or> is_ascii_digit c"

fun sqlstate_after :: "string list \<Rightarrow> string \<Rightarrow> string option" where
  "sqlstate_after [] s = None"
| "sqlstate_after (p # ps) s =
     (case split_once p (to_lower s) of
        None \<Rightarrow> sqlstate_after ps s
      | Some (before, _) \<Rightarrow>
          (let rest = drop (length before + length p) s;
               code = takeWhile is_alphanumeric rest
           in if 5 \<le> length code then Some (to_upper code) else sqlstate_after ps s))"

definition extract_sqlstate_from_str :: "string \<Rightarrow> string option" where
  "extract_sqlstate_from_str = sqlstate_after [''(code: '', ''sqlstate: '', ''sqlstate '']"

fun extract_sqlstate :: "error_chain \<Rightarrow> string option" where
  "extract_sqlstate [] = None"
| "extract_sqlstate (c # cs) =
     (case extract_sqlstate_from_str c of Some code \<Rightarrow> Some code | None \<Rightarrow> extract_sqlstate cs)"

definition em_dash :: string where
  "em_dash = map char_of [226 :: nat, 128, 148]"

definition operator_hint_for_connect_sqlstate :: "string \<Rightarrow> string option" where
  "operator_hint_for_connect_sqlstate code =
     (if code = ''28000'' then
        Some (''sqlstate 28000 '' @ em_dash @ '' role or authentication method rejected. Check KNIEVEL_DATABASE__URL and the pg_hba.conf entry for this role.'')
      else if code = ''28P01'' then
        Some (''sqlstate 28P01 '' @ em_dash @ '' password did not match. KNIEVEL_DATABASE__URL'' @ [CHR 0x27] @ ''s password likely doesn'' @ [CHR 0x27] @ ''t match the secret value. Check the database secret'' @ [CHR 0x27] @ ''s password key.'')
      else if code = ''3D000'' then
        Some (''sqlstate 3D000 '' @ em_dash @ '' database does not exist. Check the database name in KNIEVEL_DATABASE__URL. The database must be created before knievel starts.'')
      else None)"

definition operator_hint_for_migrate_sqlstate :: "string \<Rightarrow> string option" where
  "operator_hint_for_migrate_sqlstate code =
     (if code = ''42501'' then
        Some (''sqlstate 42501 '' @ em_dash @ '' the role lacks a required privilege. The database role likely needs CREATE on the knievel schema or CONNECT on the database. Pre-create the schema or grant the privilege.'')
      else None)"

definition hint_suffix :: "(string \<Rightarrow> string option) \<Rightarrow> error_chain \<Rightarrow> string" where
  "hint_suffix hints e =
     (case Option.bind (extract_sqlstate e) hints of Some h \<Rightarrow> ''  hint: '' @ h | None \<Rightarrow> [])"

subsection \<open>The shared state\<close>

record 'p server_state =
  sv_db :: "'p option"
  sv_snapshot :: snapshot_store
  sv_events :: "channel option"
  sv_image_store :: "memory_store option"
  sv_force_overrides_enabled :: bool
  sv_admin_ui :: admin_ui_config
  sv_issuers :: "jwt_issuer_config list"

definition new_state :: "'p server_state" where
  "new_state = \<lparr>sv_db = None, sv_snapshot = store_empty, sv_events = None, sv_image_store = None,
     sv_force_overrides_enabled = True, sv_admin_ui = default_admin_ui, sv_issuers = []\<rparr>"

definition base_state :: "config \<Rightarrow> 'p server_state" where
  "base_state cfg =
     new_state\<lparr>sv_force_overrides_enabled := cf_force_overrides_enabled cfg,
       sv_admin_ui := cf_admin_ui cfg, sv_issuers := cf_issuers cfg,
       sv_image_store := Some Map.empty\<rparr>"

text \<open>What the handlers see of it, a pool being a way to its database.\<close>

definition handler_state :: "('p \<Rightarrow> db) \<Rightarrow> 'p server_state \<Rightarrow> app_state" where
  "handler_state contents s =
     \<lparr>app_db = map_option contents (sv_db s), app_snapshot = sv_snapshot s,
      app_events = sv_events s, app_force_overrides_enabled = sv_force_overrides_enabled s\<rparr>"

subsection \<open>Building it\<close>

datatype background_task =
    FlusherTask nat | LeaderTask | PartitionTask int | RollupTask | SnapshotTask

datatype boot_event =
    Attempt nat | Slept nat | Migrated | Spawned background_task | LogError string error_chain

text \<open>
  \<open>mpsc::channel\<close> panics for a capacity of 0 and for one beyond the semaphore's permits,
  \<open>usize::MAX >> 3\<close>.
\<close>

definition spawn_events :: "nat \<Rightarrow> channel option" where
  "spawn_events capacity =
     (if capacity = 0 \<or> 2 ^ 61 \<le> capacity then None
      else Some \<lparr>q_items = [], q_capacity = capacity, q_receiver_alive = True\<rparr>)"

definition finish_state_with_pool ::
  "('p \<Rightarrow> error_chain + 'p) \<Rightarrow> 'p server_state \<Rightarrow> 'p \<Rightarrow> config
    \<Rightarrow> boot_event list \<times> (error_chain + 'p server_state) option" where
  "finish_state_with_pool migrate base pool cfg =
     (case (if dc_auto_migrate (cf_database cfg) then migrate pool else Inr pool) of
        Inl e \<Rightarrow>
          ([LogError (''auto_migrate failed.'' @ hint_suffix operator_hint_for_migrate_sqlstate e) e],
           Some (Inl (''auto_migrate failed'' # e)))
      | Inr pool' \<Rightarrow>
          (let done_migrating = (if dc_auto_migrate (cf_database cfg) then [Migrated] else []) in
           case spawn_events (cf_channel_capacity cfg) of
             None \<Rightarrow> (done_migrating, None)
           | Some sender \<Rightarrow>
               (done_migrating
                @ map Spawned [FlusherTask (cf_channel_capacity cfg), LeaderTask,
                    PartitionTask (cf_retention_days cfg), RollupTask, SnapshotTask],
                Some (Inr (base\<lparr>sv_db := Some pool', sv_events := Some sender,
                                sv_snapshot := store_empty\<rparr>)))))"

definition connect_pool :: "(nat \<Rightarrow> string + 'p) \<Rightarrow> nat \<Rightarrow> error_chain + 'p" where
  "connect_pool connect attempt = map_sum (\<lambda>e. [''connect: '' @ e]) (\<lambda>p. p) (connect attempt)"

text \<open>
  The loop over \<open>1..=attempts\<close> with its two variables. \<open>backoff_ms * 2\<close> wraps in a release build.
\<close>

fun connect_loop ::
  "(nat \<Rightarrow> string + 'p) \<Rightarrow> connect_retry_config \<Rightarrow> nat list \<Rightarrow> nat \<Rightarrow> error_chain
    \<Rightarrow> boot_event list \<times> (error_chain + 'p)" where
  "connect_loop connect retry [] backoff last_err = ([], Inl last_err)"
| "connect_loop connect retry (attempt # later) backoff last_err =
     (case connect_pool connect attempt of
        Inr pool \<Rightarrow> ([Attempt attempt], Inr pool)
      | Inl e \<Rightarrow>
          if attempt < cr_attempts retry then
            map_prod (\<lambda>evs. Attempt attempt # Slept backoff # evs) (\<lambda>r. r)
              (connect_loop connect retry later
                 (min (backoff * 2 mod 2 ^ 64) (cr_max_backoff_ms retry)) e)
          else map_prod (\<lambda>evs. Attempt attempt # evs) (\<lambda>r. r)
                 (connect_loop connect retry later backoff e))"

definition build_state ::
  "(string \<Rightarrow> nat \<Rightarrow> string + 'p) \<Rightarrow> ('p \<Rightarrow> error_chain + 'p) \<Rightarrow> config
    \<Rightarrow> boot_event list \<times> (error_chain + 'p server_state) option" where
  "build_state connect migrate cfg =
     (case dc_url (cf_database cfg) of
        None \<Rightarrow>
          if dc_required (cf_database cfg) then
            ([LogError ''database.required = true but database.url is not set; knievel cannot start. Set KNIEVEL_DATABASE__URL or database.url in the config file.'' []],
             Some (Inl [''database.required = true but database.url is not configured'']))
          else ([], Some (Inr (base_state cfg)))
      | Some url \<Rightarrow>
          (let retry = dc_connect_retry (cf_database cfg);
               (evs, r) = connect_loop (connect url) retry [1 ..< Suc (cr_attempts retry)]
                            (cr_initial_backoff_ms retry) [''no attempt made'']
           in case r of
                Inr pool \<Rightarrow>
                  map_prod (\<lambda>evs'. evs @ evs') (\<lambda>r. r)
                    (finish_state_with_pool migrate (base_state cfg) pool cfg)
              | Inl e \<Rightarrow>
                  (evs @ [LogError (''DB connect exhausted retries.''
                             @ hint_suffix operator_hint_for_connect_sqlstate e) e],
                   Some (Inl (''DB connect exhausted retries'' # e)))))"

subsection \<open>The retry loop\<close>

definition attempts_of :: "boot_event list \<Rightarrow> nat list" where
  "attempts_of evs = [n. Attempt n \<leftarrow> evs]"

definition sleeps_of :: "boot_event list \<Rightarrow> nat list" where
  "sleeps_of evs = [ms. Slept ms \<leftarrow> evs]"

lemma attempts_of_simps [simp]:
  "attempts_of [] = []" "attempts_of (Attempt n # evs) = n # attempts_of evs"
  "attempts_of (Slept ms # evs) = attempts_of evs"
  by (simp_all add: attempts_of_def)

lemma sleeps_of_simps [simp]:
  "sleeps_of [] = []" "sleeps_of (Attempt n # evs) = sleeps_of evs"
  "sleeps_of (Slept ms # evs) = ms # sleeps_of evs"
  by (simp_all add: sleeps_of_def)

text \<open>The i-th pause, in closed form.\<close>

definition pause :: "nat \<Rightarrow> nat \<Rightarrow> nat \<Rightarrow> nat" where
  "pause initial cap i = (if i = 0 then initial else min (initial * 2 ^ i) cap)"

lemma pause_Suc:
  assumes "initial < 2 ^ 63" "cap < 2 ^ 63"
  shows "min (pause initial cap i * 2 mod 2 ^ 64) cap = pause initial cap (Suc i)"
proof -
  have "pause initial cap i < 2 ^ 63"
    using assms by (auto simp: pause_def min_def)
  then have "pause initial cap i * 2 mod 2 ^ 64 = pause initial cap i * 2"
    by (intro mod_less) simp
  then show ?thesis
    by (auto simp: pause_def min_def)
qed

text \<open>
  From the k-th attempt on: the loop ends at the first success, tries the rest otherwise, and
  pauses after every failed attempt but the last.
\<close>

definition first_success :: "(nat \<Rightarrow> string + 'p) \<Rightarrow> nat list \<Rightarrow> nat option" where
  "first_success connect ns = find (\<lambda>n. \<not> isl (connect n)) ns"

lemma connect_loop_result:
  "snd (connect_loop connect retry ns b e0) =
     (case first_success connect ns of
        Some n \<Rightarrow> Inr (projr (connect n))
      | None \<Rightarrow> Inl (last (e0 # map (\<lambda>n. [''connect: '' @ projl (connect n)]) ns)))"
proof (induction ns arbitrary: b e0)
  case (Cons n ns)
  then show ?case
    by (cases "connect n") (auto simp: connect_pool_def first_success_def split: option.splits)
qed (simp add: first_success_def)

lemma connect_loop_attempts:
  "attempts_of (fst (connect_loop connect retry ns b e0)) =
     (case first_success connect ns of
        Some n \<Rightarrow> takeWhile (\<lambda>m. isl (connect m)) ns @ [n]
      | None \<Rightarrow> ns)"
proof (induction ns arbitrary: b e0)
  case (Cons n ns)
  then show ?case
    by (cases "connect n") (auto simp: connect_pool_def first_success_def split: option.splits)
qed (simp add: first_success_def)

lemma connect_loop_sleeps:
  assumes "cr_initial_backoff_ms retry < 2 ^ 63" "cr_max_backoff_ms retry < 2 ^ 63"
  shows "sleeps_of (fst (connect_loop connect retry [Suc i ..< Suc (cr_attempts retry)]
            (pause (cr_initial_backoff_ms retry) (cr_max_backoff_ms retry) i) e0)) =
     map (\<lambda>n. pause (cr_initial_backoff_ms retry) (cr_max_backoff_ms retry) (n - 1))
       (takeWhile (\<lambda>m. isl (connect m)) [Suc i ..< cr_attempts retry])"
proof (induction "cr_attempts retry - i" arbitrary: i e0)
  case 0
  then show ?case by simp
next
  case (Suc k)
  then have i: "i < cr_attempts retry" and k: "k = cr_attempts retry - Suc i" by auto
  have whole: "[Suc i ..< Suc (cr_attempts retry)] = Suc i # [Suc (Suc i) ..< Suc (cr_attempts retry)]"
    using i by (simp add: upt_rec)
  note IH = Suc.hyps(1) [OF k]
  show ?case
  proof (cases "connect (Suc i)")
    case (Inr p)
    then show ?thesis
      unfolding whole by (cases "Suc i < cr_attempts retry") (auto simp: connect_pool_def upt_rec)
  next
    case (Inl e)
    show ?thesis
    proof (cases "Suc i < cr_attempts retry")
      case True
      then have "[Suc i ..< cr_attempts retry] = Suc i # [Suc (Suc i) ..< cr_attempts retry]"
        by (simp add: upt_rec)
      then show ?thesis
        unfolding whole using Inl True IH
        by (simp add: connect_pool_def pause_Suc [OF assms, simplified] del: upt_Suc)
    next
      case False
      with i have "Suc i = cr_attempts retry" by simp
      then show ?thesis
        unfolding whole using Inl by (simp add: connect_pool_def)
    qed
  qed
qed

lemma first_success_upt:
  "first_success connect [a ..< b] = Some k \<longleftrightarrow>
     a \<le> k \<and> k < b \<and> \<not> isl (connect k) \<and> (\<forall>m. a \<le> m \<and> m < k \<longrightarrow> isl (connect m))"
proof -
  have "first_success connect [a ..< b] = Some k \<longleftrightarrow>
      (\<exists>i < b - a. k = a + i \<and> \<not> isl (connect (a + i)) \<and> (\<forall>j < i. isl (connect (a + j))))"
    unfolding first_success_def find_Some_iff by (rule ex_cong1) auto
  also have "\<dots> \<longleftrightarrow> a \<le> k \<and> k < b \<and> \<not> isl (connect k) \<and> (\<forall>m. a \<le> m \<and> m < k \<longrightarrow> isl (connect m))"
  proof safe
    fix i m assume "\<forall>j < i. isl (connect (a + j))" "a \<le> m" "m < a + i"
    then show "isl (connect m)" by (metis le_add_diff_inverse nat_add_left_cancel_less)
  next
    assume "a \<le> k" "k < b" "\<not> isl (connect k)" "\<forall>m. a \<le> m \<and> m < k \<longrightarrow> isl (connect m)"
    then show "\<exists>i < b - a. k = a + i \<and> \<not> isl (connect (a + i)) \<and> (\<forall>j < i. isl (connect (a + j)))"
      by (intro exI [of _ "k - a"]) auto
  qed auto
  finally show ?thesis .
qed

lemma takeWhile_upt:
  assumes "\<And>m. a \<le> m \<Longrightarrow> m < k \<Longrightarrow> P m" "k < c \<Longrightarrow> \<not> P k" "a \<le> k"
  shows "takeWhile P [a ..< c] = [a ..< min k c]"
proof (cases "k < c")
  case True
  then have "[a ..< c] = [a ..< k] @ k # [Suc k ..< c]"
    using assms(3) by (metis le_add_diff_inverse less_imp_le_nat upt_add_eq_append upt_conv_Cons)
  then show ?thesis
    using assms(1,2) True by (simp only:, subst takeWhile_append2) auto
next
  case False
  then have "takeWhile P [a ..< c] = [a ..< c]"
    using assms(1) by (intro takeWhile_eq_all_conv [THEN iffD2]) auto
  with False show ?thesis by (simp add: min_def)
qed

lemma attempts_of_append: "attempts_of (xs @ ys) = attempts_of xs @ attempts_of ys"
  by (simp add: attempts_of_def)

lemma sleeps_of_append: "sleeps_of (xs @ ys) = sleeps_of xs @ sleeps_of ys"
  by (simp add: sleeps_of_def)

lemma finish_events:
  "attempts_of (fst (finish_state_with_pool migrate base pool cfg)) = []"
  "sleeps_of (fst (finish_state_with_pool migrate base pool cfg)) = []"
  by (auto simp: finish_state_with_pool_def attempts_of_def sleeps_of_def Let_def
      split: sum.split option.split)

lemma map_pause_upt: "map (\<lambda>n. pause i c (n - Suc 0)) [Suc 0 ..< k] = map (pause i c) [0 ..< k - Suc 0]"
  by (rule nth_equalityI) auto

text \<open>
  C33: How boot connects. The attempts are numbered from 1 and stop at the first that succeeds; the
  result is then what the migrations and the background tasks make of that pool, whatever the
  earlier failures were. When all fail, the error is the last one under the label of the retry
  loop. Between two attempts boot sleeps the configured pause, doubled each time and cut at the
  cap; the first pause is not cut, and no pause follows the last attempt.
\<close>

theorem boot_retries_exact:
  assumes "dc_url (cf_database cfg) = Some url"
    and "retry = dc_connect_retry (cf_database cfg)"
    and "cr_initial_backoff_ms retry < 2 ^ 63" "cr_max_backoff_ms retry < 2 ^ 63"
    and "build_state connect migrate cfg = (evs, r)"
  shows "case first_success (connect url) [1 ..< Suc (cr_attempts retry)] of
      Some k \<Rightarrow>
        attempts_of evs = [1 ..< Suc k]
        \<and> sleeps_of evs = map (pause (cr_initial_backoff_ms retry) (cr_max_backoff_ms retry)) [0 ..< k - 1]
        \<and> r = snd (finish_state_with_pool migrate (base_state cfg) (projr (connect url k)) cfg)
    | None \<Rightarrow>
        attempts_of evs = [1 ..< Suc (cr_attempts retry)]
        \<and> sleeps_of evs = map (pause (cr_initial_backoff_ms retry) (cr_max_backoff_ms retry))
                            [0 ..< cr_attempts retry - 1]
        \<and> r = Some (Inl [''DB connect exhausted retries'',
                if cr_attempts retry = 0 then ''no attempt made''
                else ''connect: '' @ projl (connect url (cr_attempts retry))])"
proof -
  define n where "n = cr_attempts retry"
  define loop where "loop = connect_loop (connect url) retry [Suc 0 ..< Suc n]
    (cr_initial_backoff_ms retry) [''no attempt made'']"
  let ?finish = "\<lambda>p. finish_state_with_pool migrate (base_state cfg) p cfg"
  have ap: "attempts_of (fst loop) = (case first_success (connect url) [Suc 0 ..< Suc n] of
        Some k \<Rightarrow> takeWhile (\<lambda>m. isl (connect url m)) [Suc 0 ..< Suc n] @ [k]
      | None \<Rightarrow> [Suc 0 ..< Suc n])"
    unfolding loop_def by (rule connect_loop_attempts)
  have sl: "sleeps_of (fst loop) = map (\<lambda>i. pause (cr_initial_backoff_ms retry) (cr_max_backoff_ms retry) (i - 1))
      (takeWhile (\<lambda>m. isl (connect url m)) [Suc 0 ..< n])"
    using connect_loop_sleeps [OF assms(3,4), of "connect url" 0 "[''no attempt made'']"]
    unfolding loop_def n_def by (simp add: pause_def del: upt_Suc)
  have rs: "snd loop = (case first_success (connect url) [Suc 0 ..< Suc n] of
        Some k \<Rightarrow> Inr (projr (connect url k))
      | None \<Rightarrow> Inl (last ([''no attempt made''] # map (\<lambda>m. [''connect: '' @ projl (connect url m)]) [Suc 0 ..< Suc n])))"
    unfolding loop_def by (rule connect_loop_result)
  have b: "build_state connect migrate cfg =
      (case snd loop of
         Inr pool \<Rightarrow> (fst loop @ fst (?finish pool), snd (?finish pool))
       | Inl e \<Rightarrow> (fst loop @ [LogError (''DB connect exhausted retries.''
             @ hint_suffix operator_hint_for_connect_sqlstate e) e],
             Some (Inl (''DB connect exhausted retries'' # e))))"
    unfolding build_state_def loop_def n_def
    by (simp add: assms(1) assms(2) [symmetric] case_prod_unfold map_prod_def Let_def
        del: upt_Suc split: sum.split)
  show ?thesis
  proof (cases "first_success (connect url) [Suc 0 ..< Suc n]")
    case (Some k)
    note k = Some [unfolded first_success_upt]
    have "takeWhile (\<lambda>m. isl (connect url m)) [Suc 0 ..< Suc n] = [Suc 0 ..< k]"
         "takeWhile (\<lambda>m. isl (connect url m)) [Suc 0 ..< n] = [Suc 0 ..< k]"
      using k by (subst takeWhile_upt [of _ k]; auto simp: min_def)+
    with ap sl rs b Some assms(5) k show ?thesis
      by (auto simp: n_def [symmetric] attempts_of_append sleeps_of_append finish_events map_pause_upt
          simp del: upt_Suc intro!: upt_Suc_append [symmetric])
  next
    case None
    then have "\<forall>m. Suc 0 \<le> m \<and> m < Suc n \<longrightarrow> isl (connect url m)"
      by (auto simp: first_success_def find_None_iff)
    then have "takeWhile (\<lambda>m. isl (connect url m)) [Suc 0 ..< n] = [Suc 0 ..< n]"
      by (intro takeWhile_eq_all_conv [THEN iffD2]) auto
    with ap sl rs b None assms(5) show ?thesis
      by (auto simp: n_def [symmetric] attempts_of_append sleeps_of_append map_pause_upt
          attempts_of_def [of "[LogError _ _]"] sleeps_of_def [of "[LogError _ _]"] last_map)
  qed
qed

text \<open>A database that answers the third attempt, with the configured defaults.\<close>

definition third_time :: "string \<Rightarrow> nat \<Rightarrow> string + nat" where
  "third_time url n = (if n < 3 then Inl ''refused'' else Inr n)"

definition with_url :: "config" where
  "with_url = default_config\<lparr>cf_database := default_database\<lparr>dc_url := Some ''postgres://db''\<rparr>\<rparr>"

theorem boot_retries_exact_witness:
  "attempts_of (fst (build_state third_time Inr with_url)) = [1, 2, 3]
   \<and> sleeps_of (fst (build_state third_time Inr with_url)) = [1000, 2000]"
proof -
  obtain evs r where b: "build_state third_time Inr with_url = (evs, r)" by (cases "build_state third_time Inr with_url")
  have k: "first_success (third_time url) [1 ..< Suc 5] = Some 3" for url
    unfolding first_success_upt by (simp add: third_time_def)
  have r: "dc_connect_retry (cf_database with_url) = default_connect_retry"
    "dc_url (cf_database with_url) = Some ''postgres://db''"
    by (simp_all add: with_url_def default_config_def default_database_def)
  have "first_success (third_time ''postgres://db'') [1 ..< Suc (cr_attempts default_connect_retry)] = Some 3"
    using k [of "''postgres://db''"] by (simp add: default_connect_retry_def del: upt_Suc)
  moreover have "cr_initial_backoff_ms default_connect_retry < 2 ^ 63"
    "cr_max_backoff_ms default_connect_retry < 2 ^ 63"
    by (simp_all add: default_connect_retry_def)
  ultimately have "attempts_of evs = [1 ..< Suc 3]"
    "sleeps_of evs = map (pause (cr_initial_backoff_ms default_connect_retry)
       (cr_max_backoff_ms default_connect_retry)) [0 ..< 3 - 1]"
    using boot_retries_exact [OF r(2) r(1) [symmetric] _ _ b] by (simp_all del: upt_Suc)
  moreover have "[1 ..< Suc 3] = [1, 2, 3]" "[0 ..< 3 - 1] = [0, 1 :: nat]" by (simp_all add: upt_rec)
  ultimately show ?thesis
    by (simp add: b default_connect_retry_def pause_def)
qed

lemma loop_sleeps_bounded:
  "sum_list (sleeps_of (fst (connect_loop connect retry [Suc i ..< Suc (cr_attempts retry)] b e0)))
   \<le> (if cr_attempts retry \<le> Suc i then 0 else b + (cr_attempts retry - i - 2) * cr_max_backoff_ms retry)"
proof (induction "cr_attempts retry - i" arbitrary: i b e0)
  case 0
  then show ?case by simp
next
  case (Suc k)
  then have i: "i < cr_attempts retry" and k: "k = cr_attempts retry - Suc i" by auto
  have whole: "[Suc i ..< Suc (cr_attempts retry)] = Suc i # [Suc (Suc i) ..< Suc (cr_attempts retry)]"
    using i by (simp add: upt_rec)
  show ?case
  proof (cases "connect (Suc i)")
    case (Inr p)
    then show ?thesis unfolding whole by (simp add: connect_pool_def)
  next
    case (Inl e)
    let ?b = "min (b * 2 mod 2 ^ 64) (cr_max_backoff_ms retry)"
    have "?b + (cr_attempts retry - Suc i - 2) * cr_max_backoff_ms retry
        \<le> (cr_attempts retry - i - 2) * cr_max_backoff_ms retry" if "Suc (Suc i) < cr_attempts retry"
    proof -
      from that have "cr_attempts retry - i - 2 = Suc (cr_attempts retry - Suc i - 2)" by simp
      then show ?thesis by simp
    qed
    with Suc.hyps(1) [OF k, of ?b "[''connect: '' @ e]"] Inl i show ?thesis
      unfolding whole by (fastforce simp: connect_pool_def simp del: upt_Suc power_numeral split: if_splits)
  qed
qed


subsection \<open>Without a database\<close>

lemma de_database_keys:
  assumes "de_database j = Some c"
  shows "de_opt_string j ''url'' = Some (dc_url c)
    \<and> de_default True json_as_bool j ''required'' = Some (dc_required c)"
  using assms unfolding de_database_def de_dict_def
  by (auto simp: bind_eq_Some_conv split: if_splits)

text \<open>
  Whether a server without a database URL starts depends on how the section is left out. A
  document that has no \<open>database\<close> section at all boots without a database; a section that says
  neither \<open>url\<close> nor \<open>required\<close>, even an empty one, is a fatal error.
\<close>

theorem database_section_decides:
  assumes "de_config j = Some cfg"
  shows "(json_get j ''database'' = None \<longrightarrow>
        build_state connect migrate cfg = ([], Some (Inr (base_state cfg))))
    \<and> (json_get j ''database'' = Some sec \<and> json_get sec ''url'' = None \<and> json_get sec ''required'' = None \<longrightarrow>
        snd (build_state connect migrate cfg)
        = Some (Inl [''database.required = true but database.url is not configured'']))"
proof -
  note s = de_config_sections [OF assms, THEN conjunct2, THEN conjunct1]
  have "cf_database cfg = default_database" if "json_get j ''database'' = None"
    using s that by simp
  moreover have "dc_url (cf_database cfg) = None \<and> dc_required (cf_database cfg)"
    if "json_get j ''database'' = Some sec" "json_get sec ''url'' = None" "json_get sec ''required'' = None"
  proof -
    have "de_database sec = Some (cf_database cfg)"
      using s that by (simp add: de_default_present)
    from de_database_keys [OF this] that show ?thesis by (simp add: de_opt_string_def)
  qed
  ultimately show ?thesis by (auto simp: build_state_def default_database_def)
qed

theorem database_section_decides_witness:
  "snd (build_state third_time Inr default_config) = Some (Inr (base_state default_config))
   \<and> (\<exists>cfg. de_config (JObj [(''database'', JObj [])]) = Some cfg
        \<and> snd (build_state third_time Inr cfg)
          = Some (Inl [''database.required = true but database.url is not configured'']))"
proof -
  have "de_config (JObj [(''database'', JObj [])])
      = Some (default_config\<lparr>cf_database := default_database\<lparr>dc_required := True\<rparr>\<rparr>)"
    by (simp add: de_config_def de_dict_def de_default_present de_database_empty default_config_def)
  moreover note database_section_decides [OF this, of third_time Inr "JObj []"]
  moreover note database_section_decides [OF de_config_empty, of third_time Inr JNull]
  ultimately show ?thesis by simp
qed

subsection \<open>System endpoints\<close>

datatype readyz_response = ReadyOk string | NotReady string

definition newline :: string where
  "newline = [CHR 0x0A]"

definition healthz :: string where
  "healthz = ''ok'' @ newline"

text \<open>\<open>select_one\<close>: whether the pool answers \<open>SELECT 1\<close>.\<close>

definition readyz :: "('p \<Rightarrow> bool) \<Rightarrow> 'p server_state \<Rightarrow> readyz_response" where
  "readyz select_one s =
     (case sv_db s of
        None \<Rightarrow> ReadyOk (''ok: no_db_configured'' @ newline)
      | Some pool \<Rightarrow>
          if select_one pool then ReadyOk (''ok'' @ newline)
          else NotReady (''not_ready: db_unreachable'' @ newline))"

text \<open>\<open>/version\<close>: the effective auth policy.\<close>

record issuer_summary =
  is_issuer :: string
  is_audience :: string
  is_algorithms :: "string list"
  is_claim_source :: string
  is_jwks_url :: "string option"

record auth_block =
  ab_modes :: "string list"
  ab_issuers :: "issuer_summary list"

definition summarise_issuer :: "jwt_issuer_config \<Rightarrow> issuer_summary" where
  "summarise_issuer p =
     \<lparr>is_issuer = ip_issuer p, is_audience = ip_audience p, is_algorithms = ip_algorithms p,
      is_claim_source = (if ip_rules p = [] then ip_claim p
                         else ''claim_mapping('' @ show_nat (length (ip_rules p)) @ '')''),
      is_jwks_url = (if ic_jwks_url p = [] then None else Some (ic_jwks_url p))\<rparr>"

definition build_auth_block :: "'p server_state \<Rightarrow> auth_block" where
  "build_auth_block s =
     (let policies = sv_issuers s;
          modes = [''opaque''] @ (if policies \<noteq> [] then [''jwt''] else [])
      in \<lparr>ab_modes = modes, ab_issuers = map summarise_issuer policies\<rparr>)"

text \<open>\<open>GET /admin/config.json\<close>.\<close>

record admin_ui_response =
  ar_issuer :: string
  ar_client_id :: string
  ar_scopes :: "string list"
  ar_require_oidc :: bool

definition unwrap_or_default :: "string option \<Rightarrow> string" where
  "unwrap_or_default x = (case x of Some s \<Rightarrow> s | None \<Rightarrow> [])"

definition config_json :: "'p server_state \<Rightarrow> admin_ui_response" where
  "config_json s =
     (let oidc = au_oidc (sv_admin_ui s)
      in \<lparr>ar_issuer = unwrap_or_default (ao_issuer oidc),
          ar_client_id = unwrap_or_default (ao_client_id oidc),
          ar_scopes = ao_scopes oidc, ar_require_oidc = ao_require_oidc oidc\<rparr>)"

text \<open>
  Ready, and not able to decide: a booted server with a database answers \<open>/readyz\<close> with 200 as
  soon as the pool answers, while every decision request that passes the tenant prologue is
  refused with \<open>snapshot_cold\<close>, until the loader has swapped a snapshot in; and without a
  database it is ready while every decision request is refused with \<open>no_db\<close>.
\<close>

theorem ready_before_it_can_decide:
  assumes "snd (build_state connect migrate cfg) = Some (Inr s)"
    and "\<And>pool. sv_db s = Some pool \<Longrightarrow> select_one pool"
    and "rq_placements req \<noteq> []" "length (rq_placements req) \<le> 32"
  shows "(\<exists>body. readyz select_one s = ReadyOk body)
    \<and> (case sv_db s of
         None \<Rightarrow> decisions x e (handler_state contents s) p pj req
                   = Some (Unavailable (''no_db'', ''no database configured''), handler_state contents s)
       | Some pool \<Rightarrow>
           (\<forall>t. open_project_tx e (contents pool) p pj Reader = Inr t \<longrightarrow>
              decisions x e (handler_state contents s) p pj req
              = Some (Unavailable (''snapshot_cold'', ''snapshot has not loaded this project yet''),
                      handler_state contents s)))"
proof -
  have "sv_snapshot s = store_empty"
    using assms(1) by (auto simp: build_state_def finish_state_with_pool_def base_state_def new_state_def
        Let_def split: option.splits if_splits sum.splits prod.splits)
  moreover have "sn_projects (store_read store_empty) pj = None"
    by (simp add: store_read_def store_empty_def default_snapshot_def)
  ultimately show ?thesis
    using assms(2-4) by (auto simp: readyz_def decisions_def handler_state_def Let_def split: option.split)
qed

theorem ready_before_it_can_decide_witness:
  "\<exists>s. snd (build_state (\<lambda>url n. Inr tenant_db) Inr with_url) = Some (Inr s)
     \<and> (\<exists>body. readyz (\<lambda>pool. True) s = ReadyOk body)
     \<and> decisions sample_world (calm_env sample_now) (handler_state (\<lambda>d. d) s)
         (sample_principal OrgAdmin) ''pj'' (sample_request (Some 7))
       = Some (Unavailable (''snapshot_cold'', ''snapshot has not loaded this project yet''),
               handler_state (\<lambda>d. d) s)"
proof -
  obtain s where s: "snd (build_state (\<lambda>url n. Inr tenant_db) Inr with_url) = Some (Inr s)"
    and db: "sv_db s = Some tenant_db"
    by (simp add: build_state_def with_url_def default_config_def default_database_def connect_pool_def
        default_connect_retry_def upt_rec finish_state_with_pool_def spawn_events_def DEFAULT_CAPACITY_def)
  obtain t where t: "open_project_tx (calm_env sample_now) tenant_db (sample_principal OrgAdmin) ''pj'' Reader = Inr t"
    by (simp add: open_project_tx_no_fault has_role_at_least_def less_eq_role_def addresses_def in_org_def
        tenant_db_def sample_project_row_def sample_principal_def)
  have "rq_placements (sample_request (Some 7)) \<noteq> []" "length (rq_placements (sample_request (Some 7))) \<le> 32"
    by (simp_all add: sample_request_def)
  from ready_before_it_can_decide [where select_one = "\<lambda>pool. True" and contents = "\<lambda>d. d"
      and e = "calm_env sample_now" and x = sample_world and p = "sample_principal OrgAdmin" and pj = "''pj''",
      OF s _ this] db t s
  show ?thesis by auto
qed

subsection \<open>The server and the process\<close>

text \<open>The CORS layer of poem, with what the code hands it.\<close>

record cors =
  co_allow_origins :: "string list"
  co_allow_methods :: "string list"
  co_allow_headers :: "string list"
  co_expose_headers :: "string list"
  co_allow_credentials :: bool
  co_max_age :: int

definition cors_layer :: "config \<Rightarrow> cors option" where
  "cors_layer cfg =
     (if ac_allowed_origins (cf_api cfg) = [] then None
      else Some \<lparr>co_allow_origins = ac_allowed_origins (cf_api cfg),
        co_allow_methods = [''GET'', ''POST'', ''PATCH'', ''DELETE'', ''OPTIONS''],
        co_allow_headers = [''authorization'', ''content-type'', ''idempotency-key'', ''if-match'',
                            ''x-request-id''],
        co_expose_headers = [''etag'', ''location'', ''x-request-id'', ''x-idempotency-replayed''],
        co_allow_credentials = False, co_max_age = 600\<rparr>)"

text \<open>The directory \<open>mount_admin_ui\<close> serves under \<open>/admin\<close>; an empty path mounts nothing.\<close>

definition mount_admin_ui :: "string option \<Rightarrow> string option" where
  "mount_admin_ui static_dir =
     (case static_dir of Some dir \<Rightarrow> if dir \<noteq> [] then Some dir else None | None \<Rightarrow> None)"

text \<open>What \<open>run\<close> binds to: the state and the layers around the routes.\<close>

record 'p served =
  sd_addr :: string
  sd_state :: "'p server_state"
  sd_admin_dir :: "string option"
  sd_cors :: "cors option"
  sd_request_log :: "(string list \<times> nat) option"
  sd_drain_secs :: nat

text \<open>
  \<open>run\<close> up to the accept loop: \<open>valid_addr\<close> is \<open>SocketAddr::from_str\<close>. Nothing listens unless
  the result is a \<open>served\<close>; the accept loop itself, \<open>serve\<close> below, ends with an error or after
  the graceful shutdown.
\<close>

definition run_setup ::
  "(string \<Rightarrow> bool) \<Rightarrow> (string \<Rightarrow> nat \<Rightarrow> string + 'p) \<Rightarrow> ('p \<Rightarrow> error_chain + 'p) \<Rightarrow> config
    \<Rightarrow> boot_event list \<times> (error_chain + 'p served) option" where
  "run_setup valid_addr connect migrate cfg =
     (let addr = ac_bind_addr (cf_api cfg) in
      if \<not> valid_addr addr then ([], Some (Inl [''invalid api.bind_addr: '' @ addr]))
      else map_prod (\<lambda>evs. evs)
        (map_option (map_sum (\<lambda>e. e) (\<lambda>s.
           \<lparr>sd_addr = addr, sd_state = s,
            sd_admin_dir = mount_admin_ui (au_static_dir (cf_admin_ui cfg)),
            sd_cors = cors_layer cfg,
            sd_request_log =
              (if lc_request_log_enabled (cf_logging cfg)
               then Some (lc_request_log_skip_paths (cf_logging cfg),
                          lc_request_log_slow_ms (cf_logging cfg))
               else None),
            sd_drain_secs = ac_shutdown_drain_timeout_secs (cf_api cfg)\<rparr>)))
        (build_state connect migrate cfg))"

text \<open>\<open>observability::init\<close>: \<open>valid_filter\<close> is \<open>EnvFilter::try_new\<close>.\<close>

definition init_tracing :: "(string \<Rightarrow> bool) \<Rightarrow> config \<Rightarrow> error_chain option" where
  "init_tracing valid_filter cfg =
     (let level = lc_level (cf_logging cfg); fmt = lc_format (cf_logging cfg) in
      if \<not> valid_filter level then
        Some [''logging.level '' @ [CHR 0x27] @ level @ [CHR 0x27]
              @ '' is not a valid EnvFilter directive'']
      else if fmt = ''json'' \<or> fmt = ''compact'' \<or> fmt = ''text'' then None
      else Some [''unsupported logging.format: '' @ [CHR 0x27] @ fmt @ [CHR 0x27]
                 @ '' (expected json | compact | text)''])"

text \<open>
  The process: its exit status. A panic of the main task exits with 101; an error of \<open>load\<close> or
  \<open>init\<close> returns from \<open>main\<close>, one of \<open>run\<close> calls \<open>exit(1)\<close>.
\<close>

definition main ::
  "error_chain + config \<Rightarrow> (string \<Rightarrow> bool) \<Rightarrow> (string \<Rightarrow> bool) \<Rightarrow> (string \<Rightarrow> nat \<Rightarrow> string + 'p)
    \<Rightarrow> ('p \<Rightarrow> error_chain + 'p) \<Rightarrow> ('p served \<Rightarrow> error_chain option) \<Rightarrow> boot_event list \<times> 'p served option \<times> nat" where
  "main loaded valid_filter valid_addr connect migrate serve =
     (case loaded of
        Inl e \<Rightarrow> ([], None, 1)
      | Inr cfg \<Rightarrow>
          (case init_tracing valid_filter cfg of
             Some e \<Rightarrow> ([], None, 1)
           | None \<Rightarrow>
               (case run_setup valid_addr connect migrate cfg of
                  (evs, None) \<Rightarrow> (evs, None, 101)
                | (evs, Some (Inl e)) \<Rightarrow> (evs, None, 1)
                | (evs, Some (Inr sd)) \<Rightarrow>
                    (evs, Some sd, case serve sd of None \<Rightarrow> 0 | Some _ \<Rightarrow> 1))))"

end
