(* ===== verification/Migration_Runner.thy ===== *)
theory Migration_Runner
  imports Kn_Prelude
begin

section \<open>The migration runner\<close>

text \<open>
  \<open>src/src/migrate.rs\<close>: create the schema and the extension when they are missing, then run the
  embedded migrator of sqlx (the parameter \<open>migrator\<close>). Of the server the code meets there are
  its schemas, its extensions, whether the role may \<open>CREATE\<close> in the database, and the rest, on
  which the migrator works. Postgres checks that privilege before it looks whether the object
  exists. \<open>lost\<close> are the statements whose answer does not arrive.
\<close>

datatype migrate_stmt = ProbeSchema | CreateSchema | ProbeExtension | CreateExtension

record 'm pg_server =
  pg_schemas :: "string set"
  pg_extensions :: "string set"
  pg_may_create :: bool
  pg_contents :: 'm

text \<open>The statements sent so far, and the server or the error chain.\<close>

type_synonym 'm migrating = "migrate_stmt list \<times> (string list + 'm pg_server)"

definition statement ::
  "(migrate_stmt \<Rightarrow> bool) \<Rightarrow> string \<Rightarrow> migrate_stmt \<Rightarrow> ('m pg_server \<Rightarrow> string + 'm pg_server)
    \<Rightarrow> 'm migrating \<Rightarrow> 'm migrating" where
  "statement lost label st effect m =
     (case m of
        (sent, Inl e) \<Rightarrow> (sent, Inl e)
      | (sent, Inr s) \<Rightarrow>
          (sent @ [st],
           if lost st then Inl [label, ''connection lost'']
           else map_sum (\<lambda>e. [label, e]) (\<lambda>s'. s') (effect s)))"

definition create_schema :: "'m pg_server \<Rightarrow> string + 'm pg_server" where
  "create_schema s =
     (if \<not> pg_may_create s then Inl ''permission denied for database''
      else if ''knievel'' \<in> pg_schemas s then Inl ''schema already exists''
      else Inr (s\<lparr>pg_schemas := insert ''knievel'' (pg_schemas s)\<rparr>))"

definition create_extension :: "'m pg_server \<Rightarrow> string + 'm pg_server" where
  "create_extension s =
     (if \<not> pg_may_create s then Inl ''permission denied for database''
      else if ''pgcrypto'' \<in> pg_extensions s then Inl ''extension already exists''
      else Inr (s\<lparr>pg_extensions := insert ''pgcrypto'' (pg_extensions s)\<rparr>))"

text \<open>A statement under a condition on what the probe before it read.\<close>

definition unless_there ::
  "('m pg_server \<Rightarrow> bool) \<Rightarrow> ('m migrating \<Rightarrow> 'm migrating) \<Rightarrow> 'm migrating \<Rightarrow> 'm migrating" where
  "unless_there exists f m = (case m of (_, Inr s) \<Rightarrow> if exists s then m else f m | _ \<Rightarrow> m)"

definition run_migrations ::
  "(migrate_stmt \<Rightarrow> bool) \<Rightarrow> ('m \<Rightarrow> string + 'm) \<Rightarrow> 'm pg_server \<Rightarrow> 'm migrating" where
  "run_migrations lost migrator s0 =
     (let m1 = statement lost ''checking knievel schema existence'' ProbeSchema Inr ([], Inr s0);
          m2 = unless_there (\<lambda>s. ''knievel'' \<in> pg_schemas s)
                 (statement lost ''creating knievel schema'' CreateSchema create_schema) m1;
          m3 = statement lost ''checking pgcrypto extension existence'' ProbeExtension Inr m2;
          m4 = unless_there (\<lambda>s. ''pgcrypto'' \<in> pg_extensions s)
                 (statement lost ''creating pgcrypto extension'' CreateExtension create_extension) m3
      in case m4 of
           (sent, Inl e) \<Rightarrow> (sent, Inl e)
         | (sent, Inr s) \<Rightarrow>
             (sent, map_sum (\<lambda>e. [''applying embedded migrations'', e])
                      (\<lambda>c. s\<lparr>pg_contents := c\<rparr>) (migrator (pg_contents s))))"

lemmas migration_defs = run_migrations_def statement_def unless_there_def create_schema_def
  create_extension_def Let_def

text \<open>
  Look first, create only what is missing. When schema and extension are there, no \<open>CREATE\<close> is
  sent and the outcome is the migrator's, whether or not the role may create; when one is
  missing, the run fails for a role that may not, before the migrator has touched anything. A
  run that succeeds leaves both in place, so that the next one creates nothing.
\<close>

theorem migrations_look_first:
  "(''knievel'' \<in> pg_schemas s \<and> ''pgcrypto'' \<in> pg_extensions s \<longrightarrow>
       set (fst (run_migrations lost migrator s)) \<subseteq> {ProbeSchema, ProbeExtension}
       \<and> run_migrations (\<lambda>st. False) migrator s
       = ([ProbeSchema, ProbeExtension],
          map_sum (\<lambda>e. [''applying embedded migrations'', e]) (\<lambda>c. s\<lparr>pg_contents := c\<rparr>)
            (migrator (pg_contents s))))
    \<and> (\<not> pg_may_create s \<and> (''knievel'' \<notin> pg_schemas s \<or> ''pgcrypto'' \<notin> pg_extensions s) \<longrightarrow>
       (\<exists>label. snd (run_migrations (\<lambda>st. False) migrator s) = Inl [label, ''permission denied for database'']))
    \<and> (\<forall>sent s'. run_migrations lost migrator s = (sent, Inr s') \<longrightarrow>
         ''knievel'' \<in> pg_schemas s' \<and> ''pgcrypto'' \<in> pg_extensions s'
         \<and> fst (run_migrations (\<lambda>st. False) migrator s') = [ProbeSchema, ProbeExtension])"
  by (cases "migrator (pg_contents s)") (auto simp: migration_defs split: sum.splits if_splits)

text \<open>A role without the privilege on a provisioned server, and on an empty one.\<close>

definition provisioned :: "nat pg_server" where
  "provisioned = \<lparr>pg_schemas = {''public'', ''knievel''}, pg_extensions = {''pgcrypto''},
     pg_may_create = False, pg_contents = 0\<rparr>"

theorem migrations_look_first_witness:
  "run_migrations (\<lambda>st. False) (\<lambda>c. Inr 13) provisioned
     = ([ProbeSchema, ProbeExtension], Inr (provisioned\<lparr>pg_contents := 13\<rparr>))
   \<and> (\<exists>label. snd (run_migrations (\<lambda>st. False) (\<lambda>c. Inr 13) (provisioned\<lparr>pg_schemas := {}\<rparr>))
         = Inl [label, ''permission denied for database''])"
  using migrations_look_first [where s = provisioned and migrator = "\<lambda>c. Inr 13"]
    migrations_look_first [where s = "provisioned\<lparr>pg_schemas := {}\<rparr>" and migrator = "\<lambda>c. Inr 13"]
  by (simp add: provisioned_def)

end
