(* ===== verification/Request_Log.thy ===== *)
theory Request_Log
  imports Rust_Text
begin

section \<open>The request log\<close>

text \<open>
  \<open>src/src/request_log.rs\<close>: the middleware around every request. \<open>req.header\<close> gives the
  inbound header only when it is visible ASCII. \<open>random\<close> are the 16 bytes \<open>OsRng\<close> fills, and
  \<open>latency_ms\<close> what the clock measured; the inner endpoint is a function of the request id the
  middleware attached.
\<close>

subsection \<open>Request ids\<close>

definition is_ascii_graphic :: "char \<Rightarrow> bool" where
  "is_ascii_graphic c \<longleftrightarrow> (let n = of_char c :: nat in 33 \<le> n \<and> n \<le> 126)"

definition safe_request_id :: "string \<Rightarrow> string option" where
  "safe_request_id raw =
     (let trimmed = trim raw in
      if length trimmed < 8 \<or> length trimmed > 128 then None
      else if \<not> list_all (\<lambda>c. is_ascii_graphic c \<or> c = CHR ''-'' \<or> c = CHR ''_'') trimmed then None
      else Some trimmed)"

definition mint_request_id :: "bytes \<Rightarrow> string" where
  "mint_request_id random = lower_hex random"

definition effective_request_id :: "bytes \<Rightarrow> string option \<Rightarrow> string" where
  "effective_request_id random inbound =
     (case Option.bind inbound safe_request_id of
        Some i \<Rightarrow> i
      | None \<Rightarrow> mint_request_id random)"

subsection \<open>Responses\<close>

record response =
  rs_status :: nat
  rs_headers :: "(string \<times> string) list"
  rs_body :: bytes

text \<open>An \<open>Err\<close> of the endpoint: its status, its text, and the response it turns into.\<close>

datatype endpoint_result = EndpointOk response | EndpointErr nat string response

definition HEADER :: string where
  "HEADER = ''x-request-id''"

text \<open>\<open>HeaderValue::from_str\<close> takes visible ASCII, the space and the tab.\<close>

definition header_value :: "string \<Rightarrow> string option" where
  "header_value s =
     (if list_all (\<lambda>c. let n = of_char c :: nat in n = 9 \<or> 32 \<le> n \<and> n \<le> 126) s then Some s else None)"

text \<open>\<open>HeaderMap::insert\<close> replaces every value the name had.\<close>

definition insert_header :: "string \<Rightarrow> string \<Rightarrow> (string \<times> string) list \<Rightarrow> (string \<times> string) list" where
  "insert_header k v hs = filter (\<lambda>(k', _). k' \<noteq> k) hs @ [(k, v)]"

definition set_request_id_header :: "string \<Rightarrow> response \<Rightarrow> response" where
  "set_request_id_header rid resp =
     (case header_value rid of
        Some v \<Rightarrow> resp\<lparr>rs_headers := insert_header HEADER v (rs_headers resp)\<rparr>
      | None \<Rightarrow> resp)"

subsection \<open>The log line\<close>

datatype log_level = LogErrorLevel | LogWarnLevel | LogInfoLevel

record log_line =
  ll_level :: log_level
  ll_message :: string
  ll_method :: string
  ll_path :: string
  ll_status :: nat
  ll_latency_ms :: nat
  ll_request_id :: string
  ll_error_chain :: "string option"
  ll_slow :: bool

definition log_event ::
  "nat \<Rightarrow> nat \<Rightarrow> string \<Rightarrow> string \<Rightarrow> string \<Rightarrow> string option \<Rightarrow> nat \<Rightarrow> log_line" where
  "log_event status latency_ms method path rid err_chain slow_ms =
     (let slow = latency_ms \<ge> slow_ms;
          line = \<lparr>ll_level = LogInfoLevel, ll_message = ''request'', ll_method = method, ll_path = path,
                  ll_status = status, ll_latency_ms = latency_ms, ll_request_id = rid,
                  ll_error_chain = None, ll_slow = False\<rparr>
      in if status \<ge> 500 then
           line\<lparr>ll_level := LogErrorLevel,
                ll_error_chain := Some (case err_chain of Some s \<Rightarrow> s | None \<Rightarrow> [])\<rparr>
         else if slow then
           line\<lparr>ll_level := LogWarnLevel, ll_message := ''request slow'', ll_slow := True\<rparr>
         else line)"

subsection \<open>The middleware\<close>

record request_log_config =
  rl_skip_paths :: "string list"
  rl_slow_ms :: nat

definition default_request_log_config :: request_log_config where
  "default_request_log_config = \<lparr>rl_skip_paths = [''/healthz'', ''/readyz''], rl_slow_ms = 1000\<rparr>"

record http_request =
  hq_method :: string
  hq_path :: string
  hq_request_id :: "string option"

definition request_log_call ::
  "request_log_config \<Rightarrow> bytes \<Rightarrow> nat \<Rightarrow> (string \<Rightarrow> endpoint_result) \<Rightarrow> http_request
    \<Rightarrow> log_line list \<times> response" where
  "request_log_call cfg random latency_ms inner req =
     (let rid = effective_request_id random (hq_request_id req);
          skip = list_ex (\<lambda>p. p = hq_path req) (rl_skip_paths cfg);
          log = (\<lambda>status err. if skip then [] else
            [log_event status latency_ms (hq_method req) (hq_path req) rid err (rl_slow_ms cfg)])
      in case inner rid of
           EndpointOk out \<Rightarrow> (log (rs_status out) None, set_request_id_header rid out)
         | EndpointErr status err_str r \<Rightarrow>
             (log status (Some err_str), set_request_id_header rid r))"

subsection \<open>Correlation\<close>

lemma graphic_chars [simp]: "is_ascii_graphic CHR ''-''" "is_ascii_graphic CHR ''_''"
  by (simp_all add: is_ascii_graphic_def)

lemma trim_graphic: "list_all is_ascii_graphic s \<Longrightarrow> trim s = s"
  unfolding trim_def
  by (rule trim_matches_nothing) (auto simp: list_all_iff is_ascii_graphic_def is_space_def Let_def)

lemma safe_request_id_SomeD:
  assumes "safe_request_id raw = Some i"
  shows "i = trim raw \<and> 8 \<le> length i \<and> length i \<le> 128 \<and> list_all is_ascii_graphic i"
proof -
  have "list_all is_ascii_graphic i" "i = trim raw" "\<not> length i < 8" "\<not> length i > 128"
    using assms by (auto simp: safe_request_id_def Let_def list_all_iff split: if_splits)
  then show ?thesis by simp
qed

lemma safe_request_id_graphic:
  assumes "list_all is_ascii_graphic i" "8 \<le> length i" "length i \<le> 128"
  shows "safe_request_id i = Some i"
  using assms by (auto simp: safe_request_id_def trim_graphic list_all_iff)

lemma hex_digit_graphic: "n < 16 \<Longrightarrow> is_ascii_graphic (hex_digit n)"
  by (auto simp: is_ascii_graphic_def hex_digit_def digit_char_def of_char_of)

lemma length_lower_hex: "length (lower_hex bs) = 2 * length bs"
  by (induction bs) (simp_all add: lower_hex_def)

lemma lower_hex_graphic: "list_all is_ascii_graphic (lower_hex bs)"
proof -
  have "unat (b :: u8) div 16 < 16" for b
    using unsigned_less [of b, where 'a = nat] by (simp add: less_mult_imp_div_less)
  then show ?thesis
    by (auto simp: lower_hex_def list_all_iff intro!: hex_digit_graphic)
qed

lemma header_value_graphic: "list_all is_ascii_graphic s \<Longrightarrow> header_value s = Some s"
  by (auto simp: header_value_def list_all_iff is_ascii_graphic_def Let_def)

lemma effective_request_id_safe:
  assumes "length random = 16"
  shows "list_all is_ascii_graphic (effective_request_id random inbound)
    \<and> 8 \<le> length (effective_request_id random inbound)
    \<and> length (effective_request_id random inbound) \<le> 128"
proof (cases "Option.bind inbound safe_request_id")
  case None
  with assms show ?thesis
    by (simp add: effective_request_id_def mint_request_id_def length_lower_hex lower_hex_graphic)
next
  case (Some i)
  then obtain raw where "safe_request_id raw = Some i" by (auto simp: bind_eq_Some_conv)
  from safe_request_id_SomeD [OF this] show ?thesis
    unfolding effective_request_id_def Some option.case by blast
qed

lemma set_request_id_header_effective:
  assumes "length random = 16"
  shows "set_request_id_header (effective_request_id random inbound) resp
    = resp\<lparr>rs_headers := insert_header HEADER (effective_request_id random inbound) (rs_headers resp)\<rparr>"
  using effective_request_id_safe [OF assms, of inbound]
  by (simp add: set_request_id_header_def header_value_graphic)

text \<open>
  C35: Every response carries exactly one request id, the one the endpoint saw and the log line
  shows: the inbound id, trimmed, when it is acceptable and the minted one otherwise. Nothing
  else of the endpoint's response changes, whether it is a success or an error. The id is
  itself an acceptable one, so that another hop running this middleware keeps it as it is.
\<close>

theorem request_id_end_to_end:
  assumes "length random = 16"
    and "inner (effective_request_id random (hq_request_id req)) \<in> {EndpointOk out, EndpointErr st msg out}"
    and "request_log_call cfg random ms inner req = (lines, resp)"
  shows "\<exists>i. (HEADER, i) \<in> set (rs_headers resp)
    \<and> (\<forall>v. (HEADER, v) \<in> set (rs_headers resp) \<longrightarrow> v = i)
    \<and> i = (case hq_request_id req of
             Some raw \<Rightarrow> (if safe_request_id raw = None then lower_hex random else trim raw)
           | None \<Rightarrow> lower_hex random)
    \<and> (\<forall>random'. effective_request_id random' (Some i) = i)
    \<and> rs_status resp = rs_status out \<and> rs_body resp = rs_body out
    \<and> (\<forall>k v. k \<noteq> HEADER \<longrightarrow> (k, v) \<in> set (rs_headers resp) \<longleftrightarrow> (k, v) \<in> set (rs_headers out))
    \<and> length lines = (if hq_path req \<in> set (rl_skip_paths cfg) then 0 else 1)
    \<and> (\<forall>l \<in> set lines. ll_request_id l = i)"
proof -
  let ?i = "effective_request_id random (hq_request_id req)"
  have resp: "resp = out\<lparr>rs_headers := insert_header HEADER ?i (rs_headers out)\<rparr>"
    using assms(2,3) set_request_id_header_effective [OF assms(1)]
    by (auto simp: request_log_call_def Let_def)
  have len: "length lines = (if hq_path req \<in> set (rl_skip_paths cfg) then 0 else 1)"
    and ids: "\<forall>l \<in> set lines. ll_request_id l = ?i"
    using assms(2,3) by (auto simp: request_log_call_def Let_def log_event_def list_ex_iff split: if_splits)
  have again: "effective_request_id random' (Some ?i) = ?i" for random'
    using effective_request_id_safe [OF assms(1), of "hq_request_id req"]
    by (simp add: effective_request_id_def [of random'] safe_request_id_graphic)
  have eff: "?i = (case hq_request_id req of
             Some raw \<Rightarrow> (if safe_request_id raw = None then lower_hex random else trim raw)
           | None \<Rightarrow> lower_hex random)"
    by (auto simp: effective_request_id_def mint_request_id_def dest: safe_request_id_SomeD split: option.split)
  show ?thesis
    by (rule exI [of _ ?i], intro conjI, goal_cases)
       (use resp len ids again eff in \<open>auto simp: insert_header_def\<close>)
qed

definition zero_bytes :: bytes where
  "zero_bytes = replicate 16 0"

definition sample_inner :: "string \<Rightarrow> endpoint_result" where
  "sample_inner i = EndpointErr 503 ''down'' \<lparr>rs_status = 503, rs_headers = [(HEADER, ''x'')], rs_body = []\<rparr>"

theorem request_id_end_to_end_witness:
  "(HEADER, ''abcd-1234'') \<in> set (rs_headers (snd (request_log_call default_request_log_config zero_bytes 3
      sample_inner \<lparr>hq_method = ''GET'', hq_path = ''/v1/whoami'', hq_request_id = Some '' abcd-1234''\<rparr>)))"
proof -
  let ?req = "\<lparr>hq_method = ''GET'', hq_path = ''/v1/whoami'', hq_request_id = Some '' abcd-1234''\<rparr>"
  obtain lines resp where c: "request_log_call default_request_log_config zero_bytes 3 sample_inner ?req = (lines, resp)"
    by fastforce
  have "length zero_bytes = 16" by (simp add: zero_bytes_def)
  moreover have "safe_request_id '' abcd-1234'' = Some ''abcd-1234''" by code_simp
  moreover have "trim '' abcd-1234'' = ''abcd-1234''" by code_simp
  ultimately show ?thesis
    using request_id_end_to_end [where inner = sample_inner and req = ?req and random = zero_bytes
        and st = 503 and msg = "''down''" and cfg = default_request_log_config and ms = 3
        and out = "\<lparr>rs_status = 503, rs_headers = [(HEADER, ''x'')], rs_body = []\<rparr>", OF _ _ c]
    by (auto simp: c sample_inner_def)
qed

end
