(* ===== verification/Seed_Cli.thy ===== *)
theory Seed_Cli
  imports Api_Tokens Creative_Api
begin

section \<open>The operator commands\<close>

text \<open>
  \<open>src/src/cli/seed_demo.rs\<close> and \<open>cli/admin.rs\<close>: \<open>seed-demo\<close> fills an installation with one row
  of everything, \<open>create-org\<close> makes an organisation and its first token. Both talk to the
  database directly, one transaction per step, each with a world of its own: \<open>ev\<close> gives the
  \<open>env\<close> of every step. A computation returns an error or a value, and the database it leaves.
  SHA-256, the secret \<open>gen_random_bytes\<close> makes and argon2 are parameters.
\<close>

subsection \<open>Transactions in sequence\<close>

datatype seed_step =
    OrgStep | ProjectStep | CheckStep | TaxonomyStep | LookupStep | AdvertiserStep | CampaignStep
  | FlightStep | CreativeStep | AdStep | SiteStep | ZoneStep | TokenStep

datatype cli_error =
    CliDb db_error
  | RowNotFound string
  | InvalidToken
  | NotOrgScoped
  | HashFailed
  | FileFailed string

type_synonym worlds = "seed_step \<Rightarrow> env"
type_synonym 'a seed = "worlds \<Rightarrow> db \<Rightarrow> (cli_error + 'a) \<times> db"

definition seed_return :: "'a \<Rightarrow> 'a seed" where
  "seed_return x ev d = (Inr x, d)"

definition seed_bind :: "'a seed \<Rightarrow> ('a \<Rightarrow> 'b seed) \<Rightarrow> 'b seed" where
  "seed_bind m k ev d =
     (case m ev d of
        (Inl er, d') \<Rightarrow> (Inl er, d')
      | (Inr x, d') \<Rightarrow> k x ev d')"

text \<open>\<open>begin_bound\<close>, the statements, \<open>commit\<close>; a failure leaves the database as it was.\<close>

definition seed_tx ::
  "seed_step \<Rightarrow> string \<Rightarrow> string option \<Rightarrow> (env \<Rightarrow> tx \<Rightarrow> cli_error + ('a \<times> tx)) \<Rightarrow> 'a seed" where
  "seed_tx l oid pid body ev d =
     (case begin_bound (ev l) d oid pid of
        Inl er \<Rightarrow> (Inl (CliDb er), d)
      | Inr t \<Rightarrow>
     (case body (ev l) t of
        Inl er \<Rightarrow> (Inl er, d)
      | Inr (x, t') \<Rightarrow>
     (case commit (ev l) t' of
        Inl er \<Rightarrow> (Inl (CliDb er), d)
      | Inr d' \<Rightarrow> (Inr x, d'))))"

subsection \<open>The organisation and the project\<close>

definition derive_org_id :: "(bytes \<Rightarrow> bytes) \<Rightarrow> string \<Rightarrow> string" where
  "derive_org_id sha external_id = ''org_'' @ take 12 (lower_hex (sha (bytes_of external_id)))"

definition derive_project_id :: "(bytes \<Rightarrow> bytes) \<Rightarrow> string \<Rightarrow> string \<Rightarrow> string" where
  "derive_project_id sha oid external_id =
     ''pj_'' @ take 12 (lower_hex (sha (bytes_of oid @ bytes_of ''/'' @ bytes_of external_id)))"

definition new_org :: "env \<Rightarrow> string \<Rightarrow> string \<Rightarrow> string \<Rightarrow> org_row" where
  "new_org e i external_id display_name =
     \<lparr>org_row_id = i, org_row_external_id = Some external_id, org_row_name = display_name,
      org_row_is_active = True, org_row_etag = new_etag e 0, org_row_created_at = clock_ms e,
      org_row_updated_at = clock_ms e\<rparr>"

text \<open>
  \<open>ON CONFLICT (id) DO UPDATE SET name = name\<close>: an existing row stays as it is; the policies
  admit the bound id. The value is the id and whether the row is new.
\<close>

definition upsert_org_row :: "string \<Rightarrow> string \<Rightarrow> string \<Rightarrow> env \<Rightarrow> tx \<Rightarrow> cli_error + (bool \<times> tx)" where
  "upsert_org_row i external_id display_name e t =
     (let rows = organizations (tx_db t) in
      if fault e (Stmt ''upsert org'') then Inl (CliDb conn_lost)
      else if guc_org_id t \<noteq> Some i then Inl (CliDb (policy_error ''organizations''))
      else if list_ex (\<lambda>r. org_row_id r = i) rows then Inr (False, t)
      else if list_ex (\<lambda>r. org_row_external_id r = Some external_id) rows
        then Inl (CliDb (unique_error ''organizations_external_id_key''))
      else Inr (True, t\<lparr>tx_db := (tx_db t)\<lparr>organizations := rows @ [new_org e i external_id display_name]\<rparr>\<rparr>))"

definition upsert_org :: "(bytes \<Rightarrow> bytes) \<Rightarrow> string \<Rightarrow> string \<Rightarrow> (string \<times> bool) seed" where
  "upsert_org sha external_id display_name =
     (let i = derive_org_id sha external_id in
      seed_bind (seed_tx OrgStep i None (upsert_org_row i external_id display_name))
        (\<lambda>was_new. seed_return (i, was_new)))"

definition demo_project :: "bytes \<Rightarrow> env \<Rightarrow> string \<Rightarrow> string \<Rightarrow> string \<Rightarrow> project_row" where
  "demo_project hmac e i oid external_id =
     \<lparr>pr_id = i, pr_org_id = oid, pr_external_id = Some external_id, pr_name = ''Demo Project'',
      pr_is_active = True, pr_hmac_secret = hmac, pr_allow_force_decision = False,
      pr_etag = new_etag e 0, pr_created_at = clock_ms e, pr_updated_at = clock_ms e\<rparr>"

definition find_project :: "tx \<Rightarrow> string \<Rightarrow> string \<Rightarrow> project_row option" where
  "find_project t oid external_id =
     find (\<lambda>r. project_visible t r \<and> pr_org_id r = oid \<and> pr_external_id r = Some external_id)
       (projects (tx_db t))"

definition upsert_project :: "(bytes \<Rightarrow> bytes) \<Rightarrow> bytes \<Rightarrow> string \<Rightarrow> string \<Rightarrow> (string \<times> bool) seed" where
  "upsert_project sha hmac oid external_id =
     seed_tx ProjectStep oid None (\<lambda>e t.
       if fault e (Stmt ''select project'') then Inl (CliDb conn_lost)
       else (case find_project t oid external_id of
           Some r \<Rightarrow> Inr ((pr_id r, False), t)
         | None \<Rightarrow>
             (let i = derive_project_id sha oid external_id in
              case insert_project e t (demo_project hmac e i oid external_id) of
                Inl er \<Rightarrow> Inl (CliDb er)
              | Inr t' \<Rightarrow> Inr ((i, True), t'))))"

definition taxonomy_seeded :: "string \<Rightarrow> string \<Rightarrow> bool seed" where
  "taxonomy_seeded oid pid =
     seed_tx CheckStep oid (Some pid) (\<lambda>e t.
       if fault e (Stmt ''select priorities'') then Inl (CliDb conn_lost)
       else Inr (list_ex (\<lambda>r. guc_project_id t = Some (py_project_id r) \<and> py_project_id r = pid)
                   (priorities (tx_db t)), t))"

definition seed_taxonomy :: "string \<Rightarrow> string \<Rightarrow> unit seed" where
  "seed_taxonomy oid pid =
     seed_tx TaxonomyStep oid (Some pid) (\<lambda>e t.
       map_sum CliDb (\<lambda>t'. ((), t')) (seed_default_taxonomy e t oid pid))"

text \<open>\<open>if project_was_new || !taxonomy_seeded\<close>.\<close>

definition project_with_taxonomy :: "(bytes \<Rightarrow> bytes) \<Rightarrow> bytes \<Rightarrow> string \<Rightarrow> string \<Rightarrow> string seed" where
  "project_with_taxonomy sha hmac oid external_id =
     seed_bind (upsert_project sha hmac oid external_id) (\<lambda>(pid, was_new).
     seed_bind (if was_new then seed_return False else taxonomy_seeded oid pid) (\<lambda>seeded.
     seed_bind (if seeded then seed_return () else seed_taxonomy oid pid) (\<lambda>_.
       seed_return pid)))"

definition lookup_default_taxonomy :: "string \<Rightarrow> string \<Rightarrow> (int \<times> int) seed" where
  "lookup_default_taxonomy oid pid =
     seed_tx LookupStep oid (Some pid) (\<lambda>e t.
       if fault e (Stmt ''select priority'') then Inl (CliDb conn_lost)
       else (case find (\<lambda>r. guc_project_id t = Some (py_project_id r) \<and> py_project_id r = pid
                          \<and> py_name r = ''Standard'') (priorities (tx_db t)) of
           None \<Rightarrow> Inl (RowNotFound ''lookup Standard priority'')
         | Some p \<Rightarrow>
             if fault e (Stmt ''select ad_type'') then Inl (CliDb conn_lost)
             else (case find (\<lambda>r. guc_project_id t = Some (ty_project_id r) \<and> ty_project_id r = pid
                                \<and> ty_name r = ''Medium Rectangle'') (ad_types (tx_db t)) of
                 None \<Rightarrow> Inl (RowNotFound ''lookup Medium Rectangle ad type'')
               | Some a \<Rightarrow> Inr ((py_id p, ty_id a), t))))"

subsection \<open>The resources\<close>

text \<open>Look the row up by its external id, else insert it.\<close>

definition upsert_resource ::
  "seed_step \<Rightarrow> 'z table_desc \<Rightarrow> string \<Rightarrow> string \<Rightarrow> string
    \<Rightarrow> (env \<Rightarrow> 'z resource_row_scheme) \<Rightarrow> int seed" where
  "upsert_resource l td oid pid external_id row =
     seed_tx l oid (Some pid) (\<lambda>e t.
       if fault e (Stmt ''select'') then Inl (CliDb conn_lost)
       else (case find (\<lambda>r. row_project_id r = pid \<and> row_external_id r = Some external_id)
                    (visible_rows td t) of
           Some r \<Rightarrow> Inr (row_id r, t)
         | None \<Rightarrow>
             if fault e (Stmt ''insert'') then Inl (CliDb conn_lost)
             else map_sum CliDb (\<lambda>t'. (row_id (row e), t')) (insert_row td t (row e))))"

definition demo_advertiser :: "string \<Rightarrow> string \<Rightarrow> env \<Rightarrow> advertiser_row" where
  "demo_advertiser oid pid e =
     \<lparr>row_id = new_id e 0, row_org_id = oid, row_project_id = pid,
      row_external_id = Some ''demo-advertiser'', row_etag = new_etag e 0,
      row_created_at = clock_ms e, row_updated_at = clock_ms e, row_is_active = True,
      av_name = ''Demo Advertiser''\<rparr>"

definition demo_campaign :: "string \<Rightarrow> string \<Rightarrow> int \<Rightarrow> env \<Rightarrow> campaign_row" where
  "demo_campaign oid pid advertiser_id e =
     \<lparr>row_id = new_id e 0, row_org_id = oid, row_project_id = pid,
      row_external_id = Some ''demo-campaign'', row_etag = new_etag e 0,
      row_created_at = clock_ms e, row_updated_at = clock_ms e, row_is_active = True,
      cp_advertiser_id = advertiser_id, cp_name = ''Demo Campaign''\<rparr>"

definition demo_flight :: "string \<Rightarrow> string \<Rightarrow> int \<Rightarrow> int \<Rightarrow> int \<Rightarrow> env \<Rightarrow> flight_row" where
  "demo_flight oid pid campaign_id priority_id ad_type_id e =
     \<lparr>row_id = new_id e 0, row_org_id = oid, row_project_id = pid,
      row_external_id = Some ''demo-flight'', row_etag = new_etag e 0,
      row_created_at = clock_ms e, row_updated_at = clock_ms e, row_is_active = True,
      fr_campaign_id = campaign_id, fr_name = ''Demo Flight'', fr_priority_id = priority_id,
      fr_start_date = None, fr_end_date = None, fr_site_ids = [], fr_zone_ids = [],
      fr_ad_types = [ad_type_id]\<rparr>"

definition demo_creative :: "string \<Rightarrow> string \<Rightarrow> int \<Rightarrow> env \<Rightarrow> creative_row" where
  "demo_creative oid pid advertiser_id e =
     \<lparr>row_id = new_id e 0, row_org_id = oid, row_project_id = pid,
      row_external_id = Some ''demo-creative'', row_etag = new_etag e 0,
      row_created_at = clock_ms e, row_updated_at = clock_ms e, row_is_active = True,
      ct_advertiser_id = advertiser_id, ct_name = Some ''Demo Creative'', ct_kind = ''image'',
      ct_image_url = Some ''https://demo.example.com/banner-300x250.png'', ct_width = Some 300,
      ct_height = Some 250, ct_alt = Some ''Demo banner'', ct_body = None, ct_template_id = None,
      ct_values = None, ct_click_through_url = Some ''https://demo.example.com/landing''\<rparr>"

definition demo_ad :: "string \<Rightarrow> string \<Rightarrow> int \<Rightarrow> int \<Rightarrow> env \<Rightarrow> ad_row" where
  "demo_ad oid pid flight_id creative_id e =
     \<lparr>row_id = new_id e 0, row_org_id = oid, row_project_id = pid,
      row_external_id = Some ''demo-ad'', row_etag = new_etag e 0,
      row_created_at = clock_ms e, row_updated_at = clock_ms e, row_is_active = True,
      ar_flight_id = flight_id, ar_creative_id = Some creative_id, ar_ad_library_item_id = None,
      ar_weight = 100\<rparr>"

definition demo_site :: "string \<Rightarrow> string \<Rightarrow> env \<Rightarrow> site_row" where
  "demo_site oid pid e =
     \<lparr>row_id = new_id e 0, row_org_id = oid, row_project_id = pid,
      row_external_id = Some ''demo-site'', row_etag = new_etag e 0,
      row_created_at = clock_ms e, row_updated_at = clock_ms e, row_is_active = True,
      si_channel_id = None, si_name = ''Demo Site'', si_url = ''https://demo.example.com'',
      si_aliases = []\<rparr>"

definition demo_zone :: "string \<Rightarrow> string \<Rightarrow> int \<Rightarrow> env \<Rightarrow> zone_row" where
  "demo_zone oid pid site_id e =
     \<lparr>row_id = new_id e 0, row_org_id = oid, row_project_id = pid,
      row_external_id = Some ''demo-zone'', row_etag = new_etag e 0,
      row_created_at = clock_ms e, row_updated_at = clock_ms e, row_is_active = True,
      zn_site_id = site_id, zn_name = ''Demo Zone''\<rparr>"

record seeded_ids =
  sd_org_id :: string
  sd_project_id :: string
  sd_advertiser_id :: int
  sd_campaign_id :: int
  sd_flight_id :: int
  sd_ad_id :: int
  sd_creative_id :: int
  sd_site_id :: int
  sd_zone_id :: int
  sd_priority_id :: int
  sd_ad_type_id :: int

text \<open>\<open>run\<close> up to the token, in the order of the code.\<close>

definition seed_rows ::
  "(bytes \<Rightarrow> bytes) \<Rightarrow> bytes \<Rightarrow> string \<Rightarrow> string \<Rightarrow> seeded_ids seed" where
  "seed_rows sha hmac org_external_id project_external_id =
     seed_bind (upsert_org sha org_external_id ''Demo Org'') (\<lambda>(oid, _).
     seed_bind (project_with_taxonomy sha hmac oid project_external_id) (\<lambda>pid.
     seed_bind (lookup_default_taxonomy oid pid) (\<lambda>(priority, ad_type).
     seed_bind (upsert_resource AdvertiserStep advertisers_table oid pid ''demo-advertiser''
                  (demo_advertiser oid pid)) (\<lambda>adv.
     seed_bind (upsert_resource CampaignStep campaigns_table oid pid ''demo-campaign''
                  (demo_campaign oid pid adv)) (\<lambda>camp.
     seed_bind (upsert_resource FlightStep flights_table oid pid ''demo-flight''
                  (demo_flight oid pid camp priority ad_type)) (\<lambda>flight.
     seed_bind (upsert_resource CreativeStep creatives_table oid pid ''demo-creative''
                  (demo_creative oid pid adv)) (\<lambda>creative.
     seed_bind (upsert_resource AdStep ads_table oid pid ''demo-ad''
                  (demo_ad oid pid flight creative)) (\<lambda>ad.
     seed_bind (upsert_resource SiteStep sites_table oid pid ''demo-site'' (demo_site oid pid)) (\<lambda>site.
     seed_bind (upsert_resource ZoneStep zones_table oid pid ''demo-zone'' (demo_zone oid pid site)) (\<lambda>zone.
       seed_return \<lparr>sd_org_id = oid, sd_project_id = pid, sd_advertiser_id = adv,
         sd_campaign_id = camp, sd_flight_id = flight, sd_ad_id = ad, sd_creative_id = creative,
         sd_site_id = site, sd_zone_id = zone, sd_priority_id = priority,
         sd_ad_type_id = ad_type\<rparr>))))))))))"

subsection \<open>The token\<close>

definition bootstrap_token :: "env \<Rightarrow> parsed_opaque \<Rightarrow> string \<Rightarrow> string \<Rightarrow> string \<Rightarrow> token_row" where
  "bootstrap_token e parsed oid display_name h =
     \<lparr>tk_id = db_id parsed, tk_org_id = oid, tk_project_id = None, tk_scope = ''org'',
      tk_role = ''org-admin'', tk_name = display_name, tk_secret_hash = h, tk_ip_allowlist = [],
      tk_expires_at = None, tk_revoked_at = None, tk_last_used_at = None, tk_created_at = clock_ms e\<rparr>"

text \<open>
  The insert, or the update of the row with that id, which the policy has to admit; an update
  that it does not admit is an error, not a second row.
\<close>

definition upsert_token_row :: "token_row \<Rightarrow> env \<Rightarrow> tx \<Rightarrow> cli_error + (unit \<times> tx)" where
  "upsert_token_row new e t =
     (let rows = api_tokens (tx_db t) in
      if list_ex (\<lambda>r. tk_id r = tk_id new) rows then
        (if fault e (Stmt ''insert token'') then Inl (CliDb conn_lost)
         else if list_ex (\<lambda>r. tk_id r = tk_id new \<and> \<not> token_visible None t r) rows
           then Inl (CliDb (policy_error ''api_tokens''))
         else Inr ((), t\<lparr>tx_db := (tx_db t)\<lparr>api_tokens :=
                map (\<lambda>r. if tk_id r = tk_id new
                         then r\<lparr>tk_secret_hash := tk_secret_hash new, tk_revoked_at := None\<rparr> else r) rows\<rparr>\<rparr>))
      else map_sum CliDb (\<lambda>t'. ((), t')) (insert_token e t new))"

text \<open>\<open>supplied\<close> is \<open>--token\<close>; otherwise the token is made of 6 and 16 random bytes.\<close>

definition bearer_of :: "token_world \<Rightarrow> string option \<Rightarrow> string" where
  "bearer_of w supplied =
     (case supplied of
        Some t \<Rightarrow> t
      | None \<Rightarrow> ''kvl_dev_org_'' @ lower_hex (tw_id_bytes w) @ ''_'' @ lower_hex (tw_secret_bytes w))"

definition upsert_token :: "token_world \<Rightarrow> string \<Rightarrow> string option \<Rightarrow> string \<Rightarrow> string seed" where
  "upsert_token w oid supplied display_name ev d =
     (let plaintext = bearer_of w supplied in
      case parse_opaque plaintext of
        None \<Rightarrow> (Inl InvalidToken, d)
      | Some parsed \<Rightarrow>
          if po_scope parsed \<noteq> ''org'' then (Inl NotOrgScoped, d)
          else (case ar_hash (tw_argon w) (tw_salt w) (po_secret parsed) of
              None \<Rightarrow> (Inl HashFailed, d)
            | Some h \<Rightarrow>
                seed_bind
                  (seed_tx TokenStep oid None (\<lambda>e. upsert_token_row (bootstrap_token e parsed oid display_name h) e))
                  (\<lambda>_. seed_return plaintext) ev d))"

text \<open>
  The token file: contents and mode by path. A new file gets mode 0600, an existing one keeps its own;
  \<open>can_open\<close> is whether opening succeeds.
\<close>

type_synonym file_system = "string \<rightharpoonup> string \<times> nat"

definition write_token_file ::
  "(string \<Rightarrow> bool) \<Rightarrow> string \<Rightarrow> string \<Rightarrow> file_system \<Rightarrow> cli_error option \<times> file_system" where
  "write_token_file can_open path token fs =
     (if \<not> can_open path then (Some (FileFailed path), fs)
      else (None, fs(path \<mapsto> (token @ [CHR 0x0A], case fs path of Some (_, mode) \<Rightarrow> mode | None \<Rightarrow> 6 * 8 * 8))))"

text \<open>The two commands: the database and the file system they leave.\<close>

definition write_if_asked ::
  "(string \<Rightarrow> bool) \<Rightarrow> string option \<Rightarrow> string \<Rightarrow> file_system \<Rightarrow> cli_error option \<times> file_system" where
  "write_if_asked can_open path token fs =
     (case path of None \<Rightarrow> (None, fs) | Some p \<Rightarrow> write_token_file can_open p token fs)"

definition seed_demo ::
  "(bytes \<Rightarrow> bytes) \<Rightarrow> bytes \<Rightarrow> token_world \<Rightarrow> (string \<Rightarrow> bool) \<Rightarrow> string \<Rightarrow> string \<Rightarrow> string option
    \<Rightarrow> string option \<Rightarrow> worlds \<Rightarrow> db \<Rightarrow> file_system \<Rightarrow> (cli_error + (seeded_ids \<times> string)) \<times> db \<times> file_system" where
  "seed_demo sha hmac w can_open oext pext token path ev d fs =
     (case seed_bind (seed_rows sha hmac oext pext) (\<lambda>ids.
             seed_bind (upsert_token w (sd_org_id ids) token ''seed-demo bootstrap'') (\<lambda>t.
               seed_return (ids, t))) ev d of
        (Inl er, d') \<Rightarrow> (Inl er, d', fs)
      | (Inr (ids, t), d') \<Rightarrow>
          (case write_if_asked can_open path t fs of
             (Some er, fs') \<Rightarrow> (Inl er, d', fs')
           | (None, fs') \<Rightarrow> (Inr (ids, t), d', fs')))"

definition create_org ::
  "(bytes \<Rightarrow> bytes) \<Rightarrow> token_world \<Rightarrow> (string \<Rightarrow> bool) \<Rightarrow> string \<Rightarrow> string \<Rightarrow> string option \<Rightarrow> string option
    \<Rightarrow> worlds \<Rightarrow> db \<Rightarrow> file_system \<Rightarrow> (cli_error + (string \<times> string \<times> bool)) \<times> db \<times> file_system" where
  "create_org sha w can_open external_id name token path ev d fs =
     (case seed_bind (upsert_org sha external_id name) (\<lambda>(oid, was_new).
             seed_bind (upsert_token w oid token ''create-org bootstrap'') (\<lambda>t.
               seed_return (oid, t, was_new))) ev d of
        (Inl er, d') \<Rightarrow> (Inl er, d', fs)
      | (Inr (oid, t, was_new), d') \<Rightarrow>
          (case write_if_asked can_open path t fs of
             (Some er, fs') \<Rightarrow> (Inl er, d', fs')
           | (None, fs') \<Rightarrow> (Inr (oid, t, was_new), d', fs')))"

subsection \<open>The binary\<close>

text \<open>
  \<open>bin/knievel_cli.rs\<close>: clap parses the arguments to a command; the binary prints what the command
  returned on standard output, or its error on standard error, and exits. The database URL is the
  database the command runs on.
\<close>

record seed_demo_flags =
  sf_org_external_id :: string
  sf_project_external_id :: string
  sf_token :: "string option"
  sf_write_token_to :: "string option"

record create_org_flags =
  cf_external_id :: string
  cf_name :: "string option"
  cf_token :: "string option"
  cf_write_token_to :: "string option"

datatype cli_command =
    SeedDemo seed_demo_flags
  | CreateOrg create_org_flags

record cli_world =
  cw_sha :: "bytes \<Rightarrow> bytes"
  cw_hmac :: bytes
  cw_token :: token_world
  cw_can_open :: "string \<Rightarrow> bool"
  cw_show_error :: "cli_error \<Rightarrow> string"

record cli_exit =
  cx_success :: bool
  cx_stdout :: "string list"
  cx_stderr :: "string list"

definition token_line :: "string option \<Rightarrow> string \<Rightarrow> string" where
  "token_line path token =
     (case path of None \<Rightarrow> ''  token='' @ token | Some p \<Rightarrow> ''  token written to '' @ p)"

definition run_seed_demo ::
  "cli_world \<Rightarrow> seed_demo_flags \<Rightarrow> worlds \<Rightarrow> db \<Rightarrow> file_system \<Rightarrow> (cli_error + string list) \<times> db \<times> file_system" where
  "run_seed_demo cw fl ev d fs =
     (case seed_demo (cw_sha cw) (cw_hmac cw) (cw_token cw) (cw_can_open cw) (sf_org_external_id fl)
             (sf_project_external_id fl) (sf_token fl) (sf_write_token_to fl) ev d fs of
        (Inl er, rest) \<Rightarrow> (Inl er, rest)
      | (Inr (ids, t), rest) \<Rightarrow>
          (Inr [''seed-demo: org_id='' @ sd_org_id ids @ '' project_id='' @ sd_project_id ids,
                ''  advertiser_id='' @ show_int (sd_advertiser_id ids) @ '' campaign_id='' @ show_int (sd_campaign_id ids)
                  @ '' flight_id='' @ show_int (sd_flight_id ids) @ '' ad_id='' @ show_int (sd_ad_id ids),
                ''  creative_id='' @ show_int (sd_creative_id ids) @ '' site_id='' @ show_int (sd_site_id ids)
                  @ '' zone_id='' @ show_int (sd_zone_id ids),
                ''  priority_id='' @ show_int (sd_priority_id ids) @ '' ad_type_id='' @ show_int (sd_ad_type_id ids),
                token_line (sf_write_token_to fl) t], rest))"

definition run_create_org ::
  "cli_world \<Rightarrow> create_org_flags \<Rightarrow> worlds \<Rightarrow> db \<Rightarrow> file_system \<Rightarrow> (cli_error + string list) \<times> db \<times> file_system" where
  "run_create_org cw fl ev d fs =
     (let display_name = (case cf_name fl of Some n \<Rightarrow> n | None \<Rightarrow> cf_external_id fl) in
      case create_org (cw_sha cw) (cw_token cw) (cw_can_open cw) (cf_external_id fl) display_name
             (cf_token fl) (cf_write_token_to fl) ev d fs of
        (Inl er, rest) \<Rightarrow> (Inl er, rest)
      | (Inr (oid, t, was_new), rest) \<Rightarrow>
          (Inr [''admin create-org: org_id='' @ oid @ '' ('' @ (if was_new then ''created'' else ''reused'') @ '')'',
                token_line (cf_write_token_to fl) t], rest))"

definition cli_main ::
  "cli_world \<Rightarrow> cli_command \<Rightarrow> worlds \<Rightarrow> db \<Rightarrow> file_system \<Rightarrow> cli_exit \<times> db \<times> file_system" where
  "cli_main cw c ev d fs =
     (let ending = (\<lambda>label run. case run of
          (Inl er, rest) \<Rightarrow> (\<lparr>cx_success = False, cx_stdout = [], cx_stderr = [label @ '' failed: '' @ cw_show_error cw er]\<rparr>, rest)
        | (Inr out, rest) \<Rightarrow> (\<lparr>cx_success = True, cx_stdout = out, cx_stderr = []\<rparr>, rest))
      in case c of
        SeedDemo fl \<Rightarrow> ending ''seed-demo'' (run_seed_demo cw fl ev d fs)
      | CreateOrg fl \<Rightarrow> ending ''admin create-org'' (run_create_org cw fl ev d fs))"

subsection \<open>Commands that can be repeated\<close>

definition calm :: "worlds \<Rightarrow> bool" where
  "calm ev \<longleftrightarrow> (\<forall>l s. \<not> fault (ev l) s)"

text \<open>
  The contract of a repeatable computation \<open>m\<close>, which uses the worlds of the steps in \<open>A\<close> only.
  \<open>look\<close> reads from the database what \<open>m\<close> would answer if all its rows were there: a success
  leaves such a database, and on such a database a calm run changes nothing and answers the
  same. When \<open>m\<close> fails half-way, a calm run on what it left ends as one run from the start
  would have, in which the steps that had succeeded had the worlds they had, and the rest the
  new ones. \<open>good\<close> is what of the database this needs.
\<close>

definition repeatable :: "(db \<Rightarrow> bool) \<Rightarrow> seed_step set \<Rightarrow> 'a seed \<Rightarrow> (db \<Rightarrow> 'a option) \<Rightarrow> bool" where
  "repeatable good A m look \<longleftrightarrow>
     (\<forall>ev ev' d. (\<forall>l \<in> A. ev l = ev' l) \<longrightarrow> m ev d = m ev' d)
   \<and> (\<forall>ev d x d'. good d \<longrightarrow> m ev d = (Inr x, d') \<longrightarrow> look d' = Some x)
   \<and> (\<forall>ev d x. calm ev \<longrightarrow> look d = Some x \<longrightarrow> m ev d = (Inr x, d))
   \<and> (\<forall>ev d r d'. good d \<longrightarrow> m ev d = (r, d') \<longrightarrow> good d')
   \<and> (\<forall>ev ev' d er d1. good d \<longrightarrow> calm ev' \<longrightarrow> m ev d = (Inl er, d1) \<longrightarrow>
        (\<exists>ev''. (\<forall>l. ev'' l = ev l \<or> ev'' l = ev' l) \<and> m ev'' d = m ev' d1))"

definition preserves :: "(db \<Rightarrow> 'b) \<Rightarrow> 'a seed \<Rightarrow> bool" where
  "preserves f m \<longleftrightarrow> (\<forall>ev d r d'. m ev d = (r, d') \<longrightarrow> f d' = f d)"

lemma repeatable_bind:
  assumes m: "repeatable good A m look" and k: "\<And>x. repeatable good B (k x) (look' x)"
    and disj: "A \<inter> B = {}" and frm: "\<And>x. preserves look (k x)"
  shows "repeatable good (A \<union> B) (seed_bind m k) (\<lambda>d. Option.bind (look d) (\<lambda>x. look' x d))"
proof -
  let ?m = "seed_bind m k" and ?L = "\<lambda>d. Option.bind (look d) (\<lambda>x. look' x d)"
  note ml = m [unfolded repeatable_def, THEN conjunct1, rule_format]
  note ms = m [unfolded repeatable_def, THEN conjunct2, THEN conjunct1, rule_format]
  note mc = m [unfolded repeatable_def, THEN conjunct2, THEN conjunct2, THEN conjunct1, rule_format]
  note mg = m [unfolded repeatable_def, THEN conjunct2, THEN conjunct2, THEN conjunct2, THEN conjunct1, rule_format]
  note mf = m [unfolded repeatable_def, THEN conjunct2, THEN conjunct2, THEN conjunct2, THEN conjunct2, rule_format]
  note kl = k [unfolded repeatable_def, THEN conjunct1, rule_format]
  note ks = k [unfolded repeatable_def, THEN conjunct2, THEN conjunct1, rule_format]
  note kc = k [unfolded repeatable_def, THEN conjunct2, THEN conjunct2, THEN conjunct1, rule_format]
  note kg = k [unfolded repeatable_def, THEN conjunct2, THEN conjunct2, THEN conjunct2, THEN conjunct1, rule_format]
  note kf = k [unfolded repeatable_def, THEN conjunct2, THEN conjunct2, THEN conjunct2, THEN conjunct2, rule_format]
  have fr: "k x ev d = (r, d') \<Longrightarrow> look d' = look d" for x ev d r d'
    using frm [of x] by (auto simp: preserves_def)
  have ok: "?m ev d = k x ev d2" if "m ev d = (Inr x, d2)" for ev d x d2
    using that by (simp add: seed_bind_def)
  have bad: "?m ev d = (Inl er, d1)" if "m ev d = (Inl er, d1)" for ev d er d1
    using that by (simp add: seed_bind_def)
  have local: "?m ev d = ?m ev' d" if "\<forall>l \<in> A \<union> B. ev l = ev' l" for ev ev' d
  proof -
    have "m ev d = m ev' d" using that by (intro ml) auto
    moreover have "k x ev d2 = k x ev' d2" for x d2 using that by (intro kl) auto
    ultimately show ?thesis by (simp add: seed_bind_def split: prod.split sum.split)
  qed
  have stores: "?L d' = Some y" if g: "good d" and run: "?m ev d = (Inr y, d')" for ev d y d'
  proof -
    from run obtain x d2 where m': "m ev d = (Inr x, d2)" and k': "k x ev d2 = (Inr y, d')"
      by (auto simp: seed_bind_def split: prod.splits sum.splits)
    have "look d' = Some x" using ms [OF g m'] fr [OF k'] by simp
    with ks [OF mg [OF g m'] k'] show ?thesis by simp
  qed
  have finds: "?m ev d = (Inr y, d)" if c: "calm ev" and L: "?L d = Some y" for ev d y
  proof -
    from L obtain x where x: "look d = Some x" "look' x d = Some y" by (auto simp: bind_eq_Some_conv)
    with ok [OF mc [OF c x(1)]] kc [OF c x(2)] show ?thesis by simp
  qed
  have keeps: "good d'" if g: "good d" and run: "?m ev d = (r, d')" for ev d r d'
  proof (cases "m ev d")
    case (Pair r1 d2)
    then show ?thesis
      using run g mg [of d ev r1 d2] kg [of d2 "projr r1" ev r d'] by (cases r1) (auto simp: seed_bind_def)
  qed
  have resumes: "\<exists>ev''. (\<forall>l. ev'' l = ev l \<or> ev'' l = ev' l) \<and> ?m ev'' d = ?m ev' d1"
    if g: "good d" and c: "calm ev'" and run: "?m ev d = (Inl er, d1)" for ev ev' d er d1
  proof (cases "fst (m ev d)")
    case (Inl e1)
    with run have "m ev d = (Inl e1, d1)" by (auto simp: seed_bind_def split: prod.splits)
    from mf [OF g c this] obtain v where v: "\<forall>l. v l = ev l \<or> v l = ev' l" "m v d = m ev' d1" by blast
    define w where "w = (\<lambda>l. if l \<in> A then v l else ev' l)"
    have "m w d = m ev' d1" using ml [of w v d] v(2) by (simp add: w_def)
    moreover have "k x w d2 = k x ev' d2" for x d2
      using disj by (intro kl) (auto simp: w_def)
    ultimately have "?m w d = ?m ev' d1" by (simp add: seed_bind_def split: prod.split sum.split)
    with v(1) show ?thesis by (intro exI [of _ w]) (auto simp: w_def)
  next
    case (Inr x)
    then obtain d2 where m': "m ev d = (Inr x, d2)" by (metis prod.collapse)
    with run have k': "k x ev d2 = (Inl er, d1)" by (simp add: seed_bind_def)
    from kf [OF mg [OF g m'] c k'] obtain v where
      v: "\<forall>l. v l = ev l \<or> v l = ev' l" "k x v d2 = k x ev' d1" by blast
    define w where "w = (\<lambda>l. if l \<in> A then ev l else v l)"
    have "look d1 = Some x" using ms [OF g m'] fr [OF k'] by simp
    then have "?m ev' d1 = k x ev' d1" by (intro ok mc [OF c])
    moreover have "m w d = (Inr x, d2)" using ml [of w ev d] m' by (simp add: w_def)
    moreover have "k x w d2 = k x v d2" using disj by (intro kl) (auto simp: w_def)
    ultimately have "?m w d = ?m ev' d1" using v(2) by (simp add: seed_bind_def)
    with v(1) show ?thesis by (intro exI [of _ w]) (auto simp: w_def)
  qed
  show ?thesis
    unfolding repeatable_def
  proof (intro conjI allI impI, goal_cases)
    case (1 ev ev' d) then show ?case by (rule local)
  next
    case (2 ev d x d') then show ?case by (rule stores)
  next
    case (3 ev d x) then show ?case by (rule finds)
  next
    case (4 ev d r d') then show ?case by (rule keeps)
  next
    case (5 ev ev' d er d1) then show ?case by (rule resumes)
  qed
qed

text \<open>
  Which tables a computation answers from and which it may write, as sets of areas: two
  computations in sequence are repeatable when the second writes none of the areas the first
  answers from.
\<close>

datatype area =
    Organizations | Projects | Priorities | AdTypes | Channels | Advertisers | Campaigns | Flights
  | Ads | Creatives | Sites | Zones

fun same :: "area \<Rightarrow> db \<Rightarrow> db \<Rightarrow> bool" where
  "same Organizations d d' \<longleftrightarrow> organizations d = organizations d'"
| "same Projects d d' \<longleftrightarrow> projects d = projects d'"
| "same Priorities d d' \<longleftrightarrow> priorities d = priorities d'"
| "same AdTypes d d' \<longleftrightarrow> ad_types d = ad_types d'"
| "same Channels d d' \<longleftrightarrow> channels d = channels d'"
| "same Advertisers d d' \<longleftrightarrow> advertisers d = advertisers d'"
| "same Campaigns d d' \<longleftrightarrow> campaigns d = campaigns d'"
| "same Flights d d' \<longleftrightarrow> flights d = flights d'"
| "same Ads d d' \<longleftrightarrow> ads d = ads d'"
| "same Creatives d d' \<longleftrightarrow> creatives d = creatives d'"
| "same Sites d d' \<longleftrightarrow> sites d = sites d'"
| "same Zones d d' \<longleftrightarrow> zones d = zones d'"

definition agree :: "area set \<Rightarrow> db \<Rightarrow> db \<Rightarrow> bool" where
  "agree S d d' \<longleftrightarrow> (\<forall>a \<in> S. same a d d')"

lemma same_refl [simp]: "same a d d"
  by (cases a) simp_all

lemma same_trans: "same a d1 d2 \<Longrightarrow> same a d2 d3 \<Longrightarrow> same a d1 d3"
  by (cases a) simp_all

definition resumable ::
  "(db \<Rightarrow> bool) \<Rightarrow> seed_step set \<Rightarrow> area set \<Rightarrow> area set \<Rightarrow> 'a seed \<Rightarrow> bool" where
  "resumable good A R W m \<longleftrightarrow>
     (\<exists>look. repeatable good A m look \<and> (\<forall>d d'. agree R d d' \<longrightarrow> look d = look d'))
     \<and> (\<forall>ev d r d'. m ev d = (r, d') \<longrightarrow> agree (- W) d d')"

lemma resumable_bind:
  assumes m: "resumable good A R W m" and k: "\<And>x. resumable good B R' W' (k x)"
    and disj: "A \<inter> B = {}" "R \<inter> W' = {}"
  shows "resumable good (A \<union> B) (R \<union> R') (W \<union> W') (seed_bind m k)"
proof -
  from m obtain look where rm: "repeatable good A m look" and lm: "\<And>d d'. agree R d d' \<Longrightarrow> look d = look d'"
    and wm: "\<And>ev d r d'. m ev d = (r, d') \<Longrightarrow> agree (- W) d d'"
    unfolding resumable_def by blast
  from k have "\<forall>x. \<exists>look'. repeatable good B (k x) look' \<and> (\<forall>d d'. agree R' d d' \<longrightarrow> look' d = look' d')"
    unfolding resumable_def by blast
  then obtain look' where rk: "\<And>x. repeatable good B (k x) (look' x)"
    and lk: "\<And>x d d'. agree R' d d' \<Longrightarrow> look' x d = look' x d'" by metis
  have wk: "agree (- W') d d'" if "k x ev d = (r, d')" for x ev d r d'
    using k [of x] that unfolding resumable_def by blast
  have "preserves look (k x)" for x
  proof (unfold preserves_def, intro allI impI)
    fix ev d r d' assume "k x ev d = (r, d')"
    from wk [OF this] disj(2) have "agree R d d'" by (auto simp: agree_def)
    from lm [OF this] show "look d' = look d" by simp
  qed
  from repeatable_bind [OF rm rk disj(1) this]
  have rep: "repeatable good (A \<union> B) (seed_bind m k) (\<lambda>d. Option.bind (look d) (\<lambda>x. look' x d))" .
  have "agree (- (W \<union> W')) d d'" if run: "seed_bind m k ev d = (r, d')" for ev d r d'
  proof (cases "m ev d")
    case (Pair r1 d2)
    note w1 = wm [OF Pair]
    show ?thesis
    proof (cases r1)
      case (Inl er)
      with Pair run w1 show ?thesis by (auto simp: seed_bind_def agree_def)
    next
      case (Inr x)
      with Pair run have "k x ev d2 = (r, d')" by (simp add: seed_bind_def)
      from wk [OF this] w1 show ?thesis by (auto simp: agree_def intro: same_trans)
    qed
  qed
  moreover have "agree (R \<union> R') d d' \<Longrightarrow> Option.bind (look d) (\<lambda>x. look' x d) = Option.bind (look d') (\<lambda>x. look' x d')" for d d'
  proof -
    assume "agree (R \<union> R') d d'"
    then have "agree R d d'" "agree R' d d'" by (auto simp: agree_def)
    from lm [OF this(1)] lk [OF this(2)] show ?thesis by simp
  qed
  ultimately show ?thesis unfolding resumable_def using rep by blast
qed

lemma resumable_return: "resumable good {} {} {} (seed_return x)"
  unfolding resumable_def
  by (intro conjI exI [of _ "\<lambda>d. Some x"]) (auto simp: repeatable_def seed_return_def agree_def)

text \<open>One transaction.\<close>

definition tx_of :: "db \<Rightarrow> string \<Rightarrow> string option \<Rightarrow> tx" where
  "tx_of d oid pid = \<lparr>tx_db = d, guc_org_id = Some oid, guc_project_id = pid\<rparr>"

lemma tx_of_simps [simp]:
  "tx_db (tx_of d oid pid) = d" "guc_org_id (tx_of d oid pid) = Some oid"
  "guc_project_id (tx_of d oid pid) = pid"
  by (simp_all add: tx_of_def)

lemma begin_bound_tx_of: "begin_bound e d oid pid = Inr t \<Longrightarrow> t = tx_of d oid pid"
  by (auto simp: begin_bound_def tx_of_def split: if_splits option.splits)

lemma seed_tx_cases:
  assumes "seed_tx l oid pid body ev d = (r, d')"
  obtains (failed) er where "r = Inl er" "d' = d"
  | (committed) x t' where "body (ev l) (tx_of d oid pid) = Inr (x, t')" "r = Inr x" "d' = tx_db t'"
  using assms
  by (auto simp: seed_tx_def dest!: begin_bound_tx_of commit_InrD split: sum.splits prod.splits)

lemma seed_tx_calm:
  "calm ev \<Longrightarrow> body (ev l) (tx_of d oid pid) = Inr (x, t') \<Longrightarrow> seed_tx l oid pid body ev d = (Inr x, tx_db t')"
  by (cases pid) (simp_all add: seed_tx_def begin_bound_def commit_def calm_def tx_of_def)

lemma resumable_tx:
  assumes stores: "\<And>e d x t'. good d \<Longrightarrow> body e (tx_of d oid pid) = Inr (x, t') \<Longrightarrow> look (tx_db t') = Some x"
    and finds: "\<And>e d x. \<forall>s. \<not> fault e s \<Longrightarrow> look d = Some x \<Longrightarrow>
      \<exists>t'. body e (tx_of d oid pid) = Inr (x, t') \<and> tx_db t' = d"
    and keeps: "\<And>e d x t'. good d \<Longrightarrow> body e (tx_of d oid pid) = Inr (x, t') \<Longrightarrow> good (tx_db t')"
    and reads: "\<And>d d'. agree R d d' \<Longrightarrow> look d = look d'"
    and writes: "\<And>e d x t'. body e (tx_of d oid pid) = Inr (x, t') \<Longrightarrow> agree (- W) d (tx_db t')"
  shows "resumable good {l} R W (seed_tx l oid pid body)"
proof -
  let ?m = "seed_tx l oid pid body"
  have "repeatable good {l} ?m look"
    unfolding repeatable_def
  proof (intro conjI allI impI, goal_cases)
    case (1 ev ev' d)
    then have "ev l = ev' l" by simp
    then show ?case unfolding seed_tx_def by (rule arg_cong)
  next
    case (2 ev d x d') from 2(2) 2(1) stores show ?case by (cases rule: seed_tx_cases) auto
  next
    case (3 ev d x)
    then have "\<forall>s. \<not> fault (ev l) s" by (simp add: calm_def)
    from finds [OF this 3(2)] seed_tx_calm [OF 3(1)] show ?case by metis
  next
    case (4 ev d r d') from 4(2) 4(1) keeps show ?case by (cases rule: seed_tx_cases) auto
  next
    case (5 ev ev' d er d1)
    from 5(3) have "d1 = d" by (cases rule: seed_tx_cases) auto
    then show ?case by (intro exI [of _ ev']) simp
  qed
  moreover have "agree (- W) d d'" if "?m ev d = (r, d')" for ev d r d'
    using that writes by (cases rule: seed_tx_cases) (auto simp: agree_def)
  ultimately show ?thesis unfolding resumable_def using reads by blast
qed

subsection \<open>Every step is resumable\<close>

text \<open>The foreign key the steps rely on: a priority belongs to a project.\<close>

definition taxonomy_owned :: "db \<Rightarrow> bool" where
  "taxonomy_owned d \<longleftrightarrow> (\<forall>p \<in> set (priorities d). \<exists>r \<in> set (projects d). pr_id r = py_project_id p)"

lemma find_filter: "(\<And>x. P x \<Longrightarrow> Q x) \<Longrightarrow> find P (filter Q xs) = find P xs"
  by (induction xs) auto

context tenant_table
begin

lemma resumable_resource:
  assumes key: "\<And>e. row_project_id (row e) = pid \<and> row_external_id (row e) = Some ext"
    and area: "\<And>d d'. same a d d' \<longleftrightarrow> td_rows td d = td_rows td d'"
    and other: "\<And>b rows d. b \<noteq> a \<Longrightarrow> same b d (td_put td rows d)"
    and good: "\<And>rows d. good (td_put td rows d) = good d"
  shows "resumable good {l} {a} {a} (upsert_resource l td oid pid ext row)"
  unfolding upsert_resource_def
proof (rule resumable_tx)
  let ?P = "\<lambda>r. row_project_id r = pid \<and> row_external_id r = Some ext"
  let ?look = "\<lambda>d. map_option row_id (find ?P (td_rows td d))"
  let ?body = "\<lambda>e t. if fault e (Stmt ''select'') then Inl (CliDb conn_lost)
       else (case find ?P (visible_rows td t) of
           Some r \<Rightarrow> Inr (row_id r, t)
         | None \<Rightarrow>
             if fault e (Stmt ''insert'') then Inl (CliDb conn_lost)
             else map_sum CliDb (\<lambda>t'. (row_id (row e), t')) (insert_row td t (row e)))"
  have vis: "find ?P (visible_rows td (tx_of d oid (Some pid))) = find ?P (td_rows td d)" for d
    unfolding visible_rows_def by (subst find_filter) (auto simp: row_visible_def)
  have body: "(x, t') = (case find ?P (td_rows td d) of Some r \<Rightarrow> (row_id r, tx_of d oid (Some pid))
        | None \<Rightarrow> (row_id (row e), put_rows td (tx_of d oid (Some pid)) (td_rows td d @ [row e])))"
    if "?body e (tx_of d oid (Some pid)) = Inr (x, t')" for e d x t'
    using that vis [of d]
    by (auto simp: map_sum_def split: if_splits option.splits sum.splits dest!: insert_row_InrD)
  show "?look (tx_db t') = Some x" if "?body e (tx_of d oid (Some pid)) = Inr (x, t')" for e d x t'
    using body [OF that] key [of e]
    by (cases "find ?P (td_rows td d)") (auto simp: put_rows_def rows_put find_snoc)
  show "\<exists>t'. ?body e (tx_of d oid (Some pid)) = Inr (x, t') \<and> tx_db t' = d"
    if "\<forall>s. \<not> fault e s" "?look d = Some x" for e d x
    using that vis [of d] by auto
  show "good (tx_db t')" if "good d" "?body e (tx_of d oid (Some pid)) = Inr (x, t')" for e d x t'
    using body [OF that(2)] that(1) good
    by (cases "find ?P (td_rows td d)") (auto simp: put_rows_def)
  show "?look d = ?look d'" if "agree {a} d d'" for d d'
    using that area by (simp add: agree_def)
  show "agree (- {a}) d (tx_db t')" if "?body e (tx_of d oid (Some pid)) = Inr (x, t')" for e d x t'
    using body [OF that] other
    by (cases "find ?P (td_rows td d)") (auto simp: put_rows_def agree_def)
qed

end

lemma resumable_org:
  "resumable taxonomy_owned {OrgStep} {Organizations} {Organizations}
     (seed_tx OrgStep i None (\<lambda>e t. map_sum (\<lambda>er. er) (\<lambda>(_, t'). (i, t')) (upsert_org_row i ext name e t)))"
proof (rule resumable_tx [where look = "\<lambda>d. if list_ex (\<lambda>r. org_row_id r = i) (organizations d) then Some i else None"],
    goal_cases)
  case (5 e d x t')
  show ?case
    unfolding agree_def
  proof
    fix a assume "a \<in> - {Organizations}"
    with 5 show "same a d (tx_db t')"
      by (cases a) (auto simp: upsert_org_row_def Let_def split: if_splits)
  qed
qed (auto simp: upsert_org_row_def new_org_def Let_def agree_def taxonomy_owned_def split: if_splits)

lemma resumable_lookup:
  "resumable taxonomy_owned {LookupStep} {Priorities, AdTypes} {} (lookup_default_taxonomy oid pid)"
  unfolding lookup_default_taxonomy_def
  by (rule resumable_tx [where look = "\<lambda>d.
        Option.bind (find (\<lambda>r. Some pid = Some (py_project_id r) \<and> py_project_id r = pid
                               \<and> py_name r = ''Standard'') (priorities d)) (\<lambda>p.
        map_option (\<lambda>a. (py_id p, ty_id a))
          (find (\<lambda>r. Some pid = Some (ty_project_id r) \<and> ty_project_id r = pid
                     \<and> ty_name r = ''Medium Rectangle'') (ad_types d)))"])
     (auto simp: agree_def bind_eq_Some_conv split: if_splits option.splits)

text \<open>The project and its taxonomy: two transactions, of which the second may be owed.\<close>

definition project_of :: "string \<Rightarrow> string \<Rightarrow> db \<Rightarrow> project_row option" where
  "project_of oid ext d = find (\<lambda>r. pr_org_id r = oid \<and> pr_external_id r = Some ext) (projects d)"

definition has_taxonomy :: "string \<Rightarrow> db \<Rightarrow> bool" where
  "has_taxonomy pid d \<longleftrightarrow> list_ex (\<lambda>r. py_project_id r = pid) (priorities d)"

definition taxonomy_tail :: "string \<Rightarrow> string \<Rightarrow> bool \<Rightarrow> string seed" where
  "taxonomy_tail oid pid was_new =
     seed_bind (if was_new then seed_return False else taxonomy_seeded oid pid) (\<lambda>seeded.
     seed_bind (if seeded then seed_return () else seed_taxonomy oid pid) (\<lambda>_. seed_return pid))"

lemma project_with_taxonomy_eq:
  "project_with_taxonomy sha hmac oid ext =
     seed_bind (upsert_project sha hmac oid ext) (\<lambda>(pid, was_new). taxonomy_tail oid pid was_new)"
  by (simp add: project_with_taxonomy_def taxonomy_tail_def)

lemma find_project_tx_of: "find_project (tx_of d oid None) oid ext = project_of oid ext d"
  unfolding find_project_def project_of_def
  by (rule arg_cong2 [of _ _ _ _ find]) (auto simp: project_visible_def)

lemma demo_project_sel:
  "pr_id (demo_project hmac e i oid ext) = i" "pr_org_id (demo_project hmac e i oid ext) = oid"
  "pr_external_id (demo_project hmac e i oid ext) = Some ext"
  by (simp_all add: demo_project_def)

lemma upsert_project_cases:
  assumes "upsert_project sha hmac oid ext ev d = (r, d')"
  obtains (failed) er where "r = Inl er" "d' = d"
  | (found) p where "project_of oid ext d = Some p" "r = Inr (pr_id p, False)" "d' = d"
  | (fresh) p where "project_of oid ext d = None" "r = Inr (pr_id p, True)"
      "d' = d\<lparr>projects := projects d @ [p]\<rparr>" "pr_id p \<notin> pr_id ` set (projects d)"
      "pr_org_id p = oid" "pr_external_id p = Some ext"
  using assms unfolding upsert_project_def
proof (cases rule: seed_tx_cases)
  case (committed x t')
  show ?thesis
  proof (cases "project_of oid ext d")
    case None
    let ?p = "demo_project hmac (ev ProjectStep) (derive_project_id sha oid ext) oid ext"
    have ins: "insert_project (ev ProjectStep) (tx_of d oid None) ?p = Inr t'" "x = (pr_id ?p, True)"
      using committed(1) None
      by (auto simp: find_project_tx_of Let_def demo_project_sel split: if_splits sum.splits)
    from ins(1) have "tx_db t' = d\<lparr>projects := projects d @ [?p]\<rparr> \<and> pr_id ?p \<notin> pr_id ` set (projects d)"
      unfolding insert_project_def by (auto simp: Let_def list_ex_iff image_iff split: if_splits)
    with fresh [of ?p] None committed ins(2) show ?thesis by (simp add: demo_project_sel)
  qed (use committed found in \<open>auto simp: find_project_tx_of split: if_splits\<close>)
qed (use failed in auto)

lemma upsert_project_found:
  "calm ev \<Longrightarrow> project_of oid ext d = Some p \<Longrightarrow> upsert_project sha hmac oid ext ev d = (Inr (pr_id p, False), d)"
  unfolding upsert_project_def
  by (subst seed_tx_calm [where x = "(pr_id p, False)" and t' = "tx_of d oid None"])
     (auto simp: find_project_tx_of calm_def)

lemma taxonomy_seeded_cases:
  assumes "taxonomy_seeded oid pid ev d = (r, d')"
  shows "d' = d \<and> ((\<exists>er. r = Inl er) \<or> r = Inr (has_taxonomy pid d))"
  using assms unfolding taxonomy_seeded_def
  by (cases rule: seed_tx_cases) (auto simp: has_taxonomy_def list_ex_iff split: if_splits)

lemma taxonomy_seeded_calm: "calm ev \<Longrightarrow> taxonomy_seeded oid pid ev d = (Inr (has_taxonomy pid d), d)"
  unfolding taxonomy_seeded_def
  by (subst seed_tx_calm [where x = "has_taxonomy pid d" and t' = "tx_of d oid (Some pid)"])
     (auto simp: has_taxonomy_def list_ex_iff calm_def)

lemma seed_taxonomy_cases:
  assumes "seed_taxonomy oid pid ev d = (r, d')"
  obtains (failed) er where "r = Inl er" "d' = d"
  | (seeded) cs ps ts where "r = Inr ()" "has_taxonomy pid d'" "\<forall>p \<in> set ps. py_project_id p = pid"
      "d' = d\<lparr>channels := channels d @ cs, priorities := priorities d @ ps, ad_types := ad_types d @ ts\<rparr>"
  using assms unfolding seed_taxonomy_def
proof (cases rule: seed_tx_cases)
  case (committed x t')
  then have "seed_default_taxonomy (ev TaxonomyStep) (tx_of d oid (Some pid)) oid pid = Inr t'"
    by (auto simp: map_sum_def split: sum.splits)
  from seed_default_taxonomy_InrD [OF this] committed show ?thesis
    by (intro seeded [of "seeded_priorities (ev TaxonomyStep) oid pid"])
       (auto simp: has_taxonomy_def seeded_priorities_def)
qed (use failed in auto)

lemma taxonomy_tail_cases:
  assumes "taxonomy_tail oid pid was_new ev d = (r, d')"
  obtains (failed) er where "r = Inl er" "d' = d"
  | (there) "r = Inr pid" "has_taxonomy pid d" "d' = d" "\<not> was_new"
  | (seeded) cs ps ts where "r = Inr pid" "has_taxonomy pid d'" "\<forall>p \<in> set ps. py_project_id p = pid"
      "d' = d\<lparr>channels := channels d @ cs, priorities := priorities d @ ps, ad_types := ad_types d @ ts\<rparr>"
proof -
  note fail = failed and seed = seeded
  have tail: ?thesis if run: "seed_taxonomy oid pid ev d = (r1, d1)"
      "(r, d') = (map_sum (\<lambda>e. e) (\<lambda>_. pid) r1, d1)" for r1 d1
    using run(1)
  proof (cases rule: seed_taxonomy_cases)
    case (failed er)
    with run(2) show ?thesis by (intro fail [of er]) auto
  next
    case (seeded cs ps ts)
    with run(2) show ?thesis by (intro seed [where ps = ps and cs = cs and ts = ts]) auto
  qed
  have seeding: "seed_bind (seed_taxonomy oid pid) (\<lambda>_. seed_return pid) ev d
      = (let (r1, d1) = seed_taxonomy oid pid ev d in (map_sum (\<lambda>e. e) (\<lambda>_. pid) r1, d1))"
    by (simp add: seed_bind_def seed_return_def split: prod.split sum.split)
  obtain r1 d1 where st: "seed_taxonomy oid pid ev d = (r1, d1)" by fastforce
  show ?thesis
  proof (cases was_new)
    case True
    with assms seeding st have "(r, d') = (map_sum (\<lambda>e. e) (\<lambda>_. pid) r1, d1)"
      by (simp add: taxonomy_tail_def seed_bind_def [of "seed_return _"] seed_return_def [of False])
    with st show ?thesis by (rule tail)
  next
    case False
    obtain r0 d0 where check: "taxonomy_seeded oid pid ev d = (r0, d0)" by fastforce
    from taxonomy_seeded_cases [OF check] have d0: "d0 = d" by simp
    have run: "(r, d') = (case r0 of Inl er \<Rightarrow> (Inl er, d)
        | Inr True \<Rightarrow> (Inr pid, d) | Inr False \<Rightarrow> seed_bind (seed_taxonomy oid pid) (\<lambda>_. seed_return pid) ev d)"
      using assms False check d0
      by (simp add: taxonomy_tail_def seed_bind_def [of "taxonomy_seeded _ _"] seed_bind_def [of "seed_return _"]
          seed_return_def split: sum.splits bool.splits if_splits)
    show ?thesis
    proof (cases r0)
      case (Inl er)
      with run failed show ?thesis by simp
    next
      case (Inr seeded_already)
      with taxonomy_seeded_cases [OF check] have "seeded_already = has_taxonomy pid d" by auto
      with Inr run seeding st there [OF _ _ _ False] tail [OF st] show ?thesis
        by (cases seeded_already) auto
    qed
  qed
qed

lemma taxonomy_tail_found:
  "calm ev \<Longrightarrow> has_taxonomy pid d \<Longrightarrow> taxonomy_tail oid pid False ev d = (Inr pid, d)"
  by (simp add: taxonomy_tail_def seed_bind_def seed_return_def taxonomy_seeded_calm)

lemma taxonomy_tail_owed:
  "calm ev \<Longrightarrow> \<not> has_taxonomy pid d \<Longrightarrow> taxonomy_tail oid pid False ev d = taxonomy_tail oid pid True ev d"
  by (simp add: taxonomy_tail_def seed_bind_def [of "taxonomy_seeded _ _"] seed_bind_def [of "seed_return False"]
      seed_return_def [of False] taxonomy_seeded_calm)

lemma taxonomy_tail_local:
  assumes "ev TaxonomyStep = ev' TaxonomyStep" "ev CheckStep = ev' CheckStep"
  shows "taxonomy_tail oid pid n ev d = taxonomy_tail oid pid n ev' d"
proof -
  have "seed_taxonomy oid pid ev d = seed_taxonomy oid pid ev' d" for d
    unfolding seed_taxonomy_def seed_tx_def assms ..
  moreover have "taxonomy_seeded oid pid ev d = taxonomy_seeded oid pid ev' d" for d
    unfolding taxonomy_seeded_def seed_tx_def assms ..
  ultimately show ?thesis
    by (simp add: taxonomy_tail_def seed_bind_def seed_return_def split: prod.split sum.split)
qed

lemma project_of_snoc:
  "project_of oid ext d = None \<Longrightarrow> pr_org_id p = oid \<Longrightarrow> pr_external_id p = Some ext \<Longrightarrow>
   project_of oid ext (d\<lparr>projects := projects d @ [p]\<rparr>) = Some p"
  by (simp add: project_of_def find_snoc)

definition project_look :: "string \<Rightarrow> string \<Rightarrow> db \<Rightarrow> string option" where
  "project_look oid ext d =
     Option.bind (project_of oid ext d) (\<lambda>p. if has_taxonomy (pr_id p) d then Some (pr_id p) else None)"

lemma project_of_mem: "project_of oid ext d = Some p \<Longrightarrow> p \<in> set (projects d)"
  by (auto simp: project_of_def find_Some_iff)

lemma project_look_Some:
  "project_of oid ext d = Some p \<Longrightarrow> has_taxonomy (pr_id p) d \<Longrightarrow> project_look oid ext d = Some (pr_id p)"
  by (simp add: project_look_def)

lemma project_of_taxonomy [simp]:
  "project_of oid ext (d\<lparr>channels := cs, priorities := ps, ad_types := ts\<rparr>) = project_of oid ext d"
  by (simp add: project_of_def)

lemma taxonomy_owned_grows:
  assumes "taxonomy_owned d" "p \<in> set (projects d) \<union> set qs" "\<forall>q \<in> set ps. py_project_id q = pr_id p"
  shows "taxonomy_owned (d\<lparr>projects := projects d @ qs, channels := cs, priorities := priorities d @ ps, ad_types := ts\<rparr>)"
  using assms unfolding taxonomy_owned_def by auto

text \<open>How the two transactions end: nothing written, the taxonomy owed, or everything there.\<close>

lemma project_with_taxonomy_cases:
  assumes "project_with_taxonomy sha hmac oid ext ev d = (r, d')"
  obtains (failed) er where "r = Inl er" "d' = d"
  | (owed) er p where "r = Inl er" "d' = d\<lparr>projects := projects d @ [p]\<rparr>"
      "upsert_project sha hmac oid ext ev d = (Inr (pr_id p, True), d')"
      "pr_id p \<notin> pr_id ` set (projects d)" "project_of oid ext d' = Some p"
  | (stored) p qs cs ps ts where "r = Inr (pr_id p)" "p \<in> set (projects d) \<union> set qs"
      "project_of oid ext d' = Some p" "has_taxonomy (pr_id p) d'" "\<forall>q \<in> set ps. py_project_id q = pr_id p"
      "d' = d\<lparr>projects := projects d @ qs, channels := channels d @ cs, priorities := priorities d @ ps,
               ad_types := ad_types d @ ts\<rparr>"
proof -
  note fail = failed and owe = owed and store = stored
  obtain r1 d1 where up: "upsert_project sha hmac oid ext ev d = (r1, d1)" by fastforce
  from up show ?thesis
  proof (cases rule: upsert_project_cases)
    case (failed er)
    with assms up have "r = Inl er" "d' = d" by (auto simp: project_with_taxonomy_eq seed_bind_def)
    then show ?thesis by (rule fail)
  next
    case (found p)
    with assms up have "taxonomy_tail oid (pr_id p) False ev d = (r, d')"
      by (simp add: project_with_taxonomy_eq seed_bind_def)
    then show ?thesis
    proof (cases rule: taxonomy_tail_cases)
      case (failed er) with fail show ?thesis by blast
    next
      case there
      with found show ?thesis by (intro store [where p = p and qs = "[]" and ps = "[]" and cs = "[]" and ts = "[]"]) (auto intro: project_of_mem)
    next
      case (seeded cs ps ts)
      with found show ?thesis by (intro store [where p = p and qs = "[]" and ps = ps and cs = cs and ts = ts]) (auto intro: project_of_mem)
    qed
  next
    case (fresh p)
    with assms up have tail: "taxonomy_tail oid (pr_id p) True ev d1 = (r, d')"
      by (simp add: project_with_taxonomy_eq seed_bind_def)
    have p: "project_of oid ext d1 = Some p" using fresh project_of_snoc by simp
    from tail show ?thesis
    proof (cases rule: taxonomy_tail_cases)
      case (failed er) with owe fresh up p show ?thesis by blast
    next
      case (seeded cs ps ts)
      with fresh p show ?thesis by (intro store [where p = p and qs = "[p]" and ps = ps and cs = cs and ts = ts]) auto
    qed simp
  qed
qed

lemma upsert_project_local:
  assumes "ev ProjectStep = ev' ProjectStep"
  shows "upsert_project sha hmac oid ext ev d = upsert_project sha hmac oid ext ev' d"
  unfolding upsert_project_def seed_tx_def assms ..

lemma project_with_taxonomy_local:
  assumes "ev ProjectStep = ev' ProjectStep" "ev TaxonomyStep = ev' TaxonomyStep" "ev CheckStep = ev' CheckStep"
  shows "project_with_taxonomy sha hmac oid ext ev d = project_with_taxonomy sha hmac oid ext ev' d"
proof -
  have "upsert_project sha hmac oid ext ev d = upsert_project sha hmac oid ext ev' d"
    using assms(1) by (rule upsert_project_local)
  moreover have "taxonomy_tail oid pid n ev d = taxonomy_tail oid pid n ev' d" for pid n d
    using assms by (intro taxonomy_tail_local) auto
  ultimately show ?thesis
    by (simp add: project_with_taxonomy_eq seed_bind_def split: prod.split sum.split)
qed

lemma project_with_taxonomy_found:
  assumes c: "calm ev" and L: "project_look oid ext d = Some x"
  shows "project_with_taxonomy sha hmac oid ext ev d = (Inr x, d)"
proof -
  from L obtain p where "project_of oid ext d = Some p" "has_taxonomy (pr_id p) d" "x = pr_id p"
    by (auto simp: project_look_def bind_eq_Some_conv split: if_splits)
  with c show ?thesis
    by (simp add: project_with_taxonomy_eq seed_bind_def upsert_project_found taxonomy_tail_found)
qed

text \<open>A later run finds the project and pays the taxonomy it is owed.\<close>

lemma project_with_taxonomy_resumes:
  assumes g: "taxonomy_owned d" and c: "calm ev'"
    and run: "project_with_taxonomy sha hmac oid ext ev d = (Inl er, d1)"
  shows "\<exists>ev''. (\<forall>l. ev'' l = ev l \<or> ev'' l = ev' l)
     \<and> project_with_taxonomy sha hmac oid ext ev'' d = project_with_taxonomy sha hmac oid ext ev' d1"
  using run
proof (cases rule: project_with_taxonomy_cases)
  case (failed er')
  then show ?thesis by (intro exI [of _ ev']) simp
next
  case (owed er' p)
  let ?v = "ev'(ProjectStep := ev ProjectStep)"
  have none: "\<not> has_taxonomy (pr_id p) d1"
  proof
    assume "has_taxonomy (pr_id p) d1"
    then obtain q where "q \<in> set (priorities d)" "py_project_id q = pr_id p"
      using owed(2) by (auto simp: has_taxonomy_def list_ex_iff)
    with g have "pr_id p \<in> pr_id ` set (projects d)" by (metis image_eqI taxonomy_owned_def)
    with owed(4) show False ..
  qed
  have "upsert_project sha hmac oid ext ?v d = (Inr (pr_id p, True), d1)"
    using owed(3) upsert_project_local [of ?v ev] by simp
  moreover have "taxonomy_tail oid (pr_id p) True ?v d1 = taxonomy_tail oid (pr_id p) False ev' d1"
    using taxonomy_tail_owed [OF c none] taxonomy_tail_local [of ?v ev'] by simp
  moreover have "upsert_project sha hmac oid ext ev' d1 = (Inr (pr_id p, False), d1)"
    by (rule upsert_project_found [OF c owed(5)])
  ultimately have "project_with_taxonomy sha hmac oid ext ?v d = project_with_taxonomy sha hmac oid ext ev' d1"
    by (simp add: project_with_taxonomy_eq seed_bind_def)
  then show ?thesis by (intro exI [of _ ?v]) simp
qed simp

lemma resumable_project:
  "resumable taxonomy_owned {ProjectStep, CheckStep, TaxonomyStep} {Projects, Priorities}
     {Projects, Priorities, Channels, AdTypes} (project_with_taxonomy sha hmac oid ext)"
proof -
  let ?m = "project_with_taxonomy sha hmac oid ext"
  have "repeatable taxonomy_owned {ProjectStep, CheckStep, TaxonomyStep} ?m (project_look oid ext)"
    unfolding repeatable_def
  proof (intro conjI allI impI, goal_cases)
    case (1 ev ev' d) then show ?case by (intro project_with_taxonomy_local) auto
  next
    case (2 ev d x d')
    from 2(2) show ?case
      by (cases rule: project_with_taxonomy_cases) (auto intro: project_look_Some)
  next
    case (3 ev d x) then show ?case by (rule project_with_taxonomy_found)
  next
    case (4 ev d r d')
    from 4(2) show ?case
    proof (cases rule: project_with_taxonomy_cases)
      case (owed er p)
      with 4(1) show ?thesis by (auto simp: taxonomy_owned_def)
    next
      case (stored p qs cs ps ts)
      with 4(1) taxonomy_owned_grows [of d p qs ps] show ?thesis by simp
    qed (use 4(1) in simp)
  next
    case (5 ev ev' d er d1) then show ?case by (rule project_with_taxonomy_resumes)
  qed
  moreover have "project_look oid ext d = project_look oid ext d'" if "agree {Projects, Priorities} d d'" for d d'
    using that by (simp add: agree_def project_look_def project_of_def has_taxonomy_def)
  moreover have "agree (- {Projects, Priorities, Channels, AdTypes}) d d'" if "?m ev d = (r, d')" for ev d r d'
    unfolding agree_def
  proof
    fix a assume "a \<in> - {Projects, Priorities, Channels, AdTypes}"
    with that show "same a d d'" by (cases rule: project_with_taxonomy_cases; cases a) auto
  qed
  ultimately show ?thesis unfolding resumable_def by blast
qed

subsection \<open>The whole run is resumable\<close>

lemma upsert_org_bind:
  "seed_bind (upsert_org sha ext name) (\<lambda>(oid, _). k oid)
   = seed_bind (seed_tx OrgStep (derive_org_id sha ext) None (\<lambda>e t. map_sum (\<lambda>er. er) (\<lambda>(_, t'). (derive_org_id sha ext, t'))
       (upsert_org_row (derive_org_id sha ext) ext name e t))) k"
  by (rule ext, rule ext)
     (simp add: upsert_org_def Let_def seed_bind_def seed_return_def seed_tx_def map_sum_def
       split: prod.split sum.split)

lemma resumable_bind_pair:
  assumes "resumable good A R W m" and "\<And>x y. resumable good B R' W' (k x y)"
    and "A \<inter> B = {}" "R \<inter> W' = {}"
  shows "resumable good (A \<union> B) (R \<union> R') (W \<union> W') (seed_bind m (\<lambda>(x, y). k x y))"
  using assms by (intro resumable_bind) (auto split: prod.split)

lemma same_case:
  "same a d d' \<longleftrightarrow>
     (case a of Organizations \<Rightarrow> organizations d = organizations d' | Projects \<Rightarrow> projects d = projects d'
      | Priorities \<Rightarrow> priorities d = priorities d' | AdTypes \<Rightarrow> ad_types d = ad_types d'
      | Channels \<Rightarrow> channels d = channels d' | Advertisers \<Rightarrow> advertisers d = advertisers d'
      | Campaigns \<Rightarrow> campaigns d = campaigns d' | Flights \<Rightarrow> flights d = flights d'
      | Ads \<Rightarrow> ads d = ads d' | Creatives \<Rightarrow> creatives d = creatives d'
      | Sites \<Rightarrow> sites d = sites d' | Zones \<Rightarrow> zones d = zones d')"
  by (cases a) simp_all

lemmas demo_defs =
  demo_advertiser_def demo_campaign_def demo_flight_def demo_creative_def demo_ad_def demo_site_def demo_zone_def

lemmas seed_tables =
  advertisers_table_def campaigns_table_def flights_table_def creatives_table_def ads_table_def sites_table_def
  zones_table_def

lemma resumable_demo_advertiser:
  "resumable taxonomy_owned {AdvertiserStep} {Advertisers} {Advertisers}
     (upsert_resource AdvertiserStep advertisers_table oid pid ''demo-advertiser'' (demo_advertiser oid pid))"
  by (rule adv.resumable_resource)
     (auto simp: seed_tables demo_defs taxonomy_owned_def same_case split: area.split)

lemma resumable_demo_campaign:
  "resumable taxonomy_owned {CampaignStep} {Campaigns} {Campaigns}
     (upsert_resource CampaignStep campaigns_table oid pid ''demo-campaign'' (demo_campaign oid pid i))"
  by (rule cmp.resumable_resource)
     (auto simp: seed_tables demo_defs taxonomy_owned_def same_case split: area.split)

lemma resumable_demo_flight:
  "resumable taxonomy_owned {FlightStep} {Flights} {Flights}
     (upsert_resource FlightStep flights_table oid pid ''demo-flight'' (demo_flight oid pid i j k))"
  by (rule flt.resumable_resource)
     (auto simp: seed_tables demo_defs taxonomy_owned_def same_case split: area.split)

lemma resumable_demo_creative:
  "resumable taxonomy_owned {CreativeStep} {Creatives} {Creatives}
     (upsert_resource CreativeStep creatives_table oid pid ''demo-creative'' (demo_creative oid pid i))"
  by (rule cre.resumable_resource)
     (auto simp: seed_tables demo_defs taxonomy_owned_def same_case split: area.split)

lemma resumable_demo_ad:
  "resumable taxonomy_owned {AdStep} {Ads} {Ads}
     (upsert_resource AdStep ads_table oid pid ''demo-ad'' (demo_ad oid pid i j))"
  by (rule adt.resumable_resource)
     (auto simp: seed_tables demo_defs taxonomy_owned_def same_case split: area.split)

lemma resumable_demo_site:
  "resumable taxonomy_owned {SiteStep} {Sites} {Sites}
     (upsert_resource SiteStep sites_table oid pid ''demo-site'' (demo_site oid pid))"
  by (rule sit.resumable_resource)
     (auto simp: seed_tables demo_defs taxonomy_owned_def same_case split: area.split)

lemma resumable_demo_zone:
  "resumable taxonomy_owned {ZoneStep} {Zones} {Zones}
     (upsert_resource ZoneStep zones_table oid pid ''demo-zone'' (demo_zone oid pid i))"
  by (rule zon.resumable_resource)
     (auto simp: seed_tables demo_defs taxonomy_owned_def same_case split: area.split)

lemma resumable_seed_rows:
  "\<exists>A R W. resumable taxonomy_owned A R W (seed_rows sha hmac oext pext)"
  unfolding seed_rows_def upsert_org_bind
  by (intro exI)
     (rule resumable_bind resumable_bind_pair resumable_org resumable_project resumable_lookup
        resumable_demo_advertiser resumable_demo_campaign resumable_demo_flight resumable_demo_creative
        resumable_demo_ad resumable_demo_site resumable_demo_zone resumable_return | simp (no_asm))+

subsection \<open>Properties\<close>


text \<open>A run cut off between the project and its taxonomy, and the run after it.\<close>

definition cut_off :: worlds where
  "cut_off l = (if l = TaxonomyStep then (calm_env 5)\<lparr>fault := \<lambda>s. True\<rparr> else calm_env 5)"


lemma verify_opaque_row:
  assumes "distinct (map tk_id (api_tokens d))" "\<forall>s. \<not> fault e s" "parse_opaque token = Some po"
    "r \<in> set (api_tokens d)" "tk_id r = db_id po"
  shows "verify_opaque a e d token =
    (if token_live e r \<and> ar_verify a (po_secret po) (tk_secret_hash r) then principal_of_row (db_id po) r else None)"
    (is "_ = ?rhs")
proof -
  have only: "r' = r" if "r' \<in> set (api_tokens d)" "tk_id r' = db_id po" for r'
    using that assms(1,4,5) by (metis distinct_map inj_onD)
  have "verify_opaque a e d token = Some p \<longleftrightarrow> ?rhs = Some p" for p
  proof -
    have "verify_opaque a e d token = Some p \<longleftrightarrow> (\<exists>r' \<in> set (api_tokens d). tk_id r' = db_id po \<and> token_live e r'
        \<and> ar_verify a (po_secret po) (tk_secret_hash r') \<and> principal_of_row (tk_id r') r' = Some p)"
      unfolding verify_opaque_iff [OF assms(1,2)] assms(3) by auto
    also have "\<dots> \<longleftrightarrow> token_live e r \<and> ar_verify a (po_secret po) (tk_secret_hash r)
        \<and> principal_of_row (db_id po) r = Some p"
      using only assms(4,5) by metis
    finally show ?thesis by auto
  qed
  then show ?thesis by (metis not_None_eq)
qed

definition rotated :: "string \<Rightarrow> token_row \<Rightarrow> token_row" where
  "rotated h r = r\<lparr>tk_secret_hash := h, tk_revoked_at := None\<rparr>"

text \<open>What a successful \<open>upsert_token\<close> did: a new row, or the row of that org rotated.\<close>

lemma upsert_token_cases:
  assumes "upsert_token w oid supplied name ev d = (Inr t, d')"
  obtains po h where "parse_opaque t = Some po" "po_scope po = ''org''"
    "ar_hash (tw_argon w) (tw_salt w) (po_secret po) = Some h"
    "(\<forall>r \<in> set (api_tokens d). tk_id r \<noteq> db_id po)
       \<and> d' = d\<lparr>api_tokens := api_tokens d @ [bootstrap_token (ev TokenStep) po oid name h]\<rparr>
     \<or> (\<exists>r \<in> set (api_tokens d). tk_id r = db_id po) \<and> (\<forall>r \<in> set (api_tokens d). tk_id r = db_id po \<longrightarrow> tk_org_id r = oid)
       \<and> d' = d\<lparr>api_tokens := map (\<lambda>r. if tk_id r = db_id po then rotated h r else r) (api_tokens d)\<rparr>"
proof -
  let ?t = "bearer_of w supplied"
  from assms obtain po h where po: "parse_opaque ?t = Some po" "po_scope po = ''org''"
    and h: "ar_hash (tw_argon w) (tw_salt w) (po_secret po) = Some h"
    and run: "seed_bind (seed_tx TokenStep oid None (\<lambda>e. upsert_token_row (bootstrap_token e po oid name h) e))
                  (\<lambda>_. seed_return ?t) ev d = (Inr t, d')"
    by (auto simp: upsert_token_def Let_def split: option.splits if_splits)
  from run obtain d2 where tx: "seed_tx TokenStep oid None
      (\<lambda>e. upsert_token_row (bootstrap_token e po oid name h) e) ev d = (Inr (), d2)" and td: "t = ?t" "d' = d2"
    by (auto simp: seed_bind_def seed_return_def split: prod.splits sum.splits)
  let ?new = "bootstrap_token (ev TokenStep) po oid name h"
  have new: "tk_id ?new = db_id po" "tk_secret_hash ?new = h" by (simp_all add: bootstrap_token_def)
  from tx obtain t' where row: "upsert_token_row ?new (ev TokenStep) (tx_of d oid None) = Inr ((), t')" "d2 = tx_db t'"
    by (cases rule: seed_tx_cases) auto
  show thesis
  proof (cases "\<exists>r \<in> set (api_tokens d). tk_id r = db_id po")
    case True
    with row have "(\<forall>r \<in> set (api_tokens d). tk_id r = db_id po \<longrightarrow> tk_org_id r = oid)
       \<and> d' = d\<lparr>api_tokens := map (\<lambda>r. if tk_id r = db_id po then rotated h r else r) (api_tokens d)\<rparr>"
      by (auto simp: upsert_token_row_def Let_def new list_ex_iff token_visible_def rotated_def td split: if_splits)
    with True po h td show thesis by (intro that) auto
  next
    case False
    with row have "insert_token (ev TokenStep) (tx_of d oid None) ?new = Inr t'"
      by (auto simp: upsert_token_row_def Let_def new list_ex_iff map_sum_def split: sum.splits)
    then have "tx_db t' = d\<lparr>api_tokens := api_tokens d @ [?new]\<rparr>"
      by (auto simp: insert_token_def Let_def split: if_splits)
    with False row po h td show thesis by (intro that [of po h]) auto
  qed
qed

text \<open>What the returned bearer is good for from then on.\<close>

lemma upsert_token_authenticates:
  assumes "upsert_token w oid supplied name ev d = (Inr t, d')"
    and "distinct (map tk_id (api_tokens d))" and "argon_ok (tw_argon w)" and "\<forall>s. \<not> fault e s"
  shows "\<exists>po. parse_opaque t = Some po \<and> po_scope po = ''org'' \<and>
    (case find (\<lambda>r. tk_id r = db_id po) (api_tokens d) of
       None \<Rightarrow> verify_opaque (tw_argon w) e d' t =
         Some \<lparr>token_type = Opaque, scope = Org, org_id = oid, project_id = None, role = OrgAdmin, actor_id = db_id po\<rparr>
     | Some r \<Rightarrow> tk_org_id r = oid \<and> verify_opaque (tw_argon w) e d' t =
         (if \<forall>x. tk_expires_at r = Some x \<longrightarrow> clock_ms e < x then principal_of_row (db_id po) r else None))"
  using assms(1)
proof (cases rule: upsert_token_cases)
  case (1 po h)
  from 1(3) assms(3) have ok: "ar_verify (tw_argon w) (po_secret po) h" by (auto simp: argon_ok_def)
  show ?thesis
  proof (cases "find (\<lambda>r. tk_id r = db_id po) (api_tokens d)")
    case None
    with 1(4) have d': "d' = d\<lparr>api_tokens := api_tokens d @ [bootstrap_token (ev TokenStep) po oid name h]\<rparr>"
      and fresh: "\<forall>r \<in> set (api_tokens d). tk_id r \<noteq> db_id po" by (auto simp: find_None_iff)
    have "verify_opaque (tw_argon w) e d' t =
      Some \<lparr>token_type = Opaque, scope = Org, org_id = oid, project_id = None, role = OrgAdmin, actor_id = db_id po\<rparr>"
      using assms(2,4) 1(1) fresh ok
      by (subst verify_opaque_row [where r = "bootstrap_token (ev TokenStep) po oid name h" and po = po])
         (auto simp: d' bootstrap_token_def token_live_def principal_of_row_def scope_from_str_def role_from_str_def)
    with None 1(1,2) show ?thesis by auto
  next
    case (Some r)
    then have r: "r \<in> set (api_tokens d)" "tk_id r = db_id po" by (auto simp: find_Some_iff)
    with 1(4) have org: "tk_org_id r = oid"
      and d': "d' = d\<lparr>api_tokens := map (\<lambda>r. if tk_id r = db_id po then rotated h r else r) (api_tokens d)\<rparr>" by auto
    have "map tk_id (api_tokens d') = map tk_id (api_tokens d)" by (simp add: d' rotated_def)
    with assms(2) have "distinct (map tk_id (api_tokens d'))" by simp
    moreover have "rotated h r \<in> set (api_tokens d')" using r by (auto simp: d')
    ultimately have "verify_opaque (tw_argon w) e d' t =
        (if \<forall>x. tk_expires_at r = Some x \<longrightarrow> clock_ms e < x then principal_of_row (db_id po) r else None)"
      using assms(4) 1(1) r ok
      by (subst verify_opaque_row [where r = "rotated h r" and po = po])
         (auto simp: rotated_def token_live_def principal_of_row_def split: option.splits)
    with Some org 1(1,2) show ?thesis by auto
  qed
qed

lemma upsert_org_Inr:
  assumes "upsert_org sha ext name ev d = (Inr (oid, was_new), d')"
  shows "oid = derive_org_id sha ext" "api_tokens d' = api_tokens d"
    "\<exists>r \<in> set (organizations d'). org_row_id r = oid"
    "was_new \<longleftrightarrow> (\<forall>r \<in> set (organizations d). org_row_id r \<noteq> oid)"
proof -
  from assms obtain d2 where tx: "seed_tx OrgStep (derive_org_id sha ext) None
      (upsert_org_row (derive_org_id sha ext) ext name) ev d = (Inr was_new, d2)"
    and o: "oid = derive_org_id sha ext" "d' = d2"
    by (auto simp: upsert_org_def Let_def seed_bind_def seed_return_def split: prod.splits sum.splits)
  from tx obtain t' where row: "upsert_org_row oid ext name (ev OrgStep) (tx_of d oid None) = Inr (was_new, t')"
    "d2 = tx_db t'" unfolding o by (cases rule: seed_tx_cases) auto
  then show "oid = derive_org_id sha ext" "api_tokens d' = api_tokens d"
    "\<exists>r \<in> set (organizations d'). org_row_id r = oid"
    "was_new \<longleftrightarrow> (\<forall>r \<in> set (organizations d). org_row_id r \<noteq> oid)"
    using o by (auto simp: upsert_org_row_def Let_def list_ex_iff new_org_def split: if_splits)
qed

lemma create_org_Inr:
  assumes "create_org sha w can_open ext name supplied path ev d fs = (Inr (oid, t, was_new), d', fs')"
  obtains d1 where "upsert_org sha ext name ev d = (Inr (oid, was_new), d1)"
    "upsert_token w oid supplied ''create-org bootstrap'' ev d1 = (Inr t, d')"
    "write_if_asked can_open path t fs = (None, fs')"
  using assms unfolding create_org_def seed_bind_def seed_return_def
  by (auto split: prod.splits sum.splits option.splits)

lemma upsert_token_organizations:
  "upsert_token w oid supplied name ev d = (Inr t, d') \<Longrightarrow> organizations d' = organizations d"
  by (erule upsert_token_cases) auto

text \<open>
  C38: When \<open>knievel-cli admin create-org\<close> exits with success, the organisation with the derived id
  exists, and the bearer is where the operator asked for it: on standard output, or on a line of the
  file, which has mode 0600 if it is new and its old mode otherwise. When no token had its id, the
  bearer authenticates from then on as the org admin of that organisation. Otherwise the row is of
  that organisation, and the bearer authenticates with the scope, role and project the row already
  had, also after a revocation, unless the row has expired: then it is refused, although the command
  reported success.
\<close>

theorem created_org_bearer_works:
  assumes "cli_main cw (CreateOrg fl) ev d fs = (ex, d', fs')" and "cx_success ex"
    and "distinct (map tk_id (api_tokens d))" and "argon_ok (tw_argon (cw_token cw))" and "\<forall>s. \<not> fault e s"
  shows "\<exists>oid t po. oid = derive_org_id (cw_sha cw) (cf_external_id fl)
    \<and> (\<exists>r \<in> set (organizations d'). org_row_id r = oid)
    \<and> (case cf_write_token_to fl of
        None \<Rightarrow> fs' = fs \<and> last (cx_stdout ex) = ''  token='' @ t
      | Some p \<Rightarrow> last (cx_stdout ex) = ''  token written to '' @ p
          \<and> fs' = fs(p \<mapsto> (t @ [CHR 0x0A], case fs p of None \<Rightarrow> 384 | Some (_, mode) \<Rightarrow> mode)))
    \<and> parse_opaque t = Some po
    \<and> (case find (\<lambda>r. tk_id r = db_id po) (api_tokens d) of
        None \<Rightarrow> verify_opaque (tw_argon (cw_token cw)) e d' t =
          Some \<lparr>token_type = Opaque, scope = Org, org_id = oid, project_id = None, role = OrgAdmin, actor_id = db_id po\<rparr>
      | Some r \<Rightarrow> tk_org_id r = oid \<and> verify_opaque (tw_argon (cw_token cw)) e d' t =
          (if \<forall>x. tk_expires_at r = Some x \<longrightarrow> clock_ms e < x then principal_of_row (db_id po) r else None))"
proof -
  from assms(1,2) obtain oid t was_new where run: "create_org (cw_sha cw) (cw_token cw) (cw_can_open cw) (cf_external_id fl)
      (case cf_name fl of Some n \<Rightarrow> n | None \<Rightarrow> cf_external_id fl) (cf_token fl) (cf_write_token_to fl) ev d fs
      = (Inr (oid, t, was_new), d', fs')"
    and out: "last (cx_stdout ex) = token_line (cf_write_token_to fl) t"
    by (auto simp: cli_main_def run_create_org_def Let_def split: prod.splits sum.splits)
  from run obtain d1 where up: "upsert_org (cw_sha cw) (cf_external_id fl)
      (case cf_name fl of Some n \<Rightarrow> n | None \<Rightarrow> cf_external_id fl) ev d = (Inr (oid, was_new), d1)"
    and tok: "upsert_token (cw_token cw) oid (cf_token fl) ''create-org bootstrap'' ev d1 = (Inr t, d')"
    and written: "write_if_asked (cw_can_open cw) (cf_write_token_to fl) t fs = (None, fs')"
    by (rule create_org_Inr)
  note org = upsert_org_Inr [OF up]
  have "distinct (map tk_id (api_tokens d1))" using assms(3) org(2) by simp
  from upsert_token_authenticates [OF tok this assms(4,5)] obtain po where
    po: "parse_opaque t = Some po" and auth: "case find (\<lambda>r. tk_id r = db_id po) (api_tokens d) of
        None \<Rightarrow> verify_opaque (tw_argon (cw_token cw)) e d' t =
          Some \<lparr>token_type = Opaque, scope = Org, org_id = oid, project_id = None, role = OrgAdmin, actor_id = db_id po\<rparr>
      | Some r \<Rightarrow> tk_org_id r = oid \<and> verify_opaque (tw_argon (cw_token cw)) e d' t =
          (if \<forall>x. tk_expires_at r = Some x \<longrightarrow> clock_ms e < x then principal_of_row (db_id po) r else None)"
    unfolding org(2) by blast
  have "case cf_write_token_to fl of
        None \<Rightarrow> fs' = fs \<and> last (cx_stdout ex) = ''  token='' @ t
      | Some p \<Rightarrow> last (cx_stdout ex) = ''  token written to '' @ p
          \<and> fs' = fs(p \<mapsto> (t @ [CHR 0x0A], case fs p of None \<Rightarrow> 384 | Some (_, mode) \<Rightarrow> mode))"
    using written out by (auto simp: write_if_asked_def write_token_file_def token_line_def split: option.splits if_splits)
  with org po auth upsert_token_organizations [OF tok] show ?thesis
    by (intro exI [of _ oid] exI [of _ t] exI [of _ po]) simp
qed

text \<open>A new organisation on an empty database, its bearer in a file.\<close>

definition sample_cli :: cli_world where
  "sample_cli = \<lparr>cw_sha = (\<lambda>b. []), cw_hmac = [7], cw_token = mint_world, cw_can_open = (\<lambda>p. True),
     cw_show_error = (\<lambda>er. ''error'')\<rparr>"

definition sample_flags :: create_org_flags where
  "sample_flags = \<lparr>cf_external_id = ''acme'', cf_name = None, cf_token = Some ''kvl_dev_org_ab_cd'',
     cf_write_token_to = Some ''/tok''\<rparr>"

theorem created_org_bearer_works_witness:
  "\<exists>ex d' fs'. cli_main sample_cli (CreateOrg sample_flags) (\<lambda>_. calm_env 0) empty_db Map.empty = (ex, d', fs')
     \<and> cx_success ex \<and> last (cx_stdout ex) = ''  token written to /tok''
     \<and> fs' ''/tok'' = Some (''kvl_dev_org_ab_cd'' @ [CHR 0x0A], 384)
     \<and> (\<exists>p. verify_opaque sample_argon (calm_env 5) d' ''kvl_dev_org_ab_cd'' = Some p \<and> role p = OrgAdmin)"
proof -
  obtain ex d' fs' where run: "cli_main sample_cli (CreateOrg sample_flags) (\<lambda>_. calm_env 0) empty_db Map.empty
    = (ex, d', fs')" by (metis prod_cases3)
  have po: "parse_opaque ''kvl_dev_org_ab_cd'' = Some \<lparr>po_env = ''dev'', po_scope = ''org'',
      po_id_short = ''ab'', po_secret = ''cd''\<rparr>" by code_simp
  have oid: "derive_org_id (\<lambda>b. []) ''acme'' = ''org_''"
    by (simp add: derive_org_id_def lower_hex_def)
  have ok: "cx_success ex" "fs' ''/tok'' = Some (''kvl_dev_org_ab_cd'' @ [CHR 0x0A], 384)"
    using run
    by (auto simp: cli_main_def run_create_org_def create_org_def sample_cli_def sample_flags_def
        upsert_org_def oid Let_def upsert_token_def bearer_of_def po seed_bind_def seed_return_def seed_tx_def
        begin_bound_def commit_def upsert_org_row_def upsert_token_row_def insert_token_def bootstrap_token_def
        db_id_def ID_DB_PREFIX_def scope_from_str_def role_from_str_def empty_db_def mint_world_def sample_argon_def
        write_if_asked_def write_token_file_def new_org_def)
  have argon: "argon_ok (tw_argon (cw_token sample_cli))" "tw_argon (cw_token sample_cli) = sample_argon"
    by (simp_all add: argon_ok_def sample_argon_def sample_cli_def mint_world_def)
  from created_org_bearer_works [OF run ok(1) _ argon(1), of "calm_env 5"]
  obtain t po' where bearer: "last (cx_stdout ex) = ''  token written to /tok'' \<and> fs' ''/tok'' = Some (t @ [CHR 0x0A], 384)"
    and p: "parse_opaque t = Some po'" and auth: "\<exists>p. verify_opaque sample_argon (calm_env 5) d' t = Some p \<and> role p = OrgAdmin"
    unfolding argon(2) by (auto simp: empty_db_def sample_flags_def)
  from bearer ok(2) have "t = ''kvl_dev_org_ab_cd''" by simp
  with run ok(1) bearer auth show ?thesis by blast
qed

end
