(* ===== verification/Text_Lines.thy ===== *)
theory Text_Lines
  imports Rust_Text
begin

section \<open>Texts as lines\<close>

text \<open>
  \<open>str::lines\<close>, \<open>str::trim_start\<close>, \<open>str::find\<close> and the loop that writes lines back, for the
  repository tools under \<open>src/xtask\<close>, which read and rewrite text files line by line.
\<close>

definition LF :: char where "LF = CHR 0x0A"

definition CR :: char where "CR = CHR 0x0D"

lemma LF_CR [simp]: "LF \<noteq> CR"
  by (simp add: LF_def CR_def)

definition strip_cr :: "string \<Rightarrow> string" where
  "strip_cr l = (if l \<noteq> [] \<and> last l = CR then butlast l else l)"

text \<open>A line ends with LF or CRLF; the last line may end with the text, and then keeps its CR.\<close>

function lines :: "string \<Rightarrow> string list" where
  "lines s =
     (if s = [] then []
      else (case dropWhile (\<lambda>c. c \<noteq> LF) s of
              [] \<Rightarrow> [s]
            | _ # rest \<Rightarrow> strip_cr (takeWhile (\<lambda>c. c \<noteq> LF) s) # lines rest))"
  by pat_completeness auto
termination
proof (relation "measure length", goal_cases)
  case (2 s x rest)
  then have "Suc (length rest) \<le> length s" by (metis length_dropWhile_le length_Cons)
  then show ?case by simp
qed simp

declare lines.simps [simp del]

definition unlines :: "string list \<Rightarrow> string" where
  "unlines ls = concat (map (\<lambda>l. l @ [LF]) ls)"

definition trim_start :: "string \<Rightarrow> string" where
  "trim_start s = dropWhile is_space s"

fun find_text :: "string \<Rightarrow> string \<Rightarrow> nat option" where
  "find_text p [] = (if p = [] then Some 0 else None)"
| "find_text p (c # s) = (if starts_with p (c # s) then Some 0 else map_option Suc (find_text p s))"

text \<open>Text that \<open>unlines\<close> wrote is read back line by line.\<close>

definition plain_line :: "string \<Rightarrow> bool" where
  "plain_line l \<longleftrightarrow> LF \<notin> set l \<and> (l = [] \<or> last l \<noteq> CR)"

lemma lines_Nil [simp]: "lines [] = []"
  by (simp add: lines.simps)

lemma lines_line: "LF \<notin> set l \<Longrightarrow> lines (l @ LF # s) = strip_cr l # lines s"
proof -
  assume "LF \<notin> set l"
  then have "dropWhile (\<lambda>c. c \<noteq> LF) (l @ LF # s) = LF # s" "takeWhile (\<lambda>c. c \<noteq> LF) (l @ LF # s) = l"
    by (induction l) auto
  then show ?thesis by (simp add: lines.simps [of "l @ LF # s"])
qed

lemma unlines_Cons: "unlines (l # ls) = l @ LF # unlines ls"
  by (simp add: unlines_def)

lemma unlines_append: "unlines (xs @ ys) = unlines xs @ unlines ys"
  by (simp add: unlines_def)

lemma lines_unlines: "\<forall>l \<in> set ls. plain_line l \<Longrightarrow> lines (unlines ls) = ls"
  by (induction ls) (auto simp: unlines_Cons lines_line plain_line_def strip_cr_def, simp add: unlines_def)

end
