(* ===== verification/Migration_Lint.thy ===== *)
theory Migration_Lint
  imports Text_Lines "HOL-Library.Sublist" "HOL-Library.List_Lexorder"
begin

section \<open>The migration linter\<close>

text \<open>
  \<open>src/xtask/src/lint_migrations.rs\<close>, the gate every migration passes: it refuses files that switch
  row-level security off, create a table without it or a policy without a tenant binding. The
  comment stripper works on bytes and pushes each as a character, so the linted text has the
  characters U+0000 to U+00FF, which are the characters here. The regular expressions are values of
  the datatype \<open>re\<close>; \<open>runs\<close> is the backtracking search of the regex crate (leftmost first, greedy).
\<close>

subsection \<open>Comments\<close>

text \<open>Inside a block comment only newlines are kept; the rest starts after the closing mark.\<close>

fun skip_block :: "string \<Rightarrow> string \<times> string" where
  "skip_block [] = ([], [])"
| "skip_block [c] = ([], [])"
| "skip_block (a # b # s) =
     (if a = CHR ''*'' \<and> b = CHR ''/'' then ([], s)
      else (case skip_block (b # s) of (kept, rest) \<Rightarrow> (if a = LF then LF # kept else kept, rest)))"

lemma skip_block_length: "length (snd (skip_block s)) \<le> length s"
  by (induction s rule: skip_block.induct) (auto split: prod.splits)

function strip_sql_comments :: "string \<Rightarrow> string" where
  "strip_sql_comments [] = []"
| "strip_sql_comments (c # s) =
     (if c = CHR ''-'' \<and> starts_with ''-'' s then strip_sql_comments (dropWhile (\<lambda>x. x \<noteq> LF) s)
      else if c = CHR ''/'' \<and> starts_with ''*'' s then
        (case skip_block (tl s) of (kept, rest) \<Rightarrow> kept @ strip_sql_comments rest)
      else c # strip_sql_comments s)"
  by pat_completeness auto
termination
proof (relation "measure length", goal_cases)
  case (2 c s) then show ?case by (simp add: le_imp_less_Suc length_dropWhile_le)
next
  case (3 c s kept rest)
  then have "length rest \<le> length (tl s)" using skip_block_length [of "tl s"] by (metis snd_conv)
  then show ?case by simp
qed auto

subsection \<open>Regular expressions\<close>

definition lower_latin1 :: "char \<Rightarrow> char" where
  "lower_latin1 c =
     (let n = of_char c :: int in
      if 65 \<le> n \<and> n \<le> 90 \<or> 0xC0 \<le> n \<and> n \<le> 0xDE \<and> n \<noteq> 0xD7 then char_of (n + 32) else c)"

definition is_blank :: "char \<Rightarrow> bool" where
  "is_blank c \<longleftrightarrow> (let n = of_char c :: int in 9 \<le> n \<and> n \<le> 13 \<or> n = 32 \<or> n = 0x85 \<or> n = 0xA0)"

definition is_word :: "char \<Rightarrow> bool" where
  "is_word c \<longleftrightarrow>
     (let n = of_char c :: int in
      48 \<le> n \<and> n \<le> 57 \<or> 65 \<le> n \<and> n \<le> 90 \<or> 97 \<le> n \<and> n \<le> 122 \<or> n = 95
      \<or> n = 0xAA \<or> n = 0xB5 \<or> n = 0xBA \<or> 0xC0 \<le> n \<and> n \<noteq> 0xD7 \<and> n \<noteq> 0xF7)"

datatype re =
    One "char \<Rightarrow> bool"
  | Eps
  | Boundary
  | Many "char \<Rightarrow> bool"
  | Seq re re
  | Opt re
  | Cap nat re

text \<open>
  A position: the text before it, reversed, the text after it, and the captures so far. \<open>runs\<close>
  lists the positions a match may end at, in the order of preference.
\<close>

type_synonym scan = "string \<times> string \<times> (nat \<times> string) list"

fun many :: "(char \<Rightarrow> bool) \<Rightarrow> string \<Rightarrow> string \<Rightarrow> (string \<times> string) list" where
  "many P d [] = [(d, [])]"
| "many P d (c # s) = (if P c then many P (c # d) s @ [(d, c # s)] else [(d, c # s)])"

definition at_boundary :: "string \<Rightarrow> string \<Rightarrow> bool" where
  "at_boundary d s \<longleftrightarrow> (d \<noteq> [] \<and> is_word (hd d)) \<noteq> (s \<noteq> [] \<and> is_word (hd s))"

fun runs :: "re \<Rightarrow> scan \<Rightarrow> scan list" where
  "runs (One P) (d, s, k) = (case s of [] \<Rightarrow> [] | c # s' \<Rightarrow> if P c then [(c # d, s', k)] else [])"
| "runs Eps p = [p]"
| "runs Boundary (d, s, k) = (if at_boundary d s then [(d, s, k)] else [])"
| "runs (Many P) (d, s, k) = map (\<lambda>(d', s'). (d', s', k)) (many P d s)"
| "runs (Seq a b) p = concat (map (runs b) (runs a p))"
| "runs (Opt a) p = runs a p @ [p]"
| "runs (Cap i a) (d, s, k) =
     map (\<lambda>(d', s', k'). (d', s', (i, take (length s - length s') s) # k')) (runs a (d, s, k))"

text \<open>
  The matches of \<open>find_iter\<close> and \<open>captures_iter\<close>: from the left, without overlap. No pattern of the
  linter matches the empty text, so a match always moves on.
\<close>

function find_iter :: "re \<Rightarrow> string \<Rightarrow> string \<Rightarrow> (string \<times> (nat \<times> string) list) list" where
  "find_iter r d s =
     (case runs r (d, s, []) of
        (d', s', k) # _ \<Rightarrow>
          if length s' < length s then (take (length s - length s') s, k) # find_iter r d' s'
          else (case s of [] \<Rightarrow> [] | c # s1 \<Rightarrow> find_iter r (c # d) s1)
      | [] \<Rightarrow> (case s of [] \<Rightarrow> [] | c # s1 \<Rightarrow> find_iter r (c # d) s1))"
  by pat_completeness auto
termination by (relation "measure (\<lambda>(r, d, s). length s)") auto

declare find_iter.simps [simp del]

definition is_match :: "re \<Rightarrow> string \<Rightarrow> bool" where
  "is_match r s \<longleftrightarrow> find_iter r [] s \<noteq> []"

subsection \<open>The four rules\<close>

fun lit :: "string \<Rightarrow> re" where
  "lit [] = Eps"
| "lit (x # xs) = Seq (One (\<lambda>c. lower_latin1 c = x)) (lit xs)"

definition blanks :: re where "blanks = Seq (One is_blank) (Many is_blank)"

definition ident :: re where "ident = Seq (One is_word) (Many is_word)"

fun phrase :: "string list \<Rightarrow> re" where
  "phrase [] = Eps"
| "phrase [w] = lit w"
| "phrase (w # v # ws) = Seq (lit w) (Seq blanks (phrase (v # ws)))"

definition disable_words :: "string list" where
  "disable_words = [''disable'', ''row'', ''level'', ''security'']"

definition no_force_words :: "string list" where
  "no_force_words = [''no'', ''force'', ''row'', ''level'', ''security'']"

definition search_path_re :: re where
  "search_path_re = Seq (phrase [''set'', ''search_path'', ''to'', ''knievel'']) Boundary"

definition table_name :: re where
  "table_name = Seq (Opt (Seq (Cap 1 ident) (lit ''.''))) (Cap 2 ident)"

definition create_table_re :: re where
  "create_table_re =
     Seq (phrase [''create'', ''table'']) (Seq (Opt (Seq blanks (phrase [''if'', ''not'', ''exists''])))
       (Seq blanks table_name))"

definition enable_rls_re :: re where
  "enable_rls_re =
     Seq (phrase [''alter'', ''table'']) (Seq blanks (Seq table_name
       (Seq blanks (phrase [''enable'', ''row'', ''level'', ''security'']))))"

definition policy_re :: re where
  "policy_re = Seq (phrase [''create'', ''policy'']) (Seq (Many (\<lambda>c. c \<noteq> CHR '';'')) (One (\<lambda>c. c = CHR '';'')))"

definition capture :: "nat \<Rightarrow> (nat \<times> string) list \<Rightarrow> string option" where
  "capture i k = map_option (map lower_latin1) (map_of k i)"

definition is_knievel_table :: "string \<Rightarrow> (nat \<times> string) list \<Rightarrow> bool" where
  "is_knievel_table content k =
     (case capture 1 k of Some schema \<Rightarrow> schema = ''knievel'' | None \<Rightarrow> is_match search_path_re content)"

definition tables_in_knievel :: "string \<Rightarrow> string list" where
  "tables_in_knievel content =
     map (\<lambda>(_, k). the (capture 2 k)) (filter (\<lambda>(_, k). is_knievel_table content k) (find_iter create_table_re [] content))"

definition tables_with_rls :: "string \<Rightarrow> string list" where
  "tables_with_rls content = map (\<lambda>(_, k). the (capture 2 k)) (find_iter enable_rls_re [] content)"

definition policy_bound :: "string \<Rightarrow> bool" where
  "policy_bound block \<longleftrightarrow>
     (let low = map lower_latin1 block in
      sublist ''knievel.project_id'' low \<or> sublist ''knievel.org_id'' low)"

datatype violation =
    DisablesRls string
  | RemovesForce string
  | TableWithoutRls string string
  | UnboundPolicy string

definition lint_file :: "string \<Rightarrow> string \<Rightarrow> violation list" where
  "lint_file f raw =
     (let content = strip_sql_comments raw in
      (if is_match (phrase disable_words) content then [DisablesRls f] else [])
      @ (if is_match (phrase no_force_words) content then [RemovesForce f] else [])
      @ map (TableWithoutRls f)
          (filter (\<lambda>t. t \<notin> set (tables_with_rls content)) (tables_in_knievel content))
      @ map (\<lambda>_. UnboundPolicy f)
          (filter (\<lambda>(block, _). \<not> policy_bound block) (find_iter policy_re [] content)))"

text \<open>
  \<open>run\<close> on a directory, given as its files and their text, or \<open>None\<close> when it does not exist: the
  number of files on success, the violations otherwise.
\<close>

definition is_sql_file :: "string \<Rightarrow> bool" where
  "is_sql_file name \<longleftrightarrow> suffix ''.sql'' name \<and> name \<noteq> ''.sql''"

definition collect_sql_files :: "(string \<times> string) list option \<Rightarrow> (string \<times> string) list" where
  "collect_sql_files dir =
     (case dir of None \<Rightarrow> [] | Some files \<Rightarrow> sort_key (map of_char \<circ> fst :: _ \<Rightarrow> nat list) (filter (is_sql_file \<circ> fst) files))"

definition lint_migrations :: "(string \<times> string) list option \<Rightarrow> violation list + nat" where
  "lint_migrations dir =
     (let files = collect_sql_files dir;
          violations = concat (map (\<lambda>(f, text). lint_file f text) files)
      in if violations = [] then Inr (length files) else Inl violations)"

subsection \<open>What the matcher finds\<close>

text \<open>The language of an expression: the text \<open>w\<close> matches between \<open>d\<close> (reversed) and \<open>s\<close>.\<close>

fun den :: "re \<Rightarrow> string \<Rightarrow> string \<Rightarrow> string \<Rightarrow> bool" where
  "den (One P) d w s \<longleftrightarrow> (\<exists>c. w = [c] \<and> P c)"
| "den Eps d w s \<longleftrightarrow> w = []"
| "den Boundary d w s \<longleftrightarrow> w = [] \<and> at_boundary d s"
| "den (Many P) d w s \<longleftrightarrow> (\<forall>c \<in> set w. P c)"
| "den (Seq a b) d w s \<longleftrightarrow> (\<exists>u v. w = u @ v \<and> den a d u (v @ s) \<and> den b (rev u @ d) v s)"
| "den (Opt a) d w s \<longleftrightarrow> den a d w s \<or> w = []"
| "den (Cap i a) d w s \<longleftrightarrow> den a d w s"

lemma set_many: "(d', s') \<in> set (many P d s) \<longleftrightarrow> (\<exists>w. s = w @ s' \<and> d' = rev w @ d \<and> (\<forall>c \<in> set w. P c))"
proof (induction P d s rule: many.induct)
  case (1 P d) then show ?case by auto
next
  case (2 P d c s)
  show ?case
  proof (cases "P c")
    case True
    have "(\<exists>w. c # s = w @ s' \<and> d' = rev w @ d \<and> (\<forall>c \<in> set w. P c)) \<longleftrightarrow>
        s' = c # s \<and> d' = d \<or> (\<exists>w. s = w @ s' \<and> d' = rev w @ c # d \<and> (\<forall>c \<in> set w. P c))"
      using True by (auto simp: Cons_eq_append_conv)
    with 2 True show ?thesis by auto
  next
    case False
    then show ?thesis by (auto simp: Cons_eq_append_conv)
  qed
qed

lemma runs_iff:
  "(\<exists>k'. (d', s', k') \<in> set (runs r (d, s, k))) \<longleftrightarrow> (\<exists>w. s = w @ s' \<and> d' = rev w @ d \<and> den r d w s')"
proof (induction r arbitrary: d s k d' s')
  case (One P) then show ?case by (cases s) auto
next
  case (Many P)
  have "(\<exists>k'. (d', s', k') \<in> set (runs (Many P) (d, s, k))) \<longleftrightarrow> (d', s') \<in> set (many P d s)" by force
  then show ?case by (simp add: set_many)
next
  case (Seq a b)
  show ?case (is "?L \<longleftrightarrow> ?R")
  proof
    assume ?L
    then obtain d1 s1 k1 k' where "(d1, s1, k1) \<in> set (runs a (d, s, k))" "(d', s', k') \<in> set (runs b (d1, s1, k1))"
      by fastforce
    with Seq.IH(1) [of d1 s1 d s k] Seq.IH(2) [of d' s' d1 s1 k1] obtain u v where
      "s = u @ s1" "d1 = rev u @ d" "den a d u s1" "s1 = v @ s'" "d' = rev v @ d1" "den b d1 v s'" by blast
    then show ?R by (intro exI [of _ "u @ v"]) auto
  next
    assume ?R
    then obtain u v where uv: "s = u @ v @ s'" "d' = rev v @ rev u @ d" "den a d u (v @ s')" "den b (rev u @ d) v s'"
      by auto
    with Seq.IH(1) [of "rev u @ d" "v @ s'" d s k] obtain k1 where
      k1: "(rev u @ d, v @ s', k1) \<in> set (runs a (d, s, k))" by blast
    from uv Seq.IH(2) [of d' s' "rev u @ d" "v @ s'" k1] obtain k' where
      "(d', s', k') \<in> set (runs b (rev u @ d, v @ s', k1))" by blast
    with k1 show ?L by force
  qed
next
  case (Opt a)
  have "(\<exists>k'. (d', s', k') \<in> set (runs (Opt a) (d, s, k))) \<longleftrightarrow>
      (\<exists>k'. (d', s', k') \<in> set (runs a (d, s, k))) \<or> d' = d \<and> s' = s" by auto
  with Opt.IH [of d' s' d s k] show ?case by auto
next
  case (Cap i a)
  have "(\<exists>k'. (d', s', k') \<in> set (runs (Cap i a) (d, s, k))) \<longleftrightarrow> (\<exists>k'. (d', s', k') \<in> set (runs a (d, s, k)))"
    by force
  with Cap.IH [of d' s' d s k] show ?case by simp
qed auto

definition consuming :: "re \<Rightarrow> bool" where
  "consuming r \<longleftrightarrow> (\<forall>d w s. den r d w s \<longrightarrow> w \<noteq> [])"

lemma runs_Nil: "runs r (d, s, k) = [] \<longleftrightarrow> (\<forall>w b. s = w @ b \<longrightarrow> \<not> den r d w b)"
proof -
  have "runs r (d, s, k) = [] \<longleftrightarrow> \<not> (\<exists>d' s' k'. (d', s', k') \<in> set (runs r (d, s, k)))"
    by (cases "runs r (d, s, k)") auto
  then show ?thesis by (auto simp: runs_iff)
qed

lemma split_first:
  "(\<forall>a w b. c # s = a @ w @ b \<longrightarrow> Q a w b) \<longleftrightarrow>
   (\<forall>w b. c # s = w @ b \<longrightarrow> Q [] w b) \<and> (\<forall>a w b. s = a @ w @ b \<longrightarrow> Q (c # a) w b)"
  by (auto simp: Cons_eq_append_conv)

lemma find_iter_Nil:
  assumes "consuming r"
  shows "find_iter r d s = [] \<longleftrightarrow> (\<forall>a w b. s = a @ w @ b \<longrightarrow> \<not> den r (rev a @ d) w b)"
  using assms
proof (induction r d s rule: find_iter.induct)
  case (1 r d s)
  show ?case
  proof (cases "runs r (d, s, [])")
    case Nil
    then have here: "\<forall>w b. s = w @ b \<longrightarrow> \<not> den r d w b" by (simp add: runs_Nil)
    show ?thesis
    proof (cases s)
      case Nil with here \<open>runs r (d, s, []) = []\<close> show ?thesis by (simp add: find_iter.simps [of r d "[]"])
    next
      case (Cons c s1)
      with 1(1) [OF \<open>runs r (d, s, []) = []\<close> Cons 1(4)] here \<open>runs r (d, s, []) = []\<close> show ?thesis
        by (simp add: find_iter.simps [of r d "c # s1"] split_first)
    qed
  next
    case (Cons m ms)
    obtain d' s' k where m: "m = (d', s', k)" by (cases m)
    with Cons have "\<exists>k'. (d', s', k') \<in> set (runs r (d, s, []))" by auto
    then obtain w where w: "s = w @ s'" "d' = rev w @ d" "den r d w s'" unfolding runs_iff by blast
    with 1(4) have "w \<noteq> []" by (auto simp: consuming_def)
    with w(1) Cons m have "find_iter r d s \<noteq> []" by (simp add: find_iter.simps [of r d "w @ s'"])
    moreover have "\<exists>a w b. s = a @ w @ b \<and> den r (rev a @ d) w b"
      using w by (intro exI [of _ "[]"] exI [of _ w] exI [of _ s']) simp
    ultimately show ?thesis by blast
  qed
qed

lemma is_match_iff:
  "consuming r \<Longrightarrow> is_match r s \<longleftrightarrow> (\<exists>a w b. s = a @ w @ b \<and> den r (rev a) w b)"
  by (simp add: is_match_def find_iter_Nil)

text \<open>Words separated by white space, in either case.\<close>

fun is_phrase :: "string list \<Rightarrow> string \<Rightarrow> bool" where
  "is_phrase [] u \<longleftrightarrow> u = []"
| "is_phrase [x] u \<longleftrightarrow> map lower_latin1 u = x"
| "is_phrase (x # y # ws) u \<longleftrightarrow>
     (\<exists>a b c. u = a @ b @ c \<and> map lower_latin1 a = x \<and> b \<noteq> [] \<and> (\<forall>z \<in> set b. is_blank z)
        \<and> is_phrase (y # ws) c)"

lemma den_Seq_One: "den (Seq (One P) b) d w s \<longleftrightarrow> (\<exists>c v. w = c # v \<and> P c \<and> den b (c # d) v s)"
proof
  assume "\<exists>c v. w = c # v \<and> P c \<and> den b (c # d) v s"
  then obtain c v where "w = [c] @ v" "P c" "den b (rev [c] @ d) v s" by auto
  then show "den (Seq (One P) b) d w s" unfolding den.simps by blast
qed auto

lemma den_lit: "den (lit x) d w s \<longleftrightarrow> map lower_latin1 w = x"
  by (induction x arbitrary: d w) (auto simp: den_Seq_One map_eq_Cons_conv simp del: den.simps(5))

lemma den_blanks: "den blanks d w s \<longleftrightarrow> w \<noteq> [] \<and> (\<forall>z \<in> set w. is_blank z)"
  by (cases w) (auto simp: blanks_def den_Seq_One simp del: den.simps(5))

lemma den_phrase: "den (phrase ws) d w s \<longleftrightarrow> is_phrase ws w"
proof (induction ws arbitrary: d w s rule: phrase.induct)
  case (3 x y ws)
  have "den (phrase (x # y # ws)) d w s \<longleftrightarrow>
     (\<exists>a v. w = a @ v \<and> map lower_latin1 a = x \<and> (\<exists>b c. v = b @ c \<and> b \<noteq> [] \<and> (\<forall>z \<in> set b. is_blank z)
        \<and> is_phrase (y # ws) c))"
    using 3 by (simp add: den_lit den_blanks conj_assoc)
  then show ?case by auto
qed (simp_all add: den_lit)

lemma consuming_phrase: "x \<noteq> [] \<Longrightarrow> consuming (phrase (x # ws))"
  by (cases ws) (auto simp: consuming_def den_lit)

lemma is_match_phrase:
  "x \<noteq> [] \<Longrightarrow> is_match (phrase (x # ws)) s \<longleftrightarrow> (\<exists>a u b. s = a @ u @ b \<and> is_phrase (x # ws) u)"
  by (simp add: is_match_iff consuming_phrase den_phrase)

subsection \<open>What the captures hold\<close>

text \<open>The language with its captures: \<open>k\<close> before the match, \<open>k'\<close> after it.\<close>

fun cden :: "re \<Rightarrow> string \<Rightarrow> string \<Rightarrow> string \<Rightarrow> (nat \<times> string) list \<Rightarrow> (nat \<times> string) list \<Rightarrow> bool" where
  "cden (One P) d w s k k' \<longleftrightarrow> den (One P) d w s \<and> k' = k"
| "cden Eps d w s k k' \<longleftrightarrow> w = [] \<and> k' = k"
| "cden Boundary d w s k k' \<longleftrightarrow> den Boundary d w s \<and> k' = k"
| "cden (Many P) d w s k k' \<longleftrightarrow> den (Many P) d w s \<and> k' = k"
| "cden (Seq a b) d w s k k' \<longleftrightarrow>
     (\<exists>u v k1. w = u @ v \<and> cden a d u (v @ s) k k1 \<and> cden b (rev u @ d) v s k1 k')"
| "cden (Opt a) d w s k k' \<longleftrightarrow> cden a d w s k k' \<or> w = [] \<and> k' = k"
| "cden (Cap i a) d w s k k' \<longleftrightarrow> (\<exists>k1. cden a d w s k k1 \<and> k' = (i, w) # k1)"

lemma runs_captures:
  "(d', s', k') \<in> set (runs r (d, s, k)) \<Longrightarrow> \<exists>w. s = w @ s' \<and> d' = rev w @ d \<and> cden r d w s' k k'"
proof (induction r arbitrary: d s k d' s' k')
  case (One P) then show ?case by (cases s) (auto split: if_splits)
next
  case (Many P) then show ?case by (auto simp: set_many)
next
  case (Seq a b)
  then obtain d1 s1 k1 where ab: "(d1, s1, k1) \<in> set (runs a (d, s, k))" "(d', s', k') \<in> set (runs b (d1, s1, k1))"
    by fastforce
  from Seq.IH(1) [OF ab(1)] obtain u where u: "s = u @ s1" "d1 = rev u @ d" "cden a d u s1 k k1" by blast
  from Seq.IH(2) [OF ab(2)] obtain v where v: "s1 = v @ s'" "d' = rev v @ d1" "cden b d1 v s' k1 k'" by blast
  have "cden (Seq a b) d (u @ v) s' k k'" using u v by auto
  with u v show ?case by (intro exI [of _ "u @ v"]) simp
next
  case (Opt a)
  then have "(d', s', k') \<in> set (runs a (d, s, k)) \<or> d' = d \<and> s' = s \<and> k' = k" by auto
  with Opt.IH show ?case by fastforce
next
  case (Cap i a)
  then obtain k1 where "(d', s', k1) \<in> set (runs a (d, s, k))" "k' = (i, take (length s - length s') s) # k1" by auto
  with Cap.IH [OF this(1)] show ?case by auto
qed (auto split: if_splits)

lemma find_iter_captures:
  "(w, k) \<in> set (find_iter r d s) \<Longrightarrow> \<exists>a b. s = a @ w @ b \<and> cden r (rev a @ d) w b [] k"
proof (induction r d s rule: find_iter.induct)
  case (1 r d s)
  have later: "\<exists>a b. c # s1 = a @ w @ b \<and> cden r (rev a @ d) w b [] k"
    if "\<exists>a b. s1 = a @ w @ b \<and> cden r (rev a @ c # d) w b [] k" for c s1
    using that by (metis append_Cons append.assoc rev.simps(2) append_Nil)
  show ?case
  proof (cases "runs r (d, s, [])")
    case Nil
    with 1(1,4) later show ?thesis
      by (cases s) (simp_all add: find_iter.simps [of r d s] find_iter.simps [of r d "[]"] find_iter.simps [of r d "_ # _"])
  next
    case (Cons m ms)
    obtain d' s' k0 where m: "m = (d', s', k0)" by (cases m)
    with Cons have "(d', s', k0) \<in> set (runs r (d, s, []))" by simp
    from runs_captures [OF this] obtain w0 where w0: "s = w0 @ s'" "d' = rev w0 @ d" "cden r d w0 s' [] k0" by blast
    show ?thesis
    proof (cases "length s' < length s")
      case True
      then have "find_iter r d s = (w0, k0) # find_iter r d' s'"
        using Cons m w0(1) by (simp add: find_iter.simps [of r d "w0 @ s'"])
      with 1(4) consider "w = w0 \<and> k = k0" | "(w, k) \<in> set (find_iter r d' s')" by auto
      then show ?thesis
      proof cases
        case 1 with w0 show ?thesis by (intro exI [of _ "[]"] exI [of _ s']) simp
      next
        case 2
        from 1(2) [OF Cons m [symmetric] refl True 2] obtain a b where
          "s' = a @ w @ b" "cden r (rev a @ d') w b [] k" by blast
        with w0 show ?thesis by (intro exI [of _ "w0 @ a"] exI [of _ b]) simp
      qed
    next
      case False
      with w0(1) have "w0 = []" "s' = s" by auto
      with False Cons m 1(3,4) later show ?thesis
        by (cases s) (simp_all add: find_iter.simps [of r d "[]"] find_iter.simps [of r d "_ # _"])
    qed
  qed
qed

text \<open>The text of a statement that enables row-level security on a table, in either case.\<close>

definition spaces :: "string \<Rightarrow> bool" where
  "spaces b \<longleftrightarrow> b \<noteq> [] \<and> (\<forall>z \<in> set b. is_blank z)"

definition word_text :: "string \<Rightarrow> bool" where
  "word_text w \<longleftrightarrow> w \<noteq> [] \<and> (\<forall>z \<in> set w. is_word z)"

definition names_table :: "string \<Rightarrow> string \<Rightarrow> bool" where
  "names_table t n \<longleftrightarrow> word_text n \<and> map lower_latin1 n = t
     \<or> (\<exists>schema w. n = schema @ ''.'' @ w \<and> word_text schema \<and> word_text w \<and> map lower_latin1 w = t)"

definition enables_rls :: "string \<Rightarrow> string \<Rightarrow> bool" where
  "enables_rls t u \<longleftrightarrow> (\<exists>p b1 n b2 q. u = p @ b1 @ n @ b2 @ q \<and> is_phrase [''alter'', ''table''] p \<and> spaces b1
     \<and> names_table t n \<and> spaces b2 \<and> is_phrase [''enable'', ''row'', ''level'', ''security''] q)"

lemma cden_SeqE:
  assumes "cden (Seq a b) d w s k k'"
  obtains u v k1 where "w = u @ v" "cden a d u (v @ s) k k1" "cden b (rev u @ d) v s k1 k'"
  using assms unfolding cden.simps by blast

lemma cden_plain: "cden (lit x) d w s k k' \<Longrightarrow> map lower_latin1 w = x \<and> k' = k"
proof (induction x arbitrary: d w)
  case (Cons c x)
  then obtain e v where "w = e # v" "lower_latin1 e = c" "cden (lit x) (e # d) v s k k'" by auto
  with Cons.IH show ?case by auto
qed simp

lemma cden_blanks: "cden blanks d w s k k' \<Longrightarrow> spaces w \<and> k' = k"
  by (auto simp: blanks_def spaces_def)

lemma cden_ident: "cden ident d w s k k' \<Longrightarrow> word_text w \<and> k' = k"
  by (auto simp: ident_def word_text_def)

lemma cden_phrase: "cden (phrase ws) d w s k k' \<Longrightarrow> is_phrase ws w \<and> k' = k"
proof (induction ws arbitrary: d w s k rule: phrase.induct)
  case (3 x y ws)
  then obtain a b c k1 k2 where abc: "w = a @ b @ c" "cden (lit x) d a (b @ c @ s) k k1"
    "cden blanks (rev a @ d) b (c @ s) k1 k2" "cden (phrase (y # ws)) (rev b @ rev a @ d) c s k2 k'"
    by auto
  with 3(1) [OF abc(4)] cden_plain [OF abc(2)] cden_blanks [OF abc(3)] show ?case
    by (auto simp: spaces_def)
qed (auto dest: cden_plain)

lemma only_dot_lowers: "lower_latin1 c = CHR ''.'' \<longleftrightarrow> c = CHR ''.''"
proof (cases "lower_latin1 c = c")
  case False
  let ?n = "of_char c :: int"
  from False have n: "65 \<le> ?n" "?n \<le> 0xDE" "lower_latin1 c = char_of (?n + 32)"
    by (auto simp: lower_latin1_def Let_def split: if_splits)
  have "of_char (lower_latin1 c) = (?n + 32) mod 256" unfolding n(3) by simp
  with n(1,2) have "of_char (lower_latin1 c) \<noteq> (of_char CHR ''.'' :: int)" by simp
  moreover have "of_char c \<noteq> (of_char CHR ''.'' :: int)" using n(1) by simp
  ultimately show ?thesis by metis
qed simp

lemma cden_table_name:
  assumes "cden table_name d w s k k'"
  shows "\<exists>t. capture 2 k' = Some t \<and> names_table t w"
proof -
  from assms obtain u v k1 where uv: "w = u @ v" "cden (Opt (Seq (Cap 1 ident) (lit ''.''))) d u (v @ s) k k1"
    "cden (Cap 2 ident) (rev u @ d) v s k1 k'" unfolding table_name_def by (rule cden_SeqE)
  from uv(3) have v: "word_text v" "capture 2 k' = Some (map lower_latin1 v)"
    by (auto simp: capture_def dest: cden_ident)
  consider "u = []" | "cden (Seq (Cap 1 ident) (lit ''.'')) d u (v @ s) k k1"
    using uv(2) unfolding cden.simps(6) by blast
  then show ?thesis
  proof cases
    case 1 with uv(1) v show ?thesis by (auto simp: names_table_def)
  next
    case 2
    then obtain x y k2 where xy: "u = x @ y" "cden (Cap 1 ident) d x (y @ v @ s) k k2"
      "cden (lit ''.'') (rev x @ d) y (v @ s) k2 k1" by (rule cden_SeqE)
    from xy(2) have "word_text x" by (auto dest: cden_ident)
    moreover from cden_plain [OF xy(3)] have "y = ''.''" by (auto simp: map_eq_Cons_conv only_dot_lowers)
    ultimately show ?thesis using uv(1) xy(1) v by (auto simp: names_table_def)
  qed
qed

lemma cden_enable:
  assumes "cden enable_rls_re d w s [] k"
  shows "enables_rls (the (capture 2 k)) w"
proof -
  note w = assms [unfolded enable_rls_re_def]
  from w obtain p v1 k1 where 1: "w = p @ v1" "is_phrase [''alter'', ''table''] p"
    "cden (Seq blanks (Seq table_name (Seq blanks (phrase [''enable'', ''row'', ''level'', ''security''])))) (rev p @ d) v1 s k1 k"
    by (elim cden_SeqE [of "phrase [''alter'', ''table'']"]) (blast dest: cden_phrase)
  from 1(3) obtain b1 v2 d1 where 2: "v1 = b1 @ v2" "spaces b1"
    "cden (Seq table_name (Seq blanks (phrase [''enable'', ''row'', ''level'', ''security'']))) d1 v2 s k1 k"
    by (elim cden_SeqE [of blanks]) (blast dest: cden_blanks)
  from 2(3) obtain n v3 d2 k3 t where 3: "v2 = n @ v3" "capture 2 k3 = Some t" "names_table t n"
    "cden (Seq blanks (phrase [''enable'', ''row'', ''level'', ''security''])) d2 v3 s k3 k"
    by (elim cden_SeqE [of table_name]) (blast dest: cden_table_name)
  from 3(4) obtain b2 q d3 where 4: "v3 = b2 @ q" "spaces b2"
    "cden (phrase [''enable'', ''row'', ''level'', ''security'']) d3 q s k3 k"
    by (elim cden_SeqE [of blanks]) (blast dest: cden_blanks)
  from cden_phrase [OF 4(3)] have "is_phrase [''enable'', ''row'', ''level'', ''security''] q" "k = k3" by auto
  with 1(1,2) 2(1,2) 3(1-3) 4(1,2) show ?thesis
    unfolding enables_rls_def by (intro exI [of _ p] exI [of _ b1] exI [of _ n] exI [of _ b2] exI [of _ q]) simp
qed

lemma listed_table_enabled:
  assumes "t \<in> set (tables_with_rls code)"
  shows "\<exists>a u b. code = a @ u @ b \<and> enables_rls t u"
proof -
  from assms obtain w k where m: "(w, k) \<in> set (find_iter enable_rls_re [] code)" "t = the (capture 2 k)"
    by (auto simp: tables_with_rls_def)
  from find_iter_captures [OF m(1)] cden_enable m(2) show ?thesis by fastforce
qed

subsection \<open>Code between comments\<close>

text \<open>A migration cut into code, line comments and block comments, none of which opens or closes early.\<close>

datatype sql_piece =
    Code string
  | LineComment string
  | BlockComment string

fun sql_text :: "sql_piece \<Rightarrow> string" where
  "sql_text (Code u) = u"
| "sql_text (LineComment u) = ''--'' @ u"
| "sql_text (BlockComment u) = ''/*'' @ u @ ''*/''"

fun sql_code :: "sql_piece \<Rightarrow> string" where
  "sql_code (Code u) = u"
| "sql_code (LineComment u) = []"
| "sql_code (BlockComment u) = filter (\<lambda>c. c = LF) u"

definition sql_of :: "sql_piece list \<Rightarrow> string" where
  "sql_of ps = concat (map sql_text ps)"

definition opens_comment :: "string \<Rightarrow> bool" where
  "opens_comment s \<longleftrightarrow> starts_with ''--'' s \<or> starts_with ''/*'' s"

fun no_opener :: "string \<Rightarrow> string \<Rightarrow> bool" where
  "no_opener [] rest \<longleftrightarrow> True"
| "no_opener (c # u) rest \<longleftrightarrow> \<not> opens_comment (c # u @ rest) \<and> no_opener u rest"

fun comments_cut :: "sql_piece list \<Rightarrow> bool" where
  "comments_cut [] \<longleftrightarrow> True"
| "comments_cut (Code u # ps) \<longleftrightarrow> no_opener u (sql_of ps) \<and> comments_cut ps"
| "comments_cut (LineComment u # ps) \<longleftrightarrow> LF \<notin> set u \<and> (sql_of ps = [] \<or> hd (sql_of ps) = LF) \<and> comments_cut ps"
| "comments_cut (BlockComment u # ps) \<longleftrightarrow> \<not> sublist ''*/'' u \<and> comments_cut ps"

lemma skip_block_ends: "\<not> sublist ''*/'' u \<Longrightarrow> skip_block (u @ ''*/'' @ s) = (filter (\<lambda>c. c = LF) u, s)"
proof (induction u)
  case (Cons a u)
  then have u: "\<not> sublist ''*/'' u" and a: "\<not> (a = CHR ''*'' \<and> u \<noteq> [] \<and> hd u = CHR ''/'')"
    by (auto simp: sublist_Cons_right prefix_Cons neq_Nil_conv)
  have hd: "\<not> (a = CHR ''*'' \<and> hd (u @ ''*/'' @ s) = CHR ''/'')" using a by (cases u) auto
  obtain b t where t: "u @ ''*/'' @ s = b # t" by (cases "u @ ''*/'' @ s") auto
  with hd Cons.IH [OF u] show ?case by auto
qed simp

lemma strip_code: "no_opener u rest \<Longrightarrow> strip_sql_comments (u @ rest) = u @ strip_sql_comments rest"
  by (induction u) (auto simp: opens_comment_def starts_with_def)

lemma skip_line: "LF \<notin> set u \<Longrightarrow> rest = [] \<or> hd rest = LF \<Longrightarrow> dropWhile (\<lambda>x. x \<noteq> LF) (u @ rest) = rest"
  by (induction u) (auto simp: dropWhile_eq_self_iff)

lemma strip_line:
  "LF \<notin> set u \<Longrightarrow> rest = [] \<or> hd rest = LF \<Longrightarrow> strip_sql_comments (''--'' @ u @ rest) = strip_sql_comments rest"
  using skip_line [of u rest] by (simp add: starts_with_def LF_def)

lemma strip_block:
  assumes "\<not> sublist ''*/'' u"
  shows "strip_sql_comments (''/*'' @ u @ ''*/'' @ rest) = filter (\<lambda>c. c = LF) u @ strip_sql_comments rest"
  using skip_block_ends [OF assms, of rest] by (simp add: starts_with_def)

lemma strip_pieces: "comments_cut ps \<Longrightarrow> strip_sql_comments (sql_of ps) = concat (map sql_code ps)"
proof (induction ps rule: comments_cut.induct)
  case (2 u ps) then show ?case by (simp add: sql_of_def strip_code)
next
  case (3 u ps) then show ?case using strip_line [of u "sql_of ps"] by (simp add: sql_of_def)
next
  case (4 u ps) then show ?case using strip_block [of u "sql_of ps"] by (simp add: sql_of_def)
qed (simp add: sql_of_def)

subsection \<open>Properties\<close>


definition sample_migration :: "sql_piece list" where
  "sample_migration =
     [LineComment '' never DISABLE ROW LEVEL SECURITY'',
      Code (LF # ''CREATE TABLE knievel.t (id int); ALTER TABLE knievel.t ENABLE  ROW LEVEL SECURITY;'')]"


text \<open>Two dashes in a string literal hide the rest of the line from the linter, not from Postgres.\<close>

theorem quoted_dashes_hide_disable:
  "lint_file ''b.sql'' (''COMMENT ON TABLE knievel.ads IS '' @ [CHR 0x27] @ ''a--b'' @ [CHR 0x27]
      @ ''; ALTER TABLE knievel.ads DISABLE ROW LEVEL SECURITY;'') = []"
  by code_simp

text \<open>A directory that does not exist passes.\<close>

theorem missing_directory_passes: "lint_migrations None = Inr 0"
  by (simp add: lint_migrations_def collect_sql_files_def)

end
