(* ===== verification/Release_Tag.thy ===== *)
theory Release_Tag
  imports Text_Lines
begin

section \<open>Cutting a release\<close>

text \<open>
  \<open>src/xtask/src/release_tag.rs\<close>: \<open>cargo xtask release-tag X.Y.Z\<close> checks the tree and runs the gates,
  rewrites \<open>Cargo.toml\<close> and \<open>CHANGELOG.md\<close>, commits and tags. The commands it starts are parameters:
  whether git and cargo succeed, what cargo does to the files, and what git and date print.
\<close>

subsection \<open>The version\<close>

definition parse_u32 :: "string \<Rightarrow> int option" where
  "parse_u32 s = (if starts_with ''-'' s then None else parse_int 0 (2 ^ 32 - 1) s)"

definition parse_semver :: "string \<Rightarrow> bool" where
  "parse_semver version =
     (let parts = split_chars {CHR ''.''} version in
      length parts = 3 \<and> \<not> list_ex (\<lambda>p. parse_u32 p = None) parts)"

subsection \<open>Cargo.toml\<close>

text \<open>
  The loop of \<open>bump_cargo_toml\<close>: \<open>in_pkg\<close> is \<open>in_workspace_package\<close>, \<open>upd\<close> is \<open>updated\<close>. The value is the
  lines written and whether one was replaced.
\<close>

definition new_version_line :: "string \<Rightarrow> string \<Rightarrow> nat \<Rightarrow> string" where
  "new_version_line version line idx =
     take (idx + length ''version'') line @ ''    = '' @ [CHR 0x22] @ version @ [CHR 0x22]"

fun bump_lines :: "string \<Rightarrow> bool \<Rightarrow> bool \<Rightarrow> string list \<Rightarrow> string list \<times> bool" where
  "bump_lines version in_pkg upd [] = ([], upd)"
| "bump_lines version in_pkg upd (line # ls) =
     (let trimmed = trim_start line in
      if starts_with ''[workspace.package]'' trimmed then
        map_prod (Cons line) id (bump_lines version True upd ls)
      else
        let in_pkg' = (if starts_with ''['' trimmed \<and> in_pkg then False else in_pkg) in
        case (if in_pkg' \<and> \<not> upd \<and> starts_with ''version'' trimmed then find_text ''version'' line else None) of
          Some idx \<Rightarrow> map_prod (Cons (new_version_line version line idx)) id (bump_lines version in_pkg' True ls)
        | None \<Rightarrow> map_prod (Cons line) id (bump_lines version in_pkg' upd ls))"

definition bump_cargo_toml :: "string \<Rightarrow> string \<Rightarrow> string option" where
  "bump_cargo_toml version content =
     (case bump_lines version False False (lines content) of
        (out, updated) \<Rightarrow> if updated then Some (unlines out) else None)"

subsection \<open>CHANGELOG.md\<close>

definition COMPARE :: string where "COMPARE = ''https://github.com/knievel-ads/knievel/compare/''"

definition dash_mark :: string where "dash_mark = [CHR 0xE2, CHR 0x80, CHR 0x94]"

definition fresh_section :: "string \<Rightarrow> string \<Rightarrow> string list" where
  "fresh_section version today =
     [''## [Unreleased]'', [], ''### Added'', [], ''(none)'', [], ''### Changed'', [], ''(none)'', [],
      ''### Fixed'', [], ''(none)'', [], ''## ['' @ version @ ''] '' @ dash_mark @ '' '' @ today]"

definition fresh_links :: "string \<Rightarrow> string \<Rightarrow> string list" where
  "fresh_links version prev =
     [''[Unreleased]: '' @ COMPARE @ ''v'' @ version @ ''...HEAD'',
      ''['' @ version @ '']: '' @ COMPARE @ prev @ ''...v'' @ version]"

datatype release_error =
    BadVersion
  | CommandFailed "string list"
  | DirtyTree
  | FileFailed string
  | NoVersionLine
  | NoUnreleasedHeading
  | NoUnreleasedLink

text \<open>
  The loop of \<open>roll_changelog\<close>; \<open>prev\<close> is \<open>previous_tag_or_default\<close>, asked when the link is reached.
\<close>

fun roll_lines ::
  "string \<Rightarrow> string \<Rightarrow> (release_error + string) \<Rightarrow> bool \<Rightarrow> bool \<Rightarrow> string list \<Rightarrow> release_error + string list \<times> bool \<times> bool" where
  "roll_lines version today prev sec links [] = Inr ([], sec, links)"
| "roll_lines version today prev sec links (line # ls) =
     (if \<not> sec \<and> trim line = ''## [Unreleased]'' then
        map_sum id (map_prod ((@) (fresh_section version today)) id) (roll_lines version today prev True links ls)
      else if \<not> links \<and> starts_with ''[Unreleased]: '' line then
        (case prev of
           Inl er \<Rightarrow> Inl er
         | Inr tag \<Rightarrow>
             map_sum id (map_prod ((@) (fresh_links version tag)) id) (roll_lines version today prev sec True ls))
      else map_sum id (map_prod (Cons line) id) (roll_lines version today prev sec links ls))"

definition roll_changelog :: "string \<Rightarrow> string \<Rightarrow> (release_error + string) \<Rightarrow> string \<Rightarrow> release_error + string" where
  "roll_changelog version today prev content =
     (case roll_lines version today prev False False (lines content) of
        Inl er \<Rightarrow> Inl er
      | Inr (out, sec, links) \<Rightarrow>
          if \<not> sec then Inl NoUnreleasedHeading
          else if \<not> links then Inl NoUnreleasedLink
          else Inr (unlines out))"

subsection \<open>The command\<close>

type_synonym files = "string \<rightharpoonup> string"

text \<open>
  The repository: the working tree, the index, the commits with their message, the tags with theirs.
  What is outside: which commands succeed, the files cargo leaves, the output of \<open>git status\<close>,
  \<open>git tag\<close> and \<open>date\<close>, and which files can be written.
\<close>

record repo =
  rp_files :: files
  rp_index :: files
  rp_commits :: "(string \<times> files) list"
  rp_tags :: "(string \<times> string) list"

record tools =
  tl_ok :: "string list \<Rightarrow> bool"
  tl_cargo :: "string list \<Rightarrow> files \<Rightarrow> files"
  tl_status :: string
  tl_git_tags :: string
  tl_date :: string
  tl_can_write :: "string \<Rightarrow> bool"

record release_args =
  ra_version :: string
  ra_skip_gates :: bool

definition gates :: "string list list" where
  "gates =
     [[''cargo'', ''fmt'', ''--all'', ''--check''],
      [''cargo'', ''xtask'', ''openapi'', ''--check''],
      [''cargo'', ''xtask'', ''lint-migrations''],
      [''cargo'', ''xtask'', ''check-cross-tenant''],
      [''cargo'', ''xtask'', ''test-shape''],
      [''cargo'', ''xtask'', ''check-doc-fences''],
      [''cargo'', ''xtask'', ''check-api-doc''],
      [''cargo'', ''xtask'', ''check-snake-case''],
      [''cargo'', ''clippy'', ''--workspace'', ''--all-targets'', ''--locked'', ''--'', ''-D'', ''warnings''],
      [''cargo'', ''test'', ''--workspace'']]"

definition ensure_clean_tree :: "tools \<Rightarrow> release_error option" where
  "ensure_clean_tree w =
     (if \<not> tl_ok w [''git'', ''status'', ''--porcelain''] then Some (CommandFailed [''git'', ''status'', ''--porcelain''])
      else if trim (tl_status w) \<noteq> [] then Some DirtyTree else None)"

definition run_cargo :: "tools \<Rightarrow> string list \<Rightarrow> files \<Rightarrow> release_error option \<times> files" where
  "run_cargo w cmd fs = (if tl_ok w cmd then None else Some (CommandFailed cmd), tl_cargo w cmd fs)"

fun run_gates :: "tools \<Rightarrow> string list list \<Rightarrow> files \<Rightarrow> release_error option \<times> files" where
  "run_gates w [] fs = (None, fs)"
| "run_gates w (g # gs) fs =
     (case run_cargo w g fs of
        (Some er, fs') \<Rightarrow> (Some er, fs')
      | (None, fs') \<Rightarrow> run_gates w gs fs')"

definition today_iso :: "tools \<Rightarrow> string" where
  "today_iso w = (if tl_ok w [''date'', ''+%Y-%m-%d''] then trim (tl_date w) else ''TODO-DATE'')"

definition previous_tag_or_default :: "tools \<Rightarrow> release_error + string" where
  "previous_tag_or_default w =
     (let cmd = [''git'', ''tag'', ''-l'', ''v*'', ''--sort=-v:refname''] in
      if \<not> tl_ok w cmd then Inl (CommandFailed cmd)
      else Inr (case lines (tl_git_tags w) of [] \<Rightarrow> ''v0.0.0'' | t # _ \<Rightarrow> t))"

text \<open>Read a file, rewrite it, write it.\<close>

definition rewrite_file ::
  "tools \<Rightarrow> string \<Rightarrow> (string \<Rightarrow> release_error + string) \<Rightarrow> files \<Rightarrow> release_error + files" where
  "rewrite_file w path f fs =
     (case fs path of
        None \<Rightarrow> Inl (FileFailed path)
      | Some content \<Rightarrow>
          (case f content of
             Inl er \<Rightarrow> Inl er
           | Inr out \<Rightarrow> if tl_can_write w path then Inr (fs(path \<mapsto> out)) else Inl (FileFailed path)))"

definition released_files :: "string list" where
  "released_files = [''Cargo.toml'', ''Cargo.lock'', ''openapi.yaml'', ''CHANGELOG.md'']"

definition commit_message :: "string \<Rightarrow> string" where
  "commit_message version =
     ''release: v'' @ version @ [LF, LF] @ ''Mechanical bump via `cargo xtask release-tag '' @ version
     @ ''`. Pre-flight gates green at the source SHA. Pairs with the RELEASE_CHECKLIST.md the operator filed in the release PR.''
     @ [LF, LF] @ ''- Cargo.toml workspace.version '' @ [CHR 0xE2, CHR 0x86, CHR 0x92] @ '' '' @ version @ [LF]
     @ ''- Cargo.lock refreshed'' @ [LF]
     @ ''- CHANGELOG.md [Unreleased] '' @ [CHR 0xE2, CHR 0x86, CHR 0x92] @ '' ['' @ version @ '']''"

definition commit_and_tag :: "tools \<Rightarrow> string \<Rightarrow> repo \<Rightarrow> release_error option \<times> repo" where
  "commit_and_tag w version r =
     (let add = [''git'', ''add''] @ released_files;
          commit = [''git'', ''commit'', ''-m'', commit_message version];
          tag = [''git'', ''tag'', ''-a'', ''v'' @ version, ''-m'', ''Release v'' @ version]
      in if \<not> tl_ok w add then (Some (CommandFailed add), r)
      else let r1 = r\<lparr>rp_index := (\<lambda>p. if p \<in> set released_files then rp_files r p else rp_index r p)\<rparr> in
      if \<not> tl_ok w commit then (Some (CommandFailed commit), r1)
      else let r2 = r1\<lparr>rp_commits := rp_commits r1 @ [(commit_message version, rp_index r1)]\<rparr> in
      if \<not> tl_ok w tag then (Some (CommandFailed tag), r2)
      else (None, r2\<lparr>rp_tags := rp_tags r2 @ [(''v'' @ version, ''Release v'' @ version)]\<rparr>))"

definition release_tag :: "tools \<Rightarrow> release_args \<Rightarrow> repo \<Rightarrow> release_error option \<times> repo" where
  "release_tag w args r =
     (let version = ra_version args in
      if \<not> parse_semver version then (Some BadVersion, r)
      else case ensure_clean_tree w of
        Some er \<Rightarrow> (Some er, r)
      | None \<Rightarrow>
     (case (if ra_skip_gates args then (None, rp_files r) else run_gates w gates (rp_files r)) of
        (Some er, fs) \<Rightarrow> (Some er, r\<lparr>rp_files := fs\<rparr>)
      | (None, fs) \<Rightarrow>
     (case rewrite_file w ''Cargo.toml''
             (\<lambda>c. case bump_cargo_toml version c of None \<Rightarrow> Inl NoVersionLine | Some out \<Rightarrow> Inr out) fs of
        Inl er \<Rightarrow> (Some er, r\<lparr>rp_files := fs\<rparr>)
      | Inr fs1 \<Rightarrow>
     (case run_cargo w [''cargo'', ''xtask'', ''openapi''] fs1 of
        (Some er, fs2) \<Rightarrow> (Some er, r\<lparr>rp_files := fs2\<rparr>)
      | (None, fs2) \<Rightarrow>
     (case run_cargo w [''cargo'', ''build'', ''--offline'', ''--workspace'', ''--quiet''] fs2 of
        (Some er, fs3) \<Rightarrow> (Some er, r\<lparr>rp_files := fs3\<rparr>)
      | (None, fs3) \<Rightarrow>
     (case rewrite_file w ''CHANGELOG.md''
             (roll_changelog version (today_iso w) (previous_tag_or_default w)) fs3 of
        Inl er \<Rightarrow> (Some er, r\<lparr>rp_files := fs3\<rparr>)
      | Inr fs4 \<Rightarrow> commit_and_tag w version (r\<lparr>rp_files := fs4\<rparr>)))))))"

subsection \<open>The line that is bumped\<close>

definition pkg_header :: "string \<Rightarrow> bool" where
  "pkg_header l \<longleftrightarrow> starts_with ''[workspace.package]'' (trim_start l)"

definition table_header :: "string \<Rightarrow> bool" where
  "table_header l \<longleftrightarrow> starts_with ''['' (trim_start l)"

definition version_key :: "string \<Rightarrow> bool" where
  "version_key l \<longleftrightarrow> starts_with ''version'' (trim_start l)"

text \<open>Line \<open>i\<close> starts with \<open>version\<close> and the last table header above it is \<open>[workspace.package]\<close>.\<close>

definition version_at :: "string list \<Rightarrow> nat \<Rightarrow> bool" where
  "version_at ls i \<longleftrightarrow> i < length ls \<and> version_key (ls ! i)
     \<and> (\<exists>j < i. pkg_header (ls ! j) \<and> (\<forall>k. j < k \<and> k < i \<longrightarrow> \<not> table_header (ls ! k)))"

definition next_pkg :: "bool \<Rightarrow> string \<Rightarrow> bool" where
  "next_pkg p l \<longleftrightarrow> (if pkg_header l then True else if table_header l then False else p)"

fun version_index :: "bool \<Rightarrow> string list \<Rightarrow> nat option" where
  "version_index p [] = None"
| "version_index p (l # ls) =
     (if p \<and> version_key l then Some 0 else map_option Suc (version_index (next_pkg p l) ls))"

lemma pkg_header_table: "pkg_header l \<Longrightarrow> table_header l"
  by (cases "trim_start l") (auto simp: pkg_header_def table_header_def starts_with_def)

lemma version_key_table: "version_key l \<Longrightarrow> \<not> table_header l"
  by (cases "trim_start l") (auto simp: version_key_def table_header_def starts_with_def)

lemma find_version:
  "version_key l \<Longrightarrow> find_text ''version'' l = Some (length (takeWhile is_space l))"
proof (induction l)
  case Nil then show ?case by (simp add: version_key_def trim_start_def starts_with_def)
next
  case (Cons c s)
  show ?case
  proof (cases "is_space c")
    case True
    then have "\<not> starts_with ''version'' (c # s)" by (auto simp: starts_with_def is_space_def)
    with True Cons show ?thesis by (simp add: version_key_def trim_start_def)
  next
    case False
    with Cons(2) show ?thesis by (simp add: version_key_def trim_start_def)
  qed
qed

text \<open>The replaced line keeps its indentation.\<close>

definition bumped_line :: "string \<Rightarrow> string \<Rightarrow> string" where
  "bumped_line version l = takeWhile is_space l @ ''version    = '' @ [CHR 0x22] @ version @ [CHR 0x22]"

lemma new_version_line_eq:
  assumes "version_key l"
  shows "new_version_line v l (length (takeWhile is_space l)) = bumped_line v l"
proof -
  have l: "l = takeWhile is_space l @ trim_start l" by (simp add: trim_start_def)
  have "take (length (takeWhile is_space l) + length ''version'') l = takeWhile is_space l @ ''version''"
    using assms by (subst (2) l) (simp add: version_key_def starts_with_def eval_nat_numeral)
  then show ?thesis by (simp add: new_version_line_def bumped_line_def)
qed

lemma bump_lines_Cons:
  "bump_lines v p u (l # ls) =
     (if p \<and> \<not> u \<and> version_key l then map_prod (Cons (bumped_line v l)) id (bump_lines v p True ls)
      else map_prod (Cons l) id (bump_lines v (next_pkg p l) u ls))"
proof -
  have step: "bump_lines v p u (l # ls) =
     (if pkg_header l then map_prod (Cons l) id (bump_lines v True u ls)
      else case (if (\<not> table_header l \<and> p) \<and> \<not> u \<and> version_key l then find_text ''version'' l else None) of
          Some idx \<Rightarrow> map_prod (Cons (new_version_line v l idx)) id (bump_lines v (\<not> table_header l \<and> p) True ls)
        | None \<Rightarrow> map_prod (Cons l) id (bump_lines v (\<not> table_header l \<and> p) u ls))"
  proof -
    have in_pkg: "(if table_header l \<and> p then False else p) = (\<not> table_header l \<and> p)" by auto
    show ?thesis
      unfolding bump_lines.simps Let_def pkg_header_def [symmetric] table_header_def [symmetric]
        version_key_def [symmetric] in_pkg ..
  qed
  show ?thesis
  proof (cases "p \<and> \<not> u \<and> version_key l")
    case True
    then have "\<not> pkg_header l" "\<not> table_header l" using version_key_table pkg_header_table by blast+
    with True show ?thesis unfolding step by (simp add: find_version new_version_line_eq)
  next
    case False
    then have "(if (\<not> table_header l \<and> p) \<and> \<not> u \<and> version_key l then find_text ''version'' l else None) = None" by auto
    note none = this
    show ?thesis
      unfolding step none option.case next_pkg_def using False by (cases "pkg_header l"; cases "table_header l") auto
  qed
qed

lemma bump_lines_updated: "bump_lines v p True ls = (ls, True)"
  by (induction ls arbitrary: p) (simp_all add: bump_lines_Cons del: bump_lines.simps(2))

lemma bump_lines_eq:
  "bump_lines v p False ls =
     (case version_index p ls of None \<Rightarrow> (ls, False) | Some i \<Rightarrow> (ls[i := bumped_line v (ls ! i)], True))"
  by (induction ls arbitrary: p)
    (auto simp: bump_lines_Cons bump_lines_updated split: option.split simp del: bump_lines.simps(2))

text \<open>\<open>in_pkg\<close> after \<open>i\<close> lines is that the last header among them is the one looked for.\<close>

definition in_package :: "bool \<Rightarrow> string list \<Rightarrow> bool" where
  "in_package p ls \<longleftrightarrow> fold (\<lambda>l p. next_pkg p l) ls p"

lemma in_package_iff:
  "in_package p ls \<longleftrightarrow>
     (\<exists>j < length ls. pkg_header (ls ! j) \<and> (\<forall>k. j < k \<and> k < length ls \<longrightarrow> \<not> table_header (ls ! k)))
     \<or> p \<and> (\<forall>l \<in> set ls. \<not> table_header l)"
proof (induction ls rule: rev_induct)
  case Nil then show ?case by (simp add: in_package_def)
next
  case (snoc l ls)
  have step: "in_package p (ls @ [l]) = next_pkg (in_package p ls) l" by (simp add: in_package_def)
  have split: "(\<exists>j < length (ls @ [l]). pkg_header ((ls @ [l]) ! j)
        \<and> (\<forall>k. j < k \<and> k < length (ls @ [l]) \<longrightarrow> \<not> table_header ((ls @ [l]) ! k)))
      \<longleftrightarrow> pkg_header l \<or> \<not> table_header l \<and>
        (\<exists>j < length ls. pkg_header (ls ! j) \<and> (\<forall>k. j < k \<and> k < length ls \<longrightarrow> \<not> table_header (ls ! k)))"
    (is "?L \<longleftrightarrow> ?R")
  proof
    assume ?L
    then obtain j where j: "j < Suc (length ls)" "pkg_header ((ls @ [l]) ! j)"
      "\<forall>k. j < k \<and> k < Suc (length ls) \<longrightarrow> \<not> table_header ((ls @ [l]) ! k)" by auto
    show ?R
    proof (cases "j = length ls")
      case True with j show ?thesis by simp
    next
      case False
      with j(1) have less: "j < length ls" by simp
      with j(3) have "\<not> table_header l" by (metis lessI nth_append_length)
      moreover have "\<forall>k. j < k \<and> k < length ls \<longrightarrow> \<not> table_header (ls ! k)"
        using j(3) by (metis less_SucI nth_append)
      ultimately show ?thesis using less j(2) by (auto simp: nth_append)
    qed
  next
    assume ?R
    then show ?L
    proof (elim disjE conjE exE)
      assume "pkg_header l" then show ?L by (intro exI [of _ "length ls"]) auto
    next
      fix j assume "\<not> table_header l" "j < length ls" "pkg_header (ls ! j)"
        "\<forall>k. j < k \<and> k < length ls \<longrightarrow> \<not> table_header (ls ! k)"
      then show ?L by (intro exI [of _ j]) (auto simp: nth_append less_Suc_eq)
    qed
  qed
  show ?case
    unfolding step split next_pkg_def snoc using pkg_header_table by auto
qed

lemma version_index_Some:
  "version_index p ls = Some i \<longleftrightarrow>
     i < length ls \<and> version_key (ls ! i) \<and> in_package p (take i ls)
     \<and> (\<forall>j < i. \<not> (version_key (ls ! j) \<and> in_package p (take j ls)))"
proof (induction ls arbitrary: p i)
  case (Cons l ls)
  have tail: "in_package p (l # xs) = in_package (next_pkg p l) xs" for xs by (simp add: in_package_def)
  have nil: "in_package p [] = p" by (simp add: in_package_def)
  show ?case
  proof (cases i)
    case 0
    then show ?thesis by (auto simp: nil)
  next
    case (Suc n)
    show ?thesis
      unfolding Suc by (auto simp: Cons.IH tail nil All_less_Suc2)
  qed
qed simp

lemma version_at_iff: "version_at ls i \<longleftrightarrow> i < length ls \<and> version_key (ls ! i) \<and> in_package False (take i ls)"
  unfolding version_at_def in_package_iff by (cases "i < length ls") auto

lemma version_index_at:
  "version_index False ls = Some i \<longleftrightarrow> version_at ls i \<and> (\<forall>j < i. \<not> version_at ls j)"
  unfolding version_index_Some version_at_iff by auto

text \<open>The first version line of the section is replaced and the rest kept, line by line.\<close>

lemma bump_cargo_toml_eq:
  "bump_cargo_toml version content = Some out \<longleftrightarrow>
     (\<exists>i. version_at (lines content) i \<and> (\<forall>j < i. \<not> version_at (lines content) j)
        \<and> out = unlines ((lines content)[i := bumped_line version (lines content ! i)]))"
proof -
  have "bump_cargo_toml version content = Some out \<longleftrightarrow>
     (\<exists>i. version_index False (lines content) = Some i
        \<and> out = unlines ((lines content)[i := bumped_line version (lines content ! i)]))"
    unfolding bump_cargo_toml_def bump_lines_eq by (auto split: option.split)
  then show ?thesis unfolding version_index_at conj_assoc .
qed

subsection \<open>What a run leaves\<close>

lemma rewrite_file_InrD:
  "rewrite_file w path f fs = Inr fs' \<Longrightarrow> \<exists>content out. fs path = Some content \<and> f content = Inr out \<and> fs' = fs(path \<mapsto> out)"
  by (auto simp: rewrite_file_def split: option.splits sum.splits if_splits)

text \<open>cargo edits neither file: the tools of the repository that it runs only check them.\<close>

definition cargo_keeps :: "tools \<Rightarrow> bool" where
  "cargo_keeps w \<longleftrightarrow> (\<forall>cmd fs. \<forall>p \<in> {''Cargo.toml'', ''CHANGELOG.md''}. tl_cargo w cmd fs p = fs p)"

lemma run_gates_keeps:
  "cargo_keeps w \<Longrightarrow> run_gates w gs fs = (res, fs') \<Longrightarrow> p \<in> {''Cargo.toml'', ''CHANGELOG.md''} \<Longrightarrow> fs' p = fs p"
  by (induction gs arbitrary: fs) (auto simp: run_cargo_def cargo_keeps_def split: option.splits if_splits)

lemma run_gates_None: "run_gates w gs fs = (None, fs') \<Longrightarrow> \<forall>g \<in> set gs. tl_ok w g"
  by (induction gs arbitrary: fs) (auto simp: run_cargo_def split: if_splits)

lemma commit_and_tag_cases:
  assumes "commit_and_tag w v r = (res, r')"
  obtains (failed) er where "res = Some er" "rp_commits r' = rp_commits r" "rp_tags r' = rp_tags r"
  | (untagged) idx where "res = Some (CommandFailed [''git'', ''tag'', ''-a'', ''v'' @ v, ''-m'', ''Release v'' @ v])"
      "rp_commits r' = rp_commits r @ [(commit_message v, idx)]" "rp_tags r' = rp_tags r"
      "\<forall>p \<in> set released_files. idx p = rp_files r p"
  | (tagged) idx where "res = None" "rp_commits r' = rp_commits r @ [(commit_message v, idx)]"
      "rp_tags r' = rp_tags r @ [(''v'' @ v, ''Release v'' @ v)]" "\<forall>p \<in> set released_files. idx p = rp_files r p"
  using assms unfolding commit_and_tag_def Let_def by (auto split: if_splits)

text \<open>
  Every file a release commits, up to the commit. \<open>released\<close> says what a run started from: a version
  of three numbers, a clean tree, gates that passed unless they were skipped, and the two texts
  with the version line replaced and the changelog rolled.
\<close>

definition released :: "tools \<Rightarrow> release_args \<Rightarrow> repo \<Rightarrow> files \<Rightarrow> bool" where
  "released w args r idx \<longleftrightarrow>
     parse_semver (ra_version args) \<and> trim (tl_status w) = []
     \<and> (\<not> ra_skip_gates args \<longrightarrow> (\<forall>g \<in> set gates. tl_ok w g))
     \<and> (\<exists>toml i. rp_files r ''Cargo.toml'' = Some toml \<and> version_at (lines toml) i \<and> (\<forall>j < i. \<not> version_at (lines toml) j)
          \<and> idx ''Cargo.toml'' = Some (unlines ((lines toml)[i := bumped_line (ra_version args) (lines toml ! i)])))
     \<and> (\<exists>log out. rp_files r ''CHANGELOG.md'' = Some log
          \<and> roll_changelog (ra_version args) (today_iso w) (previous_tag_or_default w) log = Inr out
          \<and> idx ''CHANGELOG.md'' = Some out)"

lemma release_tag_cases:
  assumes run: "release_tag w args r = (res, r')" and keeps: "cargo_keeps w"
  obtains (failed) er where "res = Some er" "rp_commits r' = rp_commits r" "rp_tags r' = rp_tags r"
  | (reached) fs where "commit_and_tag w (ra_version args) (r\<lparr>rp_files := fs\<rparr>) = (res, r')" "released w args r fs"
proof -
  note fail = failed and reach = reached
  let ?v = "ra_version args"
  show ?thesis
  proof (cases "parse_semver ?v \<and> ensure_clean_tree w = None")
    case False
    then have "\<exists>er. release_tag w args r = (Some er, r)"
      by (cases "ensure_clean_tree w") (auto simp: release_tag_def Let_def)
    with run fail show ?thesis by auto
  next
    case True
    then have clean: "trim (tl_status w) = []" by (auto simp: ensure_clean_tree_def split: if_splits)
    obtain g fs where gates: "(if ra_skip_gates args then (None, rp_files r) else run_gates w gates (rp_files r)) = (g, fs)"
      by fastforce
    have same: "fs p = rp_files r p" if "p \<in> {''Cargo.toml'', ''CHANGELOG.md''}" for p
      using gates run_gates_keeps [OF keeps _ that] by (auto split: if_splits)
    have passed: "g = None \<Longrightarrow> \<not> ra_skip_gates args \<longrightarrow> (\<forall>g \<in> set gates. tl_ok w g)"
      using gates run_gates_None by (auto split: if_splits)
    let ?bump = "\<lambda>c. case bump_cargo_toml ?v c of None \<Rightarrow> Inl NoVersionLine | Some out \<Rightarrow> Inr out"
    let ?roll = "roll_changelog ?v (today_iso w) (previous_tag_or_default w)"
    have tail: "(case rewrite_file w ''Cargo.toml'' ?bump fs of
        Inl er \<Rightarrow> (Some er, r\<lparr>rp_files := fs\<rparr>)
      | Inr fs1 \<Rightarrow>
     (case run_cargo w [''cargo'', ''xtask'', ''openapi''] fs1 of
        (Some er, fs2) \<Rightarrow> (Some er, r\<lparr>rp_files := fs2\<rparr>)
      | (None, fs2) \<Rightarrow>
     (case run_cargo w [''cargo'', ''build'', ''--offline'', ''--workspace'', ''--quiet''] fs2 of
        (Some er, fs3) \<Rightarrow> (Some er, r\<lparr>rp_files := fs3\<rparr>)
      | (None, fs3) \<Rightarrow>
     (case rewrite_file w ''CHANGELOG.md'' ?roll fs3 of
        Inl er \<Rightarrow> (Some er, r\<lparr>rp_files := fs3\<rparr>)
      | Inr fs4 \<Rightarrow> commit_and_tag w ?v (r\<lparr>rp_files := fs4\<rparr>))))) = (res, r')" if "g = None"
      using run True gates that by (simp add: release_tag_def Let_def)
    show ?thesis
    proof (cases g)
      case (Some er)
      with run True gates fail show ?thesis by (auto simp: release_tag_def Let_def)
    next
      case None
      note tail = tail [OF None]
      show ?thesis
      proof (cases "rewrite_file w ''Cargo.toml'' ?bump fs")
        case (Inl er) with tail fail show ?thesis by auto
      next
        case (Inr fs1)
        then obtain toml out1 where toml: "fs ''Cargo.toml'' = Some toml" "bump_cargo_toml ?v toml = Some out1"
          "fs1 = fs(''Cargo.toml'' \<mapsto> out1)" by (auto dest!: rewrite_file_InrD split: option.splits)
        obtain c2 fs2 where o: "run_cargo w [''cargo'', ''xtask'', ''openapi''] fs1 = (c2, fs2)" by fastforce
        obtain c3 fs3 where b: "run_cargo w [''cargo'', ''build'', ''--offline'', ''--workspace'', ''--quiet''] fs2 = (c3, fs3)"
          by fastforce
        have fs3: "fs3 p = fs1 p" if "p \<in> {''Cargo.toml'', ''CHANGELOG.md''}" for p
          using o b keeps that by (auto simp: run_cargo_def cargo_keeps_def split: if_splits)
        show ?thesis
        proof (cases "c2 = None \<and> c3 = None")
          case False
          with tail Inr o b fail show ?thesis by (auto split: option.splits)
        next
          case c: True
          show ?thesis
          proof (cases "rewrite_file w ''CHANGELOG.md'' ?roll fs3")
            case roll: (Inl er) with tail Inr o b c fail show ?thesis by auto
          next
            case roll: (Inr fs4)
            then obtain log out where log: "fs3 ''CHANGELOG.md'' = Some log" "?roll log = Inr out"
              "fs4 = fs3(''CHANGELOG.md'' \<mapsto> out)" by (auto dest!: rewrite_file_InrD)
            have "released w args r fs4"
              unfolding released_def
            proof (intro conjI)
              from toml(2) obtain i where "version_at (lines toml) i" "\<forall>j < i. \<not> version_at (lines toml) j"
                "out1 = unlines ((lines toml)[i := bumped_line ?v (lines toml ! i)])"
                unfolding bump_cargo_toml_eq by blast
              with toml same log fs3 show "\<exists>toml i. rp_files r ''Cargo.toml'' = Some toml \<and> version_at (lines toml) i
                  \<and> (\<forall>j < i. \<not> version_at (lines toml) j)
                  \<and> fs4 ''Cargo.toml'' = Some (unlines ((lines toml)[i := bumped_line ?v (lines toml ! i)]))"
                by (intro exI [of _ toml] exI [of _ i]) auto
            qed (use True clean passed None log fs3 toml same in auto)
            moreover from tail Inr o b c roll have "commit_and_tag w ?v (r\<lparr>rp_files := fs4\<rparr>) = (res, r')" by simp
            ultimately show ?thesis by (rule reach [rotated])
          qed
        qed
      qed
    qed
  qed
qed

subsection \<open>Properties\<close>


definition sample_tools :: tools where
  "sample_tools =
     \<lparr>tl_ok = (\<lambda>cmd. True), tl_cargo = (\<lambda>cmd fs. fs), tl_status = [], tl_git_tags = ''v0.1.0'',
      tl_date = ''2026-01-01'', tl_can_write = (\<lambda>p. True)\<rparr>"

definition sample_repo :: repo where
  "sample_repo =
     \<lparr>rp_files = [''Cargo.toml'' \<mapsto> ''[workspace.package]'' @ [LF] @ ''version = 1'' @ [LF],
                  ''CHANGELOG.md'' \<mapsto> ''## [Unreleased]'' @ [LF] @ ''[Unreleased]: x'' @ [LF]],
      rp_index = Map.empty, rp_commits = [], rp_tags = []\<rparr>"


text \<open>The message of the commit says the gates are green whether or not they ran.\<close>

theorem skipped_gates_are_reported_green:
  "\<exists>r'. release_tag (sample_tools\<lparr>tl_ok := \<lambda>cmd. cmd \<notin> set gates\<rparr>) \<lparr>ra_version = ''0.2.0'', ra_skip_gates = True\<rparr> sample_repo
       = (None, r') \<and> map fst (rp_commits r') = [commit_message ''0.2.0'']"
proof -
  let ?run = "release_tag (sample_tools\<lparr>tl_ok := \<lambda>cmd. cmd \<notin> set gates\<rparr>) \<lparr>ra_version = ''0.2.0'', ra_skip_gates = True\<rparr> sample_repo"
  have "fst ?run = None \<and> map fst (rp_commits (snd ?run)) = [commit_message ''0.2.0'']" by code_simp
  then show ?thesis by (metis prod.collapse)
qed

text \<open>A sign and leading zeros pass as a version.\<close>

theorem signed_version_passes: "parse_semver ''+1.02.0''"
  by code_simp

end
