(* ===== verification/Api_Gates.thy ===== *)
theory Api_Gates
  imports Text_Lines "HOL-Library.List_Lexorder" "HOL-Library.Product_Lexorder"
begin

section \<open>Gates over the API description\<close>

text \<open>
  \<open>src/xtask/src/check_cross_tenant.rs\<close>, \<open>check_snake_case.rs\<close> and \<open>check_api_doc.rs\<close>: every
  project-scoped operation of \<open>openapi.yaml\<close> has a registered cross-tenant test, every property and
  parameter name is snake case, every path has a mention in \<open>API.md\<close>. The parsed YAML is a value of
  \<open>yaml\<close> (tags, which the description does not use, are left out), the parsed manifest a list.
\<close>

subsection \<open>YAML values\<close>

datatype yaml =
    YNull
  | YBool bool
  | YNumber int
  | YString string
  | YSeq "yaml list"
  | YMap "(yaml \<times> yaml) list"

fun yget :: "string \<Rightarrow> yaml \<Rightarrow> yaml option" where
  "yget k (YMap m) = map_of m (YString k)"
| "yget k _ = None"

fun yaml_str :: "yaml \<Rightarrow> string option" where
  "yaml_str (YString s) = Some s"
| "yaml_str _ = None"

fun yaml_mapping :: "yaml \<Rightarrow> (yaml \<times> yaml) list option" where
  "yaml_mapping (YMap m) = Some m"
| "yaml_mapping _ = None"

fun yaml_sequence :: "yaml \<Rightarrow> yaml list option" where
  "yaml_sequence (YSeq xs) = Some xs"
| "yaml_sequence _ = None"

definition mapping_at :: "string \<Rightarrow> yaml \<Rightarrow> (yaml \<times> yaml) list" where
  "mapping_at k v = (case Option.bind (yget k v) yaml_mapping of None \<Rightarrow> [] | Some m \<Rightarrow> m)"

definition sequence_at :: "string \<Rightarrow> yaml \<Rightarrow> yaml list" where
  "sequence_at k v = (case Option.bind (yget k v) yaml_sequence of None \<Rightarrow> [] | Some xs \<Rightarrow> xs)"

text \<open>The entries whose key is a string, as the \<open>let Some(\<dots>) else continue\<close> of the loops keep them.\<close>

definition named :: "(yaml \<times> yaml) list \<Rightarrow> (string \<times> yaml) list" where
  "named m = concat (map (\<lambda>(k, v). case yaml_str k of None \<Rightarrow> [] | Some s \<Rightarrow> [(s, v)]) m)"

lemma yaml_str_Some: "yaml_str k = Some s \<longleftrightarrow> k = YString s" "Some s = yaml_str k \<longleftrightarrow> k = YString s"
  by (cases k; auto)+

lemma set_named: "(s, v) \<in> set (named m) \<longleftrightarrow> (YString s, v) \<in> set m"
  by (induction m) (auto simp: named_def yaml_str_Some split: option.splits)

subsection \<open>Cross-tenant tests\<close>

definition contains :: "string \<Rightarrow> string \<Rightarrow> bool" where
  "contains p s \<longleftrightarrow> find_text p s \<noteq> None"

definition is_project_scoped :: "string \<Rightarrow> bool" where
  "is_project_scoped path \<longleftrightarrow>
     (let prefix = ''/v1/projects/{'' in starts_with prefix path \<and> contains ''}/'' (drop (length prefix) path))"

definition upper :: "string \<Rightarrow> string" where
  "upper = map (\<lambda>c. let n = of_char c :: nat in if 97 \<le> n \<and> n \<le> 122 then char_of (n - 32) else c)"

definition http_methods :: "string list" where
  "http_methods = [''GET'', ''POST'', ''PUT'', ''PATCH'', ''DELETE'']"

definition collect_project_scoped_endpoints :: "yaml \<Rightarrow> (string \<times> string) list" where
  "collect_project_scoped_endpoints spec =
     sort_key (\<lambda>(p, m). (map of_char p :: nat list, map of_char m :: nat list))
       (concat (map (\<lambda>(path, ops).
          if \<not> is_project_scoped path then []
          else map (\<lambda>m. (path, m)) (filter (\<lambda>m. m \<in> set http_methods)
                 (map (\<lambda>(m, _). upper m) (named (case yaml_mapping ops of None \<Rightarrow> [] | Some x \<Rightarrow> x)))))
        (named (mapping_at ''paths'' spec))))"

text \<open>A manifest entry: the path, the method and the name of a test, which nothing reads.\<close>

record manifest_entry =
  me_path :: string
  me_method :: string
  me_test :: string

datatype gate_result = Passed nat | Violations "string list"

text \<open>\<open>run\<close>: no description passes; no manifest is an empty one.\<close>

definition check_cross_tenant :: "yaml option \<Rightarrow> manifest_entry list option \<Rightarrow> gate_result" where
  "check_cross_tenant spec manifest =
     (case spec of
        None \<Rightarrow> Passed 0
      | Some doc \<Rightarrow>
          (let project_scoped = collect_project_scoped_endpoints doc;
               registered = map (\<lambda>e. (me_path e, upper (me_method e))) (case manifest of None \<Rightarrow> [] | Some es \<Rightarrow> es);
               missing = filter (\<lambda>pm. pm \<notin> set registered) project_scoped
           in if missing = [] then Passed (length project_scoped)
              else Violations (map (\<lambda>(p, m). ''  '' @ m @ '' '' @ p) missing)))"

text \<open>The operations of a description, read off its maps.\<close>

definition operation :: "yaml \<Rightarrow> string \<Rightarrow> string \<Rightarrow> bool" where
  "operation spec path method \<longleftrightarrow>
     (\<exists>paths ops m v. yget ''paths'' spec = Some (YMap paths) \<and> (YString path, YMap ops) \<in> set paths
        \<and> (YString m, v) \<in> set ops \<and> method = upper m \<and> method \<in> set http_methods)"

lemma yaml_mapping_Some: "yaml_mapping v = Some m \<longleftrightarrow> v = YMap m"
  by (cases v) auto

lemma set_mapping_at: "x \<in> set (mapping_at k v) \<longleftrightarrow> (\<exists>m. yget k v = Some (YMap m) \<and> x \<in> set m)"
proof (cases "yget k v")
  case (Some a)
  then show ?thesis by (cases a) (auto simp: mapping_at_def)
qed (simp add: mapping_at_def)

lemma set_collect:
  "(path, method) \<in> set (collect_project_scoped_endpoints spec) \<longleftrightarrow> operation spec path method \<and> is_project_scoped path"
proof -
  have "(path, method) \<in> set (collect_project_scoped_endpoints spec) \<longleftrightarrow>
      (\<exists>ops. (path, ops) \<in> set (named (mapping_at ''paths'' spec)) \<and> is_project_scoped path
        \<and> method \<in> set http_methods
        \<and> (\<exists>m v. (m, v) \<in> set (named (case yaml_mapping ops of None \<Rightarrow> [] | Some x \<Rightarrow> x)) \<and> method = upper m))"
    unfolding collect_project_scoped_endpoints_def by (force split: if_splits)
  also have "\<dots> \<longleftrightarrow> operation spec path method \<and> is_project_scoped path"
    unfolding set_named set_mapping_at operation_def
    by (auto simp: yaml_mapping_Some split: option.splits) (metis yaml_mapping_Some option.exhaust)+
  finally show ?thesis .
qed

text \<open>The cross-tenant gate passes a description exactly when every project-scoped operation is registered.\<close>

lemma cross_tenant_passes:
  "check_cross_tenant (Some spec) (Some es) = Passed (length (collect_project_scoped_endpoints spec)) \<longleftrightarrow>
     (\<forall>path method. operation spec path method \<and> is_project_scoped path \<longrightarrow>
        (\<exists>e \<in> set es. me_path e = path \<and> upper (me_method e) = method))"
proof -
  have "check_cross_tenant (Some spec) (Some es) = Passed (length (collect_project_scoped_endpoints spec)) \<longleftrightarrow>
      (\<forall>pm \<in> set (collect_project_scoped_endpoints spec). pm \<in> (\<lambda>e. (me_path e, upper (me_method e))) ` set es)"
    by (auto simp: check_cross_tenant_def Let_def filter_empty_conv)
  also have "\<dots> \<longleftrightarrow> (\<forall>path method. operation spec path method \<and> is_project_scoped path \<longrightarrow>
        (\<exists>e \<in> set es. me_path e = path \<and> upper (me_method e) = method))"
    by (simp add: Ball_def split_paired_All set_collect image_iff) (metis)
  finally show ?thesis .
qed

subsection \<open>Snake case\<close>

definition is_snake_case :: "string \<Rightarrow> bool" where
  "is_snake_case name \<longleftrightarrow>
     \<not> (name = [] \<or> starts_with ''_'' name \<or> last name = CHR ''_'' \<or> contains ''__'' name)
     \<and> list_all (\<lambda>c. let n = of_char c :: nat in 97 \<le> n \<and> n \<le> 122 \<or> is_ascii_digit c \<or> c = CHR ''_'') name"

definition COMBINATORS :: "string list" where
  "COMBINATORS = [''oneOf'', ''anyOf'', ''allOf'']"

definition join :: "(string list \<times> nat) list \<Rightarrow> string list \<times> nat" where
  "join rs = (concat (map fst rs), sum_list (map snd rs))"

lemma entry_size: "(k, v) \<in> set m \<Longrightarrow> size v < size (YMap m)"
proof -
  assume "(k, v) \<in> set m"
  then have "size v \<le> size_list (size_prod size size) m" by (rule size_list_estimation') simp
  then show ?thesis by simp
qed

lemma item_size: "x \<in> set xs \<Longrightarrow> size x < size (YSeq xs)"
proof -
  assume "x \<in> set xs"
  then have "size x \<le> size_list size xs" by (rule size_list_estimation') simp
  then show ?thesis by simp
qed

lemma yget_size: "yget k v = Some x \<Longrightarrow> size x < size v"
  by (cases v) (auto dest!: map_of_SomeD dest: entry_size)

lemma yaml_sequence_Some: "yaml_sequence v = Some xs \<longleftrightarrow> v = YSeq xs"
  by (cases v) auto

lemma set_sequence_at: "x \<in> set (sequence_at k v) \<longleftrightarrow> (\<exists>xs. yget k v = Some (YSeq xs) \<and> x \<in> set xs)"
proof (cases "yget k v")
  case (Some a)
  then show ?thesis by (cases a) (auto simp: sequence_at_def)
qed (simp add: sequence_at_def)

lemma mapping_size: "(s, x) \<in> set (named (mapping_at k v)) \<Longrightarrow> size x < size v"
  by (auto simp: set_named set_mapping_at dest!: yget_size dest: entry_size)

lemma sequence_size: "x \<in> set (sequence_at k v) \<Longrightarrow> size x < size v"
  by (auto simp: set_sequence_at dest!: yget_size dest: item_size)

text \<open>
  The walk returns the violations it pushes and the names it counts, in the order of the code:
  the properties and what is below them, the items, the alternatives.
\<close>

function walk_properties :: "yaml \<Rightarrow> string \<Rightarrow> string list \<times> nat" where
  "walk_properties node loc =
     join
       (map (\<lambda>(name, sub).
          join [(if is_snake_case name then [] else [''  '' @ loc @ '': property `'' @ name @ ''` is not snake_case''], 1),
                walk_properties sub (loc @ ''.'' @ name)]) (named (mapping_at ''properties'' node))
        @ (case yget ''items'' node of None \<Rightarrow> [] | Some items \<Rightarrow> [walk_properties items (loc @ ''[]'')])
        @ concat (map (\<lambda>c.
            map (\<lambda>(i, sub). walk_properties sub (loc @ ''.'' @ c @ ''['' @ show_nat i @ '']''))
              (List.enumerate 0 (sequence_at c node))) COMBINATORS))"
  by pat_completeness auto
termination
  by (relation "measure (size \<circ> fst)")
    (auto dest: mapping_size yget_size intro: sequence_size [OF nth_mem] simp: in_set_enumerate_eq)

declare walk_properties.simps [simp del]

text \<open>The parameters of an operation that travel neither in the path nor in a header.\<close>

definition parameter_names :: "yaml \<Rightarrow> string list" where
  "parameter_names op =
     concat (map (\<lambda>param.
       let kind = (case Option.bind (yget ''in'' param) yaml_str of None \<Rightarrow> [] | Some s \<Rightarrow> s) in
       if kind = ''path'' \<or> kind = ''header'' then []
       else (case Option.bind (yget ''name'' param) yaml_str of None \<Rightarrow> [] | Some n \<Rightarrow> [n]))
     (sequence_at ''parameters'' op))"

definition key_or_mark :: "yaml \<Rightarrow> string" where
  "key_or_mark k = (case yaml_str k of None \<Rightarrow> ''?'' | Some s \<Rightarrow> s)"

definition check_parameters :: "yaml \<Rightarrow> string list \<times> nat" where
  "check_parameters spec =
     join (concat (map (\<lambda>(path_key, path_item).
       concat (map (\<lambda>(method, op).
         map (\<lambda>name. (if is_snake_case name then []
                     else [''  '' @ key_or_mark path_key @ '' '' @ key_or_mark method @ '': parameter `'' @ name @ ''` is not snake_case''], 1))
           (parameter_names op))
        (case yaml_mapping path_item of None \<Rightarrow> [] | Some ops \<Rightarrow> ops)))
      (mapping_at ''paths'' spec)))"

definition schemas_of :: "yaml \<Rightarrow> (yaml \<times> yaml) list" where
  "schemas_of spec = (case yget ''components'' spec of None \<Rightarrow> [] | Some c \<Rightarrow> mapping_at ''schemas'' c)"

definition check_snake_case :: "yaml \<Rightarrow> gate_result" where
  "check_snake_case spec =
     (let (bad_props, props) = join (map (\<lambda>(k, schema). walk_properties schema (key_or_mark k)) (schemas_of spec));
          (bad_params, params) = check_parameters spec
      in if bad_props @ bad_params = [] then Passed (props + params) else Violations (bad_props @ bad_params))"

text \<open>The property names of a schema, at any depth the walk knows.\<close>

inductive property_name :: "yaml \<Rightarrow> string \<Rightarrow> bool" where
  here: "(YString n, sub) \<in> set (mapping_at ''properties'' node) \<Longrightarrow> property_name node n"
| below: "(YString m, sub) \<in> set (mapping_at ''properties'' node) \<Longrightarrow> property_name sub n \<Longrightarrow> property_name node n"
| items: "yget ''items'' node = Some sub \<Longrightarrow> property_name sub n \<Longrightarrow> property_name node n"
| alternative: "c \<in> set COMBINATORS \<Longrightarrow> sub \<in> set (sequence_at c node) \<Longrightarrow> property_name sub n \<Longrightarrow> property_name node n"

lemma fst_join_Nil: "fst (join rs) = [] \<longleftrightarrow> (\<forall>r \<in> set rs. fst r = [])"
  by (auto simp: join_def)

lemma property_name_iff:
  "property_name node n \<longleftrightarrow>
     (\<exists>m sub. (YString m, sub) \<in> set (mapping_at ''properties'' node) \<and> (m = n \<or> property_name sub n))
     \<or> (\<exists>sub. yget ''items'' node = Some sub \<and> property_name sub n)
     \<or> (\<exists>c \<in> set COMBINATORS. \<exists>sub \<in> set (sequence_at c node). property_name sub n)"
  (is "?L \<longleftrightarrow> ?R")
proof
  assume ?L then show ?R by (cases rule: property_name.cases) blast+
next
  assume ?R then show ?L by (blast intro: property_name.intros)
qed

lemma ball_map_pairs: "(\<forall>r \<in> set (map (\<lambda>(a, b). F a b) xs). P r) \<longleftrightarrow> (\<forall>a b. (a, b) \<in> set xs \<longrightarrow> P (F a b))"
  by (induction xs) auto

lemma ball_concat: "(\<forall>r \<in> set (concat (map F xs)). P r) \<longleftrightarrow> (\<forall>c \<in> set xs. \<forall>r \<in> set (F c). P r)"
  by (induction xs) auto

lemma ball_concat_pairs:
  "(\<forall>r \<in> set (concat (map (\<lambda>(a, b). F a b) xs)). P r) \<longleftrightarrow> (\<forall>a b. (a, b) \<in> set xs \<longrightarrow> (\<forall>r \<in> set (F a b). P r))"
  by (induction xs) auto

lemma walk_clean: "fst (walk_properties node loc) = [] \<longleftrightarrow> (\<forall>n. property_name node n \<longrightarrow> is_snake_case n)"
proof (induction node loc rule: walk_properties.induct)
  case (1 node loc)
  have props: "(\<forall>r \<in> set (map (\<lambda>(name, sub).
          join [(if is_snake_case name then [] else [''  '' @ loc @ '': property `'' @ name @ ''` is not snake_case''], 1),
                walk_properties sub (loc @ ''.'' @ name)]) (named (mapping_at ''properties'' node))). fst r = [])
     \<longleftrightarrow> (\<forall>m sub. (YString m, sub) \<in> set (mapping_at ''properties'' node) \<longrightarrow>
            is_snake_case m \<and> (\<forall>n. property_name sub n \<longrightarrow> is_snake_case n))"
    unfolding ball_map_pairs set_named
  proof (intro iff_allI imp_cong refl, goal_cases)
    case (1 m sub)
    then show ?case using "1.IH"(1) [of "(m, sub)" m sub] by (simp add: fst_join_Nil set_named)
  qed
  have items: "(\<forall>r \<in> set (case yget ''items'' node of None \<Rightarrow> [] | Some items \<Rightarrow> [walk_properties items (loc @ ''[]'')]). fst r = [])
     \<longleftrightarrow> (\<forall>sub. yget ''items'' node = Some sub \<longrightarrow> (\<forall>n. property_name sub n \<longrightarrow> is_snake_case n))"
    using 1(2) by (cases "yget ''items'' node") simp_all
  have alts: "(\<forall>r \<in> set (concat (map (\<lambda>c.
            map (\<lambda>(i, sub). walk_properties sub (loc @ ''.'' @ c @ ''['' @ show_nat i @ '']''))
              (List.enumerate 0 (sequence_at c node))) COMBINATORS)). fst r = [])
     \<longleftrightarrow> (\<forall>c \<in> set COMBINATORS. \<forall>sub \<in> set (sequence_at c node). \<forall>n. property_name sub n \<longrightarrow> is_snake_case n)"
  proof -
    have alt: "(\<forall>r \<in> set (map (\<lambda>(i, sub). walk_properties sub (loc @ ''.'' @ c @ ''['' @ show_nat i @ '']''))
        (List.enumerate 0 (sequence_at c node))). fst r = [])
      \<longleftrightarrow> (\<forall>sub \<in> set (sequence_at c node). \<forall>n. property_name sub n \<longrightarrow> is_snake_case n)" if c: "c \<in> set COMBINATORS" for c
    proof -
      have mem: "sub \<in> set xs \<longleftrightarrow> (\<exists>i. (i, sub) \<in> set (List.enumerate 0 xs))" for sub and xs :: "yaml list"
        by (auto simp: in_set_enumerate_eq in_set_conv_nth [of sub xs])
      have "fst (walk_properties sub (loc @ ''.'' @ c @ ''['' @ show_nat i @ '']'')) = []
          \<longleftrightarrow> (\<forall>n. property_name sub n \<longrightarrow> is_snake_case n)"
        if "(i, sub) \<in> set (List.enumerate 0 (sequence_at c node))" for i sub
        using 1(3) [OF c that refl] by simp
      then show ?thesis unfolding ball_map_pairs unfolding Ball_def mem by blast
    qed
    show ?thesis unfolding ball_concat by (rule ball_cong [OF refl]) (rule alt)
  qed
  show ?case
    unfolding walk_properties.simps [of node loc] fst_join_Nil set_append ball_Un props items alts
    by (subst property_name_iff) blast
qed

text \<open>The gate passes exactly when every name it looks at is snake case.\<close>

lemma snake_case_passes:
  "(\<exists>n. check_snake_case spec = Passed n) \<longleftrightarrow>
     (\<forall>k schema. (k, schema) \<in> set (schemas_of spec) \<longrightarrow> (\<forall>n. property_name schema n \<longrightarrow> is_snake_case n))
     \<and> (\<forall>path ops m op. (path, YMap ops) \<in> set (mapping_at ''paths'' spec) \<longrightarrow> (m, op) \<in> set ops \<longrightarrow>
          (\<forall>n \<in> set (parameter_names op). is_snake_case n))"
proof -
  have "(\<exists>n. check_snake_case spec = Passed n) \<longleftrightarrow>
      fst (join (map (\<lambda>(k, schema). walk_properties schema (key_or_mark k)) (schemas_of spec))) = []
      \<and> fst (check_parameters spec) = []"
    by (auto simp: check_snake_case_def split: prod.splits)
  moreover have "fst (join (map (\<lambda>(k, schema). walk_properties schema (key_or_mark k)) (schemas_of spec))) = []
      \<longleftrightarrow> (\<forall>k schema. (k, schema) \<in> set (schemas_of spec) \<longrightarrow> (\<forall>n. property_name schema n \<longrightarrow> is_snake_case n))"
    by (auto simp: fst_join_Nil walk_clean)
  moreover have "fst (check_parameters spec) = [] \<longleftrightarrow>
      (\<forall>path ops m op. (path, YMap ops) \<in> set (mapping_at ''paths'' spec) \<longrightarrow> (m, op) \<in> set ops \<longrightarrow>
          (\<forall>n \<in> set (parameter_names op). is_snake_case n))"
  proof -
    have entry: "fst (if is_snake_case name then [] else [v], k) = [] \<longleftrightarrow> is_snake_case name" for name v and k :: nat by simp
    have ops: "(\<forall>a b. (a, b) \<in> set (case yaml_mapping v of None \<Rightarrow> [] | Some ops \<Rightarrow> ops) \<longrightarrow> Q a b) \<longleftrightarrow>
        (\<forall>ops. v = YMap ops \<longrightarrow> (\<forall>a b. (a, b) \<in> set ops \<longrightarrow> Q a b))" for v Q
      by (cases v) auto
    show ?thesis
      unfolding check_parameters_def fst_join_Nil ball_concat_pairs ops set_map ball_simps entry by blast
  qed
  ultimately show ?thesis by simp
qed

subsection \<open>Documented paths\<close>

text \<open>\<open>normalize\<close>: every parameter, from an opening brace to the next closing one, becomes \<open>{}\<close>.\<close>

function normalize :: "string \<Rightarrow> string" where
  "normalize [] = []"
| "normalize (c # s) =
     (if c = CHR ''{'' \<and> CHR ''}'' \<in> set s then ''{}'' @ normalize (tl (dropWhile (\<lambda>x. x \<noteq> CHR ''}'') s))
      else c # normalize s)"
  by pat_completeness auto
termination
proof (relation "measure length", goal_cases)
  case (2 c s)
  have "length (tl (dropWhile (\<lambda>x. x \<noteq> CHR ''}'') s)) \<le> length s"
    using length_dropWhile_le [of "\<lambda>x. x \<noteq> CHR ''}''" s] by simp
  then show ?case by simp
qed auto

definition tick :: string where "tick = [CHR 0x60]"

lemma split_once_tick: "split_once tick s = Some (a, b) \<Longrightarrow> length b < length s"
proof (induction s arbitrary: a b)
  case (Cons c s)
  show ?case
  proof (cases "starts_with tick (c # s)")
    case True with Cons.prems show ?thesis by (auto simp: tick_def)
  next
    case False
    with Cons.prems obtain a' where "split_once tick s = Some (a', b)" by auto
    from Cons.IH [OF this] show ?thesis by simp
  qed
qed (simp add: tick_def)

definition split_whitespace :: "string \<Rightarrow> string list" where
  "split_whitespace s = filter (\<lambda>w. w \<noteq> []) (split_chars {c. is_space c} s)"

text \<open>The words that start with a slash between pairs of backticks.\<close>

function ticked_paths :: "string \<Rightarrow> string list" where
  "ticked_paths rest =
     (case split_once tick rest of
        None \<Rightarrow> []
      | Some (_, after) \<Rightarrow>
          (case split_once tick after of
             None \<Rightarrow> []
           | Some (inside, rest') \<Rightarrow> filter (starts_with ''/'') (split_whitespace inside) @ ticked_paths rest'))"
  by pat_completeness auto
termination
  by (relation "measure length") (auto dest!: split_once_tick)

declare ticked_paths.simps [simp del]

definition collect_documented_paths :: "string \<Rightarrow> string list" where
  "collect_documented_paths text = concat (map ticked_paths (lines text))"

definition collect_spec_paths :: "yaml \<Rightarrow> string list option" where
  "collect_spec_paths spec =
     (case Option.bind (yget ''paths'' spec) yaml_mapping of
        None \<Rightarrow> None
      | Some m \<Rightarrow> Some (sort_key (map of_char :: _ \<Rightarrow> nat list) (map fst (named m))))"

definition check_api_doc :: "yaml \<Rightarrow> string \<Rightarrow> gate_result option" where
  "check_api_doc spec text =
     (case collect_spec_paths spec of
        None \<Rightarrow> None
      | Some paths \<Rightarrow>
          (let documented = map normalize (collect_documented_paths text);
               undocumented = filter (\<lambda>p. normalize p \<notin> set documented) paths
           in Some (if undocumented = [] then Passed (length paths)
                    else Violations (map (\<lambda>p. ''  spec path not documented in API.md: '' @ p) undocumented))))"

lemma api_doc_passes:
  "(\<exists>n. check_api_doc spec text = Some (Passed n)) \<longleftrightarrow>
     (\<exists>paths. yget ''paths'' spec = Some (YMap paths)
        \<and> (\<forall>p v. (YString p, v) \<in> set paths \<longrightarrow> normalize p \<in> normalize ` set (collect_documented_paths text)))"
proof (cases "Option.bind (yget ''paths'' spec) yaml_mapping")
  case None
  then show ?thesis
    by (auto simp: check_api_doc_def collect_spec_paths_def)
next
  case (Some m)
  then have m: "yget ''paths'' spec = Some (YMap m)" by (auto simp: bind_eq_Some_conv yaml_mapping_Some)
  have "(\<exists>n. check_api_doc spec text = Some (Passed n)) \<longleftrightarrow>
      (\<forall>p \<in> fst ` set (named m). normalize p \<in> normalize ` set (collect_documented_paths text))"
    using Some by (auto simp: check_api_doc_def collect_spec_paths_def Let_def filter_empty_conv)
  also have "\<dots> \<longleftrightarrow> (\<forall>p v. (YString p, v) \<in> set m \<longrightarrow> normalize p \<in> normalize ` set (collect_documented_paths text))"
    by (auto simp: set_named [symmetric])
  finally show ?thesis using m by simp
qed

text \<open>Paths that differ in the names of their parameters only are one path to the gate.\<close>

lemma normalize_plain: "CHR ''{'' \<notin> set s \<Longrightarrow> normalize s = s"
  by (induction s) auto

lemma normalize_prefix: "CHR ''{'' \<notin> set a \<Longrightarrow> normalize (a @ s) = a @ normalize s"
  by (induction a) auto

lemma normalize_parameter:
  assumes "CHR ''{'' \<notin> set a" "CHR ''}'' \<notin> set x"
  shows "normalize (a @ ''{'' @ x @ ''}'' @ s) = a @ ''{}'' @ normalize s"
proof -
  have "dropWhile (\<lambda>c. c \<noteq> CHR ''}'') (x @ ''}'' @ s) = ''}'' @ s" using assms(2) by (induction x) auto
  with assms(1) show ?thesis by (simp add: normalize_prefix)
qed

subsection \<open>Properties\<close>

text \<open>
  What the three gates over the API description accept. The cross-tenant gate passes exactly when
  every operation under a project path is registered with its path and method; the snake-case gate
  exactly when every property name a schema of the components reaches and every query parameter is
  snake case; the documentation gate exactly when every path occurs between backticks in \<open>API.md\<close>,
  up to the names of the parameters.
\<close>

theorem api_gates_exact:
  "(check_cross_tenant (Some spec) (Some es) = Passed (length (collect_project_scoped_endpoints spec)) \<longleftrightarrow>
      (\<forall>path method. operation spec path method \<and> is_project_scoped path \<longrightarrow>
         (\<exists>e \<in> set es. me_path e = path \<and> upper (me_method e) = method)))
   \<and> ((\<exists>n. check_snake_case spec = Passed n) \<longleftrightarrow>
      (\<forall>k schema. (k, schema) \<in> set (schemas_of spec) \<longrightarrow> (\<forall>n. property_name schema n \<longrightarrow> is_snake_case n))
      \<and> (\<forall>path ops m op. (path, YMap ops) \<in> set (mapping_at ''paths'' spec) \<longrightarrow> (m, op) \<in> set ops \<longrightarrow>
           (\<forall>n \<in> set (parameter_names op). is_snake_case n)))
   \<and> ((\<exists>n. check_api_doc spec text = Some (Passed n)) \<longleftrightarrow>
      (\<exists>paths. yget ''paths'' spec = Some (YMap paths)
         \<and> (\<forall>p v. (YString p, v) \<in> set paths \<longrightarrow> normalize p \<in> normalize ` set (collect_documented_paths text))))"
  by (intro conjI cross_tenant_passes snake_case_passes api_doc_passes)

definition sample_spec :: yaml where
  "sample_spec =
     YMap [(YString ''paths'', YMap [(YString ''/v1/projects/{p}/ads'', YMap [(YString ''get'', YMap [])])]),
           (YString ''components'', YMap [(YString ''schemas'', YMap [(YString ''Ad'',
              YMap [(YString ''properties'', YMap [(YString ''ad_id'', YNull)])])])])]"

definition sample_entry :: manifest_entry where
  "sample_entry = \<lparr>me_path = ''/v1/projects/{p}/ads'', me_method = ''get'', me_test = ''no_such_test''\<rparr>"

theorem api_gates_exact_witness:
  "check_cross_tenant (Some sample_spec) (Some [sample_entry]) = Passed 1
   \<and> (\<forall>path method. operation sample_spec path method \<and> is_project_scoped path \<longrightarrow>
         path = ''/v1/projects/{p}/ads'' \<and> method = ''GET'')
   \<and> (\<exists>n. check_snake_case sample_spec = Passed n)
   \<and> ''/v1/projects/{}/ads'' \<in> normalize ` set (collect_documented_paths (''see '' @ tick @ ''GET /v1/projects/{q}/ads'' @ tick))"
proof -
  let ?text = "''see '' @ tick @ ''GET /v1/projects/{q}/ads'' @ tick"
  have 1: "check_cross_tenant (Some sample_spec) (Some [sample_entry]) = Passed 1"
    "length (collect_project_scoped_endpoints sample_spec) = 1" by code_simp+
  have leaf: "\<not> property_name YNull n" for n
    by (subst property_name_iff) (simp add: mapping_at_def sequence_at_def)
  have names: "property_name (YMap [(YString ''properties'', YMap [(YString ''ad_id'', YNull)])]) n \<Longrightarrow> n = ''ad_id''" for n
    by (subst (asm) property_name_iff) (auto simp: mapping_at_def sequence_at_def COMBINATORS_def leaf)
  have ad_id: "is_snake_case ''ad_id''" by code_simp
  have 3: "check_api_doc sample_spec ?text = Some (Passed 1)" by code_simp
  have p: "normalize ''/v1/projects/{p}/ads'' = ''/v1/projects/{}/ads''" by code_simp
  have paths: "yget ''paths'' sample_spec = Some (YMap [(YString ''/v1/projects/{p}/ads'', YMap [(YString ''get'', YMap [])])])"
    by (simp add: sample_spec_def)
  have schemas: "schemas_of sample_spec = [(YString ''Ad'', YMap [(YString ''properties'', YMap [(YString ''ad_id'', YNull)])])]"
    by (simp add: schemas_of_def sample_spec_def mapping_at_def)
  have upper: "upper ''get'' = ''GET''" by code_simp
  note exact = api_gates_exact [of sample_spec "[sample_entry]" ?text]
  from exact [THEN conjunct1] 1 have a: "\<forall>path method. operation sample_spec path method \<and> is_project_scoped path \<longrightarrow>
      path = ''/v1/projects/{p}/ads'' \<and> method = ''GET''"
    by (auto simp: sample_entry_def upper)
  have "\<forall>n \<in> set (parameter_names (YMap [])). is_snake_case n"
    by (simp add: parameter_names_def sequence_at_def)
  with exact [THEN conjunct2, THEN conjunct1] schemas names ad_id paths
  have b: "\<exists>n. check_snake_case sample_spec = Passed n"
    by (auto simp: mapping_at_def)
  from exact [THEN conjunct2, THEN conjunct2] 3 paths p have c: "''/v1/projects/{}/ads'' \<in> normalize ` set (collect_documented_paths ?text)"
    by auto
  from 1(1) a b c show ?thesis by blast
qed

text \<open>The test an entry names need not exist.\<close>

theorem registered_test_unread:
  "check_cross_tenant spec (Some (map (\<lambda>e. e\<lparr>me_test := t\<rparr>) es)) = check_cross_tenant spec (Some es)"
  by (simp add: check_cross_tenant_def comp_def split: option.split)

end
