(* ===== verification/Bench_Host.thy ===== *)
theory Bench_Host
  imports Text_Lines Json_Values
begin

section \<open>What a benchmark ran on\<close>

text \<open>
  \<open>src/xtask/src/bench_env.rs\<close>: the fingerprint of the host a benchmark was captured on. The files
  of \<open>/proc\<close> and \<open>/sys\<close> and the output of the programs it starts are parameters. Floats are a type
  \<open>'f\<close> with the operations the code applies to them.
\<close>

record 'f floats =
  fl_of_int :: "int \<Rightarrow> 'f"
  fl_of_text :: "string \<Rightarrow> 'f option"
  fl_max :: "'f \<Rightarrow> 'f \<Rightarrow> 'f"
  fl_sub :: "'f \<Rightarrow> 'f \<Rightarrow> 'f"
  fl_div :: "'f \<Rightarrow> 'f \<Rightarrow> 'f"
  fl_mul :: "'f \<Rightarrow> 'f \<Rightarrow> 'f"
  fl_abs :: "'f \<Rightarrow> 'f"
  fl_less :: "'f \<Rightarrow> 'f \<Rightarrow> bool"
  fl_eq :: "'f \<Rightarrow> 'f \<Rightarrow> bool"
  fl_json :: "'f \<Rightarrow> json"

text \<open>
  The host: the text of a file, and what a program printed if it could be started and printed UTF-8.
  The code looks at no exit status.
\<close>

record host =
  ho_file :: "string \<Rightarrow> string option"
  ho_output :: "string list \<Rightarrow> string option"

definition text_or_empty :: "string option \<Rightarrow> string" where
  "text_or_empty x = (case x of None \<Rightarrow> [] | Some s \<Rightarrow> s)"

definition read_trim :: "host \<Rightarrow> string \<Rightarrow> string" where
  "read_trim h path = text_or_empty (map_option trim (ho_file h path))"

definition output_trim :: "host \<Rightarrow> string list \<Rightarrow> string" where
  "output_trim h cmd = text_or_empty (map_option trim (ho_output h cmd))"

definition now_utc :: "host \<Rightarrow> string" where
  "now_utc h = output_trim h [''date'', ''-u'', ''+%Y-%m-%dT%H:%M:%SZ'']"

text \<open>The rest of the first line that starts with a key.\<close>

fun first_value :: "string \<Rightarrow> string list \<Rightarrow> string option" where
  "first_value key [] = None"
| "first_value key (l # ls) = (case strip_prefix key l of Some rest \<Rightarrow> Some rest | None \<Rightarrow> first_value key ls)"

definition colon_blank :: "char \<Rightarrow> bool" where
  "colon_blank c \<longleftrightarrow> c = CHR '':'' \<or> c = CHR '' '' \<or> c = CHR 0x09"

definition os_release :: "host \<Rightarrow> string" where
  "os_release h =
     (let s = read_trim h ''/etc/os-release''
      in case first_value ''PRETTY_NAME='' (lines s) of
           Some rest \<Rightarrow> trim_matches (\<lambda>c. c = CHR 0x22) rest
         | None \<Rightarrow> s)"

definition cpu_model :: "host \<Rightarrow> string" where
  "cpu_model h =
     text_or_empty (map_option (dropWhile colon_blank) (first_value ''model name'' (lines (read_trim h ''/proc/cpuinfo''))))"

definition cpu_cores_logical :: "host \<Rightarrow> nat" where
  "cpu_cores_logical h = length (filter (starts_with ''processor'') (lines (read_trim h ''/proc/cpuinfo'')))"

definition cpu_mhz_max :: "'f floats \<Rightarrow> host \<Rightarrow> 'f" where
  "cpu_mhz_max fl h =
     foldl (fl_max fl) (fl_of_int fl 0)
       (List.map_filter (\<lambda>rest. fl_of_text fl (dropWhile colon_blank rest))
         (List.map_filter (strip_prefix ''cpu MHz'') (lines (read_trim h ''/proc/cpuinfo''))))"

definition parse_u64 :: "string \<Rightarrow> nat option" where
  "parse_u64 s = (if starts_with ''-'' s then None else map_option nat (parse_int 0 (2 ^ 64 - 1) s))"

definition blank_words :: "string \<Rightarrow> string list" where
  "blank_words s = filter (\<lambda>w. w \<noteq> []) (split_chars {c. is_space c} s)"

definition mem_total_kb :: "host \<Rightarrow> nat" where
  "mem_total_kb h =
     (case first_value ''MemTotal:'' (lines (read_trim h ''/proc/meminfo'')) of
        None \<Rightarrow> 0
      | Some rest \<Rightarrow>
          (case blank_words rest of
             [] \<Rightarrow> 0
           | n # _ \<Rightarrow> (case parse_u64 n of None \<Rightarrow> 0 | Some kb \<Rightarrow> kb)))"

text \<open>The keys stand in the order of the \<open>BTreeMap\<close>.\<close>

definition collect_env :: "'f floats \<Rightarrow> host \<Rightarrow> json" where
  "collect_env fl h =
     JObj [(''captured_at_utc'', JStr (now_utc h)),
           (''container'',
              JObj [(''cgroup_v2_cpu_max'', JStr (read_trim h ''/sys/fs/cgroup/cpu.max'')),
                    (''cgroup_v2_memory_max'', JStr (read_trim h ''/sys/fs/cgroup/memory.max''))]),
           (''cpu_cores_logical'', JInt (int (cpu_cores_logical h))),
           (''cpu_governor'', JStr (read_trim h ''/sys/devices/system/cpu/cpu0/cpufreq/scaling_governor'')),
           (''cpu_mhz_max'', fl_json fl (cpu_mhz_max fl h)),
           (''cpu_model'', JStr (cpu_model h)),
           (''hostname'', JStr (output_trim h [''hostname''])),
           (''kernel'', JStr (output_trim h [''uname'', ''-r''])),
           (''mem_total_kb'', JInt (int (mem_total_kb h))),
           (''os_release'', JStr (os_release h)),
           (''rustc'', JStr (output_trim h [''rustc'', ''-V'']))]"

end
