(* ===== verification/Doc_Fences.thy ===== *)
theory Doc_Fences
  imports Text_Lines
begin

section \<open>Code blocks of the documentation\<close>

text \<open>
  \<open>src/xtask/src/check_doc_fences.rs\<close>: every fenced block of every Markdown file that is tagged as
  Rust, YAML or JSON has to parse. The parsers are parameters; the directory is a tree.
\<close>

record fenced_block =
  fb_lang :: "string option"
  fb_ignored :: bool
  fb_start_line :: nat
  fb_body :: string

definition fence :: string where "fence = replicate 3 (CHR 0x60)"

definition is_fence :: "string \<Rightarrow> bool" where
  "is_fence line \<longleftrightarrow> starts_with fence (trim_start line)"

definition ascii_lower :: "string \<Rightarrow> string" where
  "ascii_lower = map (\<lambda>c. let n = of_char c :: nat in if 65 \<le> n \<and> n \<le> 90 then char_of (n + 32) else c)"

text \<open>The text after the backticks: the language, then modifiers.\<close>

definition fence_info :: "string \<Rightarrow> string option \<times> bool" where
  "fence_info line =
     (let info = trim (dropWhile (\<lambda>c. c = CHR 0x60) (trim_start line));
          parts = map trim (split_chars {CHR '',''} info);
          lang_raw = (case parts of [] \<Rightarrow> [] | p # _ \<Rightarrow> p)
      in (if lang_raw = [] then None else Some lang_raw,
          list_ex (\<lambda>m. ascii_lower m = ''ignore'') (tl parts)))"

text \<open>The lines up to the closing fence, and what follows it.\<close>

fun take_body :: "(nat \<times> string) list \<Rightarrow> (string list \<times> (nat \<times> string) list) option" where
  "take_body [] = None"
| "take_body ((i, line) # ls) =
     (if is_fence line then Some ([], ls)
      else map_option (\<lambda>(body, rest). (line # body, rest)) (take_body ls))"

lemma take_body_length: "take_body ls = Some (body, rest) \<Longrightarrow> length rest < length ls"
  by (induction ls arbitrary: body rest rule: take_body.induct) (force split: if_splits)+

text \<open>The blocks of the numbered lines, or the line of an unclosed fence.\<close>

function extract_blocks :: "(nat \<times> string) list \<Rightarrow> nat + fenced_block list" where
  "extract_blocks [] = Inr []"
| "extract_blocks ((idx, line) # ls) =
     (if \<not> is_fence line then extract_blocks ls
      else (case take_body ls of
              None \<Rightarrow> Inl (idx + 1)
            | Some (body, rest) \<Rightarrow>
                map_sum id (Cons \<lparr>fb_lang = fst (fence_info line), fb_ignored = snd (fence_info line),
                                  fb_start_line = idx + 1, fb_body = unlines body\<rparr>)
                  (extract_blocks rest)))"
  by pat_completeness auto
termination
  by (relation "measure length") (auto dest!: take_body_length)

definition extract_fenced_blocks :: "string \<Rightarrow> nat + fenced_block list" where
  "extract_fenced_blocks content = extract_blocks (List.enumerate 0 (lines content))"

subsection \<open>The walk\<close>

datatype entry =
    File string string
  | Dir string "entry list"

definition SKIP_DIRS :: "string list" where
  "SKIP_DIRS = [''.git'', ''target'', ''node_modules'', ''knievel-ruby'', ''tmp'', ''vendor'']"

definition is_md :: "string \<Rightarrow> bool" where
  "is_md name \<longleftrightarrow> length name > 3 \<and> drop (length name - 3) name = ''.md''"

text \<open>The Markdown files below an entry, with their paths; an entry with a skipped name is left out.\<close>

fun md_files :: "string \<Rightarrow> entry \<Rightarrow> (string \<times> string) list" where
  "md_files path (File name text) =
     (if name \<in> set SKIP_DIRS \<or> \<not> is_md name then [] else [(path @ ''/'' @ name, text)])"
| "md_files path (Dir name es) =
     (if name \<in> set SKIP_DIRS then [] else concat (map (md_files (path @ ''/'' @ name)) es))"

record parsers =
  pa_rust :: "string \<Rightarrow> bool"
  pa_yaml :: "string \<Rightarrow> bool"
  pa_json :: "string \<Rightarrow> bool"

datatype block_result = Checked | Skipped | BadBlock string nat string

definition check_block :: "parsers \<Rightarrow> string \<Rightarrow> fenced_block \<Rightarrow> block_result" where
  "check_block p path b =
     (let judge = (\<lambda>lang ok. if ok (fb_body b) then Checked else BadBlock path (fb_start_line b) lang) in
      if fb_ignored b then Skipped
      else if fb_lang b = Some ''rust'' then judge ''rust'' (pa_rust p)
      else if fb_lang b = Some ''yaml'' \<or> fb_lang b = Some ''yml'' then judge ''yaml'' (pa_yaml p)
      else if fb_lang b = Some ''json'' then judge ''json'' (pa_json p)
      else Skipped)"

datatype fences_result =
    Clean nat nat
  | BadBlocks "block_result list"
  | Unclosed string nat

fun collect_results :: "parsers \<Rightarrow> (string \<times> string) list \<Rightarrow> (string \<times> nat) + block_result list" where
  "collect_results p [] = Inr []"
| "collect_results p ((path, text) # fs) =
     (case extract_fenced_blocks text of
        Inl n \<Rightarrow> Inl (path, n)
      | Inr bs \<Rightarrow> map_sum id ((@) (map (check_block p path) bs)) (collect_results p fs))"

definition check_doc_fences :: "parsers \<Rightarrow> entry list \<Rightarrow> fences_result" where
  "check_doc_fences p tree =
     (case collect_results p (concat (map (md_files ''.'') tree)) of
        Inl (path, n) \<Rightarrow> Unclosed path n
      | Inr rs \<Rightarrow>
          (let errors = filter (\<lambda>r. r \<noteq> Checked \<and> r \<noteq> Skipped) rs
           in if errors = [] then Clean (length (filter (\<lambda>r. r = Checked) rs)) (length (filter (\<lambda>r. r = Skipped) rs))
              else BadBlocks errors))"

subsection \<open>Reading back a document\<close>

datatype doc_piece =
    Prose string
  | Block string "string list"

fun piece_lines :: "doc_piece \<Rightarrow> string list" where
  "piece_lines (Prose l) = [l]"
| "piece_lines (Block info body) = (fence @ info) # body @ [fence]"

fun plain_piece :: "doc_piece \<Rightarrow> bool" where
  "plain_piece (Prose l) \<longleftrightarrow> plain_line l \<and> \<not> is_fence l"
| "plain_piece (Block info body) \<longleftrightarrow> plain_line info \<and> (\<forall>l \<in> set body. plain_line l \<and> \<not> is_fence l)"

fun blocks_of :: "nat \<Rightarrow> doc_piece list \<Rightarrow> fenced_block list" where
  "blocks_of n [] = []"
| "blocks_of n (Prose l # ps) = blocks_of (n + 1) ps"
| "blocks_of n (Block info body # ps) =
     \<lparr>fb_lang = fst (fence_info (fence @ info)), fb_ignored = snd (fence_info (fence @ info)),
      fb_start_line = n + 1, fb_body = unlines body\<rparr> # blocks_of (n + length body + 2) ps"

lemma is_fence_fence: "is_fence (fence @ info)"
  by (simp add: is_fence_def trim_start_def fence_def is_space_def starts_with_def eval_nat_numeral)

lemma take_body_block:
  "\<forall>l \<in> set body. \<not> is_fence l \<Longrightarrow>
   take_body (List.enumerate n (body @ fence # rest)) = Some (body, List.enumerate (n + length body + 1) rest)"
  using is_fence_fence [of "[]"] by (induction body arbitrary: n) auto

lemma extract_blocks_of:
  "\<forall>p \<in> set ps. plain_piece p \<Longrightarrow>
   extract_blocks (List.enumerate n (concat (map piece_lines ps))) = Inr (blocks_of n ps)"
proof (induction n ps rule: blocks_of.induct)
  case (3 n info body ps)
  then have "take_body (List.enumerate (Suc n) (body @ fence # concat (map piece_lines ps)))
      = Some (body, List.enumerate (Suc n + length body + 1) (concat (map piece_lines ps)))"
    by (intro take_body_block) auto
  with 3 is_fence_fence [of info] show ?case by simp
qed auto

text \<open>A document written as prose and blocks is read as those blocks, at their lines.\<close>

theorem fences_read_back:
  assumes "\<forall>p \<in> set ps. plain_piece p"
  shows "extract_fenced_blocks (unlines (concat (map piece_lines ps))) = Inr (blocks_of 0 ps)"
proof -
  have fence: "plain_line (fence @ info)" if "plain_line info" for info
    using that by (cases "info = []") (auto simp: plain_line_def fence_def LF_def CR_def)
  have "\<forall>l \<in> set (piece_lines p). plain_line l" if "plain_piece p" for p
    using that fence [of "[]"] fence by (cases p) (auto simp: plain_line_def)
  with assms have "\<forall>l \<in> set (concat (map piece_lines ps)). plain_line l" by auto
  with extract_blocks_of [OF assms, of 0] show ?thesis
    by (simp add: extract_fenced_blocks_def lines_unlines)
qed

theorem fences_read_back_witness:
  "extract_fenced_blocks (unlines [''intro'', fence @ ''rust,ignore'', ''fn main() {}'', fence])
     = Inr [\<lparr>fb_lang = Some ''rust'', fb_ignored = True, fb_start_line = 2, fb_body = ''fn main() {}'' @ [LF]\<rparr>]"
proof -
  have "\<forall>p \<in> set [Prose ''intro'', Block ''rust,ignore'' [''fn main() {}'']]. plain_piece p" by code_simp
  from fences_read_back [OF this]
  have "extract_fenced_blocks (unlines [''intro'', fence @ ''rust,ignore'', ''fn main() {}'', fence])
      = Inr (blocks_of 0 [Prose ''intro'', Block ''rust,ignore'' [''fn main() {}'']])" by simp
  also have "blocks_of 0 [Prose ''intro'', Block ''rust,ignore'' [''fn main() {}'']]
      = [\<lparr>fb_lang = Some ''rust'', fb_ignored = True, fb_start_line = 2, fb_body = ''fn main() {}'' @ [LF]\<rparr>]" by code_simp
  finally show ?thesis .
qed

text \<open>An indented fence counts as a fence.\<close>

theorem indented_fence_counts: "is_fence (''    '' @ fence @ ''rust'')"
  by code_simp

end
