(* ===== verification/Bench_Collect.thy ===== *)
theory Bench_Collect
  imports Bench_Host Doc_Fences "HOL-Library.Sublist" "HOL-Library.List_Lexorder"
begin

section \<open>Collecting the numbers of a benchmark run\<close>

text \<open>
  The first half of \<open>src/xtask/src/bench_all.rs\<close>: the workspace version, and the numbers criterion,
  callgrind and dhat left behind. The parsers and the trees cargo leaves under \<open>target\<close> are parameters;
  a directory is an \<open>entry\<close> list.
\<close>

subsection \<open>JSON pointers and sorted maps\<close>

definition array_index :: "string \<Rightarrow> nat option" where
  "array_index t = (if starts_with ''+'' t \<or> starts_with ''0'' t \<and> length t \<noteq> 1 then None else parse_nat t)"

fun json_step :: "json \<Rightarrow> string \<Rightarrow> json option" where
  "json_step (JObj kvs) t = map_of kvs t"
| "json_step (JArr xs) t = Option.bind (array_index t) (\<lambda>i. if i < length xs then Some (xs ! i) else None)"
| "json_step _ t = None"

fun pointer :: "json \<Rightarrow> string list \<Rightarrow> json option" where
  "pointer v [] = Some v"
| "pointer v (t # ts) = Option.bind (json_step v t) (\<lambda>w. pointer w ts)"

fun as_f64 :: "'f floats \<Rightarrow> json \<Rightarrow> 'f option" where
  "as_f64 fl (JInt n) = Some (fl_of_int fl n)"
| "as_f64 fl (JFloat t) = fl_of_text fl t"
| "as_f64 fl _ = None"

definition as_int_in :: "int \<Rightarrow> int \<Rightarrow> json \<Rightarrow> int option" where
  "as_int_in lo hi j = (case j of JInt n \<Rightarrow> if lo \<le> n \<and> n < hi then Some n else None | _ \<Rightarrow> None)"

text \<open>\<open>BTreeMap::insert\<close>, the map as its entries in order.\<close>

definition text_key :: "string \<Rightarrow> nat list" where
  "text_key s = map of_char s"

fun put :: "string \<Rightarrow> 'v \<Rightarrow> (string \<times> 'v) list \<Rightarrow> (string \<times> 'v) list" where
  "put k v [] = [(k, v)]"
| "put k v ((j, w) # m) =
     (if k = j then (k, v) # m
      else if text_key k < text_key j then (k, v) # (j, w) # m
      else (j, w) # put k v m)"

definition path_key :: "string \<Rightarrow> string \<Rightarrow> string" where
  "path_key pre name = (if pre = [] then name else pre @ ''/'' @ name)"

subsection \<open>The workspace version\<close>

datatype bench_error =
    UnreadableFile string
  | UnparsedFile string
  | NoWorkspaceVersion
  | CommandFailedWith "string list"
  | NoSentinel string
  | SlicePanic

text \<open>The parsed \<open>Cargo.toml\<close>, its tables as objects.\<close>

definition workspace_minor :: "json \<Rightarrow> bench_error + string" where
  "workspace_minor parsed =
     (case Option.bind (pointer parsed [''workspace'', ''package'', ''version'']) json_as_str of
        None \<Rightarrow> Inl NoWorkspaceVersion
      | Some v \<Rightarrow>
          (let parts = splitn 3 (CHR ''.'') v;
               part = (\<lambda>i. if i < length parts then parts ! i else ''0'')
           in Inr (part 0 @ ''.'' @ part 1)))"

definition results_stem :: "string \<Rightarrow> string" where
  "results_stem minor = ''bench/results/v'' @ minor"

subsection \<open>The three sources\<close>

fun entry_name :: "entry \<Rightarrow> string" where
  "entry_name (File n _) = n"
| "entry_name (Dir n _) = n"

fun child :: "string \<Rightarrow> entry list \<Rightarrow> entry option" where
  "child n es = find (\<lambda>x. entry_name x = n) es"

text \<open>\<open>path.join("new/estimates.json")\<close>.\<close>

definition estimates :: "entry list \<Rightarrow> entry option" where
  "estimates es = (case child ''new'' es of Some (Dir _ new) \<Rightarrow> child ''estimates.json'' new | _ \<Rightarrow> None)"

definition estimate :: "'f floats \<Rightarrow> string \<Rightarrow> json \<Rightarrow> json" where
  "estimate fl what parsed =
     fl_json fl (case Option.bind (pointer parsed [what, ''point_estimate'']) (as_f64 fl) of
                   None \<Rightarrow> fl_of_int fl 0 | Some x \<Rightarrow> x)"

definition criterion_stats :: "'f floats \<Rightarrow> json \<Rightarrow> json" where
  "criterion_stats fl parsed =
     JObj [(''mean_ns'', estimate fl ''mean'' parsed), (''median_ns'', estimate fl ''median'' parsed),
           (''std_dev_ns'', estimate fl ''std_dev'' parsed)]"

type_synonym stats = "(string \<times> json) list"

text \<open>\<open>walk_criterion_dir\<close>; a directory with estimates is a benchmark, any other is descended into.\<close>

fun walk_criterion :: "(string \<Rightarrow> json option) \<Rightarrow> 'f floats \<Rightarrow> string \<Rightarrow> entry \<Rightarrow> stats \<Rightarrow> bench_error + stats"
  and walk_criterion_dir :: "(string \<Rightarrow> json option) \<Rightarrow> 'f floats \<Rightarrow> string \<Rightarrow> entry list \<Rightarrow> stats \<Rightarrow> bench_error + stats"
where
  "walk_criterion parse fl pre (File n t) out = Inr out"
| "walk_criterion parse fl pre (Dir name es) out =
     (if name = ''report'' then Inr out
      else (case estimates es of
              Some (File f raw) \<Rightarrow>
                (case parse raw of
                   None \<Rightarrow> Inl (UnparsedFile (path_key pre name))
                 | Some parsed \<Rightarrow> Inr (put (path_key pre name) (criterion_stats fl parsed) out))
            | Some (Dir f _) \<Rightarrow> Inl (UnreadableFile (path_key pre name))
            | None \<Rightarrow> walk_criterion_dir parse fl (path_key pre name) es out))"
| "walk_criterion_dir parse fl pre [] out = Inr out"
| "walk_criterion_dir parse fl pre (x # xs) out =
     (case walk_criterion parse fl pre x out of
        Inl er \<Rightarrow> Inl er
      | Inr out' \<Rightarrow> walk_criterion_dir parse fl pre xs out')"

text \<open>\<open>target/criterion\<close> need not exist. The name of the benchmark is not looked at.\<close>

definition collect_criterion_stats :: "(string \<Rightarrow> json option) \<Rightarrow> 'f floats \<Rightarrow> entry list option \<Rightarrow> string \<Rightarrow> bench_error + json" where
  "collect_criterion_stats parse fl root bench =
     (case root of
        None \<Rightarrow> Inr (JObj [])
      | Some es \<Rightarrow> map_sum id JObj (walk_criterion_dir parse fl [] es []))"

definition iai_events :: "string list" where
  "iai_events =
     [''Ir'', ''Dr'', ''Dw'', ''I1mr'', ''D1mr'', ''D1mw'', ''ILmr'', ''DLmr'', ''DLmw'',
      ''EstimatedCycles'', ''L1hits'', ''LLhits'', ''RamHits'', ''TotalRW'']"

definition as_i64 :: "json \<Rightarrow> int option" where
  "as_i64 = as_int_in (- (2 ^ 63)) (2 ^ 63)"

definition event_count :: "json \<Rightarrow> string \<Rightarrow> int option" where
  "event_count cg ev =
     (case Option.bind (pointer cg [ev, ''metrics'', ''Left'', ''Int'']) as_i64 of
        Some n \<Rightarrow> Some n
      | None \<Rightarrow> Option.bind (pointer cg [ev, ''metrics'', ''Both'', ''0'', ''Int'']) as_i64)"

definition callgrind_events :: "json \<Rightarrow> stats" where
  "callgrind_events parsed =
     (case pointer parsed [''profiles'', ''0'', ''summaries'', ''parts'', ''0'', ''metrics_summary'', ''Callgrind''] of
        None \<Rightarrow> []
      | Some cg \<Rightarrow>
          foldl (\<lambda>m ev. case event_count cg ev of None \<Rightarrow> m | Some n \<Rightarrow> put ev (JInt n) m) [] iai_events)"

text \<open>\<open>walk_iai_dir\<close>; \<open>parent\<close> is the name of the directory the entries are in.\<close>

fun walk_iai :: "(string \<Rightarrow> json option) \<Rightarrow> string \<Rightarrow> entry \<Rightarrow> stats \<Rightarrow> bench_error + stats"
  and walk_iai_dir :: "(string \<Rightarrow> json option) \<Rightarrow> string \<Rightarrow> entry list \<Rightarrow> stats \<Rightarrow> bench_error + stats"
where
  "walk_iai parse parent (Dir name es) out = walk_iai_dir parse name es out"
| "walk_iai parse parent (File name raw) out =
     (if name = ''summary.json'' then
        (case parse raw of
           None \<Rightarrow> Inl (UnparsedFile name)
         | Some parsed \<Rightarrow>
             (let key = (case Option.bind (pointer parsed [''function_name'']) json_as_str of
                           Some s \<Rightarrow> s | None \<Rightarrow> parent)
              in Inr (put key (JObj [(''events'', JObj (callgrind_events parsed))]) out)))
      else Inr out)"
| "walk_iai_dir parse parent [] out = Inr out"
| "walk_iai_dir parse parent (x # xs) out =
     (case walk_iai parse parent x out of
        Inl er \<Rightarrow> Inl er
      | Inr out' \<Rightarrow> walk_iai_dir parse parent xs out')"

definition collect_iai_stats :: "(string \<Rightarrow> json option) \<Rightarrow> entry list option \<Rightarrow> bench_error + json" where
  "collect_iai_stats parse root =
     (case root of
        None \<Rightarrow> Inr (JObj [])
      | Some es \<Rightarrow> map_sum id JObj (walk_iai_dir parse ''iai'' es []))"

definition DHAT_BEGIN :: string where "DHAT_BEGIN = ''DHAT_JSON_BEGIN''"

definition DHAT_END :: string where "DHAT_END = ''DHAT_JSON_END''"

text \<open>The slice between the sentinels panics when the second stands before the end of the first.\<close>

definition extract_dhat_json :: "string \<Rightarrow> bench_error + string" where
  "extract_dhat_json out =
     (case find_text DHAT_BEGIN out of
        None \<Rightarrow> Inl (NoSentinel DHAT_BEGIN)
      | Some b \<Rightarrow>
     (case find_text DHAT_END out of
        None \<Rightarrow> Inl (NoSentinel DHAT_END)
      | Some e \<Rightarrow>
          if e < b + length DHAT_BEGIN then Inl SlicePanic
          else Inr (trim (drop (b + length DHAT_BEGIN) (take e out)))))"

end
