(* ===== verification/Bench_Report.thy ===== *)
theory Bench_Report
  imports Bench_Collect
begin

section \<open>The benchmark record\<close>

text \<open>
  The second half of \<open>src/xtask/src/bench_all.rs\<close>: the run writes the numbers to
  \<open>bench/results/v<MAJ>.<MIN>.json\<close>, refreshes the Markdown file beside it and compares them with an
  earlier record. The programs, the parsers and the printer of JSON are parameters.
\<close>

subsection \<open>The comparison\<close>

datatype 'f diff_row =
    NewSignal string string 'f
  | Delta string string 'f 'f 'f bool

text \<open>The measured entries of a section and of the objects one level below, by path.\<close>

fun is_object :: "json \<Rightarrow> bool" where
  "is_object (JObj _) = True"
| "is_object _ = False"

fun object_entries :: "json \<Rightarrow> (string \<times> json) list" where
  "object_entries (JObj kvs) = kvs"
| "object_entries _ = []"

definition put_measured :: "(json \<Rightarrow> 'f option) \<Rightarrow> string \<Rightarrow> json \<Rightarrow> (string \<times> 'f) list \<Rightarrow> (string \<times> 'f) list" where
  "put_measured extract path v m = (case extract v of None \<Rightarrow> m | Some n \<Rightarrow> put path n m)"

definition walk_section :: "(json \<Rightarrow> 'f option) \<Rightarrow> json \<Rightarrow> (string \<times> 'f) list" where
  "walk_section extract v =
     foldl (\<lambda>m (k, val).
         foldl (\<lambda>m' (ik, iv). put_measured extract (k @ ''/'' @ ik) iv m')
           (put_measured extract k val m) (object_entries val))
       [] (object_entries v)"

definition compared_row :: "'f floats \<Rightarrow> string \<Rightarrow> int \<Rightarrow> (string \<times> 'f) list \<Rightarrow> string \<times> 'f \<Rightarrow> 'f diff_row list" where
  "compared_row fl label threshold_pct p kc =
     (case kc of (k, cur_v) \<Rightarrow>
       (case map_of p k of
          None \<Rightarrow> [NewSignal label k cur_v]
        | Some prev_v \<Rightarrow>
            if fl_eq fl prev_v (fl_of_int fl 0) then []
            else
              let delta_pct = fl_mul fl (fl_div fl (fl_sub fl cur_v prev_v) prev_v) (fl_of_int fl 100)
              in [Delta label k prev_v cur_v delta_pct
                    (fl_less fl (fl_of_int fl threshold_pct) (fl_abs fl delta_pct))]))"

definition diff_section ::
  "'f floats \<Rightarrow> string \<Rightarrow> json \<Rightarrow> json \<Rightarrow> (json \<Rightarrow> 'f option) \<Rightarrow> int \<Rightarrow> 'f diff_row list" where
  "diff_section fl label prev cur extract threshold_pct =
     concat (map (compared_row fl label threshold_pct (walk_section extract prev)) (walk_section extract cur))"

definition mean_of :: "'f floats \<Rightarrow> json \<Rightarrow> 'f option" where
  "mean_of fl v = Option.bind (pointer v [''mean_ns'']) (as_f64 fl)"

definition instructions_of :: "'f floats \<Rightarrow> json \<Rightarrow> 'f option" where
  "instructions_of fl v =
     (case Option.bind (pointer v [''events'', ''Ir'']) (as_f64 fl) of
        Some n \<Rightarrow> Some n
      | None \<Rightarrow> Option.bind (pointer v [''events'', ''Instructions'']) (as_f64 fl))"

definition total_bytes_of :: "'f floats \<Rightarrow> json \<Rightarrow> 'f option" where
  "total_bytes_of fl v = Option.bind (pointer v [''total_bytes'']) (as_f64 fl)"

definition section_of :: "json \<Rightarrow> string \<Rightarrow> json" where
  "section_of v k = (case pointer v [k] of None \<Rightarrow> JNull | Some x \<Rightarrow> x)"

definition regression_diff :: "'f floats \<Rightarrow> json \<Rightarrow> json \<Rightarrow> 'f diff_row list" where
  "regression_diff fl prev cur =
     diff_section fl ''criterion mean_ns'' (section_of prev ''micro_criterion'') (section_of cur ''micro_criterion'')
       (mean_of fl) 20
     @ diff_section fl ''iai instructions'' (section_of prev ''micro_iai'') (section_of cur ''micro_iai'')
       (instructions_of fl) 5
     @ diff_section fl ''dhat total_bytes'' (section_of prev ''heap_dhat'') (section_of cur ''heap_dhat'')
       (total_bytes_of fl) 30"

subsection \<open>The Markdown entry\<close>

definition AUTO_BEGIN :: string where "AUTO_BEGIN = ''<!-- BENCH_AUTO_BEGIN -->''"

definition AUTO_END :: string where "AUTO_END = ''<!-- BENCH_AUTO_END -->''"

definition long_dash :: string where "long_dash = [CHR 0xE2, CHR 0x80, CHR 0x94]"

definition paragraph_sign :: string where "paragraph_sign = [CHR 0xC2, CHR 0xA7]"

definition mid_dot :: string where "mid_dot = [CHR 0xC2, CHR 0xB7]"

definition text_at :: "json \<Rightarrow> string list \<Rightarrow> string" where
  "text_at v p = (case Option.bind (pointer v p) json_as_str of None \<Rightarrow> [] | Some s \<Rightarrow> s)"

definition number_at :: "json \<Rightarrow> string list \<Rightarrow> string" where
  "number_at v p = show_int (case Option.bind (pointer v p) (as_int_in 0 (2 ^ 64)) of None \<Rightarrow> 0 | Some n \<Rightarrow> n)"

definition md_template :: "string \<Rightarrow> json \<Rightarrow> string" where
  "md_template stem c =
     unlines
      [''# Bench results '' @ long_dash @ '' knievel v'' @ text_at c [''knievel_version''],
       [],
       ''Auto-generated by `cargo xtask bench-all` (Phase 5.9).'',
       ''Methodology, fixture matrix, and regression policy live in'',
       ''`bench/results/SCHEMA.md` and `TESTING.md` '' @ paragraph_sign @ '' 8. The JSON'',
       ''companion file is the source of truth for diffing.'',
       [],
       ''**JSON companion:** see `'' @ stem @ ''.json`'',
       [],
       ''**Knievel SHA:** `'' @ text_at c [''knievel_sha''] @ ''`'',
       [],
       ''**Captured (UTC):** '' @ text_at c [''captured_at_utc''],
       [],
       ''## Hardware fingerprint'',
       [],
       ''See `env` block in the JSON companion. Summary:'',
       [],
       ''- CPU: '' @ text_at c [''env'', ''cpu_model''],
       ''- Cores (logical): '' @ number_at c [''env'', ''cpu_cores_logical''],
       ''- Memory: '' @ number_at c [''env'', ''mem_total_kb''] @ '' kB'',
       ''- Kernel: '' @ text_at c [''env'', ''kernel''],
       ''- Rustc: '' @ text_at c [''env'', ''rustc''],
       ''- CPU governor: '' @ text_at c [''env'', ''cpu_governor''],
       [],
       ''## Microbenchmark results'',
       [],
       ''Numbers are summary headlines; full per-bench detail in JSON.'',
       [],
       ''See JSON companion for the matrix.'',
       [],
       ''## Regression policy'',
       [],
       ''Per `TESTING.md` '' @ paragraph_sign @ '' 8:'',
       [],
       ''- **iai-callgrind instructions:** > 5% regression opens an issue'',
       ''  (deterministic counters; any drift is real).'',
       ''- **criterion wall-clock:** > 30% regression on micro;'',
       ''  > 20% on macro p50/p99/QPS blocks the release tag.'',
       ''- **dhat allocations:** > 30% regression opens an issue.'',
       [],
       ''Diff against the previous release with'',
       ''`cargo xtask bench-all --against vX.Y`.'']"

text \<open>The generated block between its marks, the marks included.\<close>

definition auto_middle :: "string \<Rightarrow> json \<Rightarrow> string" where
  "auto_middle stem c =
     LF # unlines
      [[],
       ''## Auto-captured signals'',
       [],
       ''JSON companion: `'' @ stem @ ''.json` (canonical).'',
       [],
       ''**Captured (UTC):** '' @ text_at c [''captured_at_utc''] @ '' | **SHA:** `'' @ text_at c [''knievel_sha''] @ ''`'',
       [],
       ''- CPU: '' @ text_at c [''env'', ''cpu_model''] @ '' ('' @ number_at c [''env'', ''cpu_cores_logical'']
         @ '' logical cores)'',
       ''- Mem: '' @ number_at c [''env'', ''mem_total_kb''] @ '' kB '' @ mid_dot @ '' Governor: ''
         @ text_at c [''env'', ''cpu_governor''] @ '' '' @ mid_dot @ '' Kernel: '' @ text_at c [''env'', ''kernel''],
       ''- Rustc: '' @ text_at c [''env'', ''rustc''],
       [],
       ''Headline iai instruction counts and dhat heap totals'',
       ''are in the JSON companion under `micro_iai` and'',
       ''`heap_dhat`. Diff with `cargo xtask bench-all --against vX.Y`.'',
       []]"

definition auto_body :: "string \<Rightarrow> json \<Rightarrow> string" where
  "auto_body stem c = AUTO_BEGIN @ auto_middle stem c @ AUTO_END"

definition auto_block :: "string \<Rightarrow> json \<Rightarrow> string" where
  "auto_block stem c = [LF, LF] @ auto_body stem c @ [LF]"

definition trim_end :: "string \<Rightarrow> string" where
  "trim_end s = rev (dropWhile is_space (rev s))"

definition refresh_md_entry :: "string \<Rightarrow> json \<Rightarrow> string option \<Rightarrow> string" where
  "refresh_md_entry stem c existing =
     (case existing of
        None \<Rightarrow> md_template stem c
      | Some body \<Rightarrow>
          (case (find_text AUTO_BEGIN body, find_text AUTO_END body) of
             (Some b, Some e) \<Rightarrow>
               take b body @ dropWhile (\<lambda>x. x = LF) (auto_block stem c) @ drop (e + length AUTO_END) body
           | _ \<Rightarrow> trim_end body @ auto_block stem c))"

subsection \<open>The command\<close>

text \<open>
  What is outside: the host, the parsers and the printer, which commands succeed, what dhat prints, and
  the directories cargo leaves, after each criterion benchmark and after the iai ones.
\<close>

record 'f bench_world =
  bw_host :: host
  bw_floats :: "'f floats"
  bw_toml :: "string \<Rightarrow> json option"
  bw_json :: "string \<Rightarrow> json option"
  bw_pretty :: "json \<Rightarrow> string"
  bw_ok :: "string list \<Rightarrow> bool"
  bw_criterion :: "string \<Rightarrow> entry list option"
  bw_iai :: "entry list option"
  bw_dhat :: string
  bw_can_write :: "string \<Rightarrow> bool"

record bench_args =
  ba_against :: "string option"
  ba_skip_iai :: bool
  ba_skip_dhat :: bool

type_synonym tree = "string \<rightharpoonup> string"

definition criterion_cmd :: "string \<Rightarrow> string list" where
  "criterion_cmd bench = [''cargo'', ''bench'', ''--bench'', bench, ''--'', ''--quick'', ''--noplot'']"

definition iai_cmd :: "string \<Rightarrow> string list" where
  "iai_cmd bench = [''cargo'', ''bench'', ''--bench'', bench, ''--'', ''--save-summary'']"

definition dhat_cmd :: "string list" where
  "dhat_cmd = [''cargo'', ''bench'', ''--bench'', ''dhat_decision'', ''--features'', ''dhat-heap'']"

definition criterion_benches :: "string list" where
  "criterion_benches = [''selection_pick'', ''hmac_verify'', ''decision_handler'']"

definition read_file :: "string \<Rightarrow> tree \<Rightarrow> bench_error + string" where
  "read_file path fs = (case fs path of None \<Rightarrow> Inl (UnreadableFile path) | Some s \<Rightarrow> Inr s)"

definition write_file :: "'f bench_world \<Rightarrow> string \<Rightarrow> string \<Rightarrow> tree \<Rightarrow> bench_error + tree" where
  "write_file w path s fs = (if bw_can_write w path then Inr (fs(path \<mapsto> s)) else Inl (UnreadableFile path))"

definition read_workspace_minor :: "'f bench_world \<Rightarrow> tree \<Rightarrow> bench_error + string" where
  "read_workspace_minor w fs =
     (case read_file ''Cargo.toml'' fs of
        Inl er \<Rightarrow> Inl er
      | Inr raw \<Rightarrow> (case bw_toml w raw of None \<Rightarrow> Inl (UnparsedFile ''Cargo.toml'') | Some v \<Rightarrow> workspace_minor v))"

fun run_criterion :: "'f bench_world \<Rightarrow> string list \<Rightarrow> stats \<Rightarrow> bench_error + stats" where
  "run_criterion w [] out = Inr out"
| "run_criterion w (b # bs) out =
     (if \<not> bw_ok w (criterion_cmd b) then Inl (CommandFailedWith (criterion_cmd b))
      else (case collect_criterion_stats (bw_json w) (bw_floats w) (bw_criterion w b) b of
              Inl er \<Rightarrow> Inl er
            | Inr s \<Rightarrow> run_criterion w bs (put b s out)))"

definition dhat_path :: string where "dhat_path = ''target/dhat_decision.json''"

definition run_dhat :: "'f bench_world \<Rightarrow> tree \<Rightarrow> (bench_error option \<times> tree)" where
  "run_dhat w fs =
     (if \<not> bw_ok w dhat_cmd then (Some (CommandFailedWith dhat_cmd), fs)
      else (case extract_dhat_json (bw_dhat w) of
              Inl er \<Rightarrow> (Some er, fs)
            | Inr s \<Rightarrow>
                (case write_file w dhat_path s fs of
                   Inl er \<Rightarrow> (Some er, fs)
                 | Inr fs' \<Rightarrow> (if bw_json w s = None then Some (UnparsedFile dhat_path) else None, fs'))))"

definition collect_dhat_stats :: "'f bench_world \<Rightarrow> tree \<Rightarrow> bench_error + json" where
  "collect_dhat_stats w fs =
     (case read_file dhat_path fs of
        Inl er \<Rightarrow> Inl er
      | Inr raw \<Rightarrow> (case bw_json w raw of None \<Rightarrow> Inl (UnparsedFile dhat_path) | Some v \<Rightarrow> Inr v))"

definition load_results :: "'f bench_world \<Rightarrow> string \<Rightarrow> tree \<Rightarrow> bench_error + json" where
  "load_results w minor fs =
     (let p = results_stem minor @ ''.json'' in
      case read_file p fs of
        Inl er \<Rightarrow> Inl er
      | Inr raw \<Rightarrow> (case bw_json w raw of None \<Rightarrow> Inl (UnparsedFile p) | Some v \<Rightarrow> Inr v))"

definition captured_record :: "'f bench_world \<Rightarrow> string \<Rightarrow> stats \<Rightarrow> json \<Rightarrow> json \<Rightarrow> json" where
  "captured_record w version criterion iai dhat =
     JObj [(''captured_at_utc'', JStr (now_utc (bw_host w))),
           (''env'', collect_env (bw_floats w) (bw_host w)),
           (''heap_dhat'', dhat),
           (''knievel_sha'', JStr (output_trim (bw_host w) [''git'', ''rev-parse'', ''--short=12'', ''HEAD''])),
           (''knievel_version'', JStr (version @ ''.x'')),
           (''macro'', JNull),
           (''micro_criterion'', JObj criterion),
           (''micro_iai'', iai),
           (''schema_version'', JInt 1)]"

definition iai_benches :: "string list" where
  "iai_benches = [''iai_decision'', ''iai_hmac'']"

text \<open>
  The heap profile, or null when it is skipped; then the two files and the comparison. A failing iai
  benchmark only warns; a record that cannot be loaded leaves the comparison out.
\<close>

definition heap_profile :: "'f bench_world \<Rightarrow> bench_args \<Rightarrow> tree \<Rightarrow> (bench_error + json) \<times> tree" where
  "heap_profile w args fs =
     (if ba_skip_dhat args then (Inr JNull, fs)
      else (case run_dhat w fs of
              (Some er, fs') \<Rightarrow> (Inl er, fs')
            | (None, fs') \<Rightarrow> (collect_dhat_stats w fs', fs')))"

definition write_record ::
  "'f bench_world \<Rightarrow> bench_args \<Rightarrow> string \<Rightarrow> json \<Rightarrow> tree \<Rightarrow> (bench_error + 'f diff_row list option) \<times> tree" where
  "write_record w args version captured fs =
     (let stem = results_stem version in
      case write_file w (stem @ ''.json'') (bw_pretty w captured @ [LF]) fs of
        Inl er \<Rightarrow> (Inl er, fs)
      | Inr fs1 \<Rightarrow>
     (case write_file w (stem @ ''.md'') (refresh_md_entry stem captured (fs1 (stem @ ''.md''))) fs1 of
        Inl er \<Rightarrow> (Inl er, fs1)
      | Inr fs2 \<Rightarrow>
          (Inr (case ba_against args of
                  None \<Rightarrow> None
                | Some against \<Rightarrow>
                    (case load_results w against fs2 of
                       Inl _ \<Rightarrow> None
                     | Inr prev \<Rightarrow> Some (regression_diff (bw_floats w) prev captured))), fs2)))"

text \<open>The value is the iai benchmarks warned about and the comparison that was asked for.\<close>

definition bench_all ::
  "'f bench_world \<Rightarrow> bench_args \<Rightarrow> tree \<Rightarrow> (bench_error + string list \<times> 'f diff_row list option) \<times> tree" where
  "bench_all w args fs =
     (case read_workspace_minor w fs of
        Inl er \<Rightarrow> (Inl er, fs)
      | Inr version \<Rightarrow>
     (case run_criterion w criterion_benches [] of
        Inl er \<Rightarrow> (Inl er, fs)
      | Inr criterion \<Rightarrow>
     (case (if ba_skip_iai args then Inr (JObj []) else collect_iai_stats (bw_json w) (bw_iai w)) of
        Inl er \<Rightarrow> (Inl er, fs)
      | Inr iai \<Rightarrow>
     (let warned = (if ba_skip_iai args then [] else filter (\<lambda>b. \<not> bw_ok w (iai_cmd b)) iai_benches) in
      case heap_profile w args fs of
        (Inl er, fs') \<Rightarrow> (Inl er, fs')
      | (Inr dhat, fs') \<Rightarrow>
          map_prod (map_sum id (Pair warned)) id
            (write_record w args version (captured_record w version criterion iai dhat) fs')))))"

subsection \<open>Marks in a text\<close>

lemma find_text_here: "starts_with p s \<Longrightarrow> find_text p s = Some 0"
  by (cases s) (auto simp: starts_with_def)

lemma find_text_first:
  assumes "p \<noteq> []" and "\<not> sublist p (u @ butlast p)"
  shows "find_text p (u @ p @ s) = Some (length u)"
  using assms(2)
proof (induction u)
  case Nil
  show ?case by (simp add: find_text_here)
next
  case (Cons c u)
  have no: "\<not> starts_with p ((c # u) @ p @ s)"
  proof
    assume "starts_with p ((c # u) @ p @ s)"
    then have "prefix p ((c # u) @ p @ s)"
      unfolding starts_with_def prefix_def by (metis append_take_drop_id)
    moreover have "(c # u) @ p @ s = ((c # u) @ butlast p) @ (last p # s)" using assms(1) by simp
    ultimately have "prefix p (((c # u) @ butlast p) @ (last p # s))" by metis
    moreover have "length p \<le> length ((c # u) @ butlast p)" using assms(1) by simp
    ultimately have "prefix p ((c # u) @ butlast p)" by (meson prefix_length_prefix prefixI)
    with Cons.prems show False by (meson prefix_imp_sublist)
  qed
  from Cons.prems have "\<not> sublist p (u @ butlast p)" by (auto simp: sublist_Cons_right)
  with Cons.IH no show ?case by simp
qed

lemma find_text_None: "\<not> sublist p s \<Longrightarrow> find_text p s = None"
proof (induction s)
  case (Cons c s)
  then have "\<not> starts_with p (c # s)"
    by (metis append_take_drop_id prefixI prefix_imp_sublist starts_with_def)
  with Cons show ?case by (auto simp: sublist_Cons_right)
qed simp

lemma sublist_line:
  assumes "LF \<notin> set p"
  shows "sublist p (u @ LF # v) \<longleftrightarrow> sublist p u \<or> sublist p v"
proof
  assume "sublist p (u @ LF # v)"
  then show "sublist p u \<or> sublist p v"
  proof (induction u)
    case Nil
    with assms show ?case by (cases p) (auto simp: sublist_Cons_right prefix_Cons)
  next
    case (Cons c u)
    show ?case
    proof (cases "prefix p (c # u @ LF # v)")
      case True
      then obtain r where "p @ r = (c # u) @ LF # v" by (auto simp: prefix_def)
      then consider t where "p @ t = c # u" | t where "p = (c # u) @ t" "t @ r = LF # v"
        using append_eq_append_conv2 [of p r "c # u" "LF # v"] by metis
      then show ?thesis
      proof cases
        case 1 then show ?thesis by (metis prefixI prefix_imp_sublist)
      next
        case 2 with assms show ?thesis by (cases t) auto
      qed
    next
      case False with Cons show ?thesis by (auto simp: sublist_Cons_right)
    qed
  qed
next
  assume "sublist p u \<or> sublist p v"
  then show "sublist p (u @ LF # v)"
    by (metis append_Cons append_Nil sublist_append)
qed

subsection \<open>The generated block\<close>

lemma LF_not_in_marks: "LF \<notin> set AUTO_BEGIN" "LF \<notin> set AUTO_END" "LF \<notin> set (butlast AUTO_END)"
  by (simp_all add: AUTO_BEGIN_def AUTO_END_def LF_def)

lemma marks_borderless:
  "\<not> sublist AUTO_BEGIN (butlast AUTO_BEGIN)" "\<not> sublist AUTO_END (butlast AUTO_END)" "\<not> sublist AUTO_END AUTO_BEGIN"
  by code_simp+

lemma sublist_trim_end: "\<not> sublist p s \<Longrightarrow> \<not> sublist p (trim_end s)"
proof -
  have "s = trim_end s @ rev (takeWhile is_space (rev s))"
    unfolding trim_end_def by (metis rev_append rev_rev_ident takeWhile_dropWhile_id)
  then show "\<not> sublist p s \<Longrightarrow> \<not> sublist p (trim_end s)" by (metis sublist_append)
qed

lemma auto_middle_lines: "\<exists>m. auto_middle stem c = LF # m @ [LF]"
proof -
  have "\<exists>m. unlines ls = m @ [LF]" if "ls \<noteq> []" for ls
    using that by (metis append_butlast_last_id append_assoc concat_append concat.simps list.simps(8,9) map_append unlines_def append_Nil2)
  then show ?thesis by (auto simp: auto_middle_def)
qed

definition block_ok :: "string \<Rightarrow> json \<Rightarrow> bool" where
  "block_ok stem c \<longleftrightarrow> \<not> sublist AUTO_END (auto_middle stem c)"

text \<open>Where the marks of a file stand that a run has appended its block to.\<close>

lemma marks_found:
  assumes "\<not> sublist AUTO_BEGIN u" and "\<not> sublist AUTO_END u" and "block_ok stem c"
  shows "find_text AUTO_BEGIN (u @ [LF, LF] @ auto_body stem c @ s) = Some (length u + 2)"
    "find_text AUTO_END (u @ [LF, LF] @ auto_body stem c @ s)
      = Some (length u + 2 + length AUTO_BEGIN + length (auto_middle stem c))"
proof -
  have ne: "AUTO_BEGIN \<noteq> []" "AUTO_END \<noteq> []" by (simp_all add: AUTO_BEGIN_def AUTO_END_def)
  have "\<not> sublist AUTO_BEGIN (u @ LF # [] @ LF # butlast AUTO_BEGIN)"
    unfolding sublist_line [OF LF_not_in_marks(1)] using assms(1) marks_borderless(1) ne by simp
  then have "find_text AUTO_BEGIN ((u @ [LF, LF]) @ AUTO_BEGIN @ auto_middle stem c @ AUTO_END @ s) = Some (length (u @ [LF, LF]))"
    by (intro find_text_first ne) simp
  then show "find_text AUTO_BEGIN (u @ [LF, LF] @ auto_body stem c @ s) = Some (length u + 2)"
    by (simp add: auto_body_def)
  obtain m where m: "auto_middle stem c = LF # m @ [LF]" using auto_middle_lines by blast
  with assms(3) have "\<not> sublist AUTO_END m" by (metis append_Cons append_Nil block_ok_def sublist_append)
  then have "\<not> sublist AUTO_END (u @ LF # [] @ LF # AUTO_BEGIN @ LF # m @ LF # butlast AUTO_END)"
    using assms(2) marks_borderless(2,3) ne(2) unfolding sublist_line [OF LF_not_in_marks(2)] by simp
  then have "find_text AUTO_END ((u @ [LF, LF] @ AUTO_BEGIN @ auto_middle stem c) @ AUTO_END @ s)
      = Some (length (u @ [LF, LF] @ AUTO_BEGIN @ auto_middle stem c))"
    by (intro find_text_first ne) (simp add: m)
  then show "find_text AUTO_END (u @ [LF, LF] @ auto_body stem c @ s)
      = Some (length u + 2 + length AUTO_BEGIN + length (auto_middle stem c))"
    by (simp add: auto_body_def)
qed

lemma refresh_existing:
  assumes "\<not> sublist AUTO_BEGIN u" and "\<not> sublist AUTO_END u" and "block_ok stem c"
  shows "refresh_md_entry stem c' (Some (u @ [LF, LF] @ auto_body stem c @ s))
    = u @ [LF, LF] @ auto_body stem c' @ [LF] @ s"
proof -
  let ?t = "u @ [LF, LF] @ auto_body stem c @ s"
  have "take (length u + 2) ?t = u @ [LF, LF]" by simp
  moreover have "length u + 2 + length AUTO_BEGIN + length (auto_middle stem c) + length AUTO_END
      = length (u @ [LF, LF] @ auto_body stem c)" by (simp add: auto_body_def)
  then have "drop (length u + 2 + length AUTO_BEGIN + length (auto_middle stem c) + length AUTO_END) ?t = s"
    by (metis append.assoc append_eq_conv_conj)
  moreover have "dropWhile (\<lambda>x. x = LF) (auto_block stem c') = auto_body stem c' @ [LF]"
    by (simp add: auto_block_def auto_body_def AUTO_BEGIN_def LF_def)
  ultimately show ?thesis using marks_found [OF assms, of s] by (simp add: refresh_md_entry_def)
qed

lemma refresh_first:
  assumes "\<not> sublist AUTO_BEGIN body" and "\<not> sublist AUTO_END body"
  shows "refresh_md_entry stem c (Some body) = trim_end body @ [LF, LF] @ auto_body stem c @ [LF]"
  using assms by (simp add: refresh_md_entry_def find_text_None auto_block_def)

fun refreshes :: "string \<Rightarrow> json list \<Rightarrow> string option \<Rightarrow> string option" where
  "refreshes stem [] md = md"
| "refreshes stem (c # cs) md = refreshes stem cs (Some (refresh_md_entry stem c md))"

lemma refreshes_snoc: "refreshes stem (cs @ [c]) md = Some (refresh_md_entry stem c (refreshes stem cs md))"
  by (induction cs arbitrary: md) auto

subsection \<open>Properties\<close>

text \<open>
  What repeated runs leave of a hand-written file: its text up to trailing blanks, then the block of the
  last run alone, then one newline for every run. The file is not the same after a second run with
  the same numbers.
\<close>

theorem refreshes_add_newlines:
  assumes "\<not> sublist AUTO_BEGIN body" and "\<not> sublist AUTO_END body"
    and "\<forall>c \<in> set (cs @ [c0]). block_ok stem c"
  shows "refreshes stem (cs @ [c0]) (Some body)
    = Some (trim_end body @ [LF, LF] @ auto_body stem c0 @ replicate (length cs + 1) LF)"
  using assms(3)
proof (induction cs arbitrary: c0 rule: rev_induct)
  case Nil
  then show ?case using refresh_first [OF assms(1,2)] by simp
next
  case (snoc c cs)
  then have "refreshes stem (cs @ [c]) (Some body)
      = Some (trim_end body @ [LF, LF] @ auto_body stem c @ replicate (length cs + 1) LF)" "block_ok stem c"
    by simp_all
  then show ?case
    using refresh_existing [OF sublist_trim_end [OF assms(1)] sublist_trim_end [OF assms(2)]]
    unfolding refreshes_snoc [of stem "cs @ [c]" c0] by simp
qed

theorem second_refresh_differs:
  "refresh_md_entry ''bench/results/v0.1'' (JObj [])
     (Some (refresh_md_entry ''bench/results/v0.1'' (JObj []) (Some ''Prose.'')))
   \<noteq> refresh_md_entry ''bench/results/v0.1'' (JObj []) (Some ''Prose.'')"
proof -
  have ok: "block_ok ''bench/results/v0.1'' (JObj [])" by code_simp
  have no: "\<not> sublist AUTO_BEGIN ''Prose.''" "\<not> sublist AUTO_END ''Prose.''" by code_simp+
  have "refresh_md_entry ''bench/results/v0.1'' (JObj [])
     (Some (refresh_md_entry ''bench/results/v0.1'' (JObj []) (Some ''Prose.'')))
    = trim_end ''Prose.'' @ [LF, LF] @ auto_body ''bench/results/v0.1'' (JObj []) @ replicate 2 LF"
    using refreshes_add_newlines [OF no, of "[JObj []]" "JObj []"] ok by (simp add: numeral_2_eq_2)
  then show ?thesis using refresh_first [OF no] by (simp add: numeral_2_eq_2)
qed

text \<open>What dhat prints between its sentinels is its JSON; a sentinel that comes too early panics.\<close>

theorem dhat_json_extracted:
  assumes "\<not> sublist DHAT_BEGIN (u @ butlast DHAT_BEGIN)"
    and "\<not> sublist DHAT_END (u @ DHAT_BEGIN @ body @ butlast DHAT_END)"
  shows "extract_dhat_json (u @ DHAT_BEGIN @ body @ DHAT_END @ s) = Inr (trim body)"
proof -
  have ne: "DHAT_BEGIN \<noteq> []" "DHAT_END \<noteq> []" by (simp_all add: DHAT_BEGIN_def DHAT_END_def)
  from find_text_first [OF ne(1) assms(1), of "body @ DHAT_END @ s"]
    find_text_first [OF ne(2), of "u @ DHAT_BEGIN @ body" s] assms(2)
  show ?thesis by (simp add: extract_dhat_json_def)
qed

theorem early_sentinel_panics:
  "extract_dhat_json (DHAT_END @ DHAT_BEGIN @ s) = Inl SlicePanic"
proof -
  have "find_text DHAT_END (DHAT_END @ DHAT_BEGIN @ s) = Some 0" by (simp add: find_text_here)
  moreover have "find_text DHAT_BEGIN (DHAT_END @ DHAT_BEGIN @ s) = Some (length DHAT_END)"
  proof (rule find_text_first)
    show "\<not> sublist DHAT_BEGIN (DHAT_END @ butlast DHAT_BEGIN)" by code_simp
  qed (simp add: DHAT_BEGIN_def)
  ultimately show ?thesis by (simp add: extract_dhat_json_def DHAT_BEGIN_def)
qed

text \<open>
  The heap profile is a flat object, and the comparison looks for \<open>total_bytes\<close> one level too deep: it
  has no row for the heap, however much the total grew.
\<close>

lemma section_of_leaf: "\<not> is_object v \<Longrightarrow> total_bytes_of fl v = None \<and> object_entries v = []"
  by (cases v) (auto simp: total_bytes_of_def array_index_def parse_nat_def digit_value_def starts_with_def)

theorem heap_never_compared:
  assumes "\<forall>(k, v) \<in> set (object_entries (section_of cur ''heap_dhat'')). \<not> is_object v"
  shows "diff_section fl label prev (section_of cur ''heap_dhat'') (total_bytes_of fl) threshold = []"
proof -
  have "walk_section (total_bytes_of fl) v = []"
    if "\<forall>(k, x) \<in> set (object_entries v). \<not> is_object x" for v
  proof -
    have "foldl (\<lambda>m (k, val).
         foldl (\<lambda>m' (ik, iv). put_measured (total_bytes_of fl) (k @ ''/'' @ ik) iv m')
           (put_measured (total_bytes_of fl) k val m) (object_entries val)) [] kvs = []"
      if "\<forall>(k, x) \<in> set kvs. \<not> is_object x" for kvs
      using that by (induction kvs) (auto simp: put_measured_def section_of_leaf)
    with that show ?thesis by (simp add: walk_section_def)
  qed
  with assms show ?thesis by (simp add: diff_section_def)
qed

text \<open>The path of the record the documentation's own \<open>--against vX.Y\<close> makes the command read.\<close>

theorem documented_against_misses: "results_stem ''v0.1'' = ''bench/results/vv0.1''"
  by (simp add: results_stem_def)

text \<open>
  Every criterion benchmark is given the numbers of all of them: what is collected for a benchmark is
  what the tree holds, whichever was run.
\<close>

theorem criterion_sections_equal:
  assumes "\<forall>b \<in> set bs. bw_ok w (criterion_cmd b) \<and> bw_criterion w b = root"
    and "run_criterion w bs [] = Inr out" and "map_of out b = Some s" and "map_of out b' = Some s'"
  shows "s = s'"
proof -
  have put: "(k, v) \<in> set (put j x m) \<Longrightarrow> v = x \<or> (k, v) \<in> set m" for k :: string and v x :: json and j m
    by (induction m) (auto split: if_splits)
  have "run_criterion w bs m = Inr out \<Longrightarrow> \<forall>(k, v) \<in> set m. Inr v = collect_criterion_stats (bw_json w) (bw_floats w) root []
      \<Longrightarrow> \<forall>(k, v) \<in> set out. Inr v = collect_criterion_stats (bw_json w) (bw_floats w) root []" for m
    using assms(1)
  proof (induction bs arbitrary: m)
    case (Cons b bs)
    then obtain v where v: "collect_criterion_stats (bw_json w) (bw_floats w) root b = Inr v"
      "run_criterion w bs (put b v m) = Inr out" by (auto split: sum.splits)
    have same: "collect_criterion_stats (bw_json w) (bw_floats w) root [] = Inr v"
      using v(1) by (simp add: collect_criterion_stats_def)
    with Cons.prems(2) have "\<forall>(k, x) \<in> set (put b v m). Inr x = collect_criterion_stats (bw_json w) (bw_floats w) root []"
      by (auto dest: put)
    with Cons.IH [OF v(2)] Cons.prems(3) show ?case by simp
  qed simp
  from this [OF assms(2)] have "\<forall>(k, v) \<in> set out. Inr v = collect_criterion_stats (bw_json w) (bw_floats w) root []" by simp
  with assms(3,4) show ?thesis by (metis (mono_tags, lifting) Inr_inject case_prodD map_of_SomeD)
qed

text \<open>
  A run writes its record only when every criterion benchmark and the heap profile, unless it is skipped,
  succeeded; nothing else changes but the file that holds dhat's numbers. What it writes is the record
  of the workspace's minor version, printed.
\<close>

theorem record_only_after_benches:
  assumes "bench_all w args fs = (res, fs')" and "fs' p \<noteq> fs p" and "p \<noteq> dhat_path"
  shows "\<exists>version captured. read_workspace_minor w fs = Inr version
    \<and> (p = results_stem version @ ''.json'' \<and> fs' p = Some (bw_pretty w captured @ [LF])
       \<or> p = results_stem version @ ''.md''
         \<and> fs' p = Some (refresh_md_entry (results_stem version) captured (fs p)))
    \<and> (\<forall>b \<in> set criterion_benches. bw_ok w (criterion_cmd b)) \<and> (ba_skip_dhat args \<or> bw_ok w dhat_cmd)"
proof -
  have criterion: "run_criterion w bs m = Inr out \<Longrightarrow> \<forall>b \<in> set bs. bw_ok w (criterion_cmd b)" for bs m out
    by (induction bs arbitrary: m) (auto split: if_splits sum.splits)
  have heap: "fs'' p = fs p \<and> (isl h \<or> ba_skip_dhat args \<or> bw_ok w dhat_cmd)"
    if "heap_profile w args fs = (h, fs'')" for h fs''
    using that assms(3)
    by (auto simp: heap_profile_def run_dhat_def write_file_def split: if_splits sum.splits option.splits prod.splits)
  from assms(1,2) obtain version criterion iai where v: "read_workspace_minor w fs = Inr version"
    "run_criterion w criterion_benches [] = Inr criterion"
    "(if ba_skip_iai args then Inr (JObj []) else collect_iai_stats (bw_json w) (bw_iai w)) = Inr iai"
    by (auto simp: bench_all_def split: sum.splits)
  obtain h fs1 where h: "heap_profile w args fs = (h, fs1)" by fastforce
  note h' = heap [OF h]
  from assms(1,2) v h h' obtain dhat where d: "h = Inr dhat"
    by (cases h) (auto simp: bench_all_def Let_def)
  let ?c = "captured_record w version criterion iai dhat"
  from assms(1) v h d have "snd (write_record w args version ?c fs1) = fs'"
    by (simp add: bench_all_def Let_def map_prod_def split: prod.splits)
  moreover have "fs1 p = fs p" using h' by simp
  ultimately have "p = results_stem version @ ''.json'' \<and> fs' p = Some (bw_pretty w ?c @ [LF])
       \<or> p = results_stem version @ ''.md'' \<and> fs' p = Some (refresh_md_entry (results_stem version) ?c (fs p))"
    using assms(2) by (auto simp: write_record_def write_file_def Let_def split: if_splits sum.splits option.splits)
  with v(1) criterion [OF v(2)] h' d show ?thesis by auto
qed

text \<open>
  The instruction counts are compared key by key: a row for every benchmark of the new record with a
  count, new when the old record has none, the change in percent and its flag otherwise; a count of
  zero in the old record drops the row.
\<close>

definition iai_section :: "json \<Rightarrow> bool" where
  "iai_section v \<longleftrightarrow> (\<forall>(k, x) \<in> set (object_entries v). \<exists>evs. x = JObj [(''events'', JObj evs)] \<and> map_of evs ''events'' = None)"

definition count_in :: "'f floats \<Rightarrow> json \<Rightarrow> string \<Rightarrow> 'f option" where
  "count_in fl v k = Option.bind (map_of (object_entries v) k) (instructions_of fl)"

lemma map_of_put: "map_of (put k v m) = (map_of m)(k \<mapsto> v)"
  by (induction m) auto

lemma keys_put: "fst ` set (put k v m) = insert k (fst ` set m)"
proof (induction m)
  case (Cons jw m) then show ?case by (cases jw) (simp add: insert_commute)
qed simp

definition ordered :: "(string \<times> 'v) list \<Rightarrow> bool" where
  "ordered m \<longleftrightarrow> sorted_wrt (\<lambda>a b. text_key (fst a) < text_key (fst b)) m"

lemma text_key_inject: "text_key a = text_key b \<longleftrightarrow> a = b"
  unfolding text_key_def by (rule inj_map_eq_map) (simp add: inj_on_def)

lemma ordered_distinct: "ordered m \<Longrightarrow> distinct (map fst m)"
  by (induction m) (auto simp: ordered_def)

lemma ordered_put: "ordered m \<Longrightarrow> ordered (put k v m)"
proof (induction m)
  case (Cons jw m)
  obtain j w where jw: "jw = (j, w)" by fastforce
  from Cons.prems jw have m: "ordered m" "\<forall>i \<in> fst ` set m. text_key j < text_key i" by (auto simp: ordered_def)
  consider "k = j" | "text_key k < text_key j" | "text_key j < text_key k"
    using text_key_inject [of k j] by (metis linorder_neqE)
  then show ?case
  proof cases
    case 1 with Cons.prems jw show ?thesis by (auto simp: ordered_def)
  next
    case 2 with Cons.prems jw m show ?thesis by (auto simp: ordered_def)
  next
    case 3
    then have "put k v (jw # m) = jw # put k v m" using jw by auto
    moreover have "\<forall>i \<in> fst ` set (put k v m). text_key j < text_key i" using m(2) 3 by (simp add: keys_put)
    ultimately show ?thesis using Cons.IH [OF m(1)] jw by (auto simp: ordered_def)
  qed
qed (simp add: ordered_def)

lemma walk_iai_section:
  assumes "iai_section v" and "distinct (map fst (object_entries v))"
  shows "map_of (walk_section (instructions_of fl) v) = count_in fl v"
    "distinct (map fst (walk_section (instructions_of fl) v))"
proof -
  let ?f = "\<lambda>m (k, val).
      foldl (\<lambda>m' (ik, iv). put_measured (instructions_of fl) (k @ ''/'' @ ik) iv m')
        (put_measured (instructions_of fl) k val m) (object_entries val)"
  have step: "?f m (k, x) = put_measured (instructions_of fl) k x m"
    if "x = JObj [(''events'', JObj evs)]" "map_of evs ''events'' = None" for m k x evs
    using that by (simp add: put_measured_def instructions_of_def)
  have d: "ordered (foldl ?f m kvs)" if "ordered m"
    "\<forall>(k, x) \<in> set kvs. \<exists>evs. x = JObj [(''events'', JObj evs)] \<and> map_of evs ''events'' = None" for m kvs
    using that
  proof (induction kvs arbitrary: m)
    case (Cons kx kvs)
    obtain k x where kx: "kx = (k, x)" by fastforce
    with Cons.prems(2) obtain evs where "x = JObj [(''events'', JObj evs)]" "map_of evs ''events'' = None" by auto
    note st = step [OF this]
    have "ordered (put_measured (instructions_of fl) k x m)"
      using Cons.prems(1) by (auto simp: put_measured_def ordered_put split: option.split)
    from Cons.IH [OF this] Cons.prems(2) st kx show ?case by simp
  qed simp
  have m: "map_of (foldl ?f m kvs) j
      = (case Option.bind (map_of kvs j) (instructions_of fl) of None \<Rightarrow> map_of m j | Some c \<Rightarrow> Some c)"
    if "distinct (map fst kvs)"
      "\<forall>(k, x) \<in> set kvs. \<exists>evs. x = JObj [(''events'', JObj evs)] \<and> map_of evs ''events'' = None" for m kvs j
    using that
  proof (induction kvs arbitrary: m)
    case (Cons kx kvs)
    obtain k x where kx: "kx = (k, x)" by fastforce
    with Cons.prems(2) obtain evs where "x = JObj [(''events'', JObj evs)]" "map_of evs ''events'' = None" by auto
    note st = step [OF this]
    from Cons.prems(1) kx have "map_of kvs k = None" by (simp add: map_of_eq_None_iff)
    with Cons.IH [of "put_measured (instructions_of fl) k x m"] Cons.prems kx st show ?case
      by (auto simp: put_measured_def map_of_put split: option.splits)
  qed simp
  from ordered_distinct [OF d [of "[]"]] assms show "distinct (map fst (walk_section (instructions_of fl) v))"
    by (simp add: walk_section_def iai_section_def ordered_def)
  show "map_of (walk_section (instructions_of fl) v) = count_in fl v"
  proof
    fix j
    show "map_of (walk_section (instructions_of fl) v) j = count_in fl v j"
      using m [of "object_entries v" "[]" j] assms
      by (auto simp: walk_section_def iai_section_def count_in_def split: option.splits)
  qed
qed

lemma in_concat_pairs: "r \<in> set (concat (map f xs)) \<longleftrightarrow> (\<exists>k c. (k, c) \<in> set xs \<and> r \<in> set (f (k, c)))"
  by auto

theorem iai_rows_exact:
  assumes "iai_section prev" and "distinct (map fst (object_entries prev))"
    and "iai_section cur" and "distinct (map fst (object_entries cur))"
  shows "r \<in> set (diff_section fl label prev cur (instructions_of fl) t) \<longleftrightarrow>
    (\<exists>k c. count_in fl cur k = Some c
      \<and> (case count_in fl prev k of
           None \<Rightarrow> r = NewSignal label k c
         | Some p \<Rightarrow> \<not> fl_eq fl p (fl_of_int fl 0)
             \<and> (let d = fl_mul fl (fl_div fl (fl_sub fl c p) p) (fl_of_int fl 100)
                in r = Delta label k p c d (fl_less fl (fl_of_int fl t) (fl_abs fl d)))))"
proof -
  have cur: "(k, c) \<in> set (walk_section (instructions_of fl) cur) \<longleftrightarrow> count_in fl cur k = Some c" for k c
    using walk_iai_section [OF assms(3,4), of fl] by (metis map_of_eq_Some_iff)
  have row: "r \<in> set (compared_row fl label t (walk_section (instructions_of fl) prev) (k, c)) \<longleftrightarrow>
      (case count_in fl prev k of
         None \<Rightarrow> r = NewSignal label k c
       | Some p \<Rightarrow> \<not> fl_eq fl p (fl_of_int fl 0)
           \<and> (let d = fl_mul fl (fl_div fl (fl_sub fl c p) p) (fl_of_int fl 100)
              in r = Delta label k p c d (fl_less fl (fl_of_int fl t) (fl_abs fl d))))" for r k c
    by (simp add: compared_row_def walk_iai_section(1) [OF assms(1,2)] Let_def split: option.split)
  have "r \<in> set (diff_section fl label prev cur (instructions_of fl) t) \<longleftrightarrow>
      (\<exists>k c. count_in fl cur k = Some c
        \<and> r \<in> set (compared_row fl label t (walk_section (instructions_of fl) prev) (k, c)))" for r
    by (simp only: diff_section_def in_concat_pairs cur)
  then show ?thesis unfolding row .
qed

text \<open>What the iai benchmarks leave is such a section.\<close>

lemma walk_iai_ok:
  shows "walk_iai parse parent x out = Inr out' \<Longrightarrow> iai_section (JObj out) \<and> ordered out
      \<Longrightarrow> iai_section (JObj out') \<and> ordered out'"
    and "walk_iai_dir parse parent xs out = Inr out' \<Longrightarrow> iai_section (JObj out) \<and> ordered out
      \<Longrightarrow> iai_section (JObj out') \<and> ordered out'"
proof (induction parse parent x out and parse parent xs out arbitrary: out' and out' rule: walk_iai_walk_iai_dir.induct)
  case (2 parse parent name raw out)
  have events: "map_of (callgrind_events v) ''events'' = None" for v
  proof -
    have "''events'' \<notin> fst ` set (foldl (\<lambda>m ev. case f ev of None \<Rightarrow> m | Some n \<Rightarrow> put ev (JInt n) m) m evs)"
      if "''events'' \<notin> fst ` set m" "''events'' \<notin> set evs" for f m evs
      using that by (induction evs arbitrary: m) (auto simp: keys_put split: option.split)
    moreover have "''events'' \<notin> set iai_events" by (simp add: iai_events_def)
    ultimately show ?thesis
      unfolding callgrind_events_def map_of_eq_None_iff
      by (cases "pointer v [''profiles'', ''0'', ''summaries'', ''parts'', ''0'', ''metrics_summary'', ''Callgrind'']")
        (simp_all del: pointer.simps)
  qed
  have put: "(j, y) \<in> set (put k v m) \<Longrightarrow> y = v \<or> (j, y) \<in> set m" for j k :: string and y v :: json and m
    by (induction m) (auto split: if_splits)
  from 2 events show ?case
    by (auto simp: iai_section_def ordered_put Let_def split: if_splits option.splits dest!: put)
qed (auto split: sum.splits)

theorem collected_iai_compared:
  assumes "collect_iai_stats parse root = Inr v"
  shows "iai_section v \<and> distinct (map fst (object_entries v))"
proof (cases root)
  case None with assms show ?thesis by (auto simp: collect_iai_stats_def iai_section_def)
next
  case (Some es)
  with assms obtain out where "walk_iai_dir parse ''iai'' es [] = Inr out" "v = JObj out"
    by (cases "walk_iai_dir parse ''iai'' es []") (auto simp: collect_iai_stats_def)
  with walk_iai_ok(2) [of parse "''iai''" es "[]" out] show ?thesis by (simp add: iai_section_def ordered_distinct ordered_def)
qed

end
