(* ===== verification/Repo_Drivers.thy ===== *)
theory Repo_Drivers
  imports Kn_Prelude
begin

section \<open>Generated files and the image\<close>

text \<open>
  \<open>src/xtask/src/openapi.rs\<close>, \<open>ui_client.rs\<close> and \<open>build_image.rs\<close>: the committed API description and
  the typed client are regenerated or compared with a fresh copy, and the image is built from a
  staged directory. A file tree is a map from paths to texts (directories are not represented);
  an external program is a function of the directory it runs in, its arguments and the tree, whose
  first result is whether it could be started and exited with zero.
\<close>

type_synonym file_tree = "string \<rightharpoonup> string"

record shell =
  sh_run :: "string \<Rightarrow> string list \<Rightarrow> file_tree \<Rightarrow> bool \<times> file_tree"
  sh_writable :: "string \<Rightarrow> bool"
  sh_cwd :: string
  sh_cwd_utf8 :: bool

datatype driver_error =
    MissingFile string
  | FileError string
  | StepFailed "string list"
  | BadPath string
  | Drift string

type_synonym driver = "file_tree \<Rightarrow> driver_error option \<times> file_tree"

definition and_then :: "driver \<Rightarrow> driver \<Rightarrow> driver" where
  "and_then f g fs = (case f fs of (Some er, fs') \<Rightarrow> (Some er, fs') | (None, fs') \<Rightarrow> g fs')"

definition write_to :: "shell \<Rightarrow> string \<Rightarrow> string \<Rightarrow> driver" where
  "write_to sh path text fs = (if sh_writable sh path then (None, fs(path \<mapsto> text)) else (Some (FileError path), fs))"

definition run_in :: "shell \<Rightarrow> string \<Rightarrow> string list \<Rightarrow> driver" where
  "run_in sh cwd cmd fs = (case sh_run sh cwd cmd fs of (ok, fs') \<Rightarrow> (if ok then None else Some (StepFailed cmd), fs'))"

subsection \<open>The API description\<close>

definition SPEC_PATH :: string where "SPEC_PATH = ''openapi.yaml''"

definition run_openapi :: "shell \<Rightarrow> string \<Rightarrow> bool \<Rightarrow> driver" where
  "run_openapi sh spec check fs =
     (if check then
        (case fs SPEC_PATH of
           None \<Rightarrow> (Some (MissingFile SPEC_PATH), fs)
         | Some on_disk \<Rightarrow> (if on_disk = spec then None else Some (Drift SPEC_PATH), fs))
      else write_to sh SPEC_PATH spec fs)"

subsection \<open>The typed client\<close>

definition CLIENT_PATH :: string where "CLIENT_PATH = ''web/admin/src/api/generated.ts''"

definition CHECK_OUT :: string where "CHECK_OUT = ''target/xtask-ui-client-check.ts''"

definition WORKDIR :: string where "WORKDIR = ''web/admin''"

text \<open>The generator is given an absolute path, which has to be UTF-8.\<close>

definition codegen_cmd :: "shell \<Rightarrow> string \<Rightarrow> string list" where
  "codegen_cmd sh out_path =
     [''pnpm'', ''exec'', ''openapi-typescript'', ''../../openapi.yaml'', ''-o'', sh_cwd sh @ ''/'' @ out_path]"

definition regenerate :: "shell \<Rightarrow> string \<Rightarrow> driver" where
  "regenerate sh out_path fs =
     (if \<not> sh_cwd_utf8 sh then (Some (BadPath out_path), fs)
      else run_in sh WORKDIR (codegen_cmd sh out_path) fs)"

definition check_drift :: "shell \<Rightarrow> driver" where
  "check_drift sh fs =
     (case fs CLIENT_PATH of
        None \<Rightarrow> (Some (MissingFile CLIENT_PATH), fs)
      | Some on_disk \<Rightarrow>
     (if \<not> sh_writable sh ''target'' then (Some (FileError ''target''), fs)
      else case regenerate sh CHECK_OUT fs of
        (Some er, fs') \<Rightarrow> (Some er, fs')
      | (None, fs') \<Rightarrow>
          (case fs' CHECK_OUT of
             None \<Rightarrow> (Some (FileError CHECK_OUT), fs')
           | Some fresh \<Rightarrow> (if on_disk = fresh then None else Some (Drift CLIENT_PATH), fs'))))"

definition run_ui_client :: "shell \<Rightarrow> bool \<Rightarrow> driver" where
  "run_ui_client sh check fs =
     (if fs SPEC_PATH = None then (Some (MissingFile SPEC_PATH), fs)
      else if check then check_drift sh fs
      else (case regenerate sh CLIENT_PATH fs of
              (Some er, fs') \<Rightarrow> (Some er, fs')
            | (None, fs') \<Rightarrow> (if fs' CLIENT_PATH = None then Some (FileError CLIENT_PATH) else None, fs')))"

subsection \<open>The image\<close>

definition UI_DIR :: string where "UI_DIR = ''web/admin''"

definition DIST_DIR :: string where "DIST_DIR = ''web/admin/dist''"

definition STAGE_DIR :: string where "STAGE_DIR = ''docker-ctxt''"

record image_args =
  ia_skip_ui :: bool
  ia_tag :: string

definition GITKEEP :: string where
  "GITKEEP = ''# Empty placeholder for headless API builds (cargo xtask build-image --skip-ui).'' @ [CHR 0x0A]"

text \<open>\<open>remove_dir_all\<close> on the staging directory, when it exists.\<close>

definition clear_stage :: "shell \<Rightarrow> driver" where
  "clear_stage sh fs =
     (if sh_writable sh STAGE_DIR then (None, \<lambda>p. if starts_with (STAGE_DIR @ ''/'') p then None else fs p)
      else (Some (FileError STAGE_DIR), fs))"

definition copy_file :: "shell \<Rightarrow> string \<Rightarrow> string \<Rightarrow> driver" where
  "copy_file sh src dst fs =
     (case fs src of None \<Rightarrow> (Some (FileError src), fs) | Some text \<Rightarrow> write_to sh dst text fs)"

definition staged :: "string \<Rightarrow> string" where
  "staged name = STAGE_DIR @ ''/'' @ name"

definition stage_context :: "shell \<Rightarrow> driver" where
  "stage_context sh =
     and_then (clear_stage sh)
    (and_then (copy_file sh ''target/release/knievel'' (staged ''knievel''))
    (and_then (copy_file sh ''target/release/knievel-cli'' (staged ''knievel-cli''))
    (and_then (copy_file sh ''Dockerfile'' (staged ''Dockerfile''))
      (run_in sh ''.'' [''cp'', ''-r'', DIST_DIR, staged ''web/admin'']))))"

definition cargo_release :: "string list" where
  "cargo_release = [''cargo'', ''build'', ''--release'', ''--locked'', ''--bin'', ''knievel'', ''--bin'', ''knievel-cli'']"

definition build_ui :: "shell \<Rightarrow> bool \<Rightarrow> driver" where
  "build_ui sh skip_ui =
     (if skip_ui then write_to sh (DIST_DIR @ ''/.gitkeep'') GITKEEP
      else and_then (run_in sh UI_DIR [''pnpm'', ''install'', ''--frozen-lockfile''])
             (run_in sh UI_DIR [''pnpm'', ''build'']))"

text \<open>Whether \<open>strip\<close> succeeds does not matter.\<close>

definition strip_binaries :: "shell \<Rightarrow> driver" where
  "strip_binaries sh fs =
     (None, snd (sh_run sh ''.'' [''strip'', ''target/release/knievel'', ''target/release/knievel-cli''] fs))"

definition docker_build :: "string \<Rightarrow> string list" where
  "docker_build tag = [''docker'', ''build'', ''-t'', tag, STAGE_DIR]"

definition build_image :: "shell \<Rightarrow> image_args \<Rightarrow> driver" where
  "build_image sh args =
     and_then (build_ui sh (ia_skip_ui args))
    (and_then (run_in sh ''.'' cargo_release)
    (and_then (strip_binaries sh)
    (and_then (stage_context sh)
      (run_in sh ''.'' (docker_build (ia_tag args))))))"

subsection \<open>Properties\<close>

lemma and_then_None:
  "and_then f g fs = (None, fs') \<longleftrightarrow> (\<exists>fs1. f fs = (None, fs1) \<and> g fs1 = (None, fs'))"
  by (auto simp: and_then_def split: prod.splits option.splits)

lemma run_in_None: "run_in sh cwd cmd fs = (None, fs') \<longleftrightarrow> sh_run sh cwd cmd fs = (True, fs')"
  by (auto simp: run_in_def split: prod.splits if_splits)

lemma copy_file_None:
  "copy_file sh src dst fs = (None, fs') \<longleftrightarrow>
     (\<exists>text. fs src = Some text \<and> sh_writable sh dst \<and> fs' = fs(dst \<mapsto> text))"
  by (auto simp: copy_file_def write_to_def split: option.splits if_splits)

text \<open>The gate on the description passes exactly on the description of the binary, and writes nothing.\<close>

theorem openapi_gate_exact:
  "run_openapi sh spec True fs = (None, fs') \<longleftrightarrow> fs' = fs \<and> fs SPEC_PATH = Some spec"
  "snd (run_openapi sh spec True fs) = fs"
  by (auto simp: run_openapi_def split: option.splits)

theorem openapi_write_then_check:
  assumes "run_openapi sh spec False fs = (None, fs')"
  shows "run_openapi sh spec True fs' = (None, fs')"
  using assms by (auto simp: run_openapi_def write_to_def split: if_splits)

text \<open>The generator: it writes its output, a function of the description, and nothing else.\<close>

definition codegen_ok :: "shell \<Rightarrow> (string \<Rightarrow> string) \<Rightarrow> bool" where
  "codegen_ok sh gen \<longleftrightarrow>
     (\<forall>out fs spec. fs SPEC_PATH = Some spec \<longrightarrow>
        sh_run sh WORKDIR (codegen_cmd sh out) fs = (True, fs(out \<mapsto> gen spec)))"

lemma client_paths [simp]: "CLIENT_PATH \<noteq> CHECK_OUT" "CHECK_OUT \<noteq> CLIENT_PATH" "SPEC_PATH \<noteq> CLIENT_PATH" "SPEC_PATH \<noteq> CHECK_OUT"
  by (simp_all add: CLIENT_PATH_def CHECK_OUT_def SPEC_PATH_def)

text \<open>
  With such a generator, \<open>ui-client --check\<close> passes exactly when the committed client is the one generated
  from the description, it leaves the client alone, and it passes after \<open>ui-client\<close>.
\<close>

theorem ui_client_gate_exact:
  assumes "codegen_ok sh gen" and "sh_cwd_utf8 sh" and "sh_writable sh ''target''" and "fs SPEC_PATH = Some spec"
  shows "fst (run_ui_client sh True fs) = None \<longleftrightarrow> fs CLIENT_PATH = Some (gen spec)"
    "snd (run_ui_client sh True fs) CLIENT_PATH = fs CLIENT_PATH"
    "fst (run_ui_client sh True (snd (run_ui_client sh False fs))) = None"
proof -
  have gen: "regenerate sh out fs' = (None, fs'(out \<mapsto> gen spec))" if "fs' SPEC_PATH = Some spec" for out fs'
    using assms(1,2) that by (simp add: regenerate_def run_in_def codegen_ok_def)
  have check: "run_ui_client sh True fs' =
      (case fs' CLIENT_PATH of
         None \<Rightarrow> (Some (MissingFile CLIENT_PATH), fs')
       | Some on_disk \<Rightarrow>
           (if on_disk = gen spec then None else Some (Drift CLIENT_PATH), fs'(CHECK_OUT \<mapsto> gen spec)))"
    if "fs' SPEC_PATH = Some spec" for fs'
    using that assms(3) by (simp add: run_ui_client_def check_drift_def gen split: option.split)
  show "fst (run_ui_client sh True fs) = None \<longleftrightarrow> fs CLIENT_PATH = Some (gen spec)"
    "snd (run_ui_client sh True fs) CLIENT_PATH = fs CLIENT_PATH"
    by (simp_all add: check assms(4) split: option.split)
  have "snd (run_ui_client sh False fs) = fs(CLIENT_PATH \<mapsto> gen spec)"
    using assms(4) by (simp add: run_ui_client_def gen)
  then show "fst (run_ui_client sh True (snd (run_ui_client sh False fs))) = None"
    using assms(4) by (simp add: check)
qed

text \<open>
  What docker is given. When \<open>build-image\<close> succeeds, docker ran last, on the tree \<open>cp\<close> left of a staging
  directory that holds the three files of the fresh build and nothing of an earlier one.
\<close>

definition staged_tree :: "file_tree \<Rightarrow> file_tree" where
  "staged_tree built =
     (\<lambda>p. if p = staged ''knievel'' then built ''target/release/knievel''
          else if p = staged ''knievel-cli'' then built ''target/release/knievel-cli''
          else if p = staged ''Dockerfile'' then built ''Dockerfile''
          else if starts_with (STAGE_DIR @ ''/'') p then None else built p)"

theorem image_is_built_from_fresh_stage:
  assumes "build_image sh args fs = (None, fs')"
  shows "\<exists>ui compiled built ctxt.
      build_ui sh (ia_skip_ui args) fs = (None, ui)
    \<and> sh_run sh ''.'' cargo_release ui = (True, compiled)
    \<and> strip_binaries sh compiled = (None, built)
    \<and> built ''target/release/knievel'' \<noteq> None \<and> built ''target/release/knievel-cli'' \<noteq> None \<and> built ''Dockerfile'' \<noteq> None
    \<and> sh_run sh ''.'' [''cp'', ''-r'', DIST_DIR, staged ''web/admin''] (staged_tree built) = (True, ctxt)
    \<and> sh_run sh ''.'' (docker_build (ia_tag args)) ctxt = (True, fs')"
proof -
  from assms obtain ui compiled built ctxt where steps:
    "build_ui sh (ia_skip_ui args) fs = (None, ui)" "sh_run sh ''.'' cargo_release ui = (True, compiled)"
    "strip_binaries sh compiled = (None, built)" "stage_context sh built = (None, ctxt)"
    "sh_run sh ''.'' (docker_build (ia_tag args)) ctxt = (True, fs')"
    by (auto simp: build_image_def and_then_None run_in_None)
  have outside: "\<not> starts_with (STAGE_DIR @ ''/'') p" if "p \<in> {''target/release/knievel'', ''target/release/knievel-cli'', ''Dockerfile''}" for p
    using that by (auto simp: STAGE_DIR_def starts_with_def)
  from steps(4) obtain a b c where copied: "built ''target/release/knievel'' = Some a"
    "built ''target/release/knievel-cli'' = Some b" "built ''Dockerfile'' = Some c"
    "sh_run sh ''.'' [''cp'', ''-r'', DIST_DIR, staged ''web/admin'']
       ((\<lambda>p. if starts_with (STAGE_DIR @ ''/'') p then None else built p)
          (staged ''knievel'' \<mapsto> a, staged ''knievel-cli'' \<mapsto> b, staged ''Dockerfile'' \<mapsto> c)) = (True, ctxt)"
    using outside
    by (auto simp: stage_context_def and_then_None run_in_None copy_file_None clear_stage_def staged_def STAGE_DIR_def
        split: if_splits)
  have "(\<lambda>p. if starts_with (STAGE_DIR @ ''/'') p then None else built p)
          (staged ''knievel'' \<mapsto> a, staged ''knievel-cli'' \<mapsto> b, staged ''Dockerfile'' \<mapsto> c) = staged_tree built"
    by (rule ext) (simp add: staged_tree_def copied(1-3) staged_def)
  with steps copied show ?thesis by auto
qed

text \<open>\<open>--skip-ui\<close> adds a placeholder and takes nothing away: a bundle built earlier is staged with the rest.\<close>

theorem skip_ui_keeps_old_bundle:
  assumes "build_ui sh True fs = (None, fs')" and "fs (DIST_DIR @ ''/index.html'') = Some page"
  shows "fs' (DIST_DIR @ ''/index.html'') = Some page"
  using assms by (auto simp: build_ui_def write_to_def DIST_DIR_def split: if_splits)

end
