(* ===== verification/Spec2Isabelle.thy ===== *)
theory Spec2Isabelle
  imports Creative_Api Ad_Library Api_Tokens Leader_Election Decision_Explain Event_Pings If_Match Server_Boot Migration_Runner Request_Log Seed_Cli Migration_Lint Release_Tag Api_Gates Bench_Report Repo_Drivers
begin

section \<open>knievel: an ad server\<close>

text \<open>
  \<^bold>\<open>The program.\<close> knievel (\<open>src/src/*.rs\<close>, Rust) answers ad decisions for the projects of
  many organisations out of an in-memory snapshot of a Postgres database, signs the URLs it
  hands out, turns the hits on them into events, and offers CRUD endpoints for everything the
  decisions are made from. A request is authenticated by an opaque bearer or a JWT and passes
  through the tenant prologue, which binds the transaction to the principal's org and project;
  Postgres's row-level security then limits what its statements see. The snapshot loader and the
  event flusher run beside the requests; one elected process rolls the events up and keeps their
  partitions. \<open>src/src/bin/knievel_cli.rs\<close> seeds an installation, \<open>src/xtask\<close> holds the gates the
  repository is checked with.

  \<^bold>\<open>The model.\<close> Every handler is a function from the request, the principal and the state
  (the tables, the snapshot, the channel) to the response and the new state. Errors are values
  (\<open>db_error + 'a\<close>, the response datatype \<open>api_resp\<close>); a panic is \<open>None\<close> or an error of its own. The
  tables are lists of records (\<open>Database\<close>); a transaction is a copy of them with the two settings the
  policies read. The record \<open>env\<close> holds what a request takes from outside, among it the set of
  statements the connection loses: the theorems hold whatever it is. Tasks that run side by side
  (the flusher, leader election) are step relations over all interleavings with invariants by rule
  induction. A Rust \<open>i64\<close> is an integer with its wrap-around written out where the code can reach it, a
  \<open>String\<close> the list of its bytes.

  \<^bold>\<open>The theories\<close>, by the part of the program:

  \<^item> \<open>Kn_Prelude\<close>, \<open>Rust_Text\<close>, \<open>Wire_Codec\<close>, \<open>Json_Values\<close>, \<open>Text_Lines\<close>: bytes, integers at their width,
    Rust's string functions and number parsing, text codecs as a locale, JSON values, texts as lines.
  \<^item> \<open>Roles\<close> (\<open>auth/role.rs\<close>, \<open>auth/principal.rs\<close>): the role order and the principal. \<open>Api_Tokens\<close>
    (\<open>auth/opaque.rs\<close>, \<open>auth/security.rs\<close>, \<open>tokens.rs\<close>, \<open>whoami.rs\<close>): mint, verify and revoke opaque
    bearers. \<open>Jwt_Auth\<close> (\<open>auth/jwt.rs\<close>): the reference \<open>validate\<close>, the runtime path with its cache of key
    sets, claim mapping.
  \<^item> \<open>Url_Signing\<close> (\<open>hmac.rs\<close>): the signed record, signing, verification, dedup keys.
  \<^item> \<open>Ad_Selection\<close> (\<open>selection.rs\<close>): filter, priority, the weighted draw.
  \<^item> \<open>Database\<close>, \<open>Tenancy\<close> (\<open>migrations/*.sql\<close>, \<open>db.rs\<close>, \<open>handlers.rs\<close>): the schema, the tenant
    prologue and what an open transaction guarantees.
  \<^item> \<open>Snapshot_Store\<close> (\<open>snapshot.rs\<close>): the load of the tables into the snapshot, the poll loop.
  \<^item> \<open>Event_Channel\<close> (\<open>events.rs\<close>): the bounded channel and the flusher as a step relation with an
    invariant over all interleavings, the insert with its dedup key.
  \<^item> \<open>Decision_Api\<close>, \<open>Decision_Explain\<close> (\<open>decisions.rs\<close>, \<open>rendering.rs\<close>): the decision, its handler
    with force gate and audit row, the explainer. \<open>Event_Pings\<close> (\<open>event_endpoints.rs\<close>): impressions and
    clicks.
  \<^item> \<open>Pagination\<close>, \<open>If_Match\<close>, \<open>Pg_Errors\<close> (\<open>pagination.rs\<close>, \<open>etag.rs\<close>, \<open>sql.rs\<close>, \<open>batch.rs\<close>).
  \<^item> \<open>Resource_Tables\<close>: the statements and handlers the project resources share, used by \<open>Demand_Api\<close>
    (\<open>advertisers.rs\<close>, \<open>campaigns.rs\<close>, \<open>flights.rs\<close>, \<open>ads.rs\<close>), \<open>Inventory_Api\<close> (\<open>sites.rs\<close>,
    \<open>zones.rs\<close>) and \<open>Creative_Api\<close> (\<open>creatives.rs\<close>, \<open>creative_templates.rs\<close>). \<open>Image_Upload\<close>
    (\<open>image_upload.rs\<close>): MIME sniffing, storage keys, the in-memory store. \<open>Ad_Library\<close>
    (\<open>ad_library.rs\<close>): the catalog of an organisation.
  \<^item> \<open>Idempotency\<close>, \<open>Taxonomy\<close>, \<open>Org_Projects\<close> (\<open>idempotency.rs\<close>, \<open>audit.rs\<close>, \<open>taxonomy.rs\<close>,
    \<open>orgs.rs\<close>): replay keys, the audit log, the taxonomy, projects and orgs.
  \<^item> \<open>Leader_Election\<close> (\<open>leader.rs\<close>), \<open>Rollup\<close> (\<open>rollup.rs\<close>), \<open>Civil_Calendar\<close> and \<open>Partition_Manager\<close>
    (\<open>partitions.rs\<close>): the elected process, the hourly counts with their watermark, the daily leaves.
  \<^item> \<open>Config_Interpolation\<close>, \<open>Server_Config\<close> (\<open>config.rs\<close>), \<open>Server_Boot\<close> (\<open>server.rs\<close>, \<open>state.rs\<close>,
    \<open>main.rs\<close>, \<open>system.rs\<close>, \<open>observability.rs\<close>, \<open>admin_ui.rs\<close>), \<open>Migration_Runner\<close> (\<open>migrate.rs\<close>): from the
    configuration text to the running server. \<open>Request_Log\<close> (\<open>request_log.rs\<close>): request ids and the log
    line.
  \<^item> \<open>Seed_Cli\<close> (\<open>cli/seed_demo.rs\<close>, \<open>cli/admin.rs\<close>, \<open>bin/knievel_cli.rs\<close>): \<open>seed-demo\<close> and \<open>admin create-org\<close>.
  \<^item> \<open>Migration_Lint\<close>, \<open>Release_Tag\<close>, \<open>Api_Gates\<close>, \<open>Doc_Fences\<close>, \<open>Bench_Host\<close>, \<open>Bench_Collect\<close>,
    \<open>Bench_Report\<close>, \<open>Repo_Drivers\<close> (\<open>src/xtask/src\<close>): the migration linter with its regular expressions,
    the release command, the gates over the API description and the Markdown files, the benchmark
    record, the generated files and the image.
\<close>

text \<open>
  \<^bold>\<open>The interfaces.\<close> \<open>wire_codec\<close> and its extension \<open>tagged_codec\<close> (a decoder that undoes an encoder) are
  interpreted on the roles, the decimal text of an \<open>i64\<close>, the signed record and its envelope;
  \<open>tenant_table\<close> (the statements of a table keep its keys and write within one project) on
  advertisers, campaigns, flights, ads, sites, zones, templates and creatives, and its extension
  \<open>keyed_table\<close> (an invariant of the rows) on sites; \<open>bounded_fifo\<close> on the event channel, \<open>replay_store\<close> on
  the idempotency table, \<open>image_store\<close> on the in-memory store, \<open>versioned_cell\<close> on the snapshot store.

  \<^bold>\<open>What the lemmas show.\<close> For the decision path: what is served is eligible and in the best tier, the
  URLs verify to what was signed and nothing else does, a click redirects to the configured target
  only, and the two ends fit together (the theorem below). For the tenants: the prologue is exact, no
  request and no loader crosses a project, bearers and JWTs are accepted exactly as their row or
  issuer allows. For the data: events are in exactly one place and the table is what was committed, the
  rollup has the exact counts below its watermark and reaches every settled hour, pages list every
  row once, creates are atomic and replays are exact while a key lives. For the process: there is one
  live leader, boot waits no longer than configured, a configuration that loads is well typed, seeding
  is resumable. For the repository: the linter, the gates and the release command pass exactly what
  they are described to, and where they do not, a theorem names the input.

  \<^bold>\<open>Parameters.\<close> Code outside \<open>src\<close> is an argument of the definitions that use it, with the documented
  laws the code relies on as named hypotheses: base64, HMAC-SHA256 and SHA-256 (\<open>b64_ok\<close>, \<open>hmac_ok\<close>),
  the random generator (\<open>rng_ok\<close>), serde (\<open>cursor_json_ok\<close>), argon2, jsonwebtoken and the HTTP fetch of
  key sets, Liquid, figment, the parsers of YAML, TOML, JSON and Rust, the operations on \<open>f64\<close> of the
  benchmark record, and the programs \<open>src/xtask\<close> starts (git, cargo, pnpm, docker, date). Each law has a
  sample instance in the witnesses.

  \<^bold>\<open>Bounds and termination.\<close> Loops over text recurse on its length (\<open>strip_sql_comments\<close>, \<open>find_iter\<close>, \<open>lines\<close>,
  the interpolation), walks over values on their size, the rollup's catch-up on the hours left. \<open>walk_pages\<close>
  takes fuel; one more than the number of rows left is enough, which \<open>pages_list_everything_once\<close> shows.
  The connect loop of boot is bounded by its configured attempts; the closed form of its pauses holds
  while they stay below \<open>2 ^ 63\<close>. Leaf names sort like their days for years up to 9999, and dates are
  exact while the day number is within \<open>7 * 10 ^ 11\<close> of the epoch.

  \<^bold>\<open>Not modelled.\<close> Poem's routing, accept loop and OpenAPI derivation, and the response types it is given
  (\<open>api_resp\<close> has the statuses the handlers return); Postgres beyond the statements, policies and errors
  the code meets; tracing, Sentry and OTel export; image stores other than the in-memory one
  (the source has no adapter); clap; the test fixtures of
  \<open>src/testlib\<close> and \<open>src/benches\<close> and the tests; the admin UI (\<open>src/web\<close>, TypeScript) and the charts.
  None of it decides anything the theorems speak of beyond what the parameters leave open.
\<close>

section \<open>From a decision to its click\<close>

text \<open>
  C4: A served URL comes back: the click URL of an ad a decision served, followed within the
  lifetime by a server whose snapshot holds the project and still accepts the secret it was signed
  with, redirects to the target that snapshot holds for the ad, and queues one click event that
  names the ad and the creative, the nonce of the decision and the dedup key it gives. The
  impression URL carries the same record.
\<close>

theorem served_click_comes_back:
  assumes "decide_pure x project sv p pid req now fa = Some (Inr oc)"
    and "rs_decisions (oc_response oc) k = Some served" and "a \<in> set served"
    and "b64_ok (xt_crypto x)" and "hmac_ok (xt_crypto x)" and "signable pid a now"
    and "sn_projects (inner store) pid = Some project'"
    and "ps_hmac_secret project \<in> accepted_secrets (ps_hmac_secret project') (ps_hmac_secret_previous project')"
    and "secs \<le> nat (now div 1000) + DEFAULT_TTL_SECS"
    and "q_receiver_alive c" and "length (q_items c) < q_capacity c"
  shows "\<exists>s e. da_click_url a = ''/e/c/'' @ s \<and> da_impression_url a = ''/e/i/'' @ s
    \<and> click (xt_crypto x) store (Some c) secs now' s u =
        (Found302 (case ps_click_through_urls project' (da_ad_id a) of Some t \<Rightarrow> t | None \<Rightarrow> ''/''),
         Some (c\<lparr>q_items := q_items c @ [e]\<rparr>))
    \<and> ev_kind e = Click \<and> ev_project_id e = pid \<and> ev_ad_id e = Some (da_ad_id a)
    \<and> ev_creative_id e = (if da_creative_id a = 0 then None else Some (da_creative_id a))
    \<and> ev_signature_nonce e = Some (mint_nonce now (da_ad_id a))
    \<and> ev_dedup_key e = Some (dedup_key (xt_crypto x) pid UrlClick (mint_nonce now (da_ad_id a)))"
proof -
  let ?cr = "xt_crypto x"
  let ?sp = "served_payload ?cr pid k a now"
  from assms(6) have now: "0 \<le> now" "in_i64 now" by (simp_all add: signable_def)
  obtain s where s: "sign ?cr ?sp (ps_hmac_secret project) = Some s"
    "da_click_url a = ''/e/c/'' @ s" "da_impression_url a = ''/e/i/'' @ s"
    using decide_signs_served [OF assms(1-3) now] by blast
  have "verify ?cr s (ps_hmac_secret project') (ps_hmac_secret_previous project') secs DEFAULT_TTL_SECS = Inr ?sp"
    using assms(9)
    by (intro verify_sign [OF assms(4) wf_served_payload [OF assms(6,5)] s(1) assms(8)])
      (simp add: served_payload_def)
  with assms(7) have "verify_against_snapshot ?cr (inner store) s secs
      = Inr (?sp, pid, ps_org_id_for_event project')"
    using verify_against_snapshot_eq [where payload = ?sp] by (simp add: served_payload_def)
  with assms(7,10,11) s show ?thesis
    by (intro exI [of _ s]
        exI [of _ "ping_event ?cr Click UrlClick (ps_org_id_for_event project') pid ?sp (sn_config_version (inner store)) now'"])
      (auto simp: click_def store_read_def Let_def resolve_redirect_def emit_event_def try_send_def ping_event_def
        served_payload_def split: option.split)
qed

theorem served_click_comes_back_witness:
  "\<exists>oc (a :: decision_ad) s. sample_decide_result None False = Some (Inr oc) \<and> da_ad_id a = 8 \<and> da_click_url a = ''/e/c/'' @ s
     \<and> fst (click sample_crypto sample_store (Some \<lparr>q_items = [], q_capacity = 1, q_receiver_alive = True\<rparr>)
           1700000005 1700000005000 s None) = Found302 ''https://t''"
proof -
  obtain oc a where oc: "sample_decide_result None False = Some (Inr oc)"
    "rs_decisions (oc_response oc) ''top'' = Some [a]" "da_ad_id a = 8"
    using sample_unforced by blast
  have cr: "xt_crypto sample_world = sample_crypto" by (simp add: sample_world_def)
  have store: "sn_projects (inner sample_store) ''pj'' = Some sample_project"
    by (simp add: sample_store_def)
  have "in_i64 (da_creative_id a)"
    using oc(1,2) by (auto simp: sample_decide_result_def sample_eval in_i64_def)
  moreover have "is_rust_string ''pj''" by code_simp
  ultimately have "signable ''pj'' a sample_now"
    using oc(3) by (simp add: signable_def sample_now_def in_i64_def)
  from served_click_comes_back [OF oc(1) [unfolded sample_decide_result_def] oc(2), of a sample_store sample_project
      1700000005 "\<lparr>q_items = [], q_capacity = 1, q_receiver_alive = True\<rparr>" 1700000005000 None,
      unfolded cr, OF _ sample_crypto_ok(1,2) this store]
  obtain s where url: "da_click_url a = ''/e/c/'' @ s"
    and clicked: "fst (click sample_crypto sample_store (Some \<lparr>q_items = [], q_capacity = 1, q_receiver_alive = True\<rparr>)
           1700000005 1700000005000 s None)
      = Found302 (case ps_click_through_urls sample_project (da_ad_id a) of Some t \<Rightarrow> t | None \<Rightarrow> ''/'')"
    by (auto simp: accepted_secrets_def sample_now_def DEFAULT_TTL_SECS_def)
  have target: "(case ps_click_through_urls sample_project (da_ad_id a) of Some t \<Rightarrow> t | None \<Rightarrow> ''/'') = ''https://t''"
    using oc(3) by (simp add: sample_project_def default_project_snapshot_def)
  show ?thesis using oc(1,3) url clicked [unfolded target] by blast
qed

end
